(* ===== verification/Prelude.thy ===== *)
theory Prelude
  imports Complex_Main "HOL-Library.Word"
begin

text \<open>
  Shared vocabulary of the development: Rust's machine integers with their checked and
  saturating operations, \<open>Result\<close> values as sums, Rust strings as lists of Unicode scalar
  values, decimal and lower-hexadecimal text, and the generic list lemmas the components use.
  Unsigned integers are words of their width; \<open>i64\<close> is \<open>int\<close> with the bounds of the width
  written out in every checked or saturating operation.
\<close>

named_theorems checked_simps \<open>checked word arithmetic as arithmetic on naturals\<close>
named_theorems result_simps \<open>sequencing of fallible computations\<close>

section \<open>Machine integers\<close>

type_synonym u8 = "8 word"
type_synonym u64 = "64 word"
type_synonym u128 = "128 word"
type_synonym i64 = int

definition checked_add :: "'a::len word \<Rightarrow> 'a word \<Rightarrow> 'a word option" where
  "checked_add a b = (if unat a + unat b < 2 ^ LENGTH('a) then Some (a + b) else None)"

definition checked_sub :: "'a::len word \<Rightarrow> 'a word \<Rightarrow> 'a word option" where
  "checked_sub a b = (if b \<le> a then Some (a - b) else None)"

definition saturating_add :: "'a::len word \<Rightarrow> 'a word \<Rightarrow> 'a word" where
  "saturating_add a b = (if unat a + unat b < 2 ^ LENGTH('a) then a + b else - 1)"

definition i64_min :: i64 where "i64_min = - (2 ^ 63)"
definition i64_max :: i64 where "i64_max = 2 ^ 63 - 1"

definition is_i64 :: "int \<Rightarrow> bool" where
  "is_i64 x \<longleftrightarrow> i64_min \<le> x \<and> x \<le> i64_max"

definition i64_checked_sub :: "i64 \<Rightarrow> i64 \<Rightarrow> i64 option" where
  "i64_checked_sub a b = (if is_i64 (a - b) then Some (a - b) else None)"

definition i64_saturating_sub :: "i64 \<Rightarrow> i64 \<Rightarrow> i64" where
  "i64_saturating_sub a b = max i64_min (min i64_max (a - b))"

definition i64_saturating_add :: "i64 \<Rightarrow> i64 \<Rightarrow> i64" where
  "i64_saturating_add a b = max i64_min (min i64_max (a + b))"

definition word_of_nat_checked :: "nat \<Rightarrow> 'a::len word option" where
  "word_of_nat_checked n = (if n < 2 ^ LENGTH('a) then Some (word_of_nat n) else None)"

lemma unat_lt_width: "unat (a :: 'a::len word) < 2 ^ LENGTH('a)"
  by (rule unsigned_less)

lemma word_eq_iff_unat: "a = b \<longleftrightarrow> unat a = unat b"
  by (auto simp: unsigned_word_eqI)

lemma checked_add_eq_Some [checked_simps]:
  "checked_add a b = Some c \<longleftrightarrow> unat c = unat a + unat b"
proof (cases "unat a + unat b < 2 ^ LENGTH('a)")
  case True
  then show ?thesis by (auto simp: checked_add_def word_eq_iff_unat unat_word_ariths)
next
  case False
  then have "unat c \<noteq> unat a + unat b" using unat_lt_width[of c] by linarith
  with False show ?thesis by (simp add: checked_add_def)
qed

lemma checked_add_eq_None [checked_simps]:
  "checked_add (a :: 'a::len word) b = None \<longleftrightarrow> 2 ^ LENGTH('a) \<le> unat a + unat b"
  by (auto simp: checked_add_def)

lemma checked_add_0 [simp]: "checked_add 0 a = Some a"
  by (simp add: checked_add_eq_Some)

lemma checked_sub_eq_Some [checked_simps]:
  "checked_sub a b = Some c \<longleftrightarrow> unat b + unat c = unat a"
proof -
  have "b \<le> a \<Longrightarrow> unat (a - b) = unat a - unat b"
    by (simp add: unat_sub)
  then show ?thesis
    by (auto simp: checked_sub_def word_le_nat_alt word_eq_iff_unat split: if_splits)
qed

lemma checked_sub_eq_None [checked_simps]:
  "checked_sub a b = None \<longleftrightarrow> unat a < unat b"
  by (auto simp: checked_sub_def word_le_nat_alt)

lemma unat_saturating_add:
  "unat (saturating_add (a :: 'a::len word) b) = min (unat a + unat b) (2 ^ LENGTH('a) - 1)"
proof (cases "unat a + unat b < 2 ^ LENGTH('a)")
  case True
  then show ?thesis by (simp add: saturating_add_def unat_word_ariths)
next
  case False
  have "unat (- 1 :: 'a word) = 2 ^ LENGTH('a) - 1"
    by (simp add: unsigned_minus_1_eq_mask mask_eq_exp_minus_1)
  with False show ?thesis by (simp add: saturating_add_def)
qed

lemma word_of_nat_checked_eq_Some [checked_simps]:
  "word_of_nat_checked n = Some (w :: 'a::len word) \<longleftrightarrow> unat w = n"
  using unat_lt_width[of w]
  by (auto simp: word_of_nat_checked_def unsigned_of_nat take_bit_nat_eq_self)

lemma i64_checked_sub_eq_Some [checked_simps]:
  "i64_checked_sub a b = Some c \<longleftrightarrow> c = a - b \<and> is_i64 (a - b)"
  by (auto simp: i64_checked_sub_def)

section \<open>Results\<close>

definition try_res :: "'e + 'a \<Rightarrow> ('a \<Rightarrow> 'e + 'b) \<Rightarrow> 'e + 'b" where
  "try_res r f = (case r of Inl e \<Rightarrow> Inl e | Inr x \<Rightarrow> f x)"

definition ok_or :: "'e \<Rightarrow> 'a option \<Rightarrow> 'e + 'a" where
  "ok_or e v = (case v of None \<Rightarrow> Inl e | Some x \<Rightarrow> Inr x)"

definition map_err :: "'e \<Rightarrow> 'd + 'a \<Rightarrow> 'e + 'a" where
  "map_err e r = (case r of Inl _ \<Rightarrow> Inl e | Inr x \<Rightarrow> Inr x)"

definition is_ok :: "'e + 'a \<Rightarrow> bool" where
  "is_ok r = (case r of Inl _ \<Rightarrow> False | Inr _ \<Rightarrow> True)"

lemma try_res_simps [simp]:
  "try_res (Inl e) f = Inl e"
  "try_res (Inr x) f = f x"
  by (simp_all add: try_res_def)

lemma ok_or_simps [simp]:
  "ok_or e None = Inl e"
  "ok_or e (Some x) = Inr x"
  by (simp_all add: ok_or_def)

lemma map_err_simps [simp]:
  "map_err e (Inl d) = Inl e"
  "map_err e (Inr x) = Inr x"
  by (simp_all add: map_err_def)

lemma is_ok_simps [simp]:
  "\<not> is_ok (Inl e)"
  "is_ok (Inr x)"
  by (simp_all add: is_ok_def)

lemma try_res_eq_Inr [result_simps]:
  "try_res r f = Inr y \<longleftrightarrow> (\<exists>x. r = Inr x \<and> f x = Inr y)"
  by (cases r) auto

lemma ok_or_eq_Inr [result_simps]: "ok_or e v = Inr x \<longleftrightarrow> v = Some x"
  by (cases v) auto

lemma map_err_eq_Inr [result_simps]: "map_err e r = Inr x \<longleftrightarrow> r = Inr x"
  by (cases r) auto

lemma is_ok_iff: "is_ok r \<longleftrightarrow> (\<exists>x. r = Inr x)"
  by (cases r) auto

lemma result_unit_eq: "(r :: 'e + unit) = Inr u \<longleftrightarrow> is_ok r"
  by (cases r) auto

section \<open>Rust strings\<close>

text \<open>
  A \<open>str\<close> is the list of its Unicode scalar values, so \<open>chars()\<close> is the list itself,
  \<open>chars().count()\<close> its length and \<open>len()\<close> the number of UTF-8 bytes. \<open>lit\<close> turns an
  ASCII literal of the source into such a list.
\<close>

type_synonym scalar = nat
type_synonym rstr = "scalar list"

definition lit :: "string \<Rightarrow> rstr" where
  "lit s = map of_char s"

definition utf8_width :: "scalar \<Rightarrow> nat" where
  "utf8_width c = (if c < 0x80 then 1 else if c < 0x800 then 2 else if c < 0x10000 then 3 else 4)"

definition str_len :: "rstr \<Rightarrow> nat" where
  "str_len s = sum_list (map utf8_width s)"

definition is_ascii_digit :: "scalar \<Rightarrow> bool" where
  "is_ascii_digit c \<longleftrightarrow> 48 \<le> c \<and> c \<le> 57"

definition is_lower_hex_digit :: "scalar \<Rightarrow> bool" where
  "is_lower_hex_digit c \<longleftrightarrow> is_ascii_digit c \<or> (97 \<le> c \<and> c \<le> 102)"

text \<open>\<open>char::is_control\<close>: the general category Cc.\<close>

definition is_control :: "scalar \<Rightarrow> bool" where
  "is_control c \<longleftrightarrow> c \<le> 0x1F \<or> (0x7F \<le> c \<and> c \<le> 0x9F)"

text \<open>\<open>char::is_whitespace\<close>: the White_Space property, as \<open>str::trim\<close> uses it.\<close>

definition is_whitespace :: "scalar \<Rightarrow> bool" where
  "is_whitespace c \<longleftrightarrow> (0x09 \<le> c \<and> c \<le> 0x0D) \<or> c = 0x20 \<or> c = 0x85 \<or> c = 0xA0 \<or> c = 0x1680 \<or>
     (0x2000 \<le> c \<and> c \<le> 0x200A) \<or> (0x2028 \<le> c \<and> c \<le> 0x2029) \<or> c = 0x202F \<or> c = 0x205F \<or>
     c = 0x3000"

definition trim_matches :: "(scalar \<Rightarrow> bool) \<Rightarrow> rstr \<Rightarrow> rstr" where
  "trim_matches p s = rev (dropWhile p (rev (dropWhile p s)))"

definition trim :: "rstr \<Rightarrow> rstr" where
  "trim s = trim_matches is_whitespace s"

definition to_ascii_lowercase :: "rstr \<Rightarrow> rstr" where
  "to_ascii_lowercase s = map (\<lambda>c. if 65 \<le> c \<and> c \<le> 90 then c + 32 else c) s"

definition to_ascii_uppercase :: "rstr \<Rightarrow> rstr" where
  "to_ascii_uppercase s = map (\<lambda>c. if 97 \<le> c \<and> c \<le> 122 then c - 32 else c) s"

fun strip_prefix :: "rstr \<Rightarrow> rstr \<Rightarrow> rstr option" where
  "strip_prefix [] s = Some s"
| "strip_prefix (p # ps) [] = None"
| "strip_prefix (p # ps) (c # cs) = (if p = c then strip_prefix ps cs else None)"

text \<open>\<open>str::split\<close> on one character: always at least one piece.\<close>

fun split_on :: "scalar \<Rightarrow> rstr \<Rightarrow> rstr list" where
  "split_on d [] = [[]]"
| "split_on d (c # cs) =
     (if c = d then [] # split_on d cs
      else (case split_on d cs of [] \<Rightarrow> [[c]] | p # ps \<Rightarrow> (c # p) # ps))"

text \<open>\<open>str::split_once\<close>: the first occurrence of the separator.\<close>

fun split_once :: "rstr \<Rightarrow> rstr \<Rightarrow> (rstr \<times> rstr) option" where
  "split_once sep [] = (if sep = [] then Some ([], []) else None)"
| "split_once sep (c # cs) =
     (case strip_prefix sep (c # cs) of
        Some rest \<Rightarrow> Some ([], rest)
      | None \<Rightarrow> (case split_once sep cs of None \<Rightarrow> None | Some (a, b) \<Rightarrow> Some (c # a, b)))"

lemma split_on_nonempty [simp]: "split_on d s \<noteq> []"
  by (induction s) (auto split: list.splits)

subsection \<open>Decimal text\<close>

fun to_string :: "nat \<Rightarrow> rstr" where
  "to_string n = (if n < 10 then [48 + n] else to_string (n div 10) @ [48 + n mod 10])"

declare to_string.simps [simp del]

definition decimal_value :: "rstr \<Rightarrow> nat" where
  "decimal_value s = foldl (\<lambda>acc c. acc * 10 + (c - 48)) 0 s"

text \<open>
  \<open>parse::<uN>\<close> with \<open>bound = 2 ^ N\<close>: one leading plus sign is accepted, then at least one
  digit, and a value that does not fit is an error.
\<close>

definition parse_uint :: "nat \<Rightarrow> rstr \<Rightarrow> nat option" where
  "parse_uint bound s =
     (let ds = (case s of c # cs \<Rightarrow> if c = 43 then cs else s | [] \<Rightarrow> [])
      in if ds = [] \<or> \<not> list_all is_ascii_digit ds then None
         else if decimal_value ds < bound then Some (decimal_value ds) else None)"

text \<open>Parsing followed by the comparison with \<open>to_string\<close>, the source's canonical form test.\<close>

definition parse_canonical :: "nat \<Rightarrow> rstr \<Rightarrow> nat option" where
  "parse_canonical bound s =
     (case parse_uint bound s of
        None \<Rightarrow> None
      | Some n \<Rightarrow> if to_string n = s then Some n else None)"

lemma decimal_value_append: "decimal_value (s @ [c]) = decimal_value s * 10 + (c - 48)"
  by (simp add: decimal_value_def)

lemma decimal_value_to_string [simp]: "decimal_value (to_string n) = n"
proof (induction n rule: to_string.induct)
  case (1 n)
  show ?case
  proof (cases "n < 10")
    case True
    then show ?thesis by (simp add: to_string.simps[of n] decimal_value_def)
  next
    case False
    with 1 have "decimal_value (to_string (n div 10)) = n div 10" by simp
    with False show ?thesis by (simp add: to_string.simps[of n] decimal_value_append)
  qed
qed

lemma to_string_nonempty [simp]: "to_string n \<noteq> []"
  by (subst to_string.simps) simp

lemma to_string_digits: "list_all is_ascii_digit (to_string n)"
proof (induction n rule: to_string.induct)
  case (1 n)
  then show ?case
    by (cases "n < 10") (auto simp: to_string.simps[of n] is_ascii_digit_def)
qed

lemma to_string_inject [simp]: "to_string m = to_string n \<longleftrightarrow> m = n"
  by (metis decimal_value_to_string)

lemma parse_uint_to_string: "parse_uint bound (to_string n) = (if n < bound then Some n else None)"
proof (cases "to_string n")
  case Nil
  then show ?thesis by simp
next
  case (Cons c cs)
  with to_string_digits[of n] have "c \<noteq> 43" by (auto simp: is_ascii_digit_def)
  moreover have "list_all is_ascii_digit (c # cs)" and "decimal_value (c # cs) = n"
    using to_string_digits[of n] decimal_value_to_string[of n] by (simp_all only: Cons)
  ultimately show ?thesis by (simp add: parse_uint_def Cons del: list.pred_inject)
qed

lemma parse_canonical_iff: "parse_canonical bound s = Some n \<longleftrightarrow> s = to_string n \<and> n < bound"
proof
  assume s: "parse_canonical bound s = Some n"
  then have "s = to_string n" by (auto simp: parse_canonical_def split: option.splits if_splits)
  with s show "s = to_string n \<and> n < bound"
    by (auto simp: parse_canonical_def parse_uint_to_string split: if_splits)
qed (simp add: parse_canonical_def parse_uint_to_string)

subsection \<open>Trimming\<close>

text \<open>What \<open>trim_matches\<close> leaves out at the end of a string, after the leading matches.\<close>

definition trailing :: "(scalar \<Rightarrow> bool) \<Rightarrow> rstr \<Rightarrow> rstr" where
  "trailing p s = rev (takeWhile p (rev (dropWhile p s)))"

lemma dropWhile_all: "list_all p s \<Longrightarrow> dropWhile p s = []"
  by (simp add: list_all_iff)

lemma dropWhile_not_all: "\<not> list_all p s \<Longrightarrow> dropWhile p s \<noteq> [] \<and> \<not> list_all p (dropWhile p s)"
  by (induction s) auto

lemma dropWhile_snoc_match:
  "p c \<Longrightarrow> dropWhile p (s @ [c]) = (if list_all p s then [] else dropWhile p s @ [c])"
  by (induction s) auto

lemma dropWhile_snoc_other: "\<not> p c \<Longrightarrow> dropWhile p (s @ [c]) = dropWhile p s @ [c]"
  by (induction s) auto

lemma dropWhile_trim: "dropWhile p s = trim_matches p s @ trailing p s"
  unfolding trim_matches_def trailing_def
  by (metis rev_append rev_rev_ident takeWhile_dropWhile_id)

lemma trim_Nil [simp]: "trim_matches p [] = []" "trailing p [] = []"
  by (simp_all add: trim_matches_def trailing_def)

lemma trim_all: "list_all p s \<Longrightarrow> trim_matches p s = []"
  by (simp only: trim_matches_def dropWhile_all) simp

lemma trailing_all: "list_all p s \<Longrightarrow> trailing p s = []"
  by (simp only: trailing_def dropWhile_all) simp

lemma trim_eq_Nil: "trim_matches p s = [] \<longleftrightarrow> list_all p s"
proof
  assume "trim_matches p s = []"
  then have "list_all p (dropWhile p s)"
    by (simp add: trim_matches_def list_all_iff)
  then show "list_all p s" using dropWhile_not_all by blast
qed (rule trim_all)

lemma trim_snoc_match:
  assumes "p c"
  shows "trim_matches p (s @ [c]) = trim_matches p s"
    and "trailing p (s @ [c]) = (if trim_matches p s = [] then [] else trailing p s @ [c])"
proof -
  show "trim_matches p (s @ [c]) = trim_matches p s"
  proof (cases "list_all p s")
    case True
    with assms show ?thesis by (simp add: trim_all)
  next
    case False
    with assms show ?thesis by (simp add: trim_matches_def dropWhile_snoc_match)
  qed
  show "trailing p (s @ [c]) = (if trim_matches p s = [] then [] else trailing p s @ [c])"
  proof (cases "list_all p s")
    case True
    with assms show ?thesis by (simp add: trim_eq_Nil trailing_all)
  next
    case False
    with assms show ?thesis by (simp add: trim_eq_Nil trailing_def dropWhile_snoc_match)
  qed
qed

lemma trim_snoc_other:
  assumes "\<not> p c"
  shows "trim_matches p (s @ [c]) = trim_matches p s @ trailing p s @ [c]"
    and "trailing p (s @ [c]) = []"
proof -
  have "trim_matches p (s @ [c]) = dropWhile p s @ [c]"
    using assms by (simp add: trim_matches_def dropWhile_snoc_other)
  then show "trim_matches p (s @ [c]) = trim_matches p s @ trailing p s @ [c]"
    by (simp add: dropWhile_trim)
  show "trailing p (s @ [c]) = []"
    using assms by (simp add: trailing_def dropWhile_snoc_other)
qed

lemma set_trim: "set (trim_matches p s) \<subseteq> set s"
  by (auto simp: trim_matches_def dest!: set_dropWhileD)

lemma trim_idem: "trim_matches p (trim_matches p s) = trim_matches p s"
proof (cases "trim_matches p s")
  case (Cons d ds)
  then have "\<not> list_all p s" using trim_all by fastforce
  then have "dropWhile p s \<noteq> []" using dropWhile_not_all by blast
  then have "\<not> p (hd (dropWhile p s))" by (rule hd_dropWhile)
  then have "\<not> p d" by (simp add: dropWhile_trim Cons)
  with Cons have "dropWhile p (trim_matches p s) = trim_matches p s" by simp
  then have "trim_matches p (trim_matches p s) = rev (dropWhile p (rev (trim_matches p s)))"
    by (simp add: trim_matches_def[of p "trim_matches p s"])
  then show ?thesis by (simp add: trim_matches_def)
qed simp

section \<open>Ordered maps\<close>

text \<open>
  A \<open>BTreeMap\<close> as its entries in key order. \<open>insert\<close> replaces the value of a present key;
  the previous value it returns is \<open>map_of m k\<close>, and \<open>values()\<close> is \<open>map snd\<close>.
\<close>

fun btree_insert :: "'k::linorder \<Rightarrow> 'v \<Rightarrow> ('k \<times> 'v) list \<Rightarrow> ('k \<times> 'v) list" where
  "btree_insert k v [] = [(k, v)]"
| "btree_insert k v ((k', v') # m) =
     (if k < k' then (k, v) # (k', v') # m
      else if k = k' then (k, v) # m
      else (k', v') # btree_insert k v m)"

lemma set_btree_insert: "set (btree_insert k v m) \<subseteq> insert (k, v) (set m)"
proof (induction m)
  case (Cons e m)
  then show ?case by (cases e) (auto split: if_splits)
qed simp

lemma map_of_btree_insert:
  "sorted_wrt (<) (map fst m) \<Longrightarrow> map_of (btree_insert k v m) = (map_of m)(k \<mapsto> v)"
proof (induction m)
  case (Cons e m)
  then show ?case by (cases e) (auto simp: fun_eq_iff)
qed simp

lemma sorted_btree_insert:
  "sorted_wrt (<) (map fst m) \<Longrightarrow> sorted_wrt (<) (map fst (btree_insert k v m))"
proof (induction m)
  case (Cons e m)
  moreover have "fst ` set (btree_insert k v m) \<subseteq> insert k (fst ` set m)"
    using set_btree_insert[of k v m] by fastforce
  ultimately show ?case by (cases e) fastforce
qed simp

end
