(* ===== verification/Interfaces.thy ===== *)
theory Interfaces
  imports Prelude "HOL-Library.Multiset"
begin

text \<open>
  The contracts between components as locales: what a provider promises, with the
  consequences its clients use proved once. Every locale is interpreted on the model's own
  definitions in the theory of the component that provides them.
\<close>

section \<open>Streaming builders\<close>

text \<open>
  A builder consumes a text one character at a time and computes, in its final state, the
  value of a function of the whole text. \<open>rel\<close> relates the text read so far to the state.
\<close>

locale stream_builder =
  fixes init :: 's
    and push :: "'s \<Rightarrow> 'c \<Rightarrow> 's"
    and finish :: "'s \<Rightarrow> 'r"
    and rel :: "'c list \<Rightarrow> 's \<Rightarrow> bool"
    and whole :: "'c list \<Rightarrow> 'r"
  assumes rel_init: "rel [] init"
    and rel_push: "rel s b \<Longrightarrow> rel (s @ [c]) (push b c)"
    and rel_finish: "rel s b \<Longrightarrow> finish b = whole s"
begin

lemma rel_feed: "rel s (foldl push init s)"
  by (induction s rule: rev_induct) (simp_all add: rel_init rel_push)

lemma finish_feed: "finish (foldl push init s) = whole s"
  by (rule rel_finish) (rule rel_feed)

text \<open>A text delivered in pieces gives the same result as the text in one piece.\<close>

lemma finish_chunks: "finish (foldl (foldl push) init ss) = whole (concat ss)"
proof -
  have "foldl (foldl push) b ss = foldl push b (concat ss)" for b
    by (induction ss arbitrary: b) simp_all
  then show ?thesis by (simp add: finish_feed)
qed

end

section \<open>Partial sums\<close>

text \<open>
  A checked addition that may fail. When it is commutative and associative on the successful
  results, a list can be added up in any order with the same outcome.
\<close>

fun map_res :: "('a \<Rightarrow> 'e + 'b) \<Rightarrow> 'a list \<Rightarrow> 'e + 'b list" where
  "map_res f [] = Inr []"
| "map_res f (x # xs) = try_res (f x) (\<lambda>y. try_res (map_res f xs) (\<lambda>ys. Inr (y # ys)))"

lemma map_res_iff: "map_res f xs = Inr ys \<longleftrightarrow> list_all2 (\<lambda>x y. f x = Inr y) xs ys"
  by (induction xs arbitrary: ys) (auto simp: result_simps list_all2_Cons1)

fun fold_res :: "('a \<Rightarrow> 'b \<Rightarrow> 'e + 'a) \<Rightarrow> 'a \<Rightarrow> 'b list \<Rightarrow> 'e + 'a" where
  "fold_res f a [] = Inr a"
| "fold_res f a (x # xs) = try_res (f a x) (\<lambda>s. fold_res f s xs)"

lemma fold_res_append: "fold_res f a (xs @ ys) = try_res (fold_res f a xs) (\<lambda>s. fold_res f s ys)"
proof (induction xs arbitrary: a)
  case (Cons x xs)
  then show ?case by (cases "f a x") simp_all
qed simp

locale partial_sum =
  fixes plus :: "'a \<Rightarrow> 'a \<Rightarrow> 'e + 'a"
  assumes plus_comm: "plus a b = Inr s \<Longrightarrow> plus b a = Inr s"
    and plus_assoc: "plus a b = Inr s \<Longrightarrow> plus s c = Inr t \<Longrightarrow> \<exists>u. plus b c = Inr u \<and> plus a u = Inr t"
begin

lemma fold_swap:
  assumes "fold_res plus a (x # y # xs) = Inr t"
  shows "fold_res plus a (y # x # xs) = Inr t"
proof -
  obtain s s' where s: "plus a x = Inr s" "plus s y = Inr s'" and rest: "fold_res plus s' xs = Inr t"
    using assms by (auto simp: result_simps)
  obtain u where u: "plus x y = Inr u" "plus a u = Inr s'" using plus_assoc[OF s] by blast
  obtain v where "plus y a = Inr v" "plus x v = Inr s'"
    using plus_assoc[OF u(1) plus_comm[OF u(2)]] by blast
  then have "plus a y = Inr v" "plus v x = Inr s'" by (auto intro: plus_comm)
  with rest show ?thesis by simp
qed

lemma fold_move:
  "fold_res plus a (xs @ y # ys) = Inr t \<longleftrightarrow> fold_res plus a (y # xs @ ys) = Inr t"
proof (induction xs arbitrary: a)
  case (Cons x xs)
  have "fold_res plus a ((x # xs) @ y # ys) = Inr t \<longleftrightarrow>
      (\<exists>s. plus a x = Inr s \<and> fold_res plus s (xs @ y # ys) = Inr t)"
    by (simp add: result_simps)
  also have "\<dots> \<longleftrightarrow> fold_res plus a (x # y # xs @ ys) = Inr t"
    by (simp only: Cons.IH) (simp add: result_simps)
  also have "\<dots> \<longleftrightarrow> fold_res plus a (y # (x # xs) @ ys) = Inr t"
    by (auto dest: fold_swap simp del: fold_res.simps)
  finally show ?case .
qed simp

theorem fold_permutation:
  "mset xs = mset ys \<Longrightarrow> fold_res plus a xs = Inr t \<Longrightarrow> fold_res plus a ys = Inr t"
proof (induction xs arbitrary: a ys)
  case (Cons x xs)
  have "x \<in> set ys" using Cons.prems(1) by (metis list.set_intros(1) set_mset_mset)
  then obtain us vs where ys: "ys = us @ x # vs" by (auto dest: split_list)
  have m: "mset xs = mset (us @ vs)" using Cons.prems(1) ys by simp
  obtain s where "plus a x = Inr s" "fold_res plus s xs = Inr t"
    using Cons.prems(2) by (auto simp: result_simps)
  with Cons.IH[OF m] have "fold_res plus a (x # us @ vs) = Inr t" by simp
  then show ?case unfolding ys by (simp only: fold_move)
qed simp

end

section \<open>Scans that reject duplicates\<close>

text \<open>
  The validation loops keep a hash set of the keys met so far and stop at the first item that is
  malformed or whose key \<open>insert\<close> reports as present. \<open>scan_distinct\<close> is that loop; the item
  test is evaluated together with the insertion and both failures return the same error.
\<close>

fun scan_distinct :: "('a \<Rightarrow> bool) \<Rightarrow> ('a \<Rightarrow> 'k) \<Rightarrow> 'e \<Rightarrow> 'k set \<Rightarrow> 'a list \<Rightarrow> 'e + 'k set" where
  "scan_distinct bad key e seen [] = Inr seen"
| "scan_distinct bad key e seen (x # xs) =
     (if bad x \<or> key x \<in> seen then Inl e else scan_distinct bad key e (insert (key x) seen) xs)"

lemma scan_distinct_iff:
  "scan_distinct bad key e seen xs = Inr seen' \<longleftrightarrow>
     (\<forall>x \<in> set xs. \<not> bad x) \<and> distinct (map key xs) \<and> seen \<inter> key ` set xs = {} \<and>
     seen' = seen \<union> key ` set xs"
  by (induction xs arbitrary: seen) auto

text \<open>
  A loop with a state that rejects every item in conflict with an earlier one: when the state
  remembers each accepted item, an accepted list has no two items in conflict.
\<close>

locale pairwise_scan =
  fixes step :: "'s \<Rightarrow> 'a \<Rightarrow> 'e + 's"
    and seen :: "'s \<Rightarrow> 'a \<Rightarrow> bool"
    and good :: "'a \<Rightarrow> bool"
    and compatible :: "'a \<Rightarrow> 'a \<Rightarrow> bool"
  assumes step_good: "step s x = Inr s' \<Longrightarrow> good x"
    and step_compatible: "step s x = Inr s' \<Longrightarrow> seen s y \<Longrightarrow> compatible y x"
    and step_seen: "step s x = Inr s' \<Longrightarrow> seen s' x"
    and step_keeps: "step s x = Inr s' \<Longrightarrow> seen s y \<Longrightarrow> seen s' y"
begin

lemma scan_pairwise:
  "fold_res step s xs = Inr s' \<Longrightarrow>
     list_all good xs \<and> sorted_wrt compatible xs \<and> (\<forall>y. seen s y \<longrightarrow> (\<forall>x \<in> set xs. compatible y x))"
proof (induction xs arbitrary: s)
  case (Cons x xs)
  then obtain t where t: "step s x = Inr t" "fold_res step t xs = Inr s'" by (auto simp: result_simps)
  have "seen t x" using t(1) by (rule step_seen)
  moreover have "\<forall>y. seen s y \<longrightarrow> compatible y x \<and> seen t y"
    using t(1) step_compatible step_keeps by blast
  ultimately show ?case using Cons.IH[OF t(2)] step_good[OF t(1)] by auto
qed simp

end

end
