(* ===== verification/Model_Names.thy ===== *)
theory Model_Names
  imports Interfaces
begin

text \<open>
  The model-name normalisation of \<open>codex-info-rest-contract/src/model_names.rs\<close>: the direct
  function on a whole name, the streaming builder with bounded memory, and their equivalence.
\<close>

section \<open>Definitions\<close>

definition is_bidi_formatting :: "scalar \<Rightarrow> bool" where
  "is_bidi_formatting c \<longleftrightarrow> c = 0x061c \<or> c = 0x200e \<or> c = 0x200f \<or>
     (0x202a \<le> c \<and> c \<le> 0x202e) \<or> (0x2066 \<le> c \<and> c \<le> 0x2069)"

definition MAX_PUBLIC_MODEL_SCALARS :: nat where
  "MAX_PUBLIC_MODEL_SCALARS = 128"

definition forbidden :: "scalar \<Rightarrow> bool" where
  "forbidden c \<longleftrightarrow> c \<le> 0x1f \<or> (0x7f \<le> c \<and> c \<le> 0x9f) \<or> is_bidi_formatting c"

definition white_space :: "scalar \<Rightarrow> bool" where
  "white_space c \<longleftrightarrow> (0x09 \<le> c \<and> c \<le> 0x0d) \<or> c = 0x20 \<or> c = 0x85 \<or> c = 0xa0 \<or>
     c = 0x1680 \<or> (0x2000 \<le> c \<and> c \<le> 0x200a) \<or> (0x2028 \<le> c \<and> c \<le> 0x2029) \<or>
     c = 0x202f \<or> c = 0x205f \<or> c = 0x3000"

definition normalize_model_name :: "rstr \<Rightarrow> rstr option" where
  "normalize_model_name original =
     (if list_ex forbidden original then None
      else let normalized = trim_matches white_space original
           in if normalized \<noteq> [] \<and> length normalized \<le> MAX_PUBLIC_MODEL_SCALARS
              then Some normalized else None)"

record ModelNameBuilder =
  normalized :: rstr
  pending_white_space :: rstr
  scalars :: nat
  pending_scalars :: nat
  invalid :: bool

definition builder_default :: ModelNameBuilder where
  "builder_default = \<lparr>normalized = [], pending_white_space = [], scalars = 0,
     pending_scalars = 0, invalid = False\<rparr>"

text \<open>
  One character. The counter of pending scalars is capped at one above the limit, so the
  saturating addition of the source never reaches the end of \<open>usize\<close>.
\<close>

definition push :: "ModelNameBuilder \<Rightarrow> scalar \<Rightarrow> ModelNameBuilder" where
  "push b0 character =
     (let b = (if forbidden character then b0\<lparr>invalid := True\<rparr> else b0)
      in if invalid b then b
         else if white_space character then
           (if scalars b > 0 then
              let b' = b\<lparr>pending_scalars :=
                          min (pending_scalars b + 1) (MAX_PUBLIC_MODEL_SCALARS + 1)\<rparr>
              in if scalars b' + pending_scalars b' \<le> MAX_PUBLIC_MODEL_SCALARS
                 then b'\<lparr>pending_white_space := pending_white_space b' @ [character]\<rparr>
                 else b'
            else b)
         else
           let next_count = scalars b + pending_scalars b + 1
           in if next_count > MAX_PUBLIC_MODEL_SCALARS then b\<lparr>invalid := True\<rparr>
              else b\<lparr>normalized := normalized b @ pending_white_space b @ [character],
                     pending_white_space := [], pending_scalars := 0, scalars := next_count\<rparr>)"

definition finish :: "ModelNameBuilder \<Rightarrow> rstr option" where
  "finish b = (if \<not> invalid b \<and> scalars b > 0 then Some (normalized b) else None)"

section \<open>The builder computes the direct function\<close>

abbreviation name_core :: "rstr \<Rightarrow> rstr" where
  "name_core \<equiv> trim_matches white_space"

abbreviation name_tail :: "rstr \<Rightarrow> rstr" where
  "name_tail \<equiv> trailing white_space"

text \<open>What the builder knows after reading \<open>s\<close>.\<close>

definition builder_rel :: "rstr \<Rightarrow> ModelNameBuilder \<Rightarrow> bool" where
  "builder_rel s b \<longleftrightarrow>
     (invalid b \<longleftrightarrow> list_ex forbidden s \<or> length (name_core s) > MAX_PUBLIC_MODEL_SCALARS) \<and>
     (\<not> invalid b \<longrightarrow>
        normalized b = name_core s \<and> scalars b = length (name_core s) \<and>
        pending_white_space b = take (MAX_PUBLIC_MODEL_SCALARS - scalars b) (name_tail s) \<and>
        pending_scalars b = min (length (name_tail s)) (MAX_PUBLIC_MODEL_SCALARS + 1))"

lemma builder_rel_white_space:
  assumes "builder_rel s b" and "white_space c"
  shows "builder_rel (s @ [c]) (push b c)"
  using assms
  by (auto simp: builder_rel_def push_def Let_def trim_snoc_match MAX_PUBLIC_MODEL_SCALARS_def
      trim_eq_Nil trailing_all min_def)

lemma builder_rel_other:
  assumes "builder_rel s b" and "\<not> white_space c"
  shows "builder_rel (s @ [c]) (push b c)"
  using assms
  by (auto simp: builder_rel_def push_def Let_def trim_snoc_other MAX_PUBLIC_MODEL_SCALARS_def)

interpretation name_stream: stream_builder builder_default push finish builder_rel
  normalize_model_name
proof unfold_locales
  show "builder_rel [] builder_default"
    by (simp add: builder_rel_def builder_default_def)
next
  fix s b c
  assume "builder_rel s b"
  then show "builder_rel (s @ [c]) (push b c)"
    by (cases "white_space c") (simp_all add: builder_rel_white_space builder_rel_other)
next
  fix s b
  assume "builder_rel s b"
  then show "finish b = normalize_model_name s"
    by (auto simp: builder_rel_def finish_def normalize_model_name_def Let_def)
qed

text \<open>The counters bound the two strings, in invalid states too.\<close>

definition builder_small :: "ModelNameBuilder \<Rightarrow> bool" where
  "builder_small b \<longleftrightarrow> scalars b = length (normalized b) \<and>
     scalars b \<le> MAX_PUBLIC_MODEL_SCALARS \<and>
     length (pending_white_space b) = min (pending_scalars b) (MAX_PUBLIC_MODEL_SCALARS - scalars b)"

lemma push_small: "builder_small b \<Longrightarrow> builder_small (push b c)"
  by (auto simp: builder_small_def push_def Let_def min_def)

lemma feed_small: "builder_small b \<Longrightarrow> builder_small (foldl push b s)"
  by (induction s arbitrary: b) (auto simp: push_small)

lemma normalize_model_nameD:
  assumes "normalize_model_name s = Some t"
  shows "t = name_core s" and "t \<noteq> []" and "length t \<le> MAX_PUBLIC_MODEL_SCALARS"
    and "\<not> list_ex forbidden s"
  using assms by (auto simp: normalize_model_name_def Let_def split: if_splits)

lemma normalize_model_name_idem:
  assumes "normalize_model_name s = Some t"
  shows "normalize_model_name t = Some t"
proof -
  note d = normalize_model_nameD[OF assms]
  have "set t \<subseteq> set s" unfolding d(1) by (rule set_trim)
  then have "\<not> list_ex forbidden t" using d(4) by (auto simp: list_ex_iff)
  moreover have "name_core t = t" unfolding d(1) by (rule trim_idem)
  ultimately show ?thesis using d(2,3) by (simp add: normalize_model_name_def Let_def)
qed

section \<open>Properties\<close>

text \<open>
  C36. Streaming equivalence: feeding a name to the builder, in any number of pieces, and
  finishing gives exactly what the direct normalisation gives on the whole name, for every
  Unicode text, the rejected ones included.
\<close>

theorem model_name_builder_equiv:
  "finish (foldl (foldl push) builder_default pieces) = normalize_model_name (concat pieces)"
  by (rule name_stream.finish_chunks)

text \<open>
  Bounded memory: whatever the input, the builder holds at most the permitted number of
  scalars, the accepted name and the pending white space together.
\<close>

theorem model_name_builder_bounded:
  "length (normalized (foldl push builder_default s)) +
   length (pending_white_space (foldl push builder_default s)) \<le> MAX_PUBLIC_MODEL_SCALARS"
proof -
  have "builder_small (foldl push builder_default s)"
    by (rule feed_small) (simp add: builder_small_def builder_default_def)
  then show ?thesis by (auto simp: builder_small_def)
qed

text \<open>
  Canonical names: an accepted name is a non-empty text of at most 128 scalars without
  control or bidirectional formatting characters, taken from the original, and normalising it
  again changes nothing.
\<close>

theorem normalize_model_name_canonical:
  assumes "normalize_model_name s = Some t"
  shows "normalize_model_name t = Some t \<and> t \<noteq> [] \<and> length t \<le> 128 \<and>
    list_all (\<lambda>c. \<not> is_control c \<and> \<not> is_bidi_formatting c) t \<and> (\<exists>a z. s = a @ t @ z)"
proof -
  note d = normalize_model_nameD[OF assms]
  have sub: "set t \<subseteq> set s" unfolding d(1) by (rule set_trim)
  have "\<not> list_ex forbidden t" using d(4) sub by (auto simp: list_ex_iff)
  have "normalize_model_name t = Some t" using assms by (rule normalize_model_name_idem)
  moreover have "s = takeWhile white_space s @ t @ name_tail s"
    by (metis d(1) dropWhile_trim takeWhile_dropWhile_id)
  moreover have "list_all (\<lambda>c. \<not> is_control c \<and> \<not> is_bidi_formatting c) t"
    using \<open>\<not> list_ex forbidden t\<close>
    by (auto simp: list_all_iff list_ex_iff forbidden_def is_control_def)
  ultimately show ?thesis using d(2,3) by (auto simp: MAX_PUBLIC_MODEL_SCALARS_def)
qed

theorem normalize_model_name_canonical_witness:
  "normalize_model_name (lit '' sol '') = Some (lit ''sol'') \<and>
   normalize_model_name (lit ''sol'') = Some (lit ''sol'')"
proof -
  have h: "normalize_model_name (lit '' sol '') = Some (lit ''sol'')"
    by (simp add: normalize_model_name_def lit_def forbidden_def is_bidi_formatting_def
        trim_matches_def white_space_def MAX_PUBLIC_MODEL_SCALARS_def)
  show ?thesis using normalize_model_name_canonical[OF h] h by simp
qed

end
