(* ===== verification/F64.thy ===== *)
theory F64
  imports Prelude
begin

text \<open>
  IEEE 754 binary64 values as the code observes them: a finite value is a rational number
  (both zeros are the rational zero: no code of the repository tells them apart), and the
  infinities and NaN are values of their own. Comparisons are the IEEE ones, so every
  comparison with NaN is false.
\<close>

datatype f64 = F64_Finite rat | F64_PosInf | F64_NegInf | F64_NaN

fun f64_is_finite :: "f64 \<Rightarrow> bool" where
  "f64_is_finite (F64_Finite _) = True"
| "f64_is_finite _ = False"

fun f64_lt :: "f64 \<Rightarrow> f64 \<Rightarrow> bool" where
  "f64_lt (F64_Finite a) (F64_Finite b) = (a < b)"
| "f64_lt (F64_Finite _) F64_PosInf = True"
| "f64_lt F64_NegInf (F64_Finite _) = True"
| "f64_lt F64_NegInf F64_PosInf = True"
| "f64_lt _ _ = False"

fun f64_le :: "f64 \<Rightarrow> f64 \<Rightarrow> bool" where
  "f64_le (F64_Finite a) (F64_Finite b) = (a \<le> b)"
| "f64_le F64_PosInf F64_PosInf = True"
| "f64_le F64_NegInf F64_NegInf = True"
| "f64_le (F64_Finite _) F64_PosInf = True"
| "f64_le F64_NegInf (F64_Finite _) = True"
| "f64_le F64_NegInf F64_PosInf = True"
| "f64_le _ _ = False"

lemma f64_finite_cases: "f64_is_finite x \<longleftrightarrow> (\<exists>r. x = F64_Finite r)"
  by (cases x) auto

end
