(* ===== verification/Contract_Base.thy ===== *)
theory Contract_Base
  imports Model_Names F64
begin

text \<open>
  The validators and wire values of \<open>codex-info-rest-contract/src/lib.rs\<close> that the contract's
  modules share: error values, timestamps, bounded text, rates, and the quota and cost
  structures.
\<close>

datatype ContractError =
    InvalidTimestamp
  | InvalidNumber
  | InvalidPeriod
  | InvalidSample
  | InvalidGap
  | InvalidModel
  | TooManyItems

definition MAX_PUBLIC_UNIX_SECONDS :: i64 where
  "MAX_PUBLIC_UNIX_SECONDS = 253402300799"

definition valid_timestamp :: "i64 \<Rightarrow> bool" where
  "valid_timestamp value = (1 \<le> value \<and> value \<le> MAX_PUBLIC_UNIX_SECONDS)"

definition valid_text :: "rstr \<Rightarrow> nat \<Rightarrow> bool" where
  "valid_text value limit \<longleftrightarrow> value \<noteq> [] \<and> length value \<le> limit \<and>
     \<not> list_ex (\<lambda>c. is_control c \<or> is_bidi_formatting c) value"

definition is_valid_public_model_name :: "rstr \<Rightarrow> bool" where
  "is_valid_public_model_name value = valid_text value MAX_PUBLIC_MODEL_SCALARS"

definition valid_rate :: "f64 \<Rightarrow> bool" where
  "valid_rate value \<longleftrightarrow> f64_is_finite value \<and> f64_le (F64_Finite 0) value"

datatype PublicState = Initializing | Ready | AuthRequired | Error

record PublicQuota =
  q_remaining_percent :: f64
  q_reset_at :: i64
  q_window_seconds :: i64
  q_monthly :: bool

record PublicModelCostV3 =
  cost_price_version :: rstr
  cost_ordinary_input_dollars :: f64
  cost_cached_input_dollars :: f64
  cost_cache_write_input_dollars :: f64
  cost_output_dollars :: f64
  cost_total_dollars :: f64

text \<open>A name the recorder's normalisation accepts is a name the wire contract accepts.\<close>

lemma normalized_name_is_public:
  assumes "normalize_model_name s = Some t"
  shows "is_valid_public_model_name t"
proof -
  note d = normalize_model_nameD[OF assms]
  have "set t \<subseteq> set s" unfolding d(1) by (rule set_trim)
  with d(4) have "\<not> list_ex forbidden t" by (auto simp: list_ex_iff)
  with d(2,3) show ?thesis
    by (auto simp: is_valid_public_model_name_def valid_text_def list_ex_iff forbidden_def
        is_control_def)
qed

lemma valid_rate_iff: "valid_rate x \<longleftrightarrow> (\<exists>r. x = F64_Finite r \<and> 0 \<le> r)"
  by (cases x) (auto simp: valid_rate_def)

end
