(* ===== verification/Token_Facts.thy ===== *)
theory Token_Facts
  imports Interfaces
begin

text \<open>
  The lossless token arithmetic of \<open>codex-info-rest-contract/src/token_facts.rs\<close>: token
  counts with unknown components, the validation of consumption facts and of raw counters,
  and the checked difference and sum, over 64-bit words.
\<close>

section \<open>Definitions\<close>

record TokenFacts =
  tf_total :: u64
  tf_input :: "u64 option"
  tf_cached_input :: "u64 option"
  tf_cache_write_input :: "u64 option"
  tf_output :: "u64 option"

datatype TokenFactError =
    ComponentExceedsTotal
  | TotalDoesNotMatchComponents
  | DiscountedInputExceedsInput
  | ArithmeticOverflow
  | CounterRegression

text \<open>\<open>try_fold\<close> with \<open>checked_add\<close> over the known values, from left to right.\<close>

fun try_sum :: "u64 \<Rightarrow> u64 list \<Rightarrow> u64 option" where
  "try_sum acc [] = Some acc"
| "try_sum acc (v # vs) = (case checked_add acc v of None \<Rightarrow> None | Some s \<Rightarrow> try_sum s vs)"

definition known_values :: "u64 option \<Rightarrow> u64 list" where
  "known_values v = (case v of None \<Rightarrow> [] | Some x \<Rightarrow> [x])"

definition component_exceeds :: "TokenFacts \<Rightarrow> bool" where
  "component_exceeds self \<longleftrightarrow>
     (case tf_input self of None \<Rightarrow> False | Some v \<Rightarrow> v > tf_total self) \<or>
     (case tf_output self of None \<Rightarrow> False | Some v \<Rightarrow> v > tf_total self)"

definition check_total :: "TokenFacts \<Rightarrow> bool \<Rightarrow> TokenFactError + unit" where
  "check_total self exact_total =
     (case (tf_input self, tf_output self) of
        (Some i, Some out) \<Rightarrow>
          try_res (ok_or ArithmeticOverflow (checked_add i out))
            (\<lambda>sum. if sum > tf_total self \<or> (exact_total \<and> sum \<noteq> tf_total self)
                   then Inl TotalDoesNotMatchComponents else Inr ())
      | _ \<Rightarrow> Inr ())"

definition input_bound :: "TokenFacts \<Rightarrow> u64" where
  "input_bound self =
     (case (tf_input self, tf_output self) of
        (Some i, _) \<Rightarrow> i
      | (None, Some out) \<Rightarrow> tf_total self - out
      | (None, None) \<Rightarrow> tf_total self)"

definition validate :: "TokenFacts \<Rightarrow> bool \<Rightarrow> TokenFactError + unit" where
  "validate self exact_total =
     (if component_exceeds self then Inl ComponentExceedsTotal
      else try_res (check_total self exact_total) (\<lambda>_.
        try_res (ok_or ArithmeticOverflow
                   (try_sum 0 (known_values (tf_cached_input self) @
                               known_values (tf_cache_write_input self))))
          (\<lambda>lower_bound. if lower_bound > input_bound self
                         then Inl DiscountedInputExceedsInput else Inr ())))"

definition validate_fact :: "TokenFacts \<Rightarrow> TokenFactError + unit" where
  "validate_fact self = validate self True"

definition validate_raw_counter :: "TokenFacts \<Rightarrow> TokenFactError + unit" where
  "validate_raw_counter self = validate self False"

definition subtract :: "u64 option \<Rightarrow> u64 option \<Rightarrow> TokenFactError + u64 option" where
  "subtract current previous =
     (case (current, previous) of
        (Some c, Some p) \<Rightarrow> ok_or CounterRegression (map_option Some (checked_sub c p))
      | _ \<Rightarrow> Inr None)"

definition add :: "u64 option \<Rightarrow> u64 option \<Rightarrow> TokenFactError + u64 option" where
  "add left right =
     (case (left, right) of
        (Some l, Some r) \<Rightarrow> ok_or ArithmeticOverflow (map_option Some (checked_add l r))
      | _ \<Rightarrow> Inr None)"

definition checked_delta :: "TokenFacts \<Rightarrow> TokenFacts \<Rightarrow> TokenFactError + TokenFacts" where
  "checked_delta self previous =
     try_res (validate_raw_counter self) (\<lambda>_.
     try_res (validate_raw_counter previous) (\<lambda>_.
     try_res (ok_or CounterRegression (checked_sub (tf_total self) (tf_total previous))) (\<lambda>tot.
     try_res (subtract (tf_input self) (tf_input previous)) (\<lambda>inp.
     try_res (subtract (tf_cached_input self) (tf_cached_input previous)) (\<lambda>cached.
     try_res (subtract (tf_cache_write_input self) (tf_cache_write_input previous)) (\<lambda>writes.
     try_res (subtract (tf_output self) (tf_output previous)) (\<lambda>out.
     let delta = \<lparr>tf_total = tot, tf_input = inp, tf_cached_input = cached,
                  tf_cache_write_input = writes, tf_output = out\<rparr>
     in try_res (validate_fact delta) (\<lambda>_. Inr delta))))))))"

definition checked_sum :: "TokenFacts \<Rightarrow> TokenFacts \<Rightarrow> TokenFactError + TokenFacts" where
  "checked_sum self other =
     try_res (validate_fact self) (\<lambda>_.
     try_res (validate_fact other) (\<lambda>_.
     try_res (ok_or ArithmeticOverflow (checked_add (tf_total self) (tf_total other))) (\<lambda>tot.
     try_res (add (tf_input self) (tf_input other)) (\<lambda>inp.
     try_res (add (tf_cached_input self) (tf_cached_input other)) (\<lambda>cached.
     try_res (add (tf_cache_write_input self) (tf_cache_write_input other)) (\<lambda>writes.
     try_res (add (tf_output self) (tf_output other)) (\<lambda>out.
     let sum = \<lparr>tf_total = tot, tf_input = inp, tf_cached_input = cached,
                tf_cache_write_input = writes, tf_output = out\<rparr>
     in try_res (validate_fact sum) (\<lambda>_. Inr sum))))))))"

section \<open>What validation means\<close>

text \<open>
  A partially known count is consistent when its unknown components can be filled in: some
  input and output that add up to the total (or stay below it, for a raw counter), and some
  discounted components that fit into that input. The values are naturals, so nothing wraps.
\<close>

definition agrees :: "u64 option \<Rightarrow> nat \<Rightarrow> bool" where
  "agrees v n \<longleftrightarrow> (case v of None \<Rightarrow> True | Some w \<Rightarrow> unat w = n)"

definition completion :: "bool \<Rightarrow> TokenFacts \<Rightarrow> bool" where
  "completion exact t \<longleftrightarrow>
     (\<exists>i c w out. agrees (tf_input t) i \<and> agrees (tf_cached_input t) c \<and>
        agrees (tf_cache_write_input t) w \<and> agrees (tf_output t) out \<and> c + w \<le> i \<and>
        (if exact then i + out = unat (tf_total t) else i + out \<le> unat (tf_total t)))"

definition known_or_zero :: "u64 option \<Rightarrow> nat" where
  "known_or_zero v = (case v of None \<Rightarrow> 0 | Some w \<Rightarrow> unat w)"

lemma known_or_zero_simps [simp]:
  "known_or_zero None = 0" "known_or_zero (Some w) = unat w"
  by (simp_all add: known_or_zero_def)

lemma agrees_simps [simp]:
  "agrees None n" "agrees (Some w) n \<longleftrightarrow> unat w = n"
  by (simp_all add: agrees_def)

text \<open>The discounted components fit into the input: arithmetic form of the last check.\<close>

definition input_room :: "TokenFacts \<Rightarrow> nat" where
  "input_room t =
     (case tf_input t of Some i \<Rightarrow> unat i | None \<Rightarrow> unat (tf_total t) - known_or_zero (tf_output t))"

lemma unat_lt_width64: "unat (a :: u64) < 18446744073709551616"
  using unat_lt_width[of a] by simp

lemma try_sum_two:
  "try_sum 0 (known_values c @ known_values w) = Some s \<longleftrightarrow>
     unat s = known_or_zero c + known_or_zero w"
  "try_sum 0 (known_values c @ known_values w) = None \<longleftrightarrow>
     2 ^ 64 \<le> known_or_zero c + known_or_zero w"
proof -
  have "(try_sum 0 (known_values c @ known_values w) = Some s \<longleftrightarrow>
      unat s = known_or_zero c + known_or_zero w) \<and>
    (try_sum 0 (known_values c @ known_values w) = None \<longleftrightarrow>
      2 ^ 64 \<le> known_or_zero c + known_or_zero w)"
  proof (cases c)
    case None
    then show ?thesis
      by (cases w) (auto simp: known_values_def word_eq_iff_unat not_le unat_lt_width64)
  next
    case (Some x)
    show ?thesis
    proof (cases w)
      case None
      with Some show ?thesis by (auto simp: known_values_def word_eq_iff_unat not_le unat_lt_width64)
    next
      case (Some y)
      with \<open>c = Some x\<close> have "try_sum 0 (known_values c @ known_values w) = checked_add x y"
        by (simp add: known_values_def split: option.split)
      with Some \<open>c = Some x\<close> show ?thesis by (simp add: checked_simps)
    qed
  qed
  then show "try_sum 0 (known_values c @ known_values w) = Some s \<longleftrightarrow>
      unat s = known_or_zero c + known_or_zero w"
    and "try_sum 0 (known_values c @ known_values w) = None \<longleftrightarrow>
      2 ^ 64 \<le> known_or_zero c + known_or_zero w" by blast+
qed

lemma input_bound_room:
  "\<not> component_exceeds t \<Longrightarrow> unat (input_bound t) = input_room t"
  by (auto simp: component_exceeds_def input_bound_def input_room_def word_le_nat_alt
      word_less_nat_alt unat_sub split: option.splits)

lemma input_room_le: "\<not> component_exceeds t \<Longrightarrow> input_room t \<le> unat (tf_total t)"
  by (auto simp: component_exceeds_def input_room_def word_less_nat_alt split: option.splits)

lemma check_total_ok:
  "\<not> component_exceeds t \<Longrightarrow> is_ok (check_total t exact) \<longleftrightarrow>
     (tf_input t \<noteq> None \<and> tf_output t \<noteq> None \<longrightarrow>
        known_or_zero (tf_input t) + known_or_zero (tf_output t) \<le> unat (tf_total t) \<and>
        (exact \<longrightarrow> known_or_zero (tf_input t) + known_or_zero (tf_output t) = unat (tf_total t)))"
  using unat_lt_width64[of "tf_total t"]
  by (auto simp: check_total_def word_less_nat_alt word_eq_iff_unat checked_simps ok_or_def
      split: option.splits)

lemma component_exceeds_iff:
  "\<not> component_exceeds t \<longleftrightarrow>
     known_or_zero (tf_input t) \<le> unat (tf_total t) \<and> known_or_zero (tf_output t) \<le> unat (tf_total t)"
  by (auto simp: component_exceeds_def word_less_nat_alt known_or_zero_def split: option.splits)

text \<open>Validation in arithmetic form, without wrap-around.\<close>

definition fact_arith :: "bool \<Rightarrow> TokenFacts \<Rightarrow> bool" where
  "fact_arith exact t \<longleftrightarrow>
     known_or_zero (tf_input t) + known_or_zero (tf_output t) \<le> unat (tf_total t) \<and>
     (exact \<and> tf_input t \<noteq> None \<and> tf_output t \<noteq> None \<longrightarrow>
        known_or_zero (tf_input t) + known_or_zero (tf_output t) = unat (tf_total t)) \<and>
     known_or_zero (tf_cached_input t) + known_or_zero (tf_cache_write_input t) \<le> input_room t"

lemma validate_ok: "is_ok (validate t exact) \<longleftrightarrow> fact_arith exact t"
proof (cases "component_exceeds t")
  case True
  then have "\<not> fact_arith exact t"
    using component_exceeds_iff[of t] by (auto simp: fact_arith_def)
  with True show ?thesis by (simp add: validate_def)
next
  case False
  have small: "input_room t < 2 ^ 64"
    using input_room_le[OF False] unat_lt_width64[of "tf_total t"] by simp
  have sum_le: "known_or_zero (tf_input t) + known_or_zero (tf_output t) \<le> unat (tf_total t)"
    if "tf_input t = None \<or> tf_output t = None"
    using that False component_exceeds_iff[of t] by auto
  have "is_ok (validate t exact) \<longleftrightarrow> is_ok (check_total t exact) \<and>
      known_or_zero (tf_cached_input t) + known_or_zero (tf_cache_write_input t) \<le> input_room t"
  proof (cases "try_sum 0 (known_values (tf_cached_input t) @ known_values (tf_cache_write_input t))")
    case None
    then have "2 ^ 64 \<le> known_or_zero (tf_cached_input t) + known_or_zero (tf_cache_write_input t)"
      by (rule try_sum_two(2)[THEN iffD1])
    with None False small show ?thesis
      by (cases "check_total t exact") (simp_all add: validate_def)
  next
    case (Some s)
    then have "unat s = known_or_zero (tf_cached_input t) + known_or_zero (tf_cache_write_input t)"
      by (rule try_sum_two(1)[THEN iffD1])
    with Some False input_bound_room[OF False] show ?thesis
      by (cases "check_total t exact") (simp_all add: validate_def word_less_nat_alt not_less)
  qed
  then show ?thesis
    using check_total_ok[OF False, of exact] sum_le by (auto simp: fact_arith_def)
qed

lemma fact_arith_completion: "fact_arith exact t \<longleftrightarrow> completion exact t"
proof
  assume f: "fact_arith exact t"
  let ?c = "known_or_zero (tf_cached_input t)" and ?w = "known_or_zero (tf_cache_write_input t)"
  let ?o = "case tf_output t of Some v \<Rightarrow> unat v | None \<Rightarrow> unat (tf_total t) - input_room t"
  have "agrees (tf_cached_input t) ?c" "agrees (tf_cache_write_input t) ?w"
    "agrees (tf_output t) ?o" "agrees (tf_input t) (input_room t)"
    by (auto simp: agrees_def known_or_zero_def input_room_def split: option.splits)
  moreover have "?c + ?w \<le> input_room t"
    using f by (simp add: fact_arith_def)
  moreover have "if exact then input_room t + ?o = unat (tf_total t) else input_room t + ?o \<le> unat (tf_total t)"
    using f by (cases "tf_input t"; cases "tf_output t") (auto simp: fact_arith_def input_room_def)
  ultimately show "completion exact t"
    unfolding completion_def by blast
next
  assume "completion exact t"
  then obtain i c w out where *: "agrees (tf_input t) i" "agrees (tf_cached_input t) c"
    "agrees (tf_cache_write_input t) w" "agrees (tf_output t) out" "c + w \<le> i"
    "i + out \<le> unat (tf_total t)" "exact \<longrightarrow> i + out = unat (tf_total t)"
    by (auto simp: completion_def split: if_splits)
  have kz: "agrees v n \<Longrightarrow> known_or_zero v \<le> n" "agrees v n \<Longrightarrow> v \<noteq> None \<Longrightarrow> known_or_zero v = n"
    for v n by (auto simp: agrees_def known_or_zero_def split: option.splits)
  have "i \<le> input_room t"
    using *(1,6) kz(1)[OF *(4)] by (auto simp: input_room_def agrees_def split: option.splits)
  then show "fact_arith exact t"
    using kz(1)[OF *(1)] kz(1)[OF *(2)] kz(1)[OF *(3)] kz(1)[OF *(4)] kz(2)[OF *(1)] kz(2)[OF *(4)] *(5-7)
    by (auto simp: fact_arith_def)
qed

lemmas valid_fact_iff = validate_fact_def validate_raw_counter_def validate_ok result_unit_eq

lemma fact_ok [simp]:
  "is_ok (validate_fact t) \<longleftrightarrow> fact_arith True t"
  "is_ok (validate_raw_counter t) \<longleftrightarrow> fact_arith False t"
  by (simp_all add: valid_fact_iff)

lemma fact_room: "fact_arith exact t \<Longrightarrow> input_room t + known_or_zero (tf_output t) \<le> unat (tf_total t)"
  by (auto simp: fact_arith_def input_room_def split: option.splits)

lemma fact_components:
  assumes "fact_arith exact t"
  shows "known_or_zero (tf_input t) \<le> unat (tf_total t)"
    and "known_or_zero (tf_output t) \<le> unat (tf_total t)"
    and "known_or_zero (tf_cached_input t) \<le> unat (tf_total t)"
    and "known_or_zero (tf_cache_write_input t) \<le> unat (tf_total t)"
  using assms fact_room[OF assms] by (auto simp: fact_arith_def)

section \<open>Sums\<close>

text \<open>The componentwise sum: known only when both components are known.\<close>

definition opt_sum :: "u64 option \<Rightarrow> u64 option \<Rightarrow> u64 option \<Rightarrow> bool" where
  "opt_sum x y z \<longleftrightarrow>
     (z \<noteq> None \<longleftrightarrow> x \<noteq> None \<and> y \<noteq> None) \<and>
     (z \<noteq> None \<longrightarrow> known_or_zero z = known_or_zero x + known_or_zero y)"

lemma add_eq_Inr: "add x y = Inr z \<longleftrightarrow> opt_sum x y z"
  by (cases x; cases y; cases z) (auto simp: add_def opt_sum_def result_simps checked_simps)

lemma add_ok: "known_or_zero x + known_or_zero y < 2 ^ 64 \<Longrightarrow> \<exists>z. add x y = Inr z"
  by (cases x; cases y) (auto simp: add_def checked_add_def)

lemma opt_sum_le: "opt_sum x y z \<Longrightarrow> known_or_zero z \<le> known_or_zero x + known_or_zero y"
  by (cases z) (auto simp: opt_sum_def)

lemma opt_sum_unique: "opt_sum x y z \<Longrightarrow> opt_sum x y z' \<Longrightarrow> z = z'"
  by (cases z; cases z') (auto simp: opt_sum_def word_eq_iff_unat)

lemma opt_sum_comm: "opt_sum x y z \<Longrightarrow> opt_sum y x z"
  by (auto simp: opt_sum_def)

lemma opt_sum_assoc: "opt_sum x y s \<Longrightarrow> opt_sum s z t \<Longrightarrow> opt_sum y z u \<Longrightarrow> opt_sum x u t"
  by (auto simp: opt_sum_def)

definition sum_rel :: "TokenFacts \<Rightarrow> TokenFacts \<Rightarrow> TokenFacts \<Rightarrow> bool" where
  "sum_rel a b s \<longleftrightarrow> unat (tf_total s) = unat (tf_total a) + unat (tf_total b) \<and>
     opt_sum (tf_input a) (tf_input b) (tf_input s) \<and>
     opt_sum (tf_cached_input a) (tf_cached_input b) (tf_cached_input s) \<and>
     opt_sum (tf_cache_write_input a) (tf_cache_write_input b) (tf_cache_write_input s) \<and>
     opt_sum (tf_output a) (tf_output b) (tf_output s)"

lemma sum_room:
  assumes "fact_arith True a" and "fact_arith True b" and s: "sum_rel a b s"
  shows "input_room a + input_room b \<le> input_room s"
proof (cases "tf_input s")
  case None
  have "known_or_zero (tf_output s) \<le> known_or_zero (tf_output a) + known_or_zero (tf_output b)"
    using s by (auto simp: sum_rel_def intro: opt_sum_le)
  with None s fact_room[OF assms(1)] fact_room[OF assms(2)] show ?thesis
    by (simp add: input_room_def sum_rel_def)
next
  case (Some v)
  with s show ?thesis by (auto simp: input_room_def sum_rel_def opt_sum_def split: option.splits)
qed

text \<open>The sum of two consumption facts is a consumption fact.\<close>

lemma sum_rel_fact:
  assumes a: "fact_arith True a" and b: "fact_arith True b" and s: "sum_rel a b s"
  shows "fact_arith True s"
proof -
  note r = s[unfolded sum_rel_def]
  note le = opt_sum_le[OF r[THEN conjunct2, THEN conjunct1]]
    opt_sum_le[OF r[THEN conjunct2, THEN conjunct2, THEN conjunct1]]
    opt_sum_le[OF r[THEN conjunct2, THEN conjunct2, THEN conjunct2, THEN conjunct1]]
    opt_sum_le[OF r[THEN conjunct2, THEN conjunct2, THEN conjunct2, THEN conjunct2]]
  have "known_or_zero (tf_input s) + known_or_zero (tf_output s) \<le> unat (tf_total s)"
    using r a[unfolded fact_arith_def] b[unfolded fact_arith_def] le by linarith
  moreover have "tf_input s \<noteq> None \<and> tf_output s \<noteq> None \<longrightarrow>
      known_or_zero (tf_input s) + known_or_zero (tf_output s) = unat (tf_total s)"
  proof
    assume "tf_input s \<noteq> None \<and> tf_output s \<noteq> None"
    with r have "tf_input a \<noteq> None" "tf_output a \<noteq> None" "tf_input b \<noteq> None" "tf_output b \<noteq> None"
      and "known_or_zero (tf_input s) = known_or_zero (tf_input a) + known_or_zero (tf_input b)"
      and "known_or_zero (tf_output s) = known_or_zero (tf_output a) + known_or_zero (tf_output b)"
      unfolding opt_sum_def by simp_all
    with r a b show "known_or_zero (tf_input s) + known_or_zero (tf_output s) = unat (tf_total s)"
      unfolding fact_arith_def by simp
  qed
  moreover have "known_or_zero (tf_cached_input s) + known_or_zero (tf_cache_write_input s) \<le> input_room s"
    using sum_room[OF a b s] a[unfolded fact_arith_def] b[unfolded fact_arith_def] le by linarith
  ultimately show ?thesis by (simp add: fact_arith_def)
qed

lemma checked_sum_unfold:
  "checked_sum a b = Inr s \<longleftrightarrow> fact_arith True a \<and> fact_arith True b \<and>
     checked_add (tf_total a) (tf_total b) = Some (tf_total s) \<and>
     add (tf_input a) (tf_input b) = Inr (tf_input s) \<and>
     add (tf_cached_input a) (tf_cached_input b) = Inr (tf_cached_input s) \<and>
     add (tf_cache_write_input a) (tf_cache_write_input b) = Inr (tf_cache_write_input s) \<and>
     add (tf_output a) (tf_output b) = Inr (tf_output s) \<and> fact_arith True s"
  by (cases s) (simp add: checked_sum_def result_simps Let_def valid_fact_iff cong: conj_cong)

lemma checked_sum_iff:
  "checked_sum a b = Inr s \<longleftrightarrow> fact_arith True a \<and> fact_arith True b \<and> sum_rel a b s"
  unfolding checked_sum_unfold add_eq_Inr checked_add_eq_Some sum_rel_def[symmetric] conj_assoc[symmetric]
  using sum_rel_fact[of a b s] unfolding sum_rel_def by blast

lemma sum_rel_exists:
  assumes a: "fact_arith True a" and b: "fact_arith True b"
    and fits: "unat (tf_total a) + unat (tf_total b) < 2 ^ 64"
  shows "\<exists>s. sum_rel a b s"
proof -
  note ca = fact_components[OF a] and cb = fact_components[OF b]
  obtain t where t: "checked_add (tf_total a) (tf_total b) = Some t"
    using fits by (cases "checked_add (tf_total a) (tf_total b)") (auto simp: checked_add_eq_None)
  obtain i where i: "add (tf_input a) (tf_input b) = Inr i"
    using add_ok[of "tf_input a" "tf_input b"] ca(1) cb(1) fits by fastforce
  obtain c where c: "add (tf_cached_input a) (tf_cached_input b) = Inr c"
    using add_ok[of "tf_cached_input a" "tf_cached_input b"] ca(3) cb(3) fits by fastforce
  obtain w where w: "add (tf_cache_write_input a) (tf_cache_write_input b) = Inr w"
    using add_ok[of "tf_cache_write_input a" "tf_cache_write_input b"] ca(4) cb(4) fits by fastforce
  obtain out where out: "add (tf_output a) (tf_output b) = Inr out"
    using add_ok[of "tf_output a" "tf_output b"] ca(2) cb(2) fits by fastforce
  have "sum_rel a b \<lparr>tf_total = t, tf_input = i, tf_cached_input = c, tf_cache_write_input = w,
      tf_output = out\<rparr>"
    using t i c w out by (simp add: sum_rel_def add_eq_Inr checked_add_eq_Some)
  then show ?thesis by blast
qed

lemma sum_rel_comm: "sum_rel a b s \<Longrightarrow> sum_rel b a s"
  by (auto simp: sum_rel_def intro: opt_sum_comm)

lemma sum_rel_assoc: "sum_rel a b s \<Longrightarrow> sum_rel s c t \<Longrightarrow> sum_rel b c u \<Longrightarrow> sum_rel a u t"
  by (simp add: sum_rel_def) (blast intro: opt_sum_assoc)

interpretation token_sum: partial_sum checked_sum
proof unfold_locales
  fix a b s
  assume "checked_sum a b = Inr s"
  then show "checked_sum b a = Inr s" by (auto simp: checked_sum_iff intro: sum_rel_comm)
next
  fix a b s c t
  assume "checked_sum a b = Inr s" and "checked_sum s c = Inr t"
  then have ab: "fact_arith True a" "fact_arith True b" "sum_rel a b s"
    and sc: "fact_arith True c" "sum_rel s c t"
    by (auto simp: checked_sum_iff)
  have "unat (tf_total b) + unat (tf_total c) < 2 ^ 64"
    using ab(3) sc(2) unat_lt_width64[of "tf_total t"] by (simp add: sum_rel_def)
  then obtain u where "sum_rel b c u" using sum_rel_exists[OF ab(2) sc(1)] by blast
  then show "\<exists>u. checked_sum b c = Inr u \<and> checked_sum a u = Inr t"
    using ab sc sum_rel_assoc[OF ab(3) sc(2)] sum_rel_fact[OF ab(2) sc(1)]
    by (auto simp: checked_sum_iff)
qed

section \<open>Differences\<close>

definition opt_diff :: "u64 option \<Rightarrow> u64 option \<Rightarrow> u64 option \<Rightarrow> bool" where
  "opt_diff current previous d \<longleftrightarrow>
     (d \<noteq> None \<longleftrightarrow> current \<noteq> None \<and> previous \<noteq> None) \<and>
     (d \<noteq> None \<longrightarrow> known_or_zero previous + known_or_zero d = known_or_zero current)"

lemma subtract_eq_Inr: "subtract c p = Inr d \<longleftrightarrow> opt_diff c p d"
  by (cases c; cases p; cases d) (auto simp: subtract_def opt_diff_def result_simps checked_simps)

definition diff_rel :: "TokenFacts \<Rightarrow> TokenFacts \<Rightarrow> TokenFacts \<Rightarrow> bool" where
  "diff_rel current previous d \<longleftrightarrow>
     unat (tf_total previous) + unat (tf_total d) = unat (tf_total current) \<and>
     opt_diff (tf_input current) (tf_input previous) (tf_input d) \<and>
     opt_diff (tf_cached_input current) (tf_cached_input previous) (tf_cached_input d) \<and>
     opt_diff (tf_cache_write_input current) (tf_cache_write_input previous) (tf_cache_write_input d) \<and>
     opt_diff (tf_output current) (tf_output previous) (tf_output d)"

lemma checked_delta_iff:
  "checked_delta current previous = Inr d \<longleftrightarrow>
     fact_arith False current \<and> fact_arith False previous \<and> diff_rel current previous d \<and>
     fact_arith True d"
  by (cases d) (simp add: checked_delta_def result_simps Let_def valid_fact_iff checked_simps
      subtract_eq_Inr diff_rel_def cong: conj_cong)

text \<open>What one component of a sum of two successive differences says about the whole step.\<close>

lemma opt_diff_telescope:
  assumes "opt_diff b a d1" and "opt_diff c b d2" and "opt_sum d1 d2 s" and "opt_diff c a d"
    and "s \<noteq> None"
  shows "d = s"
proof -
  from assms have "known_or_zero d = known_or_zero s" "d \<noteq> None"
    by (auto simp: opt_diff_def opt_sum_def)
  with \<open>s \<noteq> None\<close> show ?thesis by (auto simp: word_eq_iff_unat)
qed

section \<open>Properties\<close>

text \<open>
  C33. Meaning of fact validation: a consumption fact is accepted exactly when its unknown
  components can be completed to an input and an output that add up to the total, with the
  discounted inputs inside the input. A missing component never hides a contradiction and
  never causes a rejection.
\<close>

theorem validate_fact_completable: "is_ok (validate_fact t) \<longleftrightarrow> completion True t"
  by (simp add: validate_fact_def validate_ok fact_arith_completion)

text \<open>
  Meaning of raw-counter validation: the same, except that input and output may leave a
  gap below the total.
\<close>

theorem validate_raw_counter_completable: "is_ok (validate_raw_counter t) \<longleftrightarrow> completion False t"
  by (simp add: validate_raw_counter_def validate_ok fact_arith_completion)

text \<open>
  Sums fail only for a reason: two facts add up exactly when both are valid and their
  totals fit into 64 bits; no component overflows on its own and the result needs no further
  check.
\<close>

theorem checked_sum_succeeds_iff:
  "is_ok (checked_sum a b) \<longleftrightarrow>
     is_ok (validate_fact a) \<and> is_ok (validate_fact b) \<and>
     unat (tf_total a) + unat (tf_total b) < 2 ^ 64"
proof -
  have "sum_rel a b s \<Longrightarrow> unat (tf_total a) + unat (tf_total b) < 2 ^ 64" for s
    using unat_lt_width64[of "tf_total s"] by (simp add: sum_rel_def)
  then show ?thesis
    unfolding is_ok_iff[of "checked_sum a b"] checked_sum_iff fact_ok
    using sum_rel_exists[of a b] by blast
qed

text \<open>
  C35. Order independence: a list of facts added up one after the other gives the same sum in
  every order, overflow of an intermediate sum included.
\<close>

theorem checked_sum_order_irrelevant:
  assumes "mset xs = mset ys" and "fold_res checked_sum a xs = Inr t"
  shows "fold_res checked_sum a ys = Inr t"
  using assms by (rule token_sum.fold_permutation)

abbreviation known_fact :: "u64 \<Rightarrow> u64 \<Rightarrow> u64 \<Rightarrow> u64 \<Rightarrow> u64 \<Rightarrow> TokenFacts" where
  "known_fact n i c w out \<equiv> \<lparr>tf_total = n, tf_input = Some i, tf_cached_input = Some c,
     tf_cache_write_input = Some w, tf_output = Some out\<rparr>"

lemmas token_eval = checked_sum_def checked_delta_def validate_fact_def validate_raw_counter_def
  validate_def component_exceeds_def check_total_def input_bound_def known_values_def add_def
  subtract_def checked_add_def checked_sub_def Let_def

theorem checked_sum_order_irrelevant_witness:
  "fold_res checked_sum (known_fact 0 0 0 0 0) [known_fact 5 3 1 0 2, known_fact 7 5 2 1 2]
     = Inr (known_fact 12 8 3 1 4) \<and>
   fold_res checked_sum (known_fact 0 0 0 0 0) [known_fact 7 5 2 1 2, known_fact 5 3 1 0 2]
     = Inr (known_fact 12 8 3 1 4)"
proof -
  have h: "fold_res checked_sum (known_fact 0 0 0 0 0) [known_fact 5 3 1 0 2, known_fact 7 5 2 1 2]
     = Inr (known_fact 12 8 3 1 4)"
    by (simp add: token_eval)
  have m: "mset [known_fact 5 3 1 0 2, known_fact 7 5 2 1 2] =
      mset [known_fact 7 5 2 1 2, known_fact 5 3 1 0 2]" by simp
  show ?thesis using h checked_sum_order_irrelevant[OF m h] by blast
qed

text \<open>
  C34. Differences: \<open>checked_delta\<close> succeeds exactly on two raw counters whose difference is a
  consumption fact; the totals add up again without wrap-around, and a component of the
  difference is known exactly when it was known on both sides.
\<close>

theorem checked_delta_exact:
  "checked_delta current previous = Inr d \<longleftrightarrow>
     is_ok (validate_raw_counter current) \<and> is_ok (validate_raw_counter previous) \<and>
     is_ok (validate_fact d) \<and>
     unat (tf_total previous) + unat (tf_total d) = unat (tf_total current) \<and>
     opt_diff (tf_input current) (tf_input previous) (tf_input d) \<and>
     opt_diff (tf_cached_input current) (tf_cached_input previous) (tf_cached_input d) \<and>
     opt_diff (tf_cache_write_input current) (tf_cache_write_input previous) (tf_cache_write_input d) \<and>
     opt_diff (tf_output current) (tf_output previous) (tf_output d)"
  by (auto simp: checked_delta_iff diff_rel_def valid_fact_iff)

text \<open>
  Telescoping: the differences of successive counters add up to the difference across
  both steps, in the total and in every component the sum still knows.
\<close>

theorem checked_delta_telescopes:
  assumes "checked_delta b a = Inr d1" and "checked_delta c b = Inr d2"
    and "checked_delta c a = Inr d"
  shows "\<exists>s. checked_sum d1 d2 = Inr s \<and> tf_total s = tf_total d \<and>
    (tf_input s \<noteq> None \<longrightarrow> tf_input s = tf_input d) \<and>
    (tf_cached_input s \<noteq> None \<longrightarrow> tf_cached_input s = tf_cached_input d) \<and>
    (tf_cache_write_input s \<noteq> None \<longrightarrow> tf_cache_write_input s = tf_cache_write_input d) \<and>
    (tf_output s \<noteq> None \<longrightarrow> tf_output s = tf_output d)"
proof -
  from assms have f: "fact_arith True d1" "fact_arith True d2"
    and r: "diff_rel b a d1" "diff_rel c b d2" "diff_rel c a d"
    by (auto simp: checked_delta_iff)
  have tot: "unat (tf_total d1) + unat (tf_total d2) = unat (tf_total d)"
    using r by (simp add: diff_rel_def)
  then obtain s where s: "sum_rel d1 d2 s"
    using sum_rel_exists[OF f] unat_lt_width64[of "tf_total d"] by auto
  have "tf_total s = tf_total d"
    using s tot by (simp add: sum_rel_def word_eq_iff_unat)
  moreover have "checked_sum d1 d2 = Inr s" using f s by (simp add: checked_sum_iff)
  moreover have "tf_input s \<noteq> None \<longrightarrow> tf_input s = tf_input d"
    "tf_cached_input s \<noteq> None \<longrightarrow> tf_cached_input s = tf_cached_input d"
    "tf_cache_write_input s \<noteq> None \<longrightarrow> tf_cache_write_input s = tf_cache_write_input d"
    "tf_output s \<noteq> None \<longrightarrow> tf_output s = tf_output d"
    using r s unfolding diff_rel_def sum_rel_def by (blast intro: opt_diff_telescope[symmetric])+
  ultimately show ?thesis by blast
qed

theorem checked_delta_telescopes_witness:
  "\<exists>s. checked_sum (known_fact 5 3 1 0 2) (known_fact 7 5 2 1 2) = Inr s \<and> tf_total s = 12"
proof -
  have h: "checked_delta (known_fact 25 15 3 1 10) (known_fact 20 12 2 1 8) = Inr (known_fact 5 3 1 0 2)"
    "checked_delta (known_fact 32 20 5 2 12) (known_fact 25 15 3 1 10) = Inr (known_fact 7 5 2 1 2)"
    "checked_delta (known_fact 32 20 5 2 12) (known_fact 20 12 2 1 8) = Inr (known_fact 12 8 3 1 4)"
    by (simp_all add: token_eval)
  show ?thesis using checked_delta_telescopes[OF h] by auto
qed

end
