(* ===== verification/Recorded_Usage.thy ===== *)
theory Recorded_Usage
  imports Contract_Base Token_Facts
begin

text \<open>
  \<open>codex-info-rest-contract/src/recorded_usage.rs\<close>: local usage intervals, recording scopes,
  recorded model usage, and the persisted token prefixes, whose sums are decimal strings of up
  to 128 bits and whose differences recover the facts of a range.
\<close>

section \<open>Local usage intervals\<close>

definition MAX_END_EXCLUSIVE :: i64 where
  "MAX_END_EXCLUSIVE = 253402300800"

datatype LocalUsageState = Used | Unused | Unavailable

record LocalUsageInterval =
  lui_start_at :: i64
  lui_end_at :: i64
  lui_state :: LocalUsageState

record LocalUsage =
  lu_version :: u8
  lu_start_at :: i64
  lu_end_at :: i64
  lu_intervals :: "LocalUsageInterval list"

definition LocalUsage_unavailable :: "i64 \<Rightarrow> i64 \<Rightarrow> LocalUsage" where
  "LocalUsage_unavailable start_at end_at =
     \<lparr>lu_version = 1, lu_start_at = start_at, lu_end_at = end_at,
      lu_intervals = [\<lparr>lui_start_at = start_at, lui_end_at = end_at, lui_state = Unavailable\<rparr>]\<rparr>"

text \<open>The loop over the intervals: the final cursor, or the error.\<close>

fun check_intervals :: "i64 \<Rightarrow> i64 \<Rightarrow> LocalUsageInterval list \<Rightarrow> ContractError + i64" where
  "check_intervals end_at cursor [] = Inr cursor"
| "check_intervals end_at cursor (interval # rest) =
     (if lui_start_at interval \<noteq> cursor \<or> lui_end_at interval \<le> cursor \<or> lui_end_at interval > end_at
      then Inl InvalidPeriod
      else check_intervals end_at (lui_end_at interval) rest)"

definition LocalUsage_validate :: "LocalUsage \<Rightarrow> ContractError + unit" where
  "LocalUsage_validate self =
     (if lu_version self \<noteq> 1 \<or> lu_start_at self < 1 \<or> lu_start_at self \<ge> lu_end_at self \<or>
         lu_end_at self > MAX_END_EXCLUSIVE
      then Inl InvalidPeriod
      else try_res (check_intervals (lu_end_at self) (lu_start_at self) (lu_intervals self))
        (\<lambda>cursor. if cursor \<noteq> lu_end_at self then Inl InvalidPeriod else Inr ()))"

section \<open>Period identity and recording scopes\<close>

record PeriodIdentity =
  pi_state :: rstr
  pi_reason :: rstr

definition PeriodIdentity_default :: PeriodIdentity where
  "PeriodIdentity_default =
     \<lparr>pi_state = lit ''unknown'', pi_reason = lit ''provider-period-identity-unavailable''\<rparr>"

definition PeriodIdentity_validate :: "PeriodIdentity \<Rightarrow> ContractError + unit" where
  "PeriodIdentity_validate self =
     (if self \<noteq> PeriodIdentity_default then Inl InvalidPeriod else Inr ())"

datatype RecordingCoverage = Complete | Partial | Unknown

record RecordingScope =
  rs_kind :: rstr
  rs_start_at :: i64
  rs_end_at :: i64
  rs_coverage :: RecordingCoverage

definition RecordingScope_validate :: "RecordingScope \<Rightarrow> ContractError + unit" where
  "RecordingScope_validate self =
     (if rs_kind self \<noteq> lit ''recorded-time'' \<or> rs_start_at self < 1 \<or>
         rs_start_at self \<ge> rs_end_at self \<or> rs_end_at self > MAX_END_EXCLUSIVE
      then Inl InvalidTimestamp else Inr ())"

definition RecordingScope_new ::
    "i64 \<Rightarrow> i64 \<Rightarrow> RecordingCoverage \<Rightarrow> ContractError + RecordingScope" where
  "RecordingScope_new start_at end_at coverage =
     (let scope = \<lparr>rs_kind = lit ''recorded-time'', rs_start_at = start_at, rs_end_at = end_at,
                   rs_coverage = coverage\<rparr>
      in try_res (RecordingScope_validate scope) (\<lambda>_. Inr scope))"

definition RecordingScope_contains :: "RecordingScope \<Rightarrow> i64 \<Rightarrow> bool" where
  "RecordingScope_contains self timestamp \<longleftrightarrow>
     rs_start_at self \<le> timestamp \<and> timestamp < rs_end_at self"

section \<open>Recorded model usage\<close>

record RecordedModelUsage =
  rm_model :: rstr
  rm_total_tokens :: u64
  rm_input_tokens :: "u64 option"
  rm_cached_input_tokens :: "u64 option"
  rm_cache_write_input_tokens :: "u64 option"
  rm_output_tokens :: "u64 option"
  rm_estimated_cost :: "PublicModelCostV3 option"

definition RecordedModelUsage_tokens :: "RecordedModelUsage \<Rightarrow> TokenFacts" where
  "RecordedModelUsage_tokens self =
     \<lparr>tf_total = rm_total_tokens self, tf_input = rm_input_tokens self,
      tf_cached_input = rm_cached_input_tokens self,
      tf_cache_write_input = rm_cache_write_input_tokens self,
      tf_output = rm_output_tokens self\<rparr>"

definition RecordedModelUsage_validate :: "RecordedModelUsage \<Rightarrow> ContractError + unit" where
  "RecordedModelUsage_validate self =
     (if \<not> is_valid_public_model_name (rm_model self) then Inl InvalidModel
      else try_res (map_err InvalidNumber (validate_fact (RecordedModelUsage_tokens self))) (\<lambda>_.
        case rm_estimated_cost self of
          None \<Rightarrow> Inr ()
        | Some cost \<Rightarrow>
            if rm_input_tokens self = None \<or> rm_cached_input_tokens self = None \<or>
               rm_cache_write_input_tokens self = None \<or> rm_output_tokens self = None \<or>
               cost_price_version cost = [] \<or>
               list_ex (\<lambda>v. \<not> f64_is_finite v \<or> f64_lt v (F64_Finite 0))
                 [cost_ordinary_input_dollars cost, cost_cached_input_dollars cost,
                  cost_cache_write_input_dollars cost, cost_output_dollars cost,
                  cost_total_dollars cost]
            then Inl InvalidNumber else Inr ()))"

definition RecordedModelUsage_from_tokens :: "rstr \<Rightarrow> TokenFacts \<Rightarrow> ContractError + RecordedModelUsage" where
  "RecordedModelUsage_from_tokens model tokens =
     (let value = \<lparr>rm_model = model, rm_total_tokens = tf_total tokens,
                   rm_input_tokens = tf_input tokens,
                   rm_cached_input_tokens = tf_cached_input tokens,
                   rm_cache_write_input_tokens = tf_cache_write_input tokens,
                   rm_output_tokens = tf_output tokens, rm_estimated_cost = None\<rparr>
      in try_res (RecordedModelUsage_validate value) (\<lambda>_. Inr value))"

section \<open>Persisted token prefixes\<close>

record PrefixComponent =
  known_sum :: rstr
  unknown_count :: u64

definition PrefixComponent_default :: PrefixComponent where
  "PrefixComponent_default = \<lparr>known_sum = lit ''0'', unknown_count = 0\<rparr>"

record RecordedTokenPrefix =
  event_count :: u64
  pf_total :: rstr
  pf_input :: PrefixComponent
  pf_cached_input :: PrefixComponent
  pf_cache_write_input :: PrefixComponent
  pf_output :: PrefixComponent

definition RecordedTokenPrefix_default :: RecordedTokenPrefix where
  "RecordedTokenPrefix_default =
     \<lparr>event_count = 0, pf_total = lit ''0'', pf_input = PrefixComponent_default,
      pf_cached_input = PrefixComponent_default, pf_cache_write_input = PrefixComponent_default,
      pf_output = PrefixComponent_default\<rparr>"

definition quantity :: "rstr \<Rightarrow> ContractError + u128" where
  "quantity value =
     (case parse_uint (2 ^ 128) value of
        None \<Rightarrow> Inl InvalidNumber
      | Some parsed \<Rightarrow> if to_string parsed \<noteq> value then Inl InvalidNumber
                       else Inr (word_of_nat parsed))"

fun check_components :: "u128 \<Rightarrow> u64 \<Rightarrow> PrefixComponent list \<Rightarrow> ContractError + unit" where
  "check_components tot events [] = Inr ()"
| "check_components tot events (component # rest) =
     try_res (quantity (known_sum component)) (\<lambda>q.
       if q > tot \<or> unknown_count component > events then Inl InvalidNumber
       else check_components tot events rest)"

definition RecordedTokenPrefix_validate :: "RecordedTokenPrefix \<Rightarrow> ContractError + unit" where
  "RecordedTokenPrefix_validate self =
     try_res (quantity (pf_total self)) (\<lambda>tot.
     try_res (check_components tot (event_count self)
               [pf_input self, pf_cached_input self, pf_cache_write_input self, pf_output self]) (\<lambda>_.
     try_res (quantity (known_sum (pf_input self))) (\<lambda>inp.
     try_res (quantity (known_sum (pf_output self))) (\<lambda>out.
     try_res (ok_or InvalidNumber (checked_add inp out)) (\<lambda>components.
     try_res (quantity (known_sum (pf_cached_input self))) (\<lambda>c.
     try_res (quantity (known_sum (pf_cache_write_input self))) (\<lambda>w.
     try_res (ok_or InvalidNumber (checked_add c w)) (\<lambda>cached.
     if components > tot \<or>
        (unknown_count (pf_input self) = 0 \<and> unknown_count (pf_output self) = 0 \<and>
         components \<noteq> tot) \<or>
        cached > (if unknown_count (pf_input self) = 0 then inp else tot) \<or>
        (event_count self = 0 \<and> self \<noteq> RecordedTokenPrefix_default)
     then Inl InvalidNumber else Inr ()))))))))"

definition add_component :: "PrefixComponent \<Rightarrow> u64 option \<Rightarrow> ContractError + PrefixComponent" where
  "add_component component value =
     (case value of
        Some v \<Rightarrow>
          try_res (quantity (known_sum component)) (\<lambda>q.
          try_res (ok_or InvalidNumber (checked_add q (word_of_nat (unat v)))) (\<lambda>sum.
          Inr (component\<lparr>known_sum := to_string (unat sum)\<rparr>)))
      | None \<Rightarrow>
          try_res (ok_or InvalidNumber (checked_add (unknown_count component) 1)) (\<lambda>count.
          Inr (component\<lparr>unknown_count := count\<rparr>)))"

definition RecordedTokenPrefix_add ::
    "RecordedTokenPrefix \<Rightarrow> TokenFacts \<Rightarrow> ContractError + RecordedTokenPrefix" where
  "RecordedTokenPrefix_add self tokens =
     try_res (map_err InvalidNumber (validate_fact tokens)) (\<lambda>_.
     try_res (RecordedTokenPrefix_validate self) (\<lambda>_.
     try_res (ok_or InvalidNumber (checked_add (event_count self) 1)) (\<lambda>count.
     try_res (quantity (pf_total self)) (\<lambda>q.
     try_res (ok_or InvalidNumber (checked_add q (word_of_nat (unat (tf_total tokens))))) (\<lambda>tot.
     try_res (add_component (pf_input self) (tf_input tokens)) (\<lambda>inp.
     try_res (add_component (pf_cached_input self) (tf_cached_input tokens)) (\<lambda>cached.
     try_res (add_component (pf_cache_write_input self) (tf_cache_write_input tokens)) (\<lambda>writes.
     try_res (add_component (pf_output self) (tf_output tokens)) (\<lambda>out.
     let candidate = \<lparr>event_count = count, pf_total = to_string (unat tot), pf_input = inp,
                      pf_cached_input = cached, pf_cache_write_input = writes, pf_output = out\<rparr>
     in try_res (RecordedTokenPrefix_validate candidate) (\<lambda>_. Inr candidate))))))))))"

definition total_difference :: "rstr \<Rightarrow> rstr \<Rightarrow> ContractError + u64" where
  "total_difference after before =
     try_res (quantity after) (\<lambda>a.
     try_res (quantity before) (\<lambda>b.
     try_res (ok_or InvalidNumber (checked_sub a b)) (\<lambda>value.
     ok_or InvalidNumber (word_of_nat_checked (unat value)))))"

definition component_difference ::
    "PrefixComponent \<Rightarrow> PrefixComponent \<Rightarrow> ContractError + u64 option" where
  "component_difference after before =
     try_res (ok_or InvalidNumber (checked_sub (unknown_count after) (unknown_count before))) (\<lambda>unknown.
     try_res (quantity (known_sum after)) (\<lambda>a.
     try_res (quantity (known_sum before)) (\<lambda>b.
     try_res (ok_or InvalidNumber (checked_sub a b)) (\<lambda>known.
     if unknown = 0 then ok_or InvalidNumber (map_option Some (word_of_nat_checked (unat known)))
     else Inr None))))"

definition RecordedTokenPrefix_difference ::
    "RecordedTokenPrefix \<Rightarrow> RecordedTokenPrefix \<Rightarrow> ContractError + TokenFacts option" where
  "RecordedTokenPrefix_difference self before =
     try_res (RecordedTokenPrefix_validate self) (\<lambda>_.
     try_res (RecordedTokenPrefix_validate before) (\<lambda>_.
     try_res (ok_or InvalidNumber (checked_sub (event_count self) (event_count before))) (\<lambda>count.
     try_res (total_difference (pf_total self) (pf_total before)) (\<lambda>tot.
     try_res (component_difference (pf_input self) (pf_input before)) (\<lambda>inp.
     try_res (component_difference (pf_cached_input self) (pf_cached_input before)) (\<lambda>cached.
     try_res (component_difference (pf_cache_write_input self) (pf_cache_write_input before)) (\<lambda>writes.
     try_res (component_difference (pf_output self) (pf_output before)) (\<lambda>out.
     let tokens = \<lparr>tf_total = tot, tf_input = inp, tf_cached_input = cached,
                   tf_cache_write_input = writes, tf_output = out\<rparr>
     in if count = 0 then (if self \<noteq> before then Inl InvalidNumber else Inr None)
        else try_res (map_err InvalidNumber (validate_fact tokens)) (\<lambda>_. Inr (Some tokens))))))))))"

section \<open>What a prefix represents\<close>

text \<open>
  A prefix stands for the list of facts added so far: the number of events, the sum of the
  totals, and for each component the sum of the known values and the number of unknown ones.
\<close>

definition sum_total :: "TokenFacts list \<Rightarrow> nat" where
  "sum_total ts = sum_list (map (\<lambda>t. unat (tf_total t)) ts)"

definition sum_known :: "(TokenFacts \<Rightarrow> u64 option) \<Rightarrow> TokenFacts list \<Rightarrow> nat" where
  "sum_known f ts = sum_list (map (\<lambda>t. known_or_zero (f t)) ts)"

definition count_unknown :: "(TokenFacts \<Rightarrow> u64 option) \<Rightarrow> TokenFacts list \<Rightarrow> nat" where
  "count_unknown f ts = length (filter (\<lambda>t. f t = None) ts)"

definition comp_of :: "(TokenFacts \<Rightarrow> u64 option) \<Rightarrow> TokenFacts list \<Rightarrow> PrefixComponent" where
  "comp_of f ts = \<lparr>known_sum = to_string (sum_known f ts), unknown_count = word_of_nat (count_unknown f ts)\<rparr>"

definition prefix_of :: "TokenFacts list \<Rightarrow> RecordedTokenPrefix" where
  "prefix_of ts = \<lparr>event_count = word_of_nat (length ts), pf_total = to_string (sum_total ts),
     pf_input = comp_of tf_input ts, pf_cached_input = comp_of tf_cached_input ts,
     pf_cache_write_input = comp_of tf_cache_write_input ts, pf_output = comp_of tf_output ts\<rparr>"

abbreviation facts_ok :: "TokenFacts list \<Rightarrow> bool" where
  "facts_ok ts \<equiv> list_all (fact_arith True) ts \<and> length ts < 2 ^ 64"

lemma sum_simps [simp]:
  "sum_total [] = 0" "sum_total (t # ts) = unat (tf_total t) + sum_total ts"
  "sum_total (ts @ us) = sum_total ts + sum_total us"
  "sum_known f [] = 0" "sum_known f (t # ts) = known_or_zero (f t) + sum_known f ts"
  "sum_known f (ts @ us) = sum_known f ts + sum_known f us"
  "count_unknown f [] = 0"
  "count_unknown f (t # ts) = (if f t = None then 1 else 0) + count_unknown f ts"
  "count_unknown f (ts @ us) = count_unknown f ts + count_unknown f us"
  by (simp_all add: sum_total_def sum_known_def count_unknown_def)

lemma count_unknown_le: "count_unknown f ts \<le> length ts"
  by (simp add: count_unknown_def)

lemma unat_of_nat_small:
  "n < 2 ^ 64 \<Longrightarrow> unat (word_of_nat n :: u64) = n"
  "n < 2 ^ 128 \<Longrightarrow> unat (word_of_nat n :: u128) = n"
  by (simp_all add: unsigned_of_nat take_bit_nat_eq_self)

lemma unat_u64_lt128: "unat (a :: u64) < 2 ^ 128"
  using unat_lt_width64[of a] by simp

lemma unat_ucast128 [simp]: "unat (ucast (v :: u64) :: u128) = unat v"
proof -
  have "(ucast v :: u128) = word_of_nat (unat v)" by simp
  also have "unat \<dots> = unat v" using unat_u64_lt128 by (rule unat_of_nat_small(2))
  finally show ?thesis .
qed

lemma sum_known_le:
  assumes "list_all (fact_arith True) ts"
  shows "sum_known tf_input ts \<le> sum_total ts" and "sum_known tf_output ts \<le> sum_total ts"
    and "sum_known tf_cached_input ts \<le> sum_total ts"
    and "sum_known tf_cache_write_input ts \<le> sum_total ts"
  using assms by (induction ts) (auto dest: fact_components intro!: add_mono)

lemma sum_components_le:
  assumes "list_all (fact_arith True) ts"
  shows "sum_known tf_input ts + sum_known tf_output ts \<le> sum_total ts"
    and "count_unknown tf_input ts = 0 \<Longrightarrow> count_unknown tf_output ts = 0 \<Longrightarrow>
         sum_known tf_input ts + sum_known tf_output ts = sum_total ts"
  using assms by (induction ts) (auto simp: fact_arith_def split: if_splits)

lemma sum_discounted_le:
  assumes "list_all (fact_arith True) ts"
  shows "sum_known tf_cached_input ts + sum_known tf_cache_write_input ts \<le> sum_total ts"
    and "count_unknown tf_input ts = 0 \<Longrightarrow>
         sum_known tf_cached_input ts + sum_known tf_cache_write_input ts \<le> sum_known tf_input ts"
proof -
  show "sum_known tf_cached_input ts + sum_known tf_cache_write_input ts \<le> sum_total ts"
    using assms
  proof (induction ts)
    case (Cons t ts)
    then have "fact_arith True t" by simp
    from fact_room[OF this] this
    have "known_or_zero (tf_cached_input t) + known_or_zero (tf_cache_write_input t) \<le> unat (tf_total t)"
      by (simp add: fact_arith_def)
    with Cons show ?case by simp
  qed simp
  show "count_unknown tf_input ts = 0 \<Longrightarrow>
      sum_known tf_cached_input ts + sum_known tf_cache_write_input ts \<le> sum_known tf_input ts"
    using assms
    by (induction ts) (auto simp: fact_arith_def input_room_def split: if_splits)
qed

text \<open>With at most \<open>2 ^ 64 - 1\<close> events, the 128-bit sums never overflow.\<close>

lemma sum_total_bound: "sum_total ts \<le> length ts * (2 ^ 64 - 1)"
proof (induction ts)
  case (Cons t ts)
  then show ?case using unat_lt_width64[of "tf_total t"] by simp
qed simp

lemma sum_total_fits: "length ts < 2 ^ 64 \<Longrightarrow> sum_total ts < 2 ^ 128"
proof -
  assume "length ts < 2 ^ 64"
  then have "length ts * (2 ^ 64 - 1) \<le> (2 ^ 64 - 1) * (2 ^ 64 - 1)"
    by (intro mult_right_mono) simp_all
  also have "\<dots> < (2 ^ 128 :: nat)" by simp
  finally show ?thesis using sum_total_bound[of ts] by simp
qed

lemma quantity_to_string [simp]: "n < 2 ^ 128 \<Longrightarrow> quantity (to_string n) = Inr (word_of_nat n)"
  by (simp add: quantity_def parse_uint_to_string)

lemma quantity_iff: "quantity s = Inr q \<longleftrightarrow> s = to_string (unat q)"
proof
  assume "quantity s = Inr q"
  then obtain n where "parse_uint (2 ^ 128) s = Some n" "to_string n = s" "q = word_of_nat n"
    by (auto simp: quantity_def split: option.splits if_splits)
  moreover from this have "n < 2 ^ 128"
    by (auto simp: parse_uint_def Let_def split: if_splits)
  ultimately show "s = to_string (unat q)" by (simp add: unat_of_nat_small)
next
  assume "s = to_string (unat q)"
  then show "quantity s = Inr q"
    using unat_lt_width[of q] quantity_to_string[of "unat q"] by simp
qed

lemma prefix_of_Nil: "prefix_of [] = RecordedTokenPrefix_default"
  by (simp add: prefix_of_def RecordedTokenPrefix_default_def PrefixComponent_default_def
      comp_of_def to_string.simps lit_def)

text \<open>The facts about a valid list that bound every number of its prefix.\<close>

lemma facts_ok_bounds:
  assumes "facts_ok ts"
  shows "sum_total ts < 2 ^ 128"
    and "sum_known tf_input ts < 2 ^ 128" and "sum_known tf_output ts < 2 ^ 128"
    and "sum_known tf_cached_input ts < 2 ^ 128" and "sum_known tf_cache_write_input ts < 2 ^ 128"
    and "count_unknown f ts < 2 ^ 64"
proof -
  show t: "sum_total ts < 2 ^ 128" using assms sum_total_fits by blast
  note k = sum_known_le[of ts]
  show "sum_known tf_input ts < 2 ^ 128" "sum_known tf_output ts < 2 ^ 128"
    "sum_known tf_cached_input ts < 2 ^ 128" "sum_known tf_cache_write_input ts < 2 ^ 128"
    using k assms t by (meson le_less_trans)+
  show "count_unknown f ts < 2 ^ 64" using assms count_unknown_le[of f ts] by linarith
qed

lemma check_components_ok:
  "(\<And>f. f \<in> set fs \<Longrightarrow> sum_known f ts \<le> n) \<Longrightarrow> n < 2 ^ 128 \<Longrightarrow> length ts < 2 ^ 64 \<Longrightarrow>
   check_components (word_of_nat n) (word_of_nat (length ts)) (map (\<lambda>f. comp_of f ts) fs) = Inr ()"
proof (induction fs)
  case (Cons f fs)
  have k: "sum_known f ts < 2 ^ 128" using Cons.prems(1)[of f] Cons.prems(2) by simp
  have "\<not> (word_of_nat (sum_known f ts) :: u128) > word_of_nat n"
    using Cons.prems(1)[of f] Cons.prems(2) k by (simp add: word_less_nat_alt unat_of_nat_small not_less)
  moreover have "\<not> (word_of_nat (count_unknown f ts) :: u64) > word_of_nat (length ts)"
    using Cons.prems(3) count_unknown_le[of f ts] le_less_trans[OF count_unknown_le[of f ts] Cons.prems(3)]
    by (simp only: word_less_nat_alt unat_of_nat_small not_less)
  ultimately show ?case using Cons k by (simp add: comp_of_def)
qed simp

lemma validate_prefix_of:
  assumes ok: "facts_ok ts"
  shows "RecordedTokenPrefix_validate (prefix_of ts) = Inr ()"
proof -
  note b = facts_ok_bounds[OF ok]
  have all: "list_all (fact_arith True) ts" using ok by simp
  note le = sum_known_le[OF all] sum_components_le[OF all] sum_discounted_le[OF all]
  have comps: "check_components (word_of_nat (sum_total ts)) (word_of_nat (length ts))
      [comp_of tf_input ts, comp_of tf_cached_input ts, comp_of tf_cache_write_input ts, comp_of tf_output ts] = Inr ()"
    using check_components_ok[of "[tf_input, tf_cached_input, tf_cache_write_input, tf_output]" ts "sum_total ts"]
      le(1-4) b(1) ok by auto
  have io: "checked_add (word_of_nat (sum_known tf_input ts) :: u128) (word_of_nat (sum_known tf_output ts))
      = Some (word_of_nat (sum_known tf_input ts + sum_known tf_output ts))"
    using le(5) b by (simp add: checked_add_eq_Some unat_of_nat_small del: of_nat_add)
  have cw: "checked_add (word_of_nat (sum_known tf_cached_input ts) :: u128) (word_of_nat (sum_known tf_cache_write_input ts))
      = Some (word_of_nat (sum_known tf_cached_input ts + sum_known tf_cache_write_input ts))"
    using le(7) b by (simp add: checked_add_eq_Some unat_of_nat_small del: of_nat_add)
  have u0: "(word_of_nat (count_unknown f ts) :: u64) = 0 \<longleftrightarrow> count_unknown f ts = 0" for f
    using b(6)[of f] by (simp add: word_eq_iff_unat unat_of_nat_small)
  have e0: "(word_of_nat (length ts) :: u64) = 0 \<longleftrightarrow> ts = []"
    using ok by (simp add: word_eq_iff_unat unat_of_nat_small)
  let ?s = "word_of_nat (sum_known tf_input ts + sum_known tf_output ts) :: u128"
  let ?d = "word_of_nat (sum_known tf_cached_input ts + sum_known tf_cache_write_input ts) :: u128"
  have w: "\<not> ?s > word_of_nat (sum_total ts)"
    "count_unknown tf_input ts = 0 \<Longrightarrow> count_unknown tf_output ts = 0 \<Longrightarrow> ?s = word_of_nat (sum_total ts)"
    "count_unknown tf_input ts = 0 \<Longrightarrow> \<not> ?d > word_of_nat (sum_known tf_input ts)"
    "\<not> ?d > word_of_nat (sum_total ts)"
    using le b by (simp_all add: word_less_nat_alt unat_of_nat_small not_less del: of_nat_add)
  show ?thesis
    using comps io cw w b
    by (simp add: RecordedTokenPrefix_validate_def prefix_of_def comp_of_def u0 e0 del: of_nat_add)
      (auto simp: RecordedTokenPrefix_default_def PrefixComponent_default_def to_string.simps lit_def)
qed

lemma add_component_of:
  assumes "sum_known f (ts @ [t]) < 2 ^ 128" and "length (ts @ [t]) < 2 ^ 64"
  shows "add_component (comp_of f ts) (f t) = Inr (comp_of f (ts @ [t]))"
proof (cases "f t")
  case None
  have "count_unknown f ts + 1 < 2 ^ 64" using assms(2) count_unknown_le[of f ts] by simp
  then have "checked_add (word_of_nat (count_unknown f ts) :: u64) 1 = Some (word_of_nat (count_unknown f ts + 1))"
    by (simp add: checked_add_eq_Some unat_of_nat_small del: of_nat_add of_nat_Suc)
  with None show ?thesis by (simp add: add_component_def comp_of_def)
next
  case (Some v)
  have fits: "sum_known f ts + unat v < 2 ^ 128" using assms(1) Some by simp
  then have "checked_add (word_of_nat (sum_known f ts) :: u128) (word_of_nat (unat v))
      = Some (word_of_nat (sum_known f ts + unat v))"
    using unat_u64_lt128[of v] by (simp add: checked_add_eq_Some unat_of_nat_small del: of_nat_add)
  with Some fits show ?thesis
    by (simp add: add_component_def comp_of_def unat_of_nat_small del: of_nat_add)
qed

lemma prefix_add_of:
  assumes "facts_ok (ts @ [t])"
  shows "RecordedTokenPrefix_add (prefix_of ts) t = Inr (prefix_of (ts @ [t]))"
proof -
  have ok: "facts_ok ts" "fact_arith True t" and len: "length (ts @ [t]) < 2 ^ 64" using assms by auto
  note b = facts_ok_bounds[OF assms]
  have count: "checked_add (word_of_nat (length ts) :: u64) 1 = Some (word_of_nat (length (ts @ [t])))"
    using len by (simp add: checked_add_eq_Some unat_of_nat_small del: of_nat_add of_nat_Suc)
  have tot: "checked_add (word_of_nat (sum_total ts) :: u128) (word_of_nat (unat (tf_total t)))
      = Some (word_of_nat (sum_total (ts @ [t])))"
    using b(1) unat_u64_lt128[of "tf_total t"]
    by (simp add: checked_add_eq_Some unat_of_nat_small del: of_nat_add)
  have valid: "RecordedTokenPrefix_validate (prefix_of (ts @ [t])) = Inr ()"
    "RecordedTokenPrefix_validate (prefix_of ts) = Inr ()" "validate_fact t = Inr ()"
    using assms ok by (simp_all add: validate_prefix_of result_unit_eq)
  have c: "add_component (comp_of f ts) (f t) = Inr (comp_of f (ts @ [t]))"
    if "f \<in> {tf_input, tf_cached_input, tf_cache_write_input, tf_output}" for f
    using that b len by (intro add_component_of) auto
  have pf: "pf_total (prefix_of ts) = to_string (sum_total ts)" "event_count (prefix_of ts) = word_of_nat (length ts)"
    "pf_input (prefix_of ts) = comp_of tf_input ts" "pf_cached_input (prefix_of ts) = comp_of tf_cached_input ts"
    "pf_cache_write_input (prefix_of ts) = comp_of tf_cache_write_input ts"
    "pf_output (prefix_of ts) = comp_of tf_output ts"
    by (simp_all add: prefix_of_def)
  have cand: "\<lparr>event_count = word_of_nat (length (ts @ [t])),
      pf_total = to_string (unat (word_of_nat (sum_total (ts @ [t])) :: u128)),
      pf_input = comp_of tf_input (ts @ [t]), pf_cached_input = comp_of tf_cached_input (ts @ [t]),
      pf_cache_write_input = comp_of tf_cache_write_input (ts @ [t]),
      pf_output = comp_of tf_output (ts @ [t])\<rparr> = prefix_of (ts @ [t])"
    using unat_of_nat_small(2)[OF b(1)] by (simp only: prefix_of_def)
  have q: "quantity (to_string (sum_total ts)) = Inr (word_of_nat (sum_total ts))"
    using facts_ok_bounds(1)[OF ok(1)] by simp
  show ?thesis
    unfolding RecordedTokenPrefix_add_def pf valid count q tot map_err_simps try_res_simps ok_or_simps
    using c[of tf_input] c[of tf_cached_input] c[of tf_cache_write_input] c[of tf_output] cand valid(1)
    by (simp add: Let_def del: of_nat_add of_nat_Suc sum_simps length_append)
qed

text \<open>Adding succeeds on the prefix of a list exactly for a valid fact within the event count.\<close>

lemma prefix_add_ok_iff:
  assumes "facts_ok ts"
  shows "RecordedTokenPrefix_add (prefix_of ts) t = Inr p \<longleftrightarrow> facts_ok (ts @ [t]) \<and> p = prefix_of (ts @ [t])"
proof
  assume add: "RecordedTokenPrefix_add (prefix_of ts) t = Inr p"
  then have "validate_fact t = Inr ()" and "\<exists>c. checked_add (event_count (prefix_of ts)) 1 = Some c"
    by (auto simp: RecordedTokenPrefix_add_def result_simps)
  then obtain c :: u64 where "fact_arith True t" and "unat c = unat (event_count (prefix_of ts)) + 1"
    by (auto simp: result_unit_eq checked_simps)
  then have "facts_ok (ts @ [t])"
    using assms unat_lt_width64[of c] by (simp add: prefix_of_def unat_of_nat_small)
  with add prefix_add_of[of ts t] show "facts_ok (ts @ [t]) \<and> p = prefix_of (ts @ [t])" by simp
qed (simp add: prefix_add_of del: list_all_append)

lemma prefix_fold_iff:
  "facts_ok ts \<Longrightarrow> fold_res RecordedTokenPrefix_add (prefix_of ts) us = Inr p \<longleftrightarrow>
     facts_ok (ts @ us) \<and> p = prefix_of (ts @ us)"
proof (induction us arbitrary: ts)
  case (Cons u us)
  have "fold_res RecordedTokenPrefix_add (prefix_of ts) (u # us) = Inr p \<longleftrightarrow>
      facts_ok (ts @ [u]) \<and> fold_res RecordedTokenPrefix_add (prefix_of (ts @ [u])) us = Inr p"
    by (simp only: fold_res.simps try_res_eq_Inr prefix_add_ok_iff[OF Cons.prems]) blast
  also have "\<dots> \<longleftrightarrow> facts_ok (ts @ [u]) \<and> facts_ok ((ts @ [u]) @ us) \<and> p = prefix_of ((ts @ [u]) @ us)"
    using Cons.IH[of "ts @ [u]"] by blast
  finally show ?case by auto
qed auto

section \<open>Ranges\<close>

text \<open>The sum of a list of facts: a component is known when every fact knows it.\<close>

definition range_component :: "(TokenFacts \<Rightarrow> u64 option) \<Rightarrow> TokenFacts list \<Rightarrow> u64 option" where
  "range_component f us = (if count_unknown f us = 0 then Some (word_of_nat (sum_known f us)) else None)"

definition range_sum :: "TokenFacts list \<Rightarrow> TokenFacts" where
  "range_sum us = \<lparr>tf_total = word_of_nat (sum_total us), tf_input = range_component tf_input us,
     tf_cached_input = range_component tf_cached_input us,
     tf_cache_write_input = range_component tf_cache_write_input us,
     tf_output = range_component tf_output us\<rparr>"

lemma range_component_snoc:
  assumes "sum_known f us + known_or_zero (f u) < 2 ^ 64"
  shows "opt_sum (range_component f us) (f u) (range_component f (us @ [u]))"
  using assms
  by (cases "f u") (auto simp: opt_sum_def range_component_def unat_of_nat_small simp del: of_nat_add)

lemma range_sum_snoc:
  assumes "list_all (fact_arith True) (us @ [u])" and "sum_total (us @ [u]) < 2 ^ 64"
  shows "sum_rel (range_sum us) u (range_sum (us @ [u]))"
proof -
  have all: "list_all (fact_arith True) (us @ [u])" using assms(1) .
  note k = sum_known_le[OF all]
  have c: "opt_sum (range_component f us) (f u) (range_component f (us @ [u]))"
    if "f \<in> {tf_input, tf_cached_input, tf_cache_write_input, tf_output}" for f
  proof (rule range_component_snoc)
    have "sum_known f (us @ [u]) \<le> sum_total (us @ [u])" using that k by auto
    then show "sum_known f us + known_or_zero (f u) < 2 ^ 64" using assms(2) by simp
  qed
  have "unat (word_of_nat (sum_total (us @ [u])) :: u64) = unat (word_of_nat (sum_total us) :: u64) + unat (tf_total u)"
    using assms(2) by (simp add: unat_of_nat_small del: of_nat_add)
  with c show ?thesis by (simp add: sum_rel_def range_sum_def del: sum_simps)
qed

lemma range_sum_single: "range_sum [u] = u"
proof -
  have "range_component f [u] = f u" for f
    by (cases "f u") (simp_all add: range_component_def)
  then show ?thesis by (cases u) (simp add: range_sum_def)
qed

lemma range_sum_fact:
  "list_all (fact_arith True) (u # us) \<Longrightarrow> sum_total (u # us) < 2 ^ 64 \<Longrightarrow>
   fact_arith True (range_sum (u # us)) \<and> fold_res checked_sum u us = Inr (range_sum (u # us))"
proof (induction us rule: rev_induct)
  case Nil
  then show ?case by (simp add: range_sum_single)
next
  case (snoc x us)
  then have "fact_arith True (range_sum (u # us))" "fold_res checked_sum u us = Inr (range_sum (u # us))"
    and r: "sum_rel (range_sum (u # us)) x (range_sum ((u # us) @ [x]))" and "fact_arith True x"
    using range_sum_snoc[of "u # us" x] by simp_all
  moreover from this have "checked_sum (range_sum (u # us)) x = Inr (range_sum ((u # us) @ [x]))"
    by (simp add: checked_sum_iff)
  ultimately show ?case using sum_rel_fact[OF _ _ r] by (simp add: fold_res_append)
qed

lemma fold_sum_total:
  "fold_res checked_sum u us = Inr s \<Longrightarrow> unat (tf_total s) = sum_total (u # us)"
proof (induction us arbitrary: s rule: rev_induct)
  case (snoc x us)
  then show ?case by (auto simp: fold_res_append result_simps checked_sum_iff sum_rel_def)
qed simp

lemma fold_sum_overflow:
  assumes "\<not> sum_total (u # us) < 2 ^ 64"
  shows "\<exists>e. fold_res checked_sum u us = Inl e"
proof (cases "fold_res checked_sum u us")
  case (Inr s)
  with fold_sum_total[OF Inr] assms unat_lt_width64[of "tf_total s"] show ?thesis by simp
qed simp

lemma total_difference_of:
  assumes "a + b < 2 ^ 128"
  shows "total_difference (to_string (a + b)) (to_string a) =
    (if b < 2 ^ 64 then Inr (word_of_nat b) else Inl InvalidNumber)"
proof -
  have "checked_sub (word_of_nat (a + b) :: u128) (word_of_nat a) = Some (word_of_nat b)"
    using assms by (simp add: checked_sub_eq_Some unat_of_nat_small del: of_nat_add)
  then show ?thesis
    using assms by (simp add: total_difference_def word_of_nat_checked_def unat_of_nat_small del: of_nat_add)
qed

lemma component_difference_of:
  assumes "sum_known f (ts @ us) < 2 ^ 128" and "length (ts @ us) < 2 ^ 64"
    and "sum_known f us < 2 ^ 64"
  shows "component_difference (comp_of f (ts @ us)) (comp_of f ts) = Inr (range_component f us)"
proof -
  have n: "count_unknown f (ts @ us) < 2 ^ 64" using assms(2) count_unknown_le[of f "ts @ us"] by linarith
  then have "checked_sub (word_of_nat (count_unknown f (ts @ us)) :: u64) (word_of_nat (count_unknown f ts))
      = Some (word_of_nat (count_unknown f us))"
    by (simp add: checked_sub_eq_Some unat_of_nat_small del: of_nat_add)
  moreover have "(word_of_nat (count_unknown f us) :: u64) = 0 \<longleftrightarrow> count_unknown f us = 0"
    using n by (simp add: word_eq_iff_unat unat_of_nat_small)
  moreover have "checked_sub (word_of_nat (sum_known f (ts @ us)) :: u128) (word_of_nat (sum_known f ts))
      = Some (word_of_nat (sum_known f us))"
    using assms(1) by (simp add: checked_sub_eq_Some unat_of_nat_small del: of_nat_add)
  moreover have "unat (word_of_nat (sum_known f us) :: u128) = sum_known f us"
    using assms(1) by (intro unat_of_nat_small) simp
  ultimately show ?thesis
    using assms(1,3) by (simp add: component_difference_def comp_of_def word_of_nat_checked_def
        range_component_def del: of_nat_add)
qed

lemma difference_setup:
  assumes "facts_ok (ts @ us)"
  shows "RecordedTokenPrefix_validate (prefix_of (ts @ us)) = Inr ()"
    and "RecordedTokenPrefix_validate (prefix_of ts) = Inr ()"
    and "checked_sub (event_count (prefix_of (ts @ us))) (event_count (prefix_of ts)) = Some (word_of_nat (length us))"
    and "(word_of_nat (length us) :: u64) = 0 \<longleftrightarrow> us = []"
    and "total_difference (pf_total (prefix_of (ts @ us))) (pf_total (prefix_of ts)) =
      (if sum_total us < 2 ^ 64 then Inr (word_of_nat (sum_total us)) else Inl InvalidNumber)"
proof -
  show "RecordedTokenPrefix_validate (prefix_of (ts @ us)) = Inr ()"
    using assms by (rule validate_prefix_of)
  show "RecordedTokenPrefix_validate (prefix_of ts) = Inr ()"
    using assms by (intro validate_prefix_of) auto
  show "checked_sub (event_count (prefix_of (ts @ us))) (event_count (prefix_of ts)) = Some (word_of_nat (length us))"
    using assms by (simp add: prefix_of_def checked_sub_eq_Some unat_of_nat_small del: of_nat_add)
  show "(word_of_nat (length us) :: u64) = 0 \<longleftrightarrow> us = []"
    using assms by (simp add: word_eq_iff_unat unat_of_nat_small)
  show "total_difference (pf_total (prefix_of (ts @ us))) (pf_total (prefix_of ts)) =
      (if sum_total us < 2 ^ 64 then Inr (word_of_nat (sum_total us)) else Inl InvalidNumber)"
    using total_difference_of[of "sum_total ts" "sum_total us"] facts_ok_bounds(1)[OF assms]
    by (simp add: prefix_of_def)
qed

lemma difference_components:
  assumes "facts_ok (ts @ us)" and "sum_total us < 2 ^ 64"
  shows "component_difference (pf_input (prefix_of (ts @ us))) (pf_input (prefix_of ts))
      = Inr (range_component tf_input us)"
    and "component_difference (pf_cached_input (prefix_of (ts @ us))) (pf_cached_input (prefix_of ts))
      = Inr (range_component tf_cached_input us)"
    and "component_difference (pf_cache_write_input (prefix_of (ts @ us))) (pf_cache_write_input (prefix_of ts))
      = Inr (range_component tf_cache_write_input us)"
    and "component_difference (pf_output (prefix_of (ts @ us))) (pf_output (prefix_of ts))
      = Inr (range_component tf_output us)"
proof -
  note b = facts_ok_bounds[OF assms(1)]
  have "list_all (fact_arith True) us" using assms(1) by simp
  from sum_known_le[OF this] assms(2)
  have k: "sum_known tf_input us < 2 ^ 64" "sum_known tf_output us < 2 ^ 64"
    "sum_known tf_cached_input us < 2 ^ 64" "sum_known tf_cache_write_input us < 2 ^ 64"
    by (meson le_less_trans)+
  show "component_difference (pf_input (prefix_of (ts @ us))) (pf_input (prefix_of ts))
      = Inr (range_component tf_input us)"
    "component_difference (pf_cached_input (prefix_of (ts @ us))) (pf_cached_input (prefix_of ts))
      = Inr (range_component tf_cached_input us)"
    "component_difference (pf_cache_write_input (prefix_of (ts @ us))) (pf_cache_write_input (prefix_of ts))
      = Inr (range_component tf_cache_write_input us)"
    "component_difference (pf_output (prefix_of (ts @ us))) (pf_output (prefix_of ts))
      = Inr (range_component tf_output us)"
    using component_difference_of[OF b(2) conjunct2[OF assms(1)] k(1)]
      component_difference_of[OF b(4) conjunct2[OF assms(1)] k(3)]
      component_difference_of[OF b(5) conjunct2[OF assms(1)] k(4)]
      component_difference_of[OF b(3) conjunct2[OF assms(1)] k(2)]
    by (simp_all add: prefix_of_def)
qed

lemma prefix_difference_of:
  assumes ok: "facts_ok (ts @ us)"
  shows "RecordedTokenPrefix_difference (prefix_of (ts @ us)) (prefix_of ts) =
    (case us of [] \<Rightarrow> Inr None
     | u # rest \<Rightarrow> try_res (map_err InvalidNumber (fold_res checked_sum u rest)) (\<lambda>s. Inr (Some s)))"
proof (cases "sum_total us < 2 ^ 64")
  case False
  then obtain u rest where us: "us = u # rest" by (cases us) auto
  from False obtain e where "fold_res checked_sum u rest = Inl e"
    using fold_sum_overflow us by blast
  moreover have "RecordedTokenPrefix_difference (prefix_of (ts @ us)) (prefix_of ts) = Inl InvalidNumber"
    using False by (simp add: RecordedTokenPrefix_difference_def difference_setup[OF ok])
  ultimately show ?thesis using us by simp
next
  case True
  have eq: "RecordedTokenPrefix_difference (prefix_of (ts @ us)) (prefix_of ts) =
      (if us = [] then Inr None
       else try_res (map_err InvalidNumber (validate_fact (range_sum us))) (\<lambda>_. Inr (Some (range_sum us))))"
    using True by (simp add: RecordedTokenPrefix_difference_def difference_setup[OF ok]
        difference_components[OF ok True] Let_def range_sum_def[symmetric])
  show ?thesis
  proof (cases us)
    case (Cons u rest)
    then have "fact_arith True (range_sum us)" "fold_res checked_sum u rest = Inr (range_sum us)"
      using True ok range_sum_fact[of u rest] by auto
    moreover from this(1) have "validate_fact (range_sum us) = Inr ()"
      by (simp add: fact_ok result_unit_eq)
    ultimately show ?thesis unfolding eq using Cons by simp
  next
    case Nil
    then show ?thesis using eq by simp
  qed
qed

lemma prefix_fold_default:
  "fold_res RecordedTokenPrefix_add RecordedTokenPrefix_default ts = Inr p \<longleftrightarrow>
     facts_ok ts \<and> p = prefix_of ts"
  using prefix_fold_iff[of "[]" ts p] by (simp add: prefix_of_Nil)

lemma check_intervals_partition:
  "check_intervals end_at cursor ivs = Inr c \<Longrightarrow>
     cursor \<le> c \<and>
     (\<forall>t. length (filter (\<lambda>iv. lui_start_at iv \<le> t \<and> t < lui_end_at iv) ivs) =
        (if cursor \<le> t \<and> t < c then 1 else 0))"
proof (induction ivs arbitrary: cursor)
  case (Cons iv ivs)
  then have iv: "lui_start_at iv = cursor" "cursor < lui_end_at iv"
    and rest: "check_intervals end_at (lui_end_at iv) ivs = Inr c"
    by (auto simp: result_simps split: if_splits)
  note ih = Cons.IH[OF rest]
  show ?case
  proof (intro conjI allI)
    fix t
    show "length (filter (\<lambda>iv. lui_start_at iv \<le> t \<and> t < lui_end_at iv) (iv # ivs)) =
        (if cursor \<le> t \<and> t < c then 1 else 0)"
      using conjunct1[OF ih] spec[OF conjunct2[OF ih], of t] iv
      by (auto simp del: length_0_conv)
  qed (use ih iv in simp)
qed auto

section \<open>Properties\<close>

text \<open>
  A prefix can always grow: adding a list of facts to the empty prefix succeeds exactly
  when every fact is valid and the events fit the 64-bit count. The 128-bit decimal sums never
  overflow, and the validation after each step never rejects what the additions built.
\<close>

theorem prefix_add_total:
  "is_ok (fold_res RecordedTokenPrefix_add RecordedTokenPrefix_default ts) \<longleftrightarrow>
     list_all (\<lambda>t. is_ok (validate_fact t)) ts \<and> length ts < 2 ^ 64"
  unfolding is_ok_iff[of "fold_res RecordedTokenPrefix_add RecordedTokenPrefix_default ts"]
    prefix_fold_default fact_ok by blast

text \<open>
  C22. Ranges: the difference of two persisted prefixes is the checked sum of exactly the facts
  added between them, with the components that all of them know. It is absent for an empty
  range, and an error exactly when that sum does not fit into 64 bits, however large the
  totals before the range are.
\<close>

theorem prefix_difference_is_range_sum:
  assumes "fold_res RecordedTokenPrefix_add RecordedTokenPrefix_default ts = Inr before"
    and "fold_res RecordedTokenPrefix_add before us = Inr after"
  shows "RecordedTokenPrefix_difference after before =
    (case us of [] \<Rightarrow> Inr None
     | u # rest \<Rightarrow> try_res (map_err InvalidNumber (fold_res checked_sum u rest)) (\<lambda>s. Inr (Some s)))"
proof -
  from assms(1) have b: "facts_ok ts" "before = prefix_of ts" by (auto simp: prefix_fold_default)
  with assms(2) have "facts_ok (ts @ us)" "after = prefix_of (ts @ us)"
    using prefix_fold_iff[of ts us after] by auto
  with b show ?thesis using prefix_difference_of[of ts us] by simp
qed

theorem prefix_difference_is_range_sum_witness:
  "\<exists>before after.
     fold_res RecordedTokenPrefix_add RecordedTokenPrefix_default [known_fact 10 8 2 0 2] = Inr before \<and>
     fold_res RecordedTokenPrefix_add before [known_fact 5 4 1 0 1, known_fact 7 5 2 1 2] = Inr after \<and>
     RecordedTokenPrefix_difference after before = Inr (Some (known_fact 12 9 3 1 3))"
proof -
  let ?ts = "[known_fact 10 8 2 0 2]" and ?us = "[known_fact 5 4 1 0 1, known_fact 7 5 2 1 2]"
  have "facts_ok (?ts @ ?us)" by (simp add: fact_arith_def input_room_def)
  then have h: "fold_res RecordedTokenPrefix_add RecordedTokenPrefix_default ?ts = Inr (prefix_of ?ts)"
    "fold_res RecordedTokenPrefix_add (prefix_of ?ts) ?us = Inr (prefix_of (?ts @ ?us))"
    using prefix_fold_default[of ?ts "prefix_of ?ts"] prefix_fold_iff[of ?ts ?us "prefix_of (?ts @ ?us)"]
    by auto
  have "fold_res checked_sum (known_fact 5 4 1 0 1) [known_fact 7 5 2 1 2] = Inr (known_fact 12 9 3 1 3)"
    by (simp add: token_eval)
  with prefix_difference_is_range_sum[OF h] h show ?thesis by auto
qed

text \<open>
  C23. Local usage is a partition: when the validation accepts, every second of the range lies
  in exactly one interval and no interval covers a second outside it.
\<close>

theorem local_usage_partition:
  assumes "LocalUsage_validate u = Inr ()"
  shows "length (filter (\<lambda>iv. lui_start_at iv \<le> t \<and> t < lui_end_at iv) (lu_intervals u)) =
    (if lu_start_at u \<le> t \<and> t < lu_end_at u then 1 else 0)"
  using assms check_intervals_partition[of "lu_end_at u" "lu_start_at u" "lu_intervals u" "lu_end_at u"]
  by (auto simp: LocalUsage_validate_def result_simps split: if_splits)

theorem local_usage_partition_witness:
  "LocalUsage_validate (LocalUsage_unavailable 60 120) = Inr () \<and>
   length (filter (\<lambda>iv. lui_start_at iv \<le> 90 \<and> 90 < lui_end_at iv)
     (lu_intervals (LocalUsage_unavailable 60 120))) = 1"
proof -
  have h: "LocalUsage_validate (LocalUsage_unavailable 60 120) = Inr ()"
    by (simp add: LocalUsage_validate_def LocalUsage_unavailable_def MAX_END_EXCLUSIVE_def)
  show ?thesis using h local_usage_partition[OF h, of 90] by (simp add: LocalUsage_unavailable_def)
qed

end
