(* ===== verification/Runtime_Contract.thy ===== *)
theory Runtime_Contract
  imports Contract_Base
begin

text \<open>
  The identities and period derivations of \<open>codex-info-rest-contract/src/lib.rs\<close>: the opaque
  pair of a publisher's epoch and counter, the versions of the two processes, and the bounds of
  the current quota period.
\<close>

unbundle bit_operations_syntax

section \<open>Published pairs\<close>

definition API_VERSION :: rstr where "API_VERSION = lit ''v1''"
definition API_VERSION_V2 :: rstr where "API_VERSION_V2 = lit ''v2''"
definition API_VERSION_V3 :: rstr where "API_VERSION_V3 = lit ''v3''"

record PublishedPair =
  identity :: rstr

definition HEX :: rstr where
  "HEX = lit ''0123456789abcdef''"

text \<open>
  The epoch is the source's array of sixteen bytes. Both loops push one digit of \<open>HEX\<close> for each
  nibble, the most significant one first.
\<close>

definition from_epoch_counter :: "u8 list \<Rightarrow> u128 \<Rightarrow> PublishedPair" where
  "from_epoch_counter epoch counter =
     \<lparr>identity = lit ''v1:''
        @ concat (map (\<lambda>byte. [HEX ! unat (drop_bit 4 byte), HEX ! unat (byte AND 0x0F)]) epoch)
        @ map (\<lambda>shift. HEX ! unat (drop_bit (shift * 4) counter AND 0x0F)) (rev [0..<32])\<rparr>"

section \<open>Runtime versions\<close>

record PublicRuntimeVersions =
  rv_api_version :: rstr
  rv_rest_version :: rstr
  rv_recorder_version :: "rstr option"
  rv_recorder_status :: rstr

definition PublicRuntimeVersions_new :: "rstr \<Rightarrow> rstr option \<Rightarrow> PublicRuntimeVersions" where
  "PublicRuntimeVersions_new rest_version recorder_version =
     (let recorder_status = (case recorder_version of
            None \<Rightarrow> lit ''unavailable''
          | Some version \<Rightarrow> if version = rest_version then lit ''available'' else lit ''mismatch'')
      in \<lparr>rv_api_version = API_VERSION, rv_rest_version = rest_version,
          rv_recorder_version = recorder_version, rv_recorder_status = recorder_status\<rparr>)"

definition valid_component :: "rstr \<Rightarrow> bool" where
  "valid_component component \<longleftrightarrow> component \<noteq> [] \<and>
     (component = lit ''0'' \<or> take 1 component \<noteq> lit ''0'') \<and> list_all is_ascii_digit component"

definition valid_positive :: "rstr \<Rightarrow> bool" where
  "valid_positive component \<longleftrightarrow> component \<noteq> lit ''0'' \<and> valid_component component"

definition valid_runtime_version :: "rstr \<Rightarrow> bool" where
  "valid_runtime_version version =
     (if str_len version > 32 then False
      else
        let (basis, beta) = (case split_once (lit ''-beta.'') version of
              None \<Rightarrow> (version, None)
            | Some (basis, beta) \<Rightarrow> (basis, Some beta))
        in if \<not> (case split_on 46 basis of
                  [a, b, c] \<Rightarrow> valid_component a \<and> valid_component b \<and> valid_component c
                | _ \<Rightarrow> False)
           then False
           else (case beta of
               None \<Rightarrow> True
             | Some beta \<Rightarrow> (case split_on 46 beta of
                   [d, e] \<Rightarrow> valid_positive d \<and> valid_positive e
                 | _ \<Rightarrow> False)))"

definition PublicRuntimeVersions_validate :: "PublicRuntimeVersions \<Rightarrow> rstr + unit" where
  "PublicRuntimeVersions_validate v =
     (if rv_api_version v \<noteq> API_VERSION
         \<or> \<not> valid_runtime_version (rv_rest_version v)
         \<or> (case rv_recorder_version v of None \<Rightarrow> False | Some r \<Rightarrow> \<not> valid_runtime_version r)
         \<or> v \<noteq> PublicRuntimeVersions_new (rv_rest_version v) (rv_recorder_version v)
      then Inl (lit ''invalid runtime versions'') else Inr ())"

section \<open>The current period\<close>

definition current_period_start_at :: "i64 \<Rightarrow> i64 \<Rightarrow> i64 option" where
  "current_period_start_at reset_at window_seconds =
     (if \<not> valid_timestamp reset_at \<or> window_seconds \<le> 0 then None
      else (case i64_checked_sub reset_at window_seconds of
          None \<Rightarrow> None
        | Some start_at \<Rightarrow> if valid_timestamp start_at then Some start_at else None))"

definition current_period_bounds :: "i64 \<Rightarrow> i64 \<Rightarrow> i64 \<Rightarrow> (i64 \<times> i64) option" where
  "current_period_bounds reset_at window_seconds observed_at =
     (if \<not> valid_timestamp observed_at then None
      else (case current_period_start_at reset_at window_seconds of
          None \<Rightarrow> None
        | Some start_at \<Rightarrow>
            (let end_at = min reset_at observed_at
             in if end_at \<ge> start_at then Some (start_at, end_at) else None)))"

text \<open>
  \<open>rem_euclid\<close> with a positive divisor is \<open>mod\<close> on \<open>int\<close>. The subtraction cannot leave the
  64-bit range for the validated, positive timestamps the callers pass.
\<close>

definition history_minute_in_period :: "i64 \<Rightarrow> i64 \<Rightarrow> i64 \<Rightarrow> bool" where
  "history_minute_in_period timestamp start_at end_at \<longleftrightarrow>
     timestamp \<ge> start_at - start_at mod 60 \<and> timestamp \<le> end_at"

section \<open>Lemmas on the encodings\<close>

lemma HEX_simps [simp]: "length HEX = 16" "distinct HEX"
  by (simp_all add: HEX_def lit_def)

lemma HEX_digit: "n < 16 \<Longrightarrow> HEX ! n \<in> set HEX"
  by simp

lemma HEX_ascii: "c \<in> set HEX \<Longrightarrow> utf8_width c = 1"
  by (auto simp: HEX_def lit_def utf8_width_def)

lemma HEX_width: "n < 16 \<Longrightarrow> utf8_width (HEX ! n) = 1"
  by (rule HEX_ascii) (rule HEX_digit)

lemma HEX_inject: "m < 16 \<Longrightarrow> n < 16 \<Longrightarrow> HEX ! m = HEX ! n \<longleftrightarrow> m = n"
  using nth_eq_iff_index_eq[OF HEX_simps(2), of m n] by simp

lemma nibble_lt: "unat (w AND 0x0F :: 'a::len word) < 16"
proof -
  have "unat (w AND 0x0F) = unat (take_bit 4 w)"
    by (simp add: take_bit_eq_mask mask_eq_exp_minus_1)
  also have "\<dots> < 2 ^ 4"
    by (simp only: unsigned_take_bit_eq) (rule take_bit_nat_less_exp)
  finally show ?thesis by simp
qed

lemma high_nibble_lt: "unat (drop_bit 4 (b :: u8)) < 16"
proof -
  have "unat (drop_bit 4 b) = unat b div 16"
    using take_bit_nat_eq_self[OF unat_lt_width[of b]]
    by (simp only: unsigned_drop_bit_eq) (simp add: drop_bit_eq_div)
  then show ?thesis using unat_lt_width[of b] by simp
qed

lemma byte_nibbles_inject:
  fixes a b :: u8
  assumes "drop_bit 4 a = drop_bit 4 b" "a AND 0x0F = b AND 0x0F"
  shows "a = b"
proof -
  have "take_bit 4 a = take_bit 4 b"
    using assms(2) by (simp add: take_bit_eq_mask mask_eq_exp_minus_1)
  then show ?thesis using assms(1) by (metis bits_ident)
qed

lemma hex_byte_inject:
  fixes a b :: u8
  assumes "HEX ! unat (drop_bit 4 a) = HEX ! unat (drop_bit 4 b)"
    and "HEX ! unat (a AND 0x0F) = HEX ! unat (b AND 0x0F)"
  shows "a = b"
  using assms by (auto simp: HEX_inject high_nibble_lt nibble_lt word_eq_iff_unat[symmetric]
      intro!: byte_nibbles_inject)

lemma hex_bytes_inject:
  "concat (map (\<lambda>byte. [HEX ! unat (drop_bit 4 byte), HEX ! unat (byte AND 0x0F)]) xs) =
   concat (map (\<lambda>byte. [HEX ! unat (drop_bit 4 byte), HEX ! unat (byte AND 0x0F)]) ys) \<Longrightarrow> xs = (ys :: u8 list)"
proof (induction xs arbitrary: ys)
  case (Cons x xs)
  then show ?case by (cases ys) (auto dest: hex_byte_inject)
qed (case_tac ys, auto)

lemma nibbles_inject:
  fixes m n :: u128
  assumes "\<And>s. s < 32 \<Longrightarrow> drop_bit (s * 4) m AND 0x0F = drop_bit (s * 4) n AND 0x0F"
  shows "m = n"
proof (rule bit_word_eqI)
  fix i :: nat assume "i < LENGTH(128)"
  then have "i div 4 < 32" by simp
  with assms have "take_bit 4 (drop_bit (i div 4 * 4) m) = take_bit 4 (drop_bit (i div 4 * 4) n)"
    by (simp add: take_bit_eq_mask mask_eq_exp_minus_1)
  then have "bit (take_bit 4 (drop_bit (i div 4 * 4) m)) (i mod 4) =
      bit (take_bit 4 (drop_bit (i div 4 * 4) n)) (i mod 4)"
    by simp
  then show "bit m i = bit n i" by (simp add: bit_take_bit_iff bit_drop_bit_eq)
qed

lemma counter_digits_inject:
  fixes m n :: u128
  assumes "map (\<lambda>s. HEX ! unat (drop_bit (s * 4) m AND 0x0F)) (rev [0..<32]) =
    map (\<lambda>s. HEX ! unat (drop_bit (s * 4) n AND 0x0F)) (rev [0..<32])"
  shows "m = n"
proof (rule nibbles_inject)
  fix s :: nat assume "s < 32"
  then have "s \<in> set (rev [0..<32])" by (simp only: set_rev set_upt) simp
  from assms[unfolded map_eq_conv, rule_format, OF this]
  have "HEX ! unat (drop_bit (s * 4) m AND 0x0F) = HEX ! unat (drop_bit (s * 4) n AND 0x0F)" .
  then show "drop_bit (s * 4) m AND 0x0F = drop_bit (s * 4) n AND 0x0F"
    by (simp only: HEX_inject nibble_lt word_eq_iff_unat[symmetric])
qed

lemma length_hex_bytes:
  "length (concat (map (\<lambda>byte. [HEX ! unat (drop_bit 4 byte), HEX ! unat (byte AND 0x0F)]) (xs :: u8 list))) = 2 * length xs"
  by (induction xs) simp_all

lemma str_len_ascii: "(\<And>c. c \<in> set s \<Longrightarrow> utf8_width c = 1) \<Longrightarrow> str_len s = length s"
  by (induction s) (auto simp: str_len_def)

section \<open>Lemmas on version text\<close>

lemma to_string_0: "to_string 0 = lit ''0''"
  by (simp add: to_string.simps[of 0] lit_def)

lemma to_string_leading: "take 1 (to_string n) = lit ''0'' \<longleftrightarrow> n = 0"
proof (induction n rule: to_string.induct)
  case (1 n)
  show ?case
  proof (cases "n < 10")
    case True
    then show ?thesis by (simp add: to_string.simps[of n] lit_def)
  next
    case False
    moreover have "take 1 (to_string (n div 10) @ [c]) = take 1 (to_string (n div 10))" for c
      using to_string_nonempty[of "n div 10"] by (cases "to_string (n div 10)") simp_all
    ultimately show ?thesis using 1 by (auto simp: to_string.simps[of n])
  qed
qed

lemma to_string_snoc:
  assumes "m \<noteq> 0" "is_ascii_digit c"
  shows "to_string (m * 10 + (c - 48)) = to_string m @ [c]"
proof -
  from assms(2) have c: "c - 48 < 10" "48 + (c - 48) = c" by (auto simp: is_ascii_digit_def)
  with assms(1) have "\<not> m * 10 + (c - 48) < 10" by linarith
  moreover have "(m * 10 + (c - 48)) div 10 = m" "(m * 10 + (c - 48)) mod 10 = c - 48"
    using c(1) by auto
  ultimately show ?thesis using c(2) by (simp only: to_string.simps[of "m * 10 + (c - 48)"] if_False)
qed

lemma canonical_digits:
  "s \<noteq> [] \<Longrightarrow> s = lit ''0'' \<or> take 1 s \<noteq> lit ''0'' \<Longrightarrow> list_all is_ascii_digit s \<Longrightarrow>
     to_string (decimal_value s) = s"
proof (induction s rule: rev_induct)
  case (snoc c s)
  then have c: "is_ascii_digit c" by simp
  show ?case
  proof (cases "s = []")
    case True
    with c show ?thesis
      by (auto simp: decimal_value_def to_string.simps[of "c - 48"] is_ascii_digit_def)
  next
    case False
    with snoc.prems have lead: "take 1 s \<noteq> lit ''0''" by (cases s) (auto simp: lit_def)
    with False snoc have ih: "to_string (decimal_value s) = s" by auto
    with lead have "decimal_value s \<noteq> 0" using to_string_leading by metis
    with c ih show ?thesis by (simp add: decimal_value_append to_string_snoc)
  qed
qed simp

lemma valid_component_iff: "valid_component s \<longleftrightarrow> (\<exists>n. s = to_string n)"
proof
  assume "valid_component s"
  then show "\<exists>n. s = to_string n" unfolding valid_component_def by (metis canonical_digits)
next
  assume "\<exists>n. s = to_string n"
  then show "valid_component s"
    using to_string_digits to_string_leading to_string_0 by (auto simp: valid_component_def)
qed

lemma valid_positive_iff: "valid_positive s \<longleftrightarrow> (\<exists>n > 0. s = to_string n)"
  unfolding valid_positive_def valid_component_iff to_string_0[symmetric] by auto

lemma strip_prefix_Some: "strip_prefix p s = Some r \<longleftrightarrow> s = p @ r"
  by (induction p s rule: strip_prefix.induct) auto

lemma split_once_Some: "split_once sep s = Some (a, b) \<Longrightarrow> s = a @ sep @ b"
  by (induction s arbitrary: a b)
    (auto simp: strip_prefix_Some split: if_splits option.splits)

lemma split_once_found:
  "x \<notin> set a \<Longrightarrow> split_once (x # sep) (a @ x # sep @ b) = Some (a, b)"
proof (induction a)
  case Nil
  have "strip_prefix (x # sep) (x # sep @ b) = Some b" by (simp add: strip_prefix_Some)
  then show ?case by simp
next
  case (Cons c a)
  then have "strip_prefix (x # sep) ((c # a) @ x # sep @ b) = None" by simp
  with Cons show ?case by simp
qed

lemma split_once_absent: "x \<notin> set s \<Longrightarrow> split_once (x # sep) s = None"
  by (induction s) auto

lemma split_on_absent: "d \<notin> set s \<Longrightarrow> split_on d s = [s]"
  by (induction s) auto

lemma split_on_found: "d \<notin> set s \<Longrightarrow> split_on d (s @ d # r) = s # split_on d r"
  by (induction s) (auto split: list.splits)

lemma split_on_Cons_iff:
  "split_on d s = p # q # ps \<longleftrightarrow> (\<exists>r. d \<notin> set p \<and> s = p @ d # r \<and> split_on d r = q # ps)"
proof (induction s arbitrary: p)
  case (Cons c s)
  then show ?case
    by (cases "split_on d s"; cases p) auto
qed simp

lemma split_on_single: "split_on d s = [p] \<longleftrightarrow> p = s \<and> d \<notin> set s"
proof (induction s arbitrary: p)
  case (Cons c s)
  then show ?case by (cases "split_on d s") auto
qed auto

lemma to_string_char: "c \<in> set (to_string n) \<Longrightarrow> 48 \<le> c \<and> c \<le> 57"
  using to_string_digits[of n] by (auto simp: list_all_iff is_ascii_digit_def)

text \<open>Dotted decimal numbers, the canonical spelling of a version.\<close>

definition dotted :: "nat list \<Rightarrow> rstr" where
  "dotted ns = concat (map (\<lambda>n. 46 # to_string n) ns)"

lemma split_on_dotted: "split_on 46 (to_string n @ dotted ns) = to_string n # map to_string ns"
proof (induction ns arbitrary: n)
  case Nil
  then show ?case by (auto simp: dotted_def dest: to_string_char intro!: split_on_absent)
next
  case (Cons m ns)
  have "46 \<notin> set (to_string n)" by (auto dest: to_string_char)
  with Cons show ?case by (simp add: dotted_def split_on_found)
qed

lemma basis_dotted:
  "(case split_on 46 s of [a, b, c] \<Rightarrow> valid_component a \<and> valid_component b \<and> valid_component c
      | _ \<Rightarrow> False) \<longleftrightarrow> (\<exists>a b c. s = to_string a @ dotted [b, c])"
proof
  assume "case split_on 46 s of [a, b, c] \<Rightarrow> valid_component a \<and> valid_component b \<and> valid_component c
      | _ \<Rightarrow> False"
  then show "\<exists>a b c. s = to_string a @ dotted [b, c]"
    by (auto split: list.splits simp: split_on_Cons_iff split_on_single valid_component_iff dotted_def)
next
  assume "\<exists>a b c. s = to_string a @ dotted [b, c]"
  then show "case split_on 46 s of [a, b, c] \<Rightarrow> valid_component a \<and> valid_component b \<and> valid_component c
      | _ \<Rightarrow> False"
    by (auto simp: split_on_dotted valid_component_iff)
qed

lemma beta_dotted:
  "(case split_on 46 s of [d, e] \<Rightarrow> valid_positive d \<and> valid_positive e | _ \<Rightarrow> False)
     \<longleftrightarrow> (\<exists>d e. 0 < d \<and> 0 < e \<and> s = to_string d @ dotted [e])"
proof
  assume "case split_on 46 s of [d, e] \<Rightarrow> valid_positive d \<and> valid_positive e | _ \<Rightarrow> False"
  then show "\<exists>d e. 0 < d \<and> 0 < e \<and> s = to_string d @ dotted [e]"
    by (auto split: list.splits simp: split_on_Cons_iff split_on_single valid_positive_iff dotted_def)
next
  assume "\<exists>d e. 0 < d \<and> 0 < e \<and> s = to_string d @ dotted [e]"
  then show "case split_on 46 s of [d, e] \<Rightarrow> valid_positive d \<and> valid_positive e | _ \<Rightarrow> False"
    by (auto simp: split_on_dotted valid_positive_iff)
qed

lemma dotted_no_dash: "45 \<notin> set (to_string a @ dotted ns)"
  by (induction ns) (auto simp: dotted_def dest: to_string_char)

lemma beta_separator: "lit ''-beta.'' = 45 # lit ''beta.''"
  by (simp add: lit_def)

section \<open>Properties\<close>

text \<open>
  Pair identities: the identity always has 67 ASCII bytes, and two publishers with the same
  identity have the same epoch and the same counter.
\<close>

theorem published_pair_injective:
  assumes "length epoch = 16" "length epoch' = 16"
  shows "str_len (identity (from_epoch_counter epoch counter)) = 67 \<and>
    (from_epoch_counter epoch counter = from_epoch_counter epoch' counter' \<longleftrightarrow>
       epoch = epoch' \<and> counter = counter')"
proof -
  let ?ds = "\<lambda>c. map (\<lambda>s. HEX ! unat (drop_bit (s * 4) (c :: u128) AND 0x0F)) (rev [0..<32])"
  let ?bs = "\<lambda>e. concat (map (\<lambda>byte. [HEX ! unat (drop_bit 4 byte), HEX ! unat (byte AND 0x0F)]) (e :: u8 list))"
  have id: "identity (from_epoch_counter e c) = lit ''v1:'' @ ?bs e @ ?ds c" for e c
    by (simp only: from_epoch_counter_def PublishedPair.select_convs)
  have "c \<in> set (lit ''v1:'') \<Longrightarrow> utf8_width c = 1" for c
    by (auto simp: lit_def utf8_width_def)
  then have "c \<in> set (lit ''v1:'' @ ?bs epoch @ ?ds counter) \<Longrightarrow> utf8_width c = 1" for c
    by (auto simp: HEX_width high_nibble_lt nibble_lt)
  then have "str_len (identity (from_epoch_counter epoch counter)) = 67"
    unfolding id using assms(1) by (subst str_len_ascii) (simp_all add: length_hex_bytes lit_def)
  moreover have "identity (from_epoch_counter epoch counter) = identity (from_epoch_counter epoch' counter')
      \<longleftrightarrow> epoch = epoch' \<and> counter = counter'"
  proof -
    have "length (?bs epoch) = length (?bs epoch')" using assms by (simp only: length_hex_bytes)
    then have "lit ''v1:'' @ ?bs epoch @ ?ds counter = lit ''v1:'' @ ?bs epoch' @ ?ds counter' \<longleftrightarrow>
        ?bs epoch = ?bs epoch' \<and> ?ds counter = ?ds counter'"
      unfolding same_append_eq by (intro append_eq_append_conv disjI1)
    then show ?thesis
      unfolding id using hex_bytes_inject[of epoch epoch'] counter_digits_inject[of counter counter']
      by blast
  qed
  ultimately show ?thesis by (metis PublishedPair.equality old.unit.exhaust)
qed

theorem published_pair_injective_witness:
  "from_epoch_counter (replicate 16 0) 1 \<noteq> from_epoch_counter (replicate 16 1) 1 \<and>
   str_len (identity (from_epoch_counter (replicate 16 0) 1)) = 67"
  using published_pair_injective[of "replicate 16 0" "replicate 16 1" 1 1] by simp

text \<open>
  Versions: a runtime version is accepted exactly when it takes at most 32 bytes and is the
  canonical decimal spelling of \<open>A.B.C\<close> or of \<open>A.B.C-beta.D.E\<close> with positive \<open>D\<close> and \<open>E\<close>.
\<close>

theorem valid_runtime_version_grammar:
  "valid_runtime_version v \<longleftrightarrow> str_len v \<le> 32 \<and>
     (\<exists>a b c. v = to_string a @ dotted [b, c] \<or>
        (\<exists>d e. 0 < d \<and> 0 < e \<and>
           v = to_string a @ dotted [b, c] @ lit ''-beta.'' @ to_string d @ dotted [e]))"
proof (cases "split_once (lit ''-beta.'') v")
  case None
  have "v \<noteq> (to_string a @ dotted ns) @ lit ''-beta.'' @ r" for a ns r
    using None split_once_found[OF dotted_no_dash, of "lit ''beta.''" a ns r]
    by (auto simp: beta_separator)
  with None show ?thesis by (auto simp: valid_runtime_version_def basis_dotted not_less)
next
  case (Some p)
  then obtain x y where p: "split_once (lit ''-beta.'') v = Some (x, y)" by (cases p) auto
  then have v: "v = x @ lit ''-beta.'' @ y" by (rule split_once_Some)
  have accept: "valid_runtime_version v \<longleftrightarrow> str_len v \<le> 32 \<and> (\<exists>a b c. x = to_string a @ dotted [b, c]) \<and>
      (\<exists>d e. 0 < d \<and> 0 < e \<and> y = to_string d @ dotted [e])"
    by (auto simp: valid_runtime_version_def p basis_dotted beta_dotted not_less)
  have "v \<noteq> to_string a @ dotted ns" for a ns
    using p split_once_absent[OF dotted_no_dash, of "lit ''beta.''" a ns] by (auto simp: beta_separator)
  moreover have "v = (to_string a @ dotted ns) @ lit ''-beta.'' @ r \<longleftrightarrow> x = to_string a @ dotted ns \<and> y = r"
    for a ns r
    using p v split_once_found[OF dotted_no_dash, of "lit ''beta.''" a ns r] by (auto simp: beta_separator)
  ultimately show ?thesis unfolding accept by (simp del: append_assoc) (auto; blast)
qed

text \<open>
  Version reports: a report is accepted exactly when it is the one \<open>new\<close> builds from its own
  two versions and both are well formed, so the status \<open>available\<close> is shown exactly for equal
  versions of the two processes.
\<close>

theorem runtime_versions_validate_iff:
  "PublicRuntimeVersions_validate v = Inr () \<longleftrightarrow>
     (\<exists>rest recorder. v = PublicRuntimeVersions_new rest recorder \<and> valid_runtime_version rest \<and>
        pred_option valid_runtime_version recorder) \<and>
     (rv_recorder_status v = lit ''available'' \<longleftrightarrow> rv_recorder_version v = Some (rv_rest_version v))"
proof -
  have "rv_api_version (PublicRuntimeVersions_new r s) = API_VERSION"
    "rv_rest_version (PublicRuntimeVersions_new r s) = r"
    "rv_recorder_version (PublicRuntimeVersions_new r s) = s"
    "rv_recorder_status (PublicRuntimeVersions_new r s) = lit ''available'' \<longleftrightarrow> s = Some r" for r s
    by (auto simp: PublicRuntimeVersions_new_def Let_def lit_def split: option.splits)
  note new = this
  show ?thesis
  proof
    assume "PublicRuntimeVersions_validate v = Inr ()"
    then have v: "v = PublicRuntimeVersions_new (rv_rest_version v) (rv_recorder_version v)"
      "valid_runtime_version (rv_rest_version v)" "pred_option valid_runtime_version (rv_recorder_version v)"
      unfolding PublicRuntimeVersions_validate_def
      by (cases "rv_recorder_version v"; simp split: if_splits)+
    from new(4) v(1) have "rv_recorder_status v = lit ''available'' \<longleftrightarrow> rv_recorder_version v = Some (rv_rest_version v)"
      by metis
    with v show "(\<exists>rest recorder. v = PublicRuntimeVersions_new rest recorder \<and> valid_runtime_version rest \<and>
        pred_option valid_runtime_version recorder) \<and>
      (rv_recorder_status v = lit ''available'' \<longleftrightarrow> rv_recorder_version v = Some (rv_rest_version v))"
      by blast
  next
    assume "(\<exists>rest recorder. v = PublicRuntimeVersions_new rest recorder \<and> valid_runtime_version rest \<and>
        pred_option valid_runtime_version recorder) \<and>
      (rv_recorder_status v = lit ''available'' \<longleftrightarrow> rv_recorder_version v = Some (rv_rest_version v))"
    then obtain r s where "v = PublicRuntimeVersions_new r s" "valid_runtime_version r"
      "pred_option valid_runtime_version s" by blast
    then show "PublicRuntimeVersions_validate v = Inr ()"
      by (cases s) (simp_all add: PublicRuntimeVersions_validate_def new)
  qed
qed

text \<open>
  The current period: its bounds are defined exactly when the reset time, the observation
  and the start are representable and the observation is not before the start; then the period
  starts one window before the reset and ends at the earlier of reset and observation.
\<close>

theorem current_period_bounds_iff:
  "current_period_bounds reset_at window_seconds observed_at = Some (s, e) \<longleftrightarrow>
     valid_timestamp reset_at \<and> valid_timestamp observed_at \<and> 0 < window_seconds \<and>
     s = reset_at - window_seconds \<and> 1 \<le> s \<and> e = min reset_at observed_at \<and> s \<le> e"
  by (auto simp: current_period_bounds_def current_period_start_at_def i64_checked_sub_def is_i64_def
      i64_min_def i64_max_def valid_timestamp_def MAX_PUBLIC_UNIX_SECONDS_def Let_def
      split: option.splits if_splits)

end
