(* ===== verification/Accounts_Contract.thy ===== *)
theory Accounts_Contract
  imports Runtime_Contract
begin












section \<open>What the loops check\<close>







section \<open>Properties\<close>





end
