(* ===== verification/Details_Contract.thy ===== *)
theory Details_Contract
  imports Runtime_Contract Interfaces
begin

text \<open>
  The details payload of \<open>codex-info-rest-contract/src/lib.rs\<close>: the wire structures of the three
  API versions, the bounded validation of the v1 payload, and the projections from v1 to v2 and
  from v2 to v3. The loops over samples and gaps are steps on a state that holds what the source
  keeps in its local sets and variables.
\<close>

definition MAX_PUBLIC_MODELS :: nat where "MAX_PUBLIC_MODELS = 3"
definition MAX_PUBLIC_HISTORY_SAMPLES :: nat where "MAX_PUBLIC_HISTORY_SAMPLES = 31 * 24 * 60"
definition MAX_PUBLIC_HISTORY_GAPS :: nat where "MAX_PUBLIC_HISTORY_GAPS = 4096"
definition MAX_PUBLIC_THREADS :: nat where "MAX_PUBLIC_THREADS = 256"
definition MAX_PUBLIC_ID_SCALARS :: nat where "MAX_PUBLIC_ID_SCALARS = 512"
definition MAX_PUBLIC_HISTORY_LABEL_SCALARS :: nat where "MAX_PUBLIC_HISTORY_LABEL_SCALARS = 512"
definition MAX_PUBLIC_STATUS_SCALARS :: nat where "MAX_PUBLIC_STATUS_SCALARS = 160"
definition MAX_PUBLIC_PLAN_SCALARS :: nat where "MAX_PUBLIC_PLAN_SCALARS = 64"
definition MAX_PUBLIC_MODEL_LABEL_SCALARS :: nat where "MAX_PUBLIC_MODEL_LABEL_SCALARS = 24"

section \<open>Wire structures\<close>

record PublicDetailedModelUsage =
  dm_name :: rstr
  dm_input_tokens :: u64
  dm_cached_input_tokens :: u64
  dm_output_tokens :: u64
  dm_input_dollars :: f64
  dm_cached_input_dollars :: f64
  dm_output_dollars :: f64

record PublicHistoryPeriod =
  hp_id :: rstr
  hp_start_at :: i64
  hp_end_at :: i64
  hp_reset_at :: i64
  hp_label :: rstr
  hp_current :: bool

record PublicHistorySample =
  hs_timestamp :: i64
  hs_reset_at :: i64
  hs_remaining_percent :: "f64 option"
  hs_sol_dollars :: f64
  hs_terra_dollars :: f64
  hs_luna_dollars :: f64
  hs_sol_tokens :: u64
  hs_terra_tokens :: u64
  hs_luna_tokens :: u64

record PublicHistoryObservation =
  ho_timestamp :: i64
  ho_reset_at :: i64
  ho_remaining_percent :: "f64 option"
  ho_sol_dollars :: "f64 option"
  ho_terra_dollars :: "f64 option"
  ho_luna_dollars :: "f64 option"
  ho_sol_tokens :: "u64 option"
  ho_terra_tokens :: "u64 option"
  ho_luna_tokens :: "u64 option"
  ho_model_source :: rstr

record PublicHistoryGap =
  hg_gap_id :: rstr
  hg_reset_at :: i64
  hg_start_at :: i64
  hg_end_at :: i64
  hg_reason :: rstr

datatype PublicThreadActivityStatus = Running | Stopped | Unknown

record PublicThread =
  th_id :: rstr
  th_title :: rstr
  th_activity_status :: "PublicThreadActivityStatus option"
  th_parent_thread_id :: "rstr option"
  th_model :: rstr
  th_model_label :: rstr
  th_total_tokens :: "u64 option"
  th_context_usage_tokens :: "u64 option"
  th_context_window_tokens :: "u64 option"
  th_created_at :: "i64 option"
  th_last_user_message_at :: "i64 option"
  th_is_subagent :: bool
  th_depth :: "int option"

record PublicDetails =
  d_state :: PublicState
  d_observed_at :: "i64 option"
  d_authenticated :: bool
  d_plan_label :: "rstr option"
  d_quota :: "PublicQuota option"
  d_models :: "PublicDetailedModelUsage list"
  d_active_thread_count :: u64
  d_history_periods :: "PublicHistoryPeriod list"
  d_history_samples :: "PublicHistorySample list"
  d_history_gaps :: "PublicHistoryGap list"
  d_threads :: "PublicThread list"
  d_estimated_cost_label :: rstr

definition PublicDetails_default :: PublicDetails where
  "PublicDetails_default =
     \<lparr>d_state = Initializing, d_observed_at = None, d_authenticated = False, d_plan_label = None,
      d_quota = None, d_models = [], d_active_thread_count = 0, d_history_periods = [],
      d_history_samples = [], d_history_gaps = [], d_threads = [],
      d_estimated_cost_label = [0x6982, 0x7B97, 0x20, 0x2014]\<rparr>"

section \<open>Validation\<close>

definition valid_lower_hex32 :: "rstr \<Rightarrow> bool" where
  "valid_lower_hex32 value \<longleftrightarrow> str_len value = 32 \<and> list_all is_lower_hex_digit value"

definition quota_invalid :: "PublicQuota \<Rightarrow> bool" where
  "quota_invalid quota \<longleftrightarrow> \<not> valid_rate (q_remaining_percent quota)
     \<or> f64_lt (F64_Finite 100) (q_remaining_percent quota)
     \<or> \<not> valid_timestamp (q_reset_at quota) \<or> q_window_seconds quota \<le> 0"

definition model_invalid :: "PublicDetailedModelUsage \<Rightarrow> bool" where
  "model_invalid model \<longleftrightarrow> \<not> (dm_name model \<in> {lit ''SOL'', lit ''TERRA'', lit ''LUNA''})
     \<or> \<not> valid_rate (dm_input_dollars model) \<or> \<not> valid_rate (dm_cached_input_dollars model)
     \<or> \<not> valid_rate (dm_output_dollars model)"

fun check_periods ::
  "rstr set \<Rightarrow> i64 set \<Rightarrow> nat \<Rightarrow> PublicHistoryPeriod list \<Rightarrow> ContractError + i64 set \<times> nat" where
  "check_periods ids resets current_periods [] = Inr (resets, current_periods)"
| "check_periods ids resets current_periods (period # rest) =
     (if \<not> valid_text (hp_id period) MAX_PUBLIC_ID_SCALARS
         \<or> hp_id period \<in> ids
         \<or> hp_reset_at period \<in> resets
         \<or> \<not> valid_timestamp (hp_start_at period)
         \<or> \<not> valid_timestamp (hp_end_at period)
         \<or> \<not> valid_timestamp (hp_reset_at period)
         \<or> hp_end_at period < hp_start_at period
         \<or> hp_reset_at period < hp_end_at period
         \<or> \<not> valid_text (hp_label period) MAX_PUBLIC_HISTORY_LABEL_SCALARS
      then Inl InvalidPeriod
      else check_periods (insert (hp_id period) ids) (insert (hp_reset_at period) resets)
             (current_periods + (if hp_current period then 1 else 0)) rest)"

fun check_current_periods ::
  "i64 option \<Rightarrow> PublicQuota option \<Rightarrow> PublicHistoryPeriod list \<Rightarrow> ContractError + unit" where
  "check_current_periods observed quota [] = Inr ()"
| "check_current_periods observed quota (period # rest) =
     (if hp_current period then
        (case observed of
           None \<Rightarrow> Inl InvalidPeriod
         | Some observed_at \<Rightarrow>
             (case quota of
                Some q \<Rightarrow>
                  (case current_period_bounds (q_reset_at q) (q_window_seconds q) observed_at of
                     None \<Rightarrow> Inl InvalidPeriod
                   | Some (expected_start_at, expected_end_at) \<Rightarrow>
                       if hp_start_at period \<noteq> expected_start_at \<or> hp_end_at period \<noteq> expected_end_at
                       then Inl InvalidPeriod
                       else check_current_periods observed quota rest)
              | None \<Rightarrow>
                  if hp_end_at period \<noteq> min (hp_reset_at period) observed_at then Inl InvalidPeriod
                  else check_current_periods observed quota rest))
      else check_current_periods observed quota rest)"

text \<open>
  Rows belong to the period with their reset time; a row whose reset time names no period may
  belong to one that resets at most sixty seconds later.
\<close>

definition reset_matches :: "i64 set \<Rightarrow> i64 \<Rightarrow> PublicHistoryPeriod \<Rightarrow> bool" where
  "reset_matches period_resets reset_at period \<longleftrightarrow>
     reset_at = hp_reset_at period
     \<or> (reset_at \<notin> period_resets \<and> reset_at \<ge> i64_saturating_sub (hp_reset_at period) 60
        \<and> reset_at \<le> hp_reset_at period)"

definition sample_periods ::
  "i64 set \<Rightarrow> PublicHistoryPeriod list \<Rightarrow> PublicHistorySample \<Rightarrow> PublicHistoryPeriod list" where
  "sample_periods period_resets periods sample =
     filter (\<lambda>period. reset_matches period_resets (hs_reset_at sample) period
        \<and> history_minute_in_period (hs_timestamp sample) (hp_start_at period) (hp_end_at period)) periods"

definition sample_invalid :: "PublicHistorySample \<Rightarrow> bool" where
  "sample_invalid sample \<longleftrightarrow> \<not> valid_timestamp (hs_timestamp sample)
     \<or> \<not> valid_timestamp (hs_reset_at sample)
     \<or> hs_timestamp sample mod 60 \<noteq> 0
     \<or> (case hs_remaining_percent sample of
          None \<Rightarrow> False | Some v \<Rightarrow> \<not> valid_rate v \<or> f64_lt (F64_Finite 100) v)
     \<or> \<not> valid_rate (hs_sol_dollars sample) \<or> \<not> valid_rate (hs_terra_dollars sample)
     \<or> \<not> valid_rate (hs_luna_dollars sample)"

record sample_loop =
  sl_sample_ids :: "(i64 \<times> i64) set"
  sl_canonical_sample_ids :: "(rstr \<times> i64) set"
  sl_previous_sample_key :: "(i64 \<times> i64) option"

definition key2_less :: "i64 \<times> i64 \<Rightarrow> i64 \<times> i64 \<Rightarrow> bool" where
  "key2_less a b \<longleftrightarrow> fst a < fst b \<or> (fst a = fst b \<and> snd a < snd b)"

definition sample_step ::
  "i64 set \<Rightarrow> PublicHistoryPeriod list \<Rightarrow> sample_loop \<Rightarrow> PublicHistorySample \<Rightarrow> ContractError + sample_loop" where
  "sample_step period_resets periods st sample =
     (if sample_invalid sample then Inl InvalidSample
      else if (hs_reset_at sample, hs_timestamp sample) \<in> sl_sample_ids st then Inl InvalidSample
      else (case sample_periods period_resets periods sample of
          [period] \<Rightarrow>
            if (hp_id period, hs_timestamp sample) \<in> sl_canonical_sample_ids st then Inl InvalidSample
            else (let sample_key = (hs_reset_at sample, hs_timestamp sample) in
              if (case sl_previous_sample_key st of
                    None \<Rightarrow> False | Some previous \<Rightarrow> key2_less sample_key previous)
              then Inl InvalidSample
              else Inr \<lparr>sl_sample_ids = insert sample_key (sl_sample_ids st),
                   sl_canonical_sample_ids =
                     insert (hp_id period, hs_timestamp sample) (sl_canonical_sample_ids st),
                   sl_previous_sample_key = Some sample_key\<rparr>)
        | _ \<Rightarrow> Inl InvalidSample))"

definition gap_periods ::
  "i64 set \<Rightarrow> PublicHistoryPeriod list \<Rightarrow> PublicHistoryGap \<Rightarrow> PublicHistoryPeriod list" where
  "gap_periods period_resets periods gap =
     filter (\<lambda>period. reset_matches period_resets (hg_reset_at gap) period
        \<and> hg_start_at gap \<ge> hp_start_at period \<and> hg_end_at gap \<le> hp_end_at period) periods"

definition gap_invalid :: "PublicHistoryGap \<Rightarrow> bool" where
  "gap_invalid gap \<longleftrightarrow> \<not> valid_lower_hex32 (hg_gap_id gap)
     \<or> \<not> valid_timestamp (hg_reset_at gap) \<or> \<not> valid_timestamp (hg_start_at gap)
     \<or> \<not> valid_timestamp (hg_end_at gap) \<or> hg_start_at gap > hg_end_at gap
     \<or> hg_reason gap \<notin> {lit ''daemon_stop_unrecoverable'', lit ''reset_hint_expired'',
          lit ''auth_epoch_tombstoned''}"

text \<open>Strings compare bytewise, which for UTF-8 is the order of the scalar lists.\<close>

fun str_less :: "rstr \<Rightarrow> rstr \<Rightarrow> bool" where
  "str_less _ [] = False"
| "str_less [] (_ # _) = True"
| "str_less (a # as) (b # bs) = (a < b \<or> (a = b \<and> str_less as bs))"

type_synonym gap_key = "i64 \<times> i64 \<times> i64 \<times> rstr"

fun gap_key_less :: "gap_key \<Rightarrow> gap_key \<Rightarrow> bool" where
  "gap_key_less (r, s, e, i) (r', s', e', i') \<longleftrightarrow>
     r < r' \<or> (r = r' \<and> (s < s' \<or> (s = s' \<and> (e < e' \<or> (e = e' \<and> str_less i i')))))"

record gap_loop =
  gl_gap_ids :: "rstr set"
  gl_previous_gap_key :: "gap_key option"
  gl_gap_ranges :: "(rstr \<times> i64 \<times> i64) list"

definition gap_step ::
  "i64 set \<Rightarrow> PublicHistoryPeriod list \<Rightarrow> gap_loop \<Rightarrow> PublicHistoryGap \<Rightarrow> ContractError + gap_loop" where
  "gap_step period_resets periods st gap =
     (if gap_invalid gap \<or> hg_gap_id gap \<in> gl_gap_ids st then Inl InvalidGap
      else (case gap_periods period_resets periods gap of
          [period] \<Rightarrow>
            (let gap_key = (hg_reset_at gap, hg_start_at gap, hg_end_at gap, hg_gap_id gap) in
              if (case gl_previous_gap_key st of
                    None \<Rightarrow> False | Some previous \<Rightarrow> gap_key_less gap_key previous)
              then Inl InvalidGap
              else if list_ex (\<lambda>(period_id, start_at, end_at). period_id = hp_id period
                     \<and> hg_start_at gap \<le> end_at \<and> start_at \<le> hg_end_at gap) (gl_gap_ranges st)
              then Inl InvalidGap
              else Inr \<lparr>gl_gap_ids = insert (hg_gap_id gap) (gl_gap_ids st),
                   gl_previous_gap_key = Some gap_key,
                   gl_gap_ranges = gl_gap_ranges st @ [(hp_id period, hg_start_at gap, hg_end_at gap)]\<rparr>)
        | _ \<Rightarrow> Inl InvalidGap))"

definition thread_invalid :: "PublicThread \<Rightarrow> bool" where
  "thread_invalid thread \<longleftrightarrow> \<not> valid_text (th_id thread) MAX_PUBLIC_ID_SCALARS
     \<or> \<not> valid_text (th_title thread) MAX_PUBLIC_ID_SCALARS
     \<or> \<not> valid_text (th_model thread) MAX_PUBLIC_MODEL_SCALARS
     \<or> \<not> valid_text (th_model_label thread) MAX_PUBLIC_MODEL_LABEL_SCALARS
     \<or> \<not> pred_option (\<lambda>i. valid_text i MAX_PUBLIC_ID_SCALARS) (th_parent_thread_id thread)
     \<or> \<not> pred_option valid_timestamp (th_created_at thread)
     \<or> \<not> pred_option valid_timestamp (th_last_user_message_at thread)
     \<or> \<not> pred_option (\<lambda>depth. 0 \<le> depth \<and> depth \<le> 1024) (th_depth thread)"

definition validate_threads :: "PublicDetails \<Rightarrow> ContractError + unit" where
  "validate_threads d =
     (if length (d_threads d) > MAX_PUBLIC_THREADS then Inl TooManyItems
      else try_res (scan_distinct thread_invalid th_id InvalidModel {} (d_threads d)) (\<lambda>_. Inr ()))"

definition validate_with_history_limit :: "PublicDetails \<Rightarrow> nat \<Rightarrow> ContractError + unit" where
  "validate_with_history_limit d history_limit =
     (if (case d_observed_at d of None \<Rightarrow> False | Some v \<Rightarrow> \<not> valid_timestamp v) then Inl InvalidTimestamp
      else if (case d_quota d of None \<Rightarrow> False | Some quota \<Rightarrow> quota_invalid quota) then Inl InvalidNumber
      else if length (d_models d) > MAX_PUBLIC_MODELS
         \<or> length (d_history_samples d) > history_limit
         \<or> length (d_history_gaps d) > MAX_PUBLIC_HISTORY_GAPS
         \<or> length (d_threads d) > MAX_PUBLIC_THREADS then Inl TooManyItems
      else if (case d_plan_label d of
            None \<Rightarrow> False | Some label \<Rightarrow> \<not> valid_text label MAX_PUBLIC_PLAN_SCALARS)
         \<or> \<not> valid_text (d_estimated_cost_label d) MAX_PUBLIC_STATUS_SCALARS then Inl InvalidModel
      else
        try_res (scan_distinct model_invalid dm_name InvalidModel {} (d_models d)) (\<lambda>_.
        try_res (check_periods {} {} 0 (d_history_periods d)) (\<lambda>(period_resets, current_periods).
        if current_periods > 1 then Inl InvalidPeriod
        else
          try_res (check_current_periods (d_observed_at d) (d_quota d) (d_history_periods d)) (\<lambda>_.
          try_res (fold_res (sample_step period_resets (d_history_periods d))
            \<lparr>sl_sample_ids = {}, sl_canonical_sample_ids = {}, sl_previous_sample_key = None\<rparr>
            (d_history_samples d)) (\<lambda>_.
          try_res (fold_res (gap_step period_resets (d_history_periods d))
            \<lparr>gl_gap_ids = {}, gl_previous_gap_key = None, gl_gap_ranges = []\<rparr>
            (d_history_gaps d)) (\<lambda>_.
          validate_threads d))))))"

definition PublicDetails_validate :: "PublicDetails \<Rightarrow> ContractError + unit" where
  "PublicDetails_validate d = validate_with_history_limit d MAX_PUBLIC_HISTORY_SAMPLES"

text \<open>The internal projection is validated with \<open>usize::MAX\<close> as its limit.\<close>

definition validate_history_domain :: "PublicDetails \<Rightarrow> ContractError + unit" where
  "validate_history_domain d = validate_with_history_limit d (2 ^ 64 - 1)"

section \<open>Projections between API versions\<close>

definition LEGACY_SOURCES :: "rstr list" where
  "LEGACY_SOURCES = [lit ''confirmed'', lit ''legacy-unknown'']"

definition as_legacy_sample :: "PublicHistoryObservation \<Rightarrow> PublicHistorySample option" where
  "as_legacy_sample ob =
     (if ho_model_source ob \<notin> set LEGACY_SOURCES then None
      else (case (ho_sol_dollars ob, ho_terra_dollars ob, ho_luna_dollars ob,
                  ho_sol_tokens ob, ho_terra_tokens ob, ho_luna_tokens ob) of
          (Some sd, Some td, Some ld, Some st, Some tt, Some lt) \<Rightarrow>
            Some \<lparr>hs_timestamp = ho_timestamp ob, hs_reset_at = ho_reset_at ob,
              hs_remaining_percent = ho_remaining_percent ob, hs_sol_dollars = sd, hs_terra_dollars = td,
              hs_luna_dollars = ld, hs_sol_tokens = st, hs_terra_tokens = tt, hs_luna_tokens = lt\<rparr>
        | _ \<Rightarrow> None))"

record PublicDetailsV2 =
  d2_state :: PublicState
  d2_observed_at :: "i64 option"
  d2_authenticated :: bool
  d2_plan_label :: "rstr option"
  d2_quota :: "PublicQuota option"
  d2_models :: "PublicDetailedModelUsage list"
  d2_active_thread_count :: u64
  d2_history_periods :: "PublicHistoryPeriod list"
  d2_history_samples :: "PublicHistoryObservation list"
  d2_history_gaps :: "PublicHistoryGap list"
  d2_threads :: "PublicThread list"
  d2_estimated_cost_label :: rstr

definition observation_of_sample :: "PublicHistorySample \<Rightarrow> PublicHistoryObservation" where
  "observation_of_sample sample =
     \<lparr>ho_timestamp = hs_timestamp sample, ho_reset_at = hs_reset_at sample,
      ho_remaining_percent = hs_remaining_percent sample,
      ho_sol_dollars = Some (hs_sol_dollars sample), ho_terra_dollars = Some (hs_terra_dollars sample),
      ho_luna_dollars = Some (hs_luna_dollars sample), ho_sol_tokens = Some (hs_sol_tokens sample),
      ho_terra_tokens = Some (hs_terra_tokens sample), ho_luna_tokens = Some (hs_luna_tokens sample),
      ho_model_source = lit ''legacy-unknown''\<rparr>"

definition PublicDetailsV2_from :: "PublicDetails \<Rightarrow> PublicDetailsV2" where
  "PublicDetailsV2_from details =
     \<lparr>d2_state = d_state details, d2_observed_at = d_observed_at details,
      d2_authenticated = d_authenticated details, d2_plan_label = d_plan_label details,
      d2_quota = d_quota details, d2_models = d_models details,
      d2_active_thread_count = d_active_thread_count details,
      d2_history_periods = d_history_periods details,
      d2_history_samples = map observation_of_sample (d_history_samples details),
      d2_history_gaps = d_history_gaps details, d2_threads = d_threads details,
      d2_estimated_cost_label = d_estimated_cost_label details\<rparr>"

record PublicModelUsageV3 =
  m3_model :: rstr
  m3_total_tokens :: u64
  m3_input_tokens :: u64
  m3_cached_input_tokens :: u64
  m3_cache_write_input_tokens :: "u64 option"
  m3_output_tokens :: u64
  m3_estimated_cost :: "PublicModelCostV3 option"

record PublicHistoryModelUsageV3 =
  hm3_model :: rstr
  hm3_total_tokens :: u64
  hm3_input_tokens :: "u64 option"
  hm3_cached_input_tokens :: "u64 option"
  hm3_cache_write_input_tokens :: "u64 option"
  hm3_output_tokens :: "u64 option"
  hm3_total_dollars :: "f64 option"

record PublicHistoryObservationV3 =
  ho3_timestamp :: i64
  ho3_reset_at :: i64
  ho3_remaining_percent :: "f64 option"
  ho3_task_active_since_previous :: "bool option"
  ho3_models :: "PublicHistoryModelUsageV3 list option"
  ho3_models_complete :: bool
  ho3_model_source :: rstr

record PublicDetailsV3 =
  d3_state :: PublicState
  d3_observed_at :: "i64 option"
  d3_authenticated :: bool
  d3_plan_label :: "rstr option"
  d3_quota :: "PublicQuota option"
  d3_models :: "PublicModelUsageV3 list"
  d3_active_thread_count :: u64
  d3_open_session_thread_count :: u64
  d3_history_periods :: "PublicHistoryPeriod list"
  d3_history_samples :: "PublicHistoryObservationV3 list"
  d3_history_gaps :: "PublicHistoryGap list"
  d3_threads :: "PublicThread list"

definition legacy_model :: "rstr \<Rightarrow> u64 \<Rightarrow> f64 \<Rightarrow> PublicHistoryModelUsageV3" where
  "legacy_model model total_tokens total_dollars =
     \<lparr>hm3_model = model, hm3_total_tokens = total_tokens, hm3_input_tokens = None,
      hm3_cached_input_tokens = None, hm3_cache_write_input_tokens = None, hm3_output_tokens = None,
      hm3_total_dollars = Some total_dollars\<rparr>"

definition legacy_history_models_v3 ::
  "PublicHistoryObservation \<Rightarrow> PublicHistoryModelUsageV3 list option" where
  "legacy_history_models_v3 sample =
     (if ho_model_source sample \<notin> set LEGACY_SOURCES then None
      else (case (ho_sol_tokens sample, ho_sol_dollars sample, ho_terra_tokens sample,
                  ho_terra_dollars sample, ho_luna_tokens sample, ho_luna_dollars sample) of
          (Some st, Some sd, Some tt, Some td, Some lt, Some ld) \<Rightarrow>
            Some [legacy_model (lit ''SOL'') st sd, legacy_model (lit ''TERRA'') tt td,
                  legacy_model (lit ''LUNA'') lt ld]
        | _ \<Rightarrow> None))"

definition observation_v3_of_v2 :: "PublicHistoryObservation \<Rightarrow> PublicHistoryObservationV3" where
  "observation_v3_of_v2 sample =
     (let models = legacy_history_models_v3 sample;
          model_source =
            (if ho_model_source sample \<in> set LEGACY_SOURCES \<and> models \<noteq> None then lit ''legacy-unknown''
             else if ho_model_source sample = lit ''reconstructed-from-session''
             then lit ''reconstructed-from-session''
             else lit ''unavailable'')
      in \<lparr>ho3_timestamp = ho_timestamp sample, ho3_reset_at = ho_reset_at sample,
          ho3_remaining_percent = ho_remaining_percent sample, ho3_task_active_since_previous = None,
          ho3_models = models, ho3_models_complete = False, ho3_model_source = model_source\<rparr>)"

definition from_v2_with_models :: "PublicDetailsV2 \<Rightarrow> PublicModelUsageV3 list \<Rightarrow> PublicDetailsV3" where
  "from_v2_with_models details models =
     \<lparr>d3_state = d2_state details, d3_observed_at = d2_observed_at details,
      d3_authenticated = d2_authenticated details, d3_plan_label = d2_plan_label details,
      d3_quota = d2_quota details, d3_models = models,
      d3_active_thread_count = d2_active_thread_count details,
      d3_open_session_thread_count = word_of_nat (length (d2_threads details)),
      d3_history_periods = d2_history_periods details,
      d3_history_samples = map observation_v3_of_v2 (d2_history_samples details),
      d3_history_gaps = d2_history_gaps details,
      d3_threads = map (\<lambda>thread. thread\<lparr>th_activity_status :=
          Some (case th_activity_status thread of None \<Rightarrow> Running | Some s \<Rightarrow> s)\<rparr>) (d2_threads details)\<rparr>"

definition from_v2_with_models_and_history ::
  "PublicDetailsV2 \<Rightarrow> PublicModelUsageV3 list \<Rightarrow> PublicHistoryObservationV3 list \<Rightarrow> PublicDetailsV3" where
  "from_v2_with_models_and_history details models history_samples =
     (from_v2_with_models details models)\<lparr>d3_history_samples := history_samples\<rparr>"

definition model_v3_of_v2 :: "PublicDetailedModelUsage \<Rightarrow> PublicModelUsageV3" where
  "model_v3_of_v2 model =
     \<lparr>m3_model = dm_name model,
      m3_total_tokens = saturating_add (saturating_add (dm_input_tokens model) (dm_cached_input_tokens model))
        (dm_output_tokens model),
      m3_input_tokens = saturating_add (dm_input_tokens model) (dm_cached_input_tokens model),
      m3_cached_input_tokens = dm_cached_input_tokens model, m3_cache_write_input_tokens = None,
      m3_output_tokens = dm_output_tokens model, m3_estimated_cost = None\<rparr>"

definition PublicDetailsV3_from :: "PublicDetailsV2 \<Rightarrow> PublicDetailsV3" where
  "PublicDetailsV3_from details = from_v2_with_models details (map model_v3_of_v2 (d2_models details))"

section \<open>What an accepted payload satisfies\<close>

lemma check_periods_ok:
  "check_periods ids resets n ps = Inr (resets', n') \<Longrightarrow>
     distinct (map hp_id ps) \<and> distinct (map hp_reset_at ps) \<and> resets' = resets \<union> hp_reset_at ` set ps \<and>
     n' = n + length (filter hp_current ps) \<and> ids \<inter> hp_id ` set ps = {} \<and> resets \<inter> hp_reset_at ` set ps = {} \<and>
     (\<forall>p \<in> set ps. hp_start_at p \<le> hp_end_at p \<and> hp_end_at p \<le> hp_reset_at p)"
proof (induction ps arbitrary: ids resets n)
  case (Cons p ps)
  then have h: "hp_id p \<notin> ids" "hp_reset_at p \<notin> resets" "hp_start_at p \<le> hp_end_at p"
    "hp_end_at p \<le> hp_reset_at p"
    "check_periods (insert (hp_id p) ids) (insert (hp_reset_at p) resets) (n + (if hp_current p then 1 else 0)) ps
      = Inr (resets', n')"
    by (simp_all split: if_splits)
  from Cons.IH[OF h(5)] h(1-4) show ?case by auto
qed simp

lemma check_current_periods_ok:
  "check_current_periods ob quota ps = Inr () \<Longrightarrow> p \<in> set ps \<Longrightarrow> hp_current p \<Longrightarrow>
     \<exists>observed_at. ob = Some observed_at \<and>
       (case quota of
          Some q \<Rightarrow> current_period_bounds (q_reset_at q) (q_window_seconds q) observed_at =
              Some (hp_start_at p, hp_end_at p)
        | None \<Rightarrow> hp_end_at p = min (hp_reset_at p) observed_at)"
  by (induction ps; cases ob; cases quota) (auto split: if_splits option.splits)





definition gap_compatible ::
  "i64 set \<Rightarrow> PublicHistoryPeriod list \<Rightarrow> PublicHistoryGap \<Rightarrow> PublicHistoryGap \<Rightarrow> bool" where
  "gap_compatible resets ps g h \<longleftrightarrow> hg_gap_id g \<noteq> hg_gap_id h \<and>
     (gap_periods resets ps g = gap_periods resets ps h \<longrightarrow>
        hg_end_at g < hg_start_at h \<or> hg_end_at h < hg_start_at g)"

definition gap_seen ::
  "i64 set \<Rightarrow> PublicHistoryPeriod list \<Rightarrow> gap_loop \<Rightarrow> PublicHistoryGap \<Rightarrow> bool" where
  "gap_seen resets ps st g \<longleftrightarrow> hg_gap_id g \<in> gl_gap_ids st \<and>
     (\<forall>p. gap_periods resets ps g = [p] \<longrightarrow> (hp_id p, hg_start_at g, hg_end_at g) \<in> set (gl_gap_ranges st))"

lemma gap_step_iff:
  "gap_step resets ps st g = Inr st' \<longleftrightarrow>
     (\<exists>p. \<not> gap_invalid g \<and> hg_gap_id g \<notin> gl_gap_ids st \<and> gap_periods resets ps g = [p] \<and>
        (\<forall>k. gl_previous_gap_key st = Some k \<longrightarrow>
           \<not> gap_key_less (hg_reset_at g, hg_start_at g, hg_end_at g, hg_gap_id g) k) \<and>
        (\<forall>s e. (hp_id p, s, e) \<in> set (gl_gap_ranges st) \<longrightarrow> \<not> (hg_start_at g \<le> e \<and> s \<le> hg_end_at g)) \<and>
        st' = \<lparr>gl_gap_ids = insert (hg_gap_id g) (gl_gap_ids st),
          gl_previous_gap_key = Some (hg_reset_at g, hg_start_at g, hg_end_at g, hg_gap_id g),
          gl_gap_ranges = gl_gap_ranges st @ [(hp_id p, hg_start_at g, hg_end_at g)]\<rparr>)"
  by (auto simp: gap_step_def Let_def list_ex_iff split: list.splits option.splits)

interpretation gap_scan: pairwise_scan "gap_step resets ps" "gap_seen resets ps"
  "\<lambda>g. \<not> gap_invalid g \<and> length (gap_periods resets ps g) = 1" "gap_compatible resets ps"
  for resets ps
  by unfold_locales (fastforce simp: gap_step_iff gap_seen_def gap_compatible_def)+


text \<open>The parts of an accepted payload, with the set of reset times the row loops were given.\<close>

lemma validate_parts:
  assumes "validate_with_history_limit d n = Inr ()"
  shows "\<exists>st st'. check_periods {} {} 0 (d_history_periods d) =
      Inr (hp_reset_at ` set (d_history_periods d), length (filter hp_current (d_history_periods d))) \<and>
    length (filter hp_current (d_history_periods d)) \<le> 1 \<and>
    check_current_periods (d_observed_at d) (d_quota d) (d_history_periods d) = Inr () \<and>
    fold_res (sample_step (hp_reset_at ` set (d_history_periods d)) (d_history_periods d))
      \<lparr>sl_sample_ids = {}, sl_canonical_sample_ids = {}, sl_previous_sample_key = None\<rparr>
      (d_history_samples d) = Inr st \<and>
    fold_res (gap_step (hp_reset_at ` set (d_history_periods d)) (d_history_periods d))
      \<lparr>gl_gap_ids = {}, gl_previous_gap_key = None, gl_gap_ranges = []\<rparr> (d_history_gaps d) = Inr st' \<and>
    validate_threads d = Inr ()"
proof -
  obtain resets k st st' where
    p: "check_periods {} {} 0 (d_history_periods d) = Inr (resets, k)" "\<not> k > 1"
    "check_current_periods (d_observed_at d) (d_quota d) (d_history_periods d) = Inr ()"
    "fold_res (sample_step resets (d_history_periods d))
      \<lparr>sl_sample_ids = {}, sl_canonical_sample_ids = {}, sl_previous_sample_key = None\<rparr>
      (d_history_samples d) = Inr st"
    "fold_res (gap_step resets (d_history_periods d))
      \<lparr>gl_gap_ids = {}, gl_previous_gap_key = None, gl_gap_ranges = []\<rparr> (d_history_gaps d) = Inr st'"
    "validate_threads d = Inr ()"
    using assms unfolding validate_with_history_limit_def
    by (simp only: result_simps split: if_splits) (auto simp: result_simps split: if_splits)
  with check_periods_ok[OF p(1)] show ?thesis by auto
qed

section \<open>Properties\<close>


text \<open>
  C25. History gaps: in an accepted payload every gap lies inside exactly one period, gap ids are
  different, and two gaps of the same period share no second.
\<close>

theorem details_gaps_sound:
  assumes "validate_with_history_limit d limit = Inr ()"
    and "gap_of = gap_periods (hp_reset_at ` set (d_history_periods d)) (d_history_periods d)"
  shows "distinct (map hg_gap_id (d_history_gaps d)) \<and>
    (\<forall>g \<in> set (d_history_gaps d). \<exists>p. gap_of g = [p] \<and>
       hp_start_at p \<le> hg_start_at g \<and> hg_start_at g \<le> hg_end_at g \<and> hg_end_at g \<le> hp_end_at p) \<and>
    sorted_wrt (\<lambda>g h. gap_of g = gap_of h \<longrightarrow>
        {hg_start_at g .. hg_end_at g} \<inter> {hg_start_at h .. hg_end_at h} = {}) (d_history_gaps d)"
proof -
  let ?resets = "hp_reset_at ` set (d_history_periods d)" and ?ps = "d_history_periods d"
  let ?gs = "d_history_gaps d"
  obtain st where ok: "fold_res (gap_step ?resets ?ps)
      \<lparr>gl_gap_ids = {}, gl_previous_gap_key = None, gl_gap_ranges = []\<rparr> ?gs = Inr st"
    using validate_parts[OF assms(1)] by blast
  from gap_scan.scan_pairwise[OF ok] have
    good: "\<forall>g \<in> set ?gs. \<not> gap_invalid g \<and> length (gap_periods ?resets ?ps g) = 1"
    and pw: "sorted_wrt (gap_compatible ?resets ?ps) ?gs"
    by (auto simp: list_all_iff)
  have "sorted_wrt (\<lambda>g h. hg_gap_id g \<noteq> hg_gap_id h) ?gs"
    using pw by (rule sorted_wrt_mono_rel[rotated]) (simp add: gap_compatible_def)
  then have "distinct (map hg_gap_id ?gs)"
    by (simp only: distinct_conv_nth sorted_wrt_iff_nth_less) (metis length_map linorder_neqE_nat nth_map)
  moreover have "sorted_wrt (\<lambda>g h. gap_of g = gap_of h \<longrightarrow>
      {hg_start_at g .. hg_end_at g} \<inter> {hg_start_at h .. hg_end_at h} = {}) ?gs"
    using pw by (rule sorted_wrt_mono_rel[rotated]) (auto simp: gap_compatible_def assms(2))
  moreover have "\<exists>p. gap_of g = [p] \<and> hp_start_at p \<le> hg_start_at g \<and> hg_start_at g \<le> hg_end_at g \<and>
      hg_end_at g \<le> hp_end_at p" if g: "g \<in> set ?gs" for g
  proof -
    obtain p where "gap_of g = [p]" using good g assms(2) by (auto simp: length_Suc_conv)
    moreover from this have "p \<in> set (gap_of g)" by simp
    then have "hp_start_at p \<le> hg_start_at g \<and> hg_end_at g \<le> hp_end_at p"
      by (simp add: assms(2) gap_periods_def)
    moreover have "hg_start_at g \<le> hg_end_at g" using good g by (auto simp: gap_invalid_def)
    ultimately show ?thesis by blast
  qed
  ultimately show ?thesis by blast
qed

text \<open>
  C26. Periods: accepted periods have different ids and different reset times, at most one is
  current, and a current period next to a quota starts one window before the quota's reset and
  ends at the earlier of that reset and the observation.
\<close>

theorem details_periods_sound:
  assumes "validate_with_history_limit d limit = Inr ()"
  shows "distinct (map hp_id (d_history_periods d)) \<and> distinct (map hp_reset_at (d_history_periods d)) \<and>
    length (filter hp_current (d_history_periods d)) \<le> 1 \<and>
    (\<forall>p \<in> set (d_history_periods d). \<forall>q. hp_current p \<longrightarrow> d_quota d = Some q \<longrightarrow>
       (\<exists>observed_at. d_observed_at d = Some observed_at \<and>
          hp_start_at p = q_reset_at q - q_window_seconds q \<and>
          hp_end_at p = min (q_reset_at q) observed_at))"
proof -
  from validate_parts[OF assms] have
    p: "check_periods {} {} 0 (d_history_periods d) =
      Inr (hp_reset_at ` set (d_history_periods d), length (filter hp_current (d_history_periods d)))"
    "length (filter hp_current (d_history_periods d)) \<le> 1"
    "check_current_periods (d_observed_at d) (d_quota d) (d_history_periods d) = Inr ()"
    by auto
  have "current_period_bounds r w t = Some (s, e) \<Longrightarrow> s = r - w \<and> e = min r t" for r w t s e
    by (auto simp: current_period_bounds_def current_period_start_at_def i64_checked_sub_def Let_def
        split: option.splits if_splits)
  with check_periods_ok[OF p(1)] p(2) check_current_periods_ok[OF p(3)] show ?thesis
    by (auto split: option.splits) blast
qed

text \<open>
  Version 1 survives version 2: every sample of a v1 payload comes back unchanged from the
  v2 observation it is projected to.
\<close>

theorem v1_v2_samples_roundtrip:
  "map as_legacy_sample (d2_history_samples (PublicDetailsV2_from d)) = map Some (d_history_samples d)"
  by (simp add: PublicDetailsV2_from_def observation_of_sample_def as_legacy_sample_def LEGACY_SOURCES_def)

text \<open>
  C27. The v3 projection never overstates: cached input stays within input and input within the
  total even when a sum saturates, no cost is invented, every thread gets a status, and history
  rows carry model values exactly when they are marked as legacy rows, never as complete.
\<close>

theorem v3_projection_sound:
  "(\<forall>m \<in> set (d3_models (PublicDetailsV3_from d)).
      m3_cached_input_tokens m \<le> m3_input_tokens m \<and> m3_input_tokens m \<le> m3_total_tokens m \<and>
      m3_estimated_cost m = None) \<and>
   (\<forall>t \<in> set (d3_threads (PublicDetailsV3_from d)). th_activity_status t \<noteq> None) \<and>
   (\<forall>s \<in> set (d3_history_samples (PublicDetailsV3_from d)).
      \<not> ho3_models_complete s \<and>
      (ho3_models s \<noteq> None \<longleftrightarrow> ho3_model_source s = lit ''legacy-unknown''))"
proof -
  have le: "b \<le> saturating_add a b" "a \<le> saturating_add a b" for a b :: u64
    using unat_lt_width[of a] unat_lt_width[of b]
    by (simp_all add: word_le_nat_alt unat_saturating_add)
  have "ho3_models (observation_v3_of_v2 s) \<noteq> None \<longleftrightarrow>
      ho3_model_source (observation_v3_of_v2 s) = lit ''legacy-unknown''"
    "\<not> ho3_models_complete (observation_v3_of_v2 s)" for s
    by (auto simp: observation_v3_of_v2_def legacy_history_models_v3_def Let_def lit_def)
  with le show ?thesis
    by (auto simp: PublicDetailsV3_from_def from_v2_with_models_def model_v3_of_v2_def)
qed

section \<open>A concrete payload\<close>

definition example_details :: PublicDetails where
  "example_details = PublicDetails_default\<lparr>
     d_observed_at := Some 1000000,
     d_quota := Some \<lparr>q_remaining_percent = F64_Finite 40, q_reset_at = 1200000, q_window_seconds = 604800,
       q_monthly = False\<rparr>,
     d_history_periods := [\<lparr>hp_id = lit ''p'', hp_start_at = 595200, hp_end_at = 1000000, hp_reset_at = 1200000,
       hp_label = lit ''week'', hp_current = True\<rparr>],
     d_history_samples :=
       [\<lparr>hs_timestamp = 600000, hs_reset_at = 1199990, hs_remaining_percent = None, hs_sol_dollars = F64_Finite 0,
         hs_terra_dollars = F64_Finite 0, hs_luna_dollars = F64_Finite 0, hs_sol_tokens = 0, hs_terra_tokens = 0,
         hs_luna_tokens = 0\<rparr>,
        \<lparr>hs_timestamp = 600060, hs_reset_at = 1200000, hs_remaining_percent = Some (F64_Finite 50),
         hs_sol_dollars = F64_Finite 1, hs_terra_dollars = F64_Finite 0, hs_luna_dollars = F64_Finite 0,
         hs_sol_tokens = 9, hs_terra_tokens = 0, hs_luna_tokens = 0\<rparr>],
     d_history_gaps :=
       [\<lparr>hg_gap_id = replicate 32 48, hg_reset_at = 1200000, hg_start_at = 700000, hg_end_at = 700100,
         hg_reason = lit ''reset_hint_expired''\<rparr>,
        \<lparr>hg_gap_id = replicate 32 49, hg_reset_at = 1200000, hg_start_at = 700101, hg_end_at = 700200,
         hg_reason = lit ''daemon_stop_unrecoverable''\<rparr>]\<rparr>"

lemmas details_eval = example_details_def PublicDetails_default_def
  quota_invalid_def valid_rate_def valid_timestamp_def MAX_PUBLIC_UNIX_SECONDS_def MAX_PUBLIC_MODELS_def
  MAX_PUBLIC_HISTORY_GAPS_def MAX_PUBLIC_THREADS_def MAX_PUBLIC_STATUS_SCALARS_def valid_text_def
  MAX_PUBLIC_ID_SCALARS_def MAX_PUBLIC_HISTORY_LABEL_SCALARS_def is_control_def is_bidi_formatting_def

lemmas row_eval = sample_invalid_def sample_periods_def reset_matches_def history_minute_in_period_def
  i64_saturating_sub_def i64_min_def i64_max_def key2_less_def valid_lower_hex32_def
  str_len_def utf8_width_def is_lower_hex_digit_def is_ascii_digit_def

lemma example_details_samples:
  "is_ok (fold_res (sample_step {1200000} (d_history_periods example_details))
     \<lparr>sl_sample_ids = {}, sl_canonical_sample_ids = {}, sl_previous_sample_key = None\<rparr>
     (d_history_samples example_details))"
  by (simp add: details_eval row_eval sample_step_def Let_def)

lemma example_details_gaps:
  "is_ok (fold_res (gap_step {1200000} (d_history_periods example_details))
     \<lparr>gl_gap_ids = {}, gl_previous_gap_key = None, gl_gap_ranges = []\<rparr>
     (d_history_gaps example_details))"
  by (simp add: details_eval row_eval gap_step_def gap_invalid_def gap_periods_def Let_def
      sum_list_replicate list_all_iff)

lemma example_details_fields:
  "d_observed_at example_details = Some 1000000" "d_plan_label example_details = None"
  "d_models example_details = []" "d_threads example_details = []"
  "length (d_history_samples example_details) = 2" "length (d_history_gaps example_details) = 2"
  "valid_text (d_estimated_cost_label example_details) MAX_PUBLIC_STATUS_SCALARS"
  "check_periods {} {} 0 (d_history_periods example_details) = Inr ({1200000}, 1)"
  by (simp_all add: details_eval lit_def)

lemma example_details_current:
  "pred_option (\<lambda>q. \<not> quota_invalid q) (d_quota example_details)"
  "check_current_periods (Some 1000000) (d_quota example_details) (d_history_periods example_details) = Inr ()"
  by (simp_all add: details_eval current_period_bounds_def current_period_start_at_def
      i64_checked_sub_def is_i64_def i64_min_def i64_max_def)

lemma example_details_valid: "validate_with_history_limit example_details 10 = Inr ()"
  using example_details_samples example_details_gaps example_details_current
  by (auto simp: validate_with_history_limit_def example_details_fields validate_threads_def is_ok_iff
      valid_timestamp_def MAX_PUBLIC_UNIX_SECONDS_def MAX_PUBLIC_MODELS_def
      MAX_PUBLIC_HISTORY_GAPS_def MAX_PUBLIC_THREADS_def split: option.splits)


theorem details_gaps_sound_witness:
  "validate_with_history_limit example_details 10 = Inr () \<and>
   distinct (map hg_gap_id (d_history_gaps example_details)) \<and> length (d_history_gaps example_details) = 2"
  using details_gaps_sound[OF example_details_valid refl] example_details_valid
  by (simp add: example_details_def)

theorem details_periods_sound_witness:
  "validate_with_history_limit example_details 10 = Inr () \<and>
   length (filter hp_current (d_history_periods example_details)) \<le> 1"
  using details_periods_sound[OF example_details_valid] example_details_valid by blast

theorem v3_projection_sound_witness:
  "list_all (\<lambda>s. \<not> ho3_models_complete s)
     (d3_history_samples (PublicDetailsV3_from (PublicDetailsV2_from example_details)))"
  using v3_projection_sound[of "PublicDetailsV2_from example_details"] unfolding list_all_iff by blast

end
