(* ===== verification/Period_Attribution.thy ===== *)
theory Period_Attribution
  imports Interfaces "HOL-Library.Product_Lexorder" "HOL-Library.Option_ord"
begin

text \<open>
  \<open>codex-info-db-writer/src/period_attribution.rs\<close>: the reconstruction of official quota periods
  from qualified observations. Observations become components, components that touch are merged,
  adjacent merged components of one period form runs, and a run gives the closed span of seconds
  it proves. Lookups search the spans by owner and lower bound; a new timeline is compared with a
  previous one as ranges of seconds to revisit.
\<close>

definition MAX_UNIX_SECONDS :: i64 where "MAX_UNIX_SECONDS = 253402300799"

record OfficialPeriod =
  op_reset_at :: i64
  op_window_seconds :: i64

record OfficialObservation =
  ob_lower_at :: i64
  ob_upper_at :: i64
  ob_reset_at :: "i64 option"
  ob_window_seconds :: "i64 option"
  ob_acquisition_sequence :: "u64 option"
  ob_ownership_interval :: u64

datatype AttributionError =
    InvalidBounds
  | InvalidReset
  | InvalidWindow
  | InvalidReceiptSequence
  | ConflictingReceiptSequence

record Bounds =
  b_lower :: i64
  b_upper :: i64

record Component =
  c_ownership_interval :: u64
  c_bounds :: Bounds
  c_period :: "OfficialPeriod option"

record Run =
  r_ownership_interval :: u64
  r_first :: Bounds
  r_last :: Bounds
  r_period :: "OfficialPeriod option"

record AttributedSpan =
  s_ownership_interval :: u64
  s_bounds :: Bounds
  s_period :: OfficialPeriod

record AttributionTimeline =
  spans :: "AttributedSpan list"

section \<open>Reading the observations\<close>

text \<open>The derived order of the set of observations: the fields in their order, \<open>None\<close> first.\<close>

definition observation_key ::
  "OfficialObservation \<Rightarrow> i64 \<times> i64 \<times> i64 option \<times> i64 option \<times> u64 option \<times> u64" where
  "observation_key ob = (ob_lower_at ob, ob_upper_at ob, ob_reset_at ob, ob_window_seconds ob,
     ob_acquisition_sequence ob, ob_ownership_interval ob)"

record observation_loop =
  receipts :: "(u64 \<times> OfficialObservation) list"
  unique :: "OfficialObservation list"
  windows :: "i64 \<Rightarrow> i64 list"

definition in_range :: "i64 \<Rightarrow> i64 \<Rightarrow> i64 \<Rightarrow> bool" where
  "in_range lo hi x \<longleftrightarrow> lo \<le> x \<and> x \<le> hi"

text \<open>
  One round of the loop. The set of windows of a reset time is a list without repetition, empty
  where the map has no entry; the set \<open>unique\<close> is a list without repetition too.
\<close>

definition observation_step ::
  "observation_loop \<Rightarrow> OfficialObservation \<Rightarrow> AttributionError + observation_loop" where
  "observation_step st ob =
     (if \<not> in_range 1 MAX_UNIX_SECONDS (ob_lower_at ob)
         \<or> \<not> in_range (ob_lower_at ob) MAX_UNIX_SECONDS (ob_upper_at ob) then Inl InvalidBounds
      else if (case ob_reset_at ob of None \<Rightarrow> False | Some reset \<Rightarrow> \<not> in_range 1 MAX_UNIX_SECONDS reset)
         \<or> (ob_reset_at ob = None \<and> ob_window_seconds ob \<noteq> None) then Inl InvalidReset
      else try_res
        (case (ob_window_seconds ob, ob_reset_at ob) of
           (Some window, Some reset) \<Rightarrow>
             if window \<le> 0 then Inl InvalidWindow
             else Inr ((windows st)(reset := List.insert window (windows st reset)))
         | _ \<Rightarrow> Inr (windows st))
        (\<lambda>windows'. try_res
          (case ob_acquisition_sequence ob of
             Some sequence \<Rightarrow>
               if sequence = 0 \<or> ob_lower_at ob \<noteq> ob_upper_at ob then Inl InvalidReceiptSequence
               else (case map_of (receipts st) sequence of
                   Some previous \<Rightarrow>
                     if previous \<noteq> ob then Inl ConflictingReceiptSequence
                     else Inr (btree_insert sequence ob (receipts st))
                 | None \<Rightarrow> Inr (btree_insert sequence ob (receipts st)))
           | None \<Rightarrow> Inr (receipts st))
          (\<lambda>receipts'. Inr \<lparr>receipts = receipts', unique = List.insert ob (unique st), windows = windows'\<rparr>)))"

section \<open>Components\<close>

definition observation_period :: "(i64 \<Rightarrow> i64 list) \<Rightarrow> OfficialObservation \<Rightarrow> OfficialPeriod option" where
  "observation_period ws ob =
     (case ob_window_seconds ob of
        None \<Rightarrow> None
      | Some window \<Rightarrow> (case ob_reset_at ob of
          None \<Rightarrow> None
        | Some reset \<Rightarrow> (case i64_checked_sub reset window of
            None \<Rightarrow> None
          | Some origin \<Rightarrow>
              if origin \<ge> 1 \<and> length (ws reset) = 1
              then Some \<lparr>op_reset_at = reset, op_window_seconds = window\<rparr> else None)))"

definition component_of :: "(i64 \<Rightarrow> i64 list) \<Rightarrow> OfficialObservation \<Rightarrow> Component" where
  "component_of ws ob =
     (let original = \<lparr>b_lower = ob_lower_at ob, b_upper = ob_upper_at ob\<rparr>;
          (bounds, period) =
            (case observation_period ws ob of
               Some period \<Rightarrow>
                 (let clipped = \<lparr>b_lower = max (b_lower original) (op_reset_at period - op_window_seconds period),
                                b_upper = min (b_upper original) (op_reset_at period - 1)\<rparr>
                  in if b_lower clipped \<le> b_upper clipped then (clipped, Some period) else (original, None))
             | None \<Rightarrow> (original, None))
      in \<lparr>c_ownership_interval = ob_ownership_interval ob, c_bounds = bounds, c_period = period\<rparr>)"

text \<open>
  Receipts in the order of their sequence numbers: a receipt with an earlier time than the last
  one of the same ownership interval proves a clock reversal over the seconds between them.
\<close>

fun reversals :: "(u64 \<rightharpoonup> i64) \<Rightarrow> OfficialObservation list \<Rightarrow> Component list" where
  "reversals previous_time [] = []"
| "reversals previous_time (ob # rest) =
     (let previous_time' = previous_time(ob_ownership_interval ob \<mapsto> ob_lower_at ob) in
      (case previous_time (ob_ownership_interval ob) of
         Some previous \<Rightarrow>
           (if ob_lower_at ob < previous
            then [\<lparr>c_ownership_interval = ob_ownership_interval ob,
                   c_bounds = \<lparr>b_lower = ob_lower_at ob, b_upper = previous\<rparr>, c_period = None\<rparr>]
            else [])
       | None \<Rightarrow> []) @ reversals previous_time' rest)"

definition component_key :: "Component \<Rightarrow> u64 \<times> i64 \<times> i64" where
  "component_key c = (c_ownership_interval c, b_lower (c_bounds c), b_upper (c_bounds c))"

text \<open>
  The merge loop looks only at the last merged component, which is \<open>previous\<close> here; the ones
  before it are finished.
\<close>

fun merge_from :: "Component \<Rightarrow> Component list \<Rightarrow> Component list" where
  "merge_from previous [] = [previous]"
| "merge_from previous (component # rest) =
     (if c_ownership_interval previous = c_ownership_interval component
         \<and> b_lower (c_bounds component) \<le> b_upper (c_bounds previous)
      then merge_from (previous
             \<lparr>c_bounds := (c_bounds previous)
                \<lparr>b_upper := max (b_upper (c_bounds previous)) (b_upper (c_bounds component))\<rparr>,
              c_period := (if c_period previous \<noteq> c_period component then None else c_period previous)\<rparr>) rest
      else previous # merge_from component rest)"

fun merge_components :: "Component list \<Rightarrow> Component list" where
  "merge_components [] = []"
| "merge_components (component # rest) = merge_from component rest"

section \<open>Runs and spans\<close>

definition run_of :: "Component \<Rightarrow> Run" where
  "run_of component = \<lparr>r_ownership_interval = c_ownership_interval component,
     r_first = c_bounds component, r_last = c_bounds component, r_period = c_period component\<rparr>"

fun runs_from :: "Run \<Rightarrow> Component list \<Rightarrow> Run list" where
  "runs_from previous [] = [previous]"
| "runs_from previous (component # rest) =
     (if c_period component \<noteq> None
         \<and> r_ownership_interval previous = c_ownership_interval component
         \<and> r_period previous = c_period component
      then runs_from (previous\<lparr>r_last := c_bounds component\<rparr>) rest
      else previous # runs_from (run_of component) rest)"

fun runs_of :: "Component list \<Rightarrow> Run list" where
  "runs_of [] = []"
| "runs_of (component # rest) = runs_from (run_of component) rest"

text \<open>The start of the newer of two adjacent runs, when it separates them.\<close>

definition boundary :: "Run \<Rightarrow> Run \<Rightarrow> i64 option" where
  "boundary previous current =
     (case (r_period previous, r_period current) of
        (Some old, Some new) \<Rightarrow>
          (let origin = op_reset_at new - op_window_seconds new in
           if r_ownership_interval previous = r_ownership_interval current \<and> old \<noteq> new
              \<and> b_upper (r_last previous) < origin \<and> origin \<le> b_lower (r_first current)
           then Some origin else None)
      | _ \<Rightarrow> None)"

definition adjust_limits :: "Run list \<Rightarrow> Bounds list \<Rightarrow> nat \<Rightarrow> Bounds list" where
  "adjust_limits runs limits index =
     (case boundary (runs ! index) (runs ! (index + 1)) of
        Some origin \<Rightarrow>
          limits[index := (limits ! index)\<lparr>b_upper := origin - 1\<rparr>,
                 index + 1 := (limits ! (index + 1))\<lparr>b_lower := origin\<rparr>]
      | None \<Rightarrow> limits)"

definition limits_of :: "Run list \<Rightarrow> Bounds list" where
  "limits_of runs = foldl (adjust_limits runs)
     (map (\<lambda>run. \<lparr>b_lower = b_upper (r_first run), b_upper = b_lower (r_last run)\<rparr>) runs)
     [0..<length runs - 1]"

definition span_of :: "Run \<times> Bounds \<Rightarrow> AttributedSpan option" where
  "span_of rb =
     (case rb of (run, bounds) \<Rightarrow>
       (case r_period run of
          None \<Rightarrow> None
        | Some period \<Rightarrow>
            (let clipped = \<lparr>b_lower = max (b_lower bounds) (op_reset_at period - op_window_seconds period),
                           b_upper = min (b_upper bounds) (op_reset_at period - 1)\<rparr>
             in if b_lower clipped \<le> b_upper clipped
                then Some \<lparr>s_ownership_interval = r_ownership_interval run, s_bounds = clipped,
                           s_period = period\<rparr>
                else None)))"

definition components_of :: "observation_loop \<Rightarrow> Component list" where
  "components_of st =
     sort_key component_key
       (map (component_of (windows st)) (sort_key observation_key (unique st))
        @ reversals Map.empty (map snd (receipts st)))"

definition from_observations :: "OfficialObservation list \<Rightarrow> AttributionError + AttributionTimeline" where
  "from_observations observations =
     try_res (fold_res observation_step \<lparr>receipts = [], unique = [], windows = (\<lambda>_. [])\<rparr> observations)
       (\<lambda>st. let runs = runs_of (merge_components (components_of st))
             in Inr \<lparr>spans = List.map_filter span_of (zip runs (limits_of runs))\<rparr>)"

section \<open>Lookups and changes\<close>

text \<open>
  \<open>partition_point\<close> of the standard library on a slice whose elements that satisfy the
  predicate come first; the spans of every timeline are partitioned that way.
\<close>

definition partition_point :: "('a \<Rightarrow> bool) \<Rightarrow> 'a list \<Rightarrow> nat" where
  "partition_point p xs = length (takeWhile p xs)"

definition attribution_at ::
  "AttributionTimeline \<Rightarrow> i64 \<Rightarrow> u64 \<Rightarrow> (OfficialPeriod \<times> i64 \<times> i64) option" where
  "attribution_at timeline observed_at ownership_interval =
     (let index = partition_point (\<lambda>span.
            (s_ownership_interval span, b_lower (s_bounds span)) \<le> (ownership_interval, observed_at)) (spans timeline)
      in if index = 0 then None
         else (let span = spans timeline ! (index - 1) in
           if s_ownership_interval span = ownership_interval \<and> observed_at \<le> b_upper (s_bounds span)
           then Some (s_period span, b_lower (s_bounds span), b_upper (s_bounds span)) else None))"

definition period_at :: "AttributionTimeline \<Rightarrow> i64 \<Rightarrow> u64 \<Rightarrow> OfficialPeriod option" where
  "period_at timeline observed_at ownership_interval =
     map_option fst (attribution_at timeline observed_at ownership_interval)"

definition span_contains :: "AttributedSpan \<Rightarrow> AttributedSpan \<Rightarrow> bool" where
  "span_contains new old \<longleftrightarrow> s_ownership_interval new = s_ownership_interval old
     \<and> s_period new = s_period old \<and> b_lower (s_bounds new) \<le> b_lower (s_bounds old)
     \<and> b_upper (s_bounds old) \<le> b_upper (s_bounds new)"

text \<open>The seconds of a new span that the old spans it contains leave uncovered.\<close>

fun uncovered :: "AttributedSpan \<Rightarrow> i64 \<Rightarrow> AttributedSpan list \<Rightarrow> (i64 \<times> i64) list" where
  "uncovered new lower [] =
     (if lower \<le> b_upper (s_bounds new) then [(lower, b_upper (s_bounds new))] else [])"
| "uncovered new lower (old # rest) =
     (if lower < b_lower (s_bounds old) then [(lower, b_lower (s_bounds old) - 1)] else [])
     @ uncovered new (max lower (i64_saturating_add (b_upper (s_bounds old)) 1)) rest"

fun merge_ranges :: "i64 \<times> i64 \<Rightarrow> (i64 \<times> i64) list \<Rightarrow> (i64 \<times> i64) list" where
  "merge_ranges prev [] = [prev]"
| "merge_ranges prev ((lower, upper) # rest) =
     (if lower \<le> i64_saturating_add (snd prev) 1
      then merge_ranges (fst prev, max (snd prev) upper) rest
      else prev # merge_ranges (lower, upper) rest)"

definition changed_ranges :: "AttributionTimeline \<Rightarrow> AttributionTimeline \<Rightarrow> (i64 \<times> i64) list" where
  "changed_ranges timeline previous =
     (let lost = map (\<lambda>old. (b_lower (s_bounds old), b_upper (s_bounds old)))
            (filter (\<lambda>old. \<not> list_ex (\<lambda>new. span_contains new old) (spans timeline)) (spans previous));
          gained = concat (map (\<lambda>new. uncovered new (b_lower (s_bounds new))
            (filter (span_contains new) (spans previous))) (spans timeline))
      in (case sort (lost @ gained) of [] \<Rightarrow> [] | r # rs \<Rightarrow> merge_ranges r rs))"

section \<open>Merged components are separated\<close>

definition nonempty :: "Bounds \<Rightarrow> bool" where
  "nonempty b \<longleftrightarrow> b_lower b \<le> b_upper b"

definition component_sep :: "Component \<Rightarrow> Component \<Rightarrow> bool" where
  "component_sep a b \<longleftrightarrow> c_ownership_interval a < c_ownership_interval b \<or>
     (c_ownership_interval a = c_ownership_interval b \<and> b_upper (c_bounds a) < b_lower (c_bounds b))"

text \<open>The evidence \<open>c\<close> is part of the merged component \<open>m\<close>, which keeps a period only if all agree.\<close>

definition part_of :: "Component \<Rightarrow> Component \<Rightarrow> bool" where
  "part_of c m \<longleftrightarrow> c_ownership_interval m = c_ownership_interval c \<and>
     b_lower (c_bounds m) \<le> b_lower (c_bounds c) \<and> b_upper (c_bounds c) \<le> b_upper (c_bounds m) \<and>
     (c_period m \<noteq> None \<longrightarrow> c_period m = c_period c)"

abbreviation start_key :: "Component \<Rightarrow> u64 \<times> i64" where
  "start_key c \<equiv> (c_ownership_interval c, b_lower (c_bounds c))"

lemma part_of_refl: "part_of c c"
  by (simp add: part_of_def)

lemma part_of_trans: "part_of a b \<Longrightarrow> part_of b c \<Longrightarrow> part_of a c"
  by (auto simp: part_of_def)

lemma merge_from_ok:
  assumes "sorted_wrt (\<lambda>a b. start_key a \<le> start_key b) (prev # cs)" "list_all (\<lambda>c. nonempty (c_bounds c)) (prev # cs)"
  shows "sorted_wrt component_sep (merge_from prev cs) \<and>
    list_all (\<lambda>m. nonempty (c_bounds m) \<and> start_key prev \<le> start_key m) (merge_from prev cs) \<and>
    (\<forall>c \<in> set (prev # cs). \<exists>m \<in> set (merge_from prev cs). part_of c m) \<and>
    (\<forall>m \<in> set (merge_from prev cs). c_period m \<noteq> None \<longrightarrow>
       (\<exists>c \<in> set (prev # cs). c_ownership_interval c = c_ownership_interval m \<and> c_period c = c_period m))"
  using assms
proof (induction prev cs rule: merge_from.induct)
  case (1 prev)
  then show ?case by (auto simp: part_of_refl)
next
  case (2 prev c cs)
  show ?case
  proof (cases "c_ownership_interval prev = c_ownership_interval c \<and>
      b_lower (c_bounds c) \<le> b_upper (c_bounds prev)")
    case True
    define p where "p = prev\<lparr>c_bounds := (c_bounds prev)
                \<lparr>b_upper := max (b_upper (c_bounds prev)) (b_upper (c_bounds c))\<rparr>,
              c_period := (if c_period prev \<noteq> c_period c then None else c_period prev)\<rparr>"
    have key: "c_ownership_interval p = c_ownership_interval prev"
      "b_lower (c_bounds p) = b_lower (c_bounds prev)" by (simp_all add: p_def)
    have parts: "part_of prev p" "part_of c p" using True 2(3) by (auto simp: p_def part_of_def)
    have period: "c_period p \<noteq> None \<Longrightarrow> c_period p = c_period prev" "c_ownership_interval p = c_ownership_interval prev"
      by (auto simp: p_def split: if_splits)
    have sorted: "sorted_wrt (\<lambda>a b. start_key a \<le> start_key b) (p # cs)"
      using 2(3) by (simp add: key)
    have nonempty: "list_all (\<lambda>c. nonempty (c_bounds c)) (p # cs)" using 2(4) by (auto simp: p_def nonempty_def)
    have step: "merge_from prev (c # cs) = merge_from p cs" using True by (simp add: p_def)
    note ih = 2(1)[OF True, folded p_def, OF sorted nonempty]
    have "\<exists>m \<in> set (merge_from p cs). part_of d m" if "d \<in> set (prev # c # cs)" for d
      using ih parts part_of_trans that by (metis list.set_intros set_ConsD)
    moreover have "\<exists>d \<in> set (prev # c # cs). c_ownership_interval d = c_ownership_interval m \<and> c_period d = c_period m"
      if "m \<in> set (merge_from p cs)" "c_period m \<noteq> None" for m
    proof -
      obtain d where "d \<in> set (p # cs)" "c_ownership_interval d = c_ownership_interval m" "c_period d = c_period m"
        using ih \<open>m \<in> _\<close> \<open>c_period m \<noteq> None\<close> by blast
      then show ?thesis using period \<open>c_period m \<noteq> None\<close> by (cases "d = p") auto
    qed
    ultimately show ?thesis unfolding step using ih by (simp add: key)
  next
    case False
    have sorted: "sorted_wrt (\<lambda>a b. start_key a \<le> start_key b) (c # cs)"
      and nonempty: "list_all (\<lambda>c. nonempty (c_bounds c)) (c # cs)" using 2(3,4) by auto
    note ih = 2(2)[OF False sorted nonempty]
    have "start_key prev \<le> start_key c" using 2(3) by simp
    with False have "component_sep prev m \<and> start_key prev \<le> start_key m" if "start_key c \<le> start_key m" for m
      using that 2(4) by (auto simp: component_sep_def less_eq_prod_def nonempty_def)
    with ih have "\<forall>m \<in> set (merge_from c cs). component_sep prev m \<and> start_key prev \<le> start_key m"
      by (auto simp: list_all_iff)
    moreover have "merge_from prev (c # cs) = prev # merge_from c cs" using False by auto
    ultimately show ?thesis using ih 2(4) by (auto simp: list_all_iff part_of_refl)
  qed
qed

lemma merge_components_ok:
  assumes "list_all (\<lambda>c. nonempty (c_bounds c)) cs"
  defines "ms \<equiv> merge_components (sort_key component_key cs)"
  shows "sorted_wrt component_sep ms" "list_all (\<lambda>m. nonempty (c_bounds m)) ms"
    and "\<forall>c \<in> set cs. \<exists>m \<in> set ms. part_of c m"
    and "\<forall>m \<in> set ms. c_period m \<noteq> None \<longrightarrow>
       (\<exists>c \<in> set cs. c_ownership_interval c = c_ownership_interval m \<and> c_period c = c_period m)"
proof -
  have "sorted_wrt (\<lambda>a b. component_key a \<le> component_key b) (sort_key component_key cs)"
    using sorted_sort_key[of component_key cs] by (simp only: sorted_map)
  then have s: "sorted_wrt (\<lambda>a b. start_key a \<le> start_key b) (sort_key component_key cs)"
    by (rule sorted_wrt_mono_rel[rotated]) (auto simp: component_key_def less_eq_prod_def)
  have n: "list_all (\<lambda>c. nonempty (c_bounds c)) (sort_key component_key cs)"
    using assms(1) by (simp add: list_all_iff)
  have st: "set (sort_key component_key cs) = set cs" by simp
  have "sorted_wrt component_sep ms \<and> list_all (\<lambda>m. nonempty (c_bounds m)) ms \<and>
    (\<forall>c \<in> set cs. \<exists>m \<in> set ms. part_of c m) \<and>
    (\<forall>m \<in> set ms. c_period m \<noteq> None \<longrightarrow>
       (\<exists>c \<in> set cs. c_ownership_interval c = c_ownership_interval m \<and> c_period c = c_period m))"
  proof (cases "sort_key component_key cs")
    case Nil
    with st show ?thesis by (simp add: ms_def)
  next
    case (Cons p rest)
    then have ms: "ms = merge_from p rest" by (simp add: ms_def)
    have set: "set cs = set (p # rest)" by (simp only: st[symmetric] Cons)
    note ok = merge_from_ok[OF s[unfolded Cons] n[unfolded Cons]]
    then have "list_all (\<lambda>m. nonempty (c_bounds m)) ms" unfolding ms list_all_iff by blast
    with ok show ?thesis unfolding set ms by blast
  qed
  then show "sorted_wrt component_sep ms" "list_all (\<lambda>m. nonempty (c_bounds m)) ms"
    "\<forall>c \<in> set cs. \<exists>m \<in> set ms. part_of c m"
    "\<forall>m \<in> set ms. c_period m \<noteq> None \<longrightarrow>
       (\<exists>c \<in> set cs. c_ownership_interval c = c_ownership_interval m \<and> c_period c = c_period m)"
    by blast+
qed

section \<open>Runs are separated\<close>

definition run_ok :: "Run \<Rightarrow> bool" where
  "run_ok r \<longleftrightarrow> nonempty (r_first r) \<and> nonempty (r_last r) \<and> b_lower (r_first r) \<le> b_lower (r_last r) \<and>
     b_upper (r_first r) \<le> b_upper (r_last r)"

definition run_sep :: "Run \<Rightarrow> Run \<Rightarrow> bool" where
  "run_sep a b \<longleftrightarrow> r_ownership_interval a < r_ownership_interval b \<or>
     (r_ownership_interval a = r_ownership_interval b \<and> b_upper (r_last a) < b_lower (r_first b))"

definition in_run :: "Component \<Rightarrow> Run \<Rightarrow> bool" where
  "in_run m r \<longleftrightarrow> r_ownership_interval r = c_ownership_interval m \<and> r_period r = c_period m \<and>
     b_lower (r_first r) \<le> b_lower (c_bounds m) \<and> b_upper (c_bounds m) \<le> b_upper (r_last r)"

definition run_before :: "Run \<Rightarrow> Component \<Rightarrow> bool" where
  "run_before r m \<longleftrightarrow> r_ownership_interval r < c_ownership_interval m \<or>
     (r_ownership_interval r = c_ownership_interval m \<and> b_upper (r_last r) < b_lower (c_bounds m))"

lemma run_of_ok: "nonempty (c_bounds m) \<Longrightarrow> run_ok (run_of m)"
  by (simp add: run_of_def run_ok_def)

text \<open>The run that continues \<open>r\<close>, and a later run opened by one of the components \<open>ms\<close>.\<close>

definition continues :: "Run \<Rightarrow> Run \<Rightarrow> bool" where
  "continues r s \<longleftrightarrow> r_ownership_interval s = r_ownership_interval r \<and> r_period s = r_period r \<and>
     r_first s = r_first r \<and> b_upper (r_last r) \<le> b_upper (r_last s)"

definition opened_by :: "Component list \<Rightarrow> Run \<Rightarrow> bool" where
  "opened_by ms s \<longleftrightarrow> (\<exists>m \<in> set ms. r_ownership_interval s = c_ownership_interval m \<and> r_period s = c_period m)"

definition runs_claim :: "Run \<Rightarrow> Component list \<Rightarrow> Run list \<Rightarrow> bool" where
  "runs_claim r ms rs \<longleftrightarrow> sorted_wrt run_sep rs \<and> list_all run_ok rs \<and>
     (\<forall>m \<in> set ms. \<exists>s \<in> set rs. in_run m s) \<and> (\<exists>s \<in> set rs. continues r s) \<and>
     (\<forall>s \<in> set rs. continues r s \<or> run_sep r s \<and> opened_by ms s)"

lemma runs_claim_extend:
  assumes "runs_claim q ms rs" "q = r\<lparr>r_last := c_bounds m\<rparr>" "run_ok r" "run_before r m"
    "nonempty (c_bounds m)" "r_ownership_interval r = c_ownership_interval m" "r_period r = c_period m"
  shows "runs_claim r (m # ms) rs"
proof -
  have up: "b_upper (r_last r) < b_lower (c_bounds m)" "b_lower (c_bounds m) \<le> b_upper (c_bounds m)"
    using assms(4-6) by (auto simp: run_before_def nonempty_def)
  have cont: "continues q s \<Longrightarrow> continues r s" and sep: "run_sep q s \<Longrightarrow> run_sep r s" for s
    using up by (auto simp: assms(2) continues_def run_sep_def)
  have "b_lower (r_first r) \<le> b_lower (c_bounds m)"
    using assms(3) up by (auto simp: run_ok_def nonempty_def)
  then have "continues q s \<Longrightarrow> in_run m s" for s
    using assms(6,7) by (auto simp: assms(2) continues_def in_run_def)
  with assms(1) cont sep show ?thesis
    unfolding runs_claim_def opened_by_def by (metis list.set_intros(2) set_ConsD)
qed

lemma runs_claim_open:
  assumes "runs_claim (run_of m) ms rs" "run_ok r" "run_before r m" "nonempty (c_bounds m)"
  shows "runs_claim r (m # ms) (r # rs)"
proof -
  have "run_sep r (run_of m)" using assms(3) by (auto simp: run_sep_def run_before_def run_of_def)
  then have sep: "run_sep r s" if "continues (run_of m) s \<or> run_sep (run_of m) s" for s
    using that assms(4) by (auto simp: run_sep_def continues_def run_of_def nonempty_def)
  have "continues (run_of m) s \<Longrightarrow> in_run m s \<and> opened_by (m # ms) s" for s
    by (auto simp: continues_def run_of_def in_run_def opened_by_def)
  moreover have "opened_by ms s \<Longrightarrow> opened_by (m # ms) s" for s by (auto simp: opened_by_def)
  moreover have "continues r r" by (simp add: continues_def)
  moreover have "\<forall>s \<in> set rs. run_sep r s" using assms(1) sep unfolding runs_claim_def by blast
  moreover have "\<exists>s \<in> set rs. continues (run_of m) s"
    "\<forall>s \<in> set rs. continues (run_of m) s \<or> opened_by ms s" using assms(1) unfolding runs_claim_def by blast+
  ultimately have "\<exists>s \<in> set rs. in_run m s" "\<forall>s \<in> set rs. run_sep r s \<and> opened_by (m # ms) s" "continues r r"
    by blast+
  with assms(1,2) show ?thesis unfolding runs_claim_def by simp
qed

lemma runs_from_ok:
  assumes "run_ok r" "\<forall>m \<in> set ms. run_before r m" "sorted_wrt component_sep ms"
    "list_all (\<lambda>m. nonempty (c_bounds m)) ms"
  shows "runs_claim r ms (runs_from r ms)"
  using assms
proof (induction r ms rule: runs_from.induct)
  case (1 r)
  then show ?case by (simp add: runs_claim_def continues_def)
next
  case (2 r m ms)
  have rest: "sorted_wrt component_sep ms" "list_all (\<lambda>m. nonempty (c_bounds m)) ms"
    and m: "run_before r m" "nonempty (c_bounds m)" using 2(4-6) by auto
  show ?case
  proof (cases "c_period m \<noteq> None \<and> r_ownership_interval r = c_ownership_interval m \<and> r_period r = c_period m")
    case True
    define q where "q = r\<lparr>r_last := c_bounds m\<rparr>"
    have q: "run_ok q" "\<forall>x \<in> set ms. run_before q x"
      using 2(3-6) True by (auto simp: q_def run_ok_def nonempty_def run_before_def component_sep_def)
    have "runs_claim q ms (runs_from q ms)" using 2(1)[OF True, folded q_def, OF q rest] .
    then have "runs_claim r (m # ms) (runs_from q ms)"
      using runs_claim_extend[OF _ q_def 2(3) m] True by blast
    then show ?thesis using True by (simp add: q_def)
  next
    case False
    have "\<forall>x \<in> set ms. run_before (run_of m) x"
      using 2(5,6) by (auto simp: run_before_def run_of_def component_sep_def)
    with run_of_ok[OF m(2)] 2(2)[OF False _ _ rest] have "runs_claim (run_of m) ms (runs_from (run_of m) ms)" by blast
    then have "runs_claim r (m # ms) (r # runs_from (run_of m) ms)"
      using runs_claim_open 2(3) m by blast
    then show ?thesis using False by auto
  qed
qed

lemma runs_of_ok:
  assumes "sorted_wrt component_sep ms" "list_all (\<lambda>m. nonempty (c_bounds m)) ms"
  shows "sorted_wrt run_sep (runs_of ms) \<and> list_all run_ok (runs_of ms) \<and>
    (\<forall>m \<in> set ms. \<exists>s \<in> set (runs_of ms). in_run m s) \<and> (\<forall>s \<in> set (runs_of ms). opened_by ms s)"
proof (cases ms)
  case (Cons m rest)
  have "\<forall>x \<in> set rest. run_before (run_of m) x"
    using assms(1) by (auto simp: Cons run_before_def run_of_def component_sep_def)
  then have "runs_claim (run_of m) rest (runs_from (run_of m) rest)"
    using assms by (intro runs_from_ok) (auto simp: Cons run_of_ok)
  moreover have "continues (run_of m) s \<Longrightarrow> opened_by ms s \<and> in_run m s" "opened_by rest s \<Longrightarrow> opened_by ms s" for s
    by (auto simp: continues_def opened_by_def run_of_def in_run_def Cons)
  ultimately show ?thesis unfolding runs_claim_def by (simp add: Cons) blast
qed simp

section \<open>Limits\<close>

text \<open>What the loop over adjacent runs leaves at each index.\<close>

definition limit_at :: "Run list \<Rightarrow> nat \<Rightarrow> nat \<Rightarrow> Bounds" where
  "limit_at runs n i =
     \<lparr>b_lower = (if 0 < i \<and> i \<le> n
        then (case boundary (runs ! (i - 1)) (runs ! i) of Some origin \<Rightarrow> origin | None \<Rightarrow> b_upper (r_first (runs ! i)))
        else b_upper (r_first (runs ! i))),
      b_upper = (if i < n
        then (case boundary (runs ! i) (runs ! (i + 1)) of Some origin \<Rightarrow> origin - 1 | None \<Rightarrow> b_lower (r_last (runs ! i)))
        else b_lower (r_last (runs ! i)))\<rparr>"

lemma limits_loop:
  "n < length runs \<or> n = 0 \<Longrightarrow>
   foldl (adjust_limits runs)
     (map (\<lambda>run. \<lparr>b_lower = b_upper (r_first run), b_upper = b_lower (r_last run)\<rparr>) runs) [0..<n]
   = map (limit_at runs n) [0..<length runs]"
proof (induction n)
  case 0
  show ?case by (rule nth_equalityI) (simp_all add: limit_at_def)
next
  case (Suc n)
  then have "foldl (adjust_limits runs)
     (map (\<lambda>run. \<lparr>b_lower = b_upper (r_first run), b_upper = b_lower (r_last run)\<rparr>) runs) [0..<Suc n]
    = adjust_limits runs (map (limit_at runs n) [0..<length runs]) n" by simp
  also have "\<dots> = map (limit_at runs (Suc n)) [0..<length runs]"
  proof (rule nth_equalityI)
    fix i assume "i < length (adjust_limits runs (map (limit_at runs n) [0..<length runs]) n)"
    then have i: "i < length runs" by (simp add: adjust_limits_def split: option.splits)
    show "adjust_limits runs (map (limit_at runs n) [0..<length runs]) n ! i =
        map (limit_at runs (Suc n)) [0..<length runs] ! i"
      using i Suc.prems
      by (cases "i = n"; cases "i = Suc n")
        (auto simp: adjust_limits_def limit_at_def nth_list_update less_Suc_eq le_Suc_eq
          simp del: length_greater_0_conv split: option.splits)
  qed (simp add: adjust_limits_def split: option.splits)
  finally show ?case .
qed

lemma limits_of_nth:
  "i < length runs \<Longrightarrow> limits_of runs ! i = limit_at runs (length runs - 1) i"
  "length (limits_of runs) = length runs"
proof -
  have "length runs - 1 < length runs \<or> length runs - 1 = 0" by auto
  from limits_loop[OF this] have "limits_of runs = map (limit_at runs (length runs - 1)) [0..<length runs]"
    by (simp add: limits_of_def)
  then show "i < length runs \<Longrightarrow> limits_of runs ! i = limit_at runs (length runs - 1) i"
    "length (limits_of runs) = length runs" by simp_all
qed

section \<open>Spans are separated\<close>

definition runs_ok :: "Run list \<Rightarrow> bool" where
  "runs_ok runs \<longleftrightarrow> sorted_wrt run_sep runs \<and> list_all run_ok runs"

lemma runs_okD:
  assumes "runs_ok runs"
  shows "i < j \<Longrightarrow> j < length runs \<Longrightarrow> run_sep (runs ! i) (runs ! j)"
    and "i < length runs \<Longrightarrow> run_ok (runs ! i)"
  using assms by (auto simp: runs_ok_def sorted_wrt_iff_nth_less list_all_length)

text \<open>Runs between two runs of one owner have the same owner.\<close>

lemma runs_same_owner:
  assumes "runs_ok runs" "i \<le> k" "k \<le> j" "j < length runs"
    "r_ownership_interval (runs ! i) = r_ownership_interval (runs ! j)"
  shows "r_ownership_interval (runs ! k) = r_ownership_interval (runs ! i)"
proof -
  have "r_ownership_interval (runs ! i) \<le> r_ownership_interval (runs ! k)"
    "r_ownership_interval (runs ! k) \<le> r_ownership_interval (runs ! j)"
    using runs_okD(1)[OF assms(1), of i k] runs_okD(1)[OF assms(1), of k j] assms(2-4)
    by (cases "i = k"; cases "k = j"; auto simp: run_sep_def)+
  with assms(5) show ?thesis by simp
qed

lemma limit_bounds:
  assumes "runs_ok runs" "i + 1 < length runs"
    "r_ownership_interval (runs ! i) = r_ownership_interval (runs ! (i + 1))"
  shows "b_upper (limits_of runs ! i) < b_lower (r_first (runs ! (i + 1)))"
    and "b_upper (r_last (runs ! i)) < b_lower (limits_of runs ! (i + 1))"
    and "b_upper (limits_of runs ! i) < b_lower (limits_of runs ! (i + 1))"
proof -
  have sep: "b_upper (r_last (runs ! i)) < b_lower (r_first (runs ! (i + 1)))"
    using runs_okD(1)[OF assms(1), of i "i + 1"] assms(2,3) by (auto simp: run_sep_def)
  have ok: "b_lower (r_last (runs ! i)) \<le> b_upper (r_last (runs ! i))"
    "b_lower (r_first (runs ! (i + 1))) \<le> b_upper (r_first (runs ! (i + 1)))"
    using runs_okD(2)[OF assms(1), of i] runs_okD(2)[OF assms(1), of "i + 1"] assms(2)
    by (auto simp: run_ok_def nonempty_def)
  have bd: "boundary (runs ! i) (runs ! (i + 1)) = Some origin \<Longrightarrow>
      b_upper (r_last (runs ! i)) < origin \<and> origin \<le> b_lower (r_first (runs ! (i + 1)))" for origin
    by (auto simp: boundary_def Let_def split: option.splits if_splits)
  have n: "limits_of runs ! i = limit_at runs (length runs - 1) i"
    "limits_of runs ! (i + 1) = limit_at runs (length runs - 1) (i + 1)"
    using limits_of_nth(1)[of i runs] limits_of_nth(1)[of "i + 1" runs] assms(2) by simp_all
  have i: "i < length runs - 1" "i + 1 \<le> length runs - 1" using assms(2) by auto
  show "b_upper (limits_of runs ! i) < b_lower (r_first (runs ! (i + 1)))"
    "b_upper (r_last (runs ! i)) < b_lower (limits_of runs ! (i + 1))"
    "b_upper (limits_of runs ! i) < b_lower (limits_of runs ! (i + 1))"
    unfolding n limit_at_def using sep ok bd i by (auto split: option.splits)
qed

lemma limit_clear:
  assumes "runs_ok runs" "i < k" "k < length runs" "r_ownership_interval (runs ! i) = r_ownership_interval (runs ! k)"
  shows "b_upper (limits_of runs ! i) < b_lower (r_first (runs ! k))"
    and "b_upper (r_last (runs ! i)) < b_lower (limits_of runs ! k)"
    and "b_upper (limits_of runs ! i) < b_lower (limits_of runs ! k)"
proof -
  have own: "j \<in> {i..k} \<Longrightarrow> r_ownership_interval (runs ! j) = r_ownership_interval (runs ! i)" for j
    using runs_same_owner[OF assms(1), of i j k] assms by auto
  have e: "r_ownership_interval (runs ! i) = r_ownership_interval (runs ! (i + 1))"
    "r_ownership_interval (runs ! (k - 1)) = r_ownership_interval (runs ! (k - 1 + 1))"
    using own[of "i + 1"] own[of "k - 1"] own[of k] assms(2) by auto
  have lo: "b_upper (limits_of runs ! i) < b_lower (r_first (runs ! (i + 1)))"
    using limit_bounds(1)[OF assms(1) _ e(1)] assms(2,3) by auto
  have hi: "b_upper (r_last (runs ! (k - 1))) < b_lower (limits_of runs ! k)"
    using limit_bounds(2)[OF assms(1) _ e(2)] assms(2,3) by auto
  have between: "b_lower (r_first (runs ! a)) \<le> b_upper (r_last (runs ! b))"
    "a < b \<Longrightarrow> b_lower (r_first (runs ! a)) \<le> b_lower (r_first (runs ! b))"
    "a < b \<Longrightarrow> b_upper (r_last (runs ! a)) \<le> b_upper (r_last (runs ! b))"
    if "i \<le> a" "a \<le> b" "b \<le> k" for a b
    using runs_okD(1)[OF assms(1), of a b] runs_okD(2)[OF assms(1), of a] runs_okD(2)[OF assms(1), of b]
      own[of a] own[of b] that assms(3)
    by (cases "a = b"; auto simp: run_sep_def run_ok_def nonempty_def)+
  show "b_upper (limits_of runs ! i) < b_lower (r_first (runs ! k))"
    using lo between(2)[of "i + 1" k] assms(2) by (cases "i + 1 = k") auto
  show "b_upper (r_last (runs ! i)) < b_lower (limits_of runs ! k)"
  proof (cases "i = k - 1")
    case False
    with assms(2) have "i \<le> i" "i \<le> k - 1" "k - 1 \<le> k" "i < k - 1" by linarith+
    from between(3)[OF this] hi show ?thesis by linarith
  qed (use hi in simp)
  show "b_upper (limits_of runs ! i) < b_lower (limits_of runs ! k)"
  proof (cases "i + 1 = k")
    case True
    then show ?thesis using limit_bounds(3)[OF assms(1) _ e(1)] assms(3) by auto
  next
    case False
    with assms(2) have "i \<le> i + 1" "i + 1 \<le> k - 1" "k - 1 \<le> k" by linarith+
    from between(1)[OF this] lo hi show ?thesis by linarith
  qed
qed

definition span_sep :: "AttributedSpan \<Rightarrow> AttributedSpan \<Rightarrow> bool" where
  "span_sep a b \<longleftrightarrow> s_ownership_interval a < s_ownership_interval b \<or>
     (s_ownership_interval a = s_ownership_interval b \<and> b_upper (s_bounds a) < b_lower (s_bounds b))"

definition span_ok :: "AttributedSpan \<Rightarrow> bool" where
  "span_ok a \<longleftrightarrow> op_reset_at (s_period a) - op_window_seconds (s_period a) \<le> b_lower (s_bounds a) \<and>
     b_lower (s_bounds a) \<le> b_upper (s_bounds a) \<and> b_upper (s_bounds a) < op_reset_at (s_period a)"

definition spans_of_runs :: "Run list \<Rightarrow> AttributedSpan list" where
  "spans_of_runs runs = List.map_filter span_of (zip runs (limits_of runs))"

lemma span_ofD:
  assumes "span_of (run, bounds) = Some a"
  shows "s_ownership_interval a = r_ownership_interval run" "r_period run = Some (s_period a)"
    "b_lower bounds \<le> b_lower (s_bounds a)" "b_upper (s_bounds a) \<le> b_upper bounds" "span_ok a"
  using assms by (auto simp: span_of_def span_ok_def Let_def split: option.splits if_splits)

lemma sorted_wrt_map_filter:
  "sorted_wrt (\<lambda>x y. \<forall>a b. f x = Some a \<longrightarrow> f y = Some b \<longrightarrow> P a b) xs \<Longrightarrow> sorted_wrt P (List.map_filter f xs)"
proof (induction xs)
  case (Cons x xs)
  then show ?case by (cases "f x") (auto simp: List.map_filter_def)
qed (simp add: List.map_filter_def)

lemma spans_of_runs_mem:
  assumes "a \<in> set (spans_of_runs runs)"
  obtains i where "i < length runs" "span_of (runs ! i, limits_of runs ! i) = Some a"
  using assms by (force simp: spans_of_runs_def List.map_filter_def in_set_zip limits_of_nth(2))

lemma spans_of_runs_sorted:
  assumes "runs_ok runs"
  shows "sorted_wrt span_sep (spans_of_runs runs)"
  unfolding spans_of_runs_def
proof (rule sorted_wrt_map_filter, unfold sorted_wrt_iff_nth_less, intro allI impI)
  fix i j a b
  assume ij: "i < j" "j < length (zip runs (limits_of runs))"
    and a: "span_of (zip runs (limits_of runs) ! i) = Some a"
    and b: "span_of (zip runs (limits_of runs) ! j) = Some b"
  then have j: "j < length runs" "i < length runs" by auto
  have a: "span_of (runs ! i, limits_of runs ! i) = Some a" and b: "span_of (runs ! j, limits_of runs ! j) = Some b"
    using a b ij j by (simp_all add: limits_of_nth(2))
  show "span_sep a b"
    using runs_okD(1)[OF assms ij(1) j(1)] limit_clear(3)[OF assms ij(1) j(1)]
      span_ofD[OF a] span_ofD[OF b]
    by (auto simp: span_sep_def run_sep_def)
qed

text \<open>A second of a span lies in no other run of the owner.\<close>

lemma span_clear:
  assumes "runs_ok runs" "i < length runs" "span_of (runs ! i, limits_of runs ! i) = Some a"
    and "k < length runs" "r_ownership_interval (runs ! k) = s_ownership_interval a"
    and "b_lower (s_bounds a) \<le> t" "t \<le> b_upper (s_bounds a)"
    and "b_lower (r_first (runs ! k)) \<le> t" "t \<le> b_upper (r_last (runs ! k))"
  shows "k = i"
proof (rule ccontr)
  assume "k \<noteq> i"
  then consider "k < i" | "i < k" by linarith
  then show False
    using limit_clear(1)[OF assms(1), of i k] limit_clear(2)[OF assms(1), of k i] span_ofD[OF assms(3)] assms
    by cases auto
qed

end
