(* ===== verification/Period_Timeline.thy ===== *)
theory Period_Timeline
  imports Period_Attribution
begin

text \<open>
  What the timelines of \<open>period_attribution.rs\<close> guarantee: the order of their spans, the lookup
  as a search in an ordered index, the evidence behind every attribution, and the completeness of
  the ranges reported as changed.
\<close>

section \<open>Ordered span indexes\<close>

text \<open>
  An index is a list of closed ranges with owners, ordered by owner and lower bound and
  pairwise disjoint within an owner. The search looks at the last range that starts at or before
  the position.
\<close>

locale span_index =
  fixes valid :: "'a list \<Rightarrow> bool"
    and owner :: "'a \<Rightarrow> 'o::linorder"
    and lower :: "'a \<Rightarrow> int"
    and upper :: "'a \<Rightarrow> int"
  assumes valid_sep: "valid xs \<Longrightarrow>
      sorted_wrt (\<lambda>a b. owner a < owner b \<or> (owner a = owner b \<and> upper a < lower b)) xs"
    and valid_nonempty: "valid xs \<Longrightarrow> a \<in> set xs \<Longrightarrow> lower a \<le> upper a"
begin

definition starts :: "'o \<Rightarrow> int \<Rightarrow> 'a \<Rightarrow> bool" where
  "starts own t a \<longleftrightarrow> (owner a, lower a) \<le> (own, t)"

definition search :: "'a list \<Rightarrow> int \<Rightarrow> 'o \<Rightarrow> 'a option" where
  "search xs t own =
     (let index = partition_point (starts own t) xs
      in if index = 0 then None
         else (let a = xs ! (index - 1) in if owner a = own \<and> t \<le> upper a then Some a else None))"

lemma starts_before:
  assumes "valid xs" "i < j" "j < length xs" "starts own t (xs ! j)"
  shows "starts own t (xs ! i)"
proof -
  have "owner (xs ! i) < owner (xs ! j) \<or> (owner (xs ! i) = owner (xs ! j) \<and> upper (xs ! i) < lower (xs ! j))"
    using valid_sep[OF assms(1)] assms(2,3) by (simp add: sorted_wrt_iff_nth_less)
  moreover have "lower (xs ! i) \<le> upper (xs ! i)" using valid_nonempty[OF assms(1)] assms(2,3) by simp
  ultimately show ?thesis using assms(4) by (auto simp: starts_def less_eq_prod_def)
qed

text \<open>The prefix that \<open>partition_point\<close> counts is all of the ranges that start early enough.\<close>

lemma partition_point_starts:
  assumes "valid xs" "i < length xs"
  shows "i < partition_point (starts own t) xs \<longleftrightarrow> starts own t (xs ! i)"
proof
  assume i: "i < partition_point (starts own t) xs"
  then have "xs ! i = takeWhile (starts own t) xs ! i"
    by (simp add: partition_point_def takeWhile_nth)
  also have "\<dots> \<in> set (takeWhile (starts own t) xs)"
    using i by (simp add: partition_point_def)
  finally show "starts own t (xs ! i)" by (blast dest: set_takeWhileD)
next
  assume i: "starts own t (xs ! i)"
  show "i < partition_point (starts own t) xs"
    unfolding partition_point_def
  proof (rule ccontr)
    let ?n = "length (takeWhile (starts own t) xs)"
    assume "\<not> i < ?n"
    then have n: "?n \<le> i" "?n < length xs" using assms(2) by auto
    then have "\<not> starts own t (xs ! ?n)" using nth_length_takeWhile by blast
    moreover have "starts own t (xs ! ?n)"
      using starts_before[OF assms(1), of ?n i own t] n(1) assms(2) i by (cases "?n = i") auto
    ultimately show False by simp
  qed
qed

theorem search_iff:
  assumes "valid xs"
  shows "search xs t own = Some a \<longleftrightarrow> a \<in> set xs \<and> owner a = own \<and> lower a \<le> t \<and> t \<le> upper a"
proof
  assume found: "search xs t own = Some a"
  let ?n = "partition_point (starts own t) xs"
  have n: "0 < ?n" "a = xs ! (?n - 1)" "owner a = own" "t \<le> upper a"
    using found by (auto simp: search_def Let_def split: if_splits)
  have "?n \<le> length xs" by (simp add: partition_point_def length_takeWhile_le)
  then have len: "?n - 1 < length xs" using n(1) by simp
  then have "starts own t a" using partition_point_starts[OF assms len, of own t] n(1,2) by simp
  then show "a \<in> set xs \<and> owner a = own \<and> lower a \<le> t \<and> t \<le> upper a"
    using n len by (auto simp: starts_def less_eq_prod_def)
next
  assume a: "a \<in> set xs \<and> owner a = own \<and> lower a \<le> t \<and> t \<le> upper a"
  then obtain i where i: "i < length xs" "xs ! i = a" by (auto simp: in_set_conv_nth)
  let ?n = "partition_point (starts own t) xs"
  have "starts own t (xs ! i)" using a i by (auto simp: starts_def less_eq_prod_def)
  then have lt: "i < ?n" using partition_point_starts[OF assms i(1)] by blast
  have "?n = i + 1"
  proof (rule ccontr)
    assume "?n \<noteq> i + 1"
    with lt have s: "i + 1 < ?n" by simp
    moreover have "?n \<le> length xs" by (simp add: partition_point_def length_takeWhile_le)
    ultimately have j: "i + 1 < length xs" by simp
    then have "starts own t (xs ! (i + 1))" using partition_point_starts[OF assms j, of own t] s by blast
    moreover have "owner a < owner (xs ! (i + 1)) \<or> (owner a = owner (xs ! (i + 1)) \<and> upper a < lower (xs ! (i + 1)))"
      using valid_sep[OF assms] j i(2) by (force simp: sorted_wrt_iff_nth_less)
    ultimately show False using a by (auto simp: starts_def less_eq_prod_def)
  qed
  with a i show "search xs t own = Some a" by (simp add: search_def)
qed

end

section \<open>Components come from observations\<close>

abbreviation empty_loop :: observation_loop where
  "empty_loop \<equiv> \<lparr>receipts = [], unique = [], windows = (\<lambda>_. [])\<rparr>"

definition loop_ok :: "OfficialObservation list \<Rightarrow> observation_loop \<Rightarrow> bool" where
  "loop_ok obs st \<longleftrightarrow> set (unique st) = set obs \<and> (\<forall>ob \<in> set obs. ob_lower_at ob \<le> ob_upper_at ob) \<and>
     sorted_wrt (<) (map fst (receipts st)) \<and>
     (\<forall>q ob. map_of (receipts st) q = Some ob \<longleftrightarrow> ob \<in> set obs \<and> ob_acquisition_sequence ob = Some q) \<and>
     (\<forall>r. set (windows st r) = {w. \<exists>ob \<in> set obs. ob_reset_at ob = Some r \<and> ob_window_seconds ob = Some w}) \<and>
     (\<forall>r. distinct (windows st r))"

lemma loop_ok_step:
  assumes "loop_ok obs st" "observation_step st ob = Inr st'"
  shows "loop_ok (obs @ [ob]) st'"
proof -
  obtain ws rs where st': "st' = \<lparr>receipts = rs, unique = List.insert ob (unique st), windows = ws\<rparr>"
    and bounds: "ob_lower_at ob \<le> ob_upper_at ob"
    and ws: "ws = (case (ob_window_seconds ob, ob_reset_at ob) of
        (Some w, Some r) \<Rightarrow> (windows st)(r := List.insert w (windows st r)) | _ \<Rightarrow> windows st)"
    and rs: "case ob_acquisition_sequence ob of None \<Rightarrow> rs = receipts st
      | Some q \<Rightarrow> rs = btree_insert q ob (receipts st) \<and> (\<forall>prev. map_of (receipts st) q = Some prev \<longrightarrow> prev = ob)"
    using assms(2) unfolding observation_step_def
    by (auto simp: in_range_def result_simps split: if_splits option.splits)
  have r: "sorted_wrt (<) (map fst (receipts st))"
    "\<forall>q x. map_of (receipts st) q = Some x \<longleftrightarrow> x \<in> set obs \<and> ob_acquisition_sequence x = Some q"
    using assms(1) by (auto simp: loop_ok_def)
  have "sorted_wrt (<) (map fst rs)"
    using rs r(1) by (auto split: option.splits intro: sorted_btree_insert)
  moreover have "\<forall>q x. map_of rs q = Some x \<longleftrightarrow> x \<in> set (obs @ [ob]) \<and> ob_acquisition_sequence x = Some q"
  proof (cases "ob_acquisition_sequence ob")
    case None
    then show ?thesis using rs r(2) by auto
  next
    case (Some s)
    then have "map_of rs = (map_of (receipts st))(s \<mapsto> ob)"
      "\<forall>prev. map_of (receipts st) s = Some prev \<longrightarrow> prev = ob"
      using rs map_of_btree_insert[OF r(1)] by auto
    then show ?thesis using r(2) Some by auto
  qed
  moreover have "set (ws r) = {w. \<exists>x \<in> set (obs @ [ob]). ob_reset_at x = Some r \<and> ob_window_seconds x = Some w} \<and>
      distinct (ws r)" for r
    using assms(1) unfolding ws loop_ok_def by (auto split: option.splits)
  ultimately show ?thesis using assms(1) bounds unfolding st' loop_ok_def by simp
qed

lemma loop_ok_fold:
  "fold_res observation_step st obs = Inr st' \<Longrightarrow> loop_ok done st \<Longrightarrow> loop_ok (done @ obs) st'"
proof (induction obs arbitrary: st "done")
  case (Cons ob obs)
  then obtain st1 where "observation_step st ob = Inr st1" "fold_res observation_step st1 obs = Inr st'"
    by (auto simp: result_simps)
  with Cons.IH[of st1 "done @ [ob]"] loop_ok_step[OF Cons.prems(2)] show ?case by simp
qed simp

lemma reversals_nonempty: "c \<in> set (reversals prev obs) \<Longrightarrow> nonempty (c_bounds c) \<and> c_period c = None"
  by (induction prev obs rule: reversals.induct) (auto simp: nonempty_def Let_def split: option.splits if_splits)

lemma component_of_cases:
  fixes ws ob
  defines "c \<equiv> component_of ws ob"
  shows "c_ownership_interval c = ob_ownership_interval ob"
    and "c_period c = None \<Longrightarrow> c_bounds c = \<lparr>b_lower = ob_lower_at ob, b_upper = ob_upper_at ob\<rparr>"
    and "c_period c = Some p \<Longrightarrow> observation_period ws ob = Some p \<and> nonempty (c_bounds c) \<and>
      c_bounds c = \<lparr>b_lower = max (ob_lower_at ob) (op_reset_at p - op_window_seconds p),
        b_upper = min (ob_upper_at ob) (op_reset_at p - 1)\<rparr>"
  by (auto simp: c_def component_of_def Let_def nonempty_def split: option.splits if_splits)

lemma component_of_nonempty: "ob_lower_at ob \<le> ob_upper_at ob \<Longrightarrow> nonempty (c_bounds (component_of ws ob))"
  by (cases "c_period (component_of ws ob)") (auto dest!: component_of_cases(2,3) simp: nonempty_def)

lemma observation_periodD:
  "observation_period ws ob = Some p \<Longrightarrow> ob_reset_at ob = Some (op_reset_at p) \<and>
     ob_window_seconds ob = Some (op_window_seconds p) \<and> length (ws (op_reset_at p)) = 1"
  by (auto simp: observation_period_def split: option.splits if_splits)

lemma set_components_of:
  "set (components_of st) = component_of (windows st) ` set (unique st) \<union>
     set (reversals Map.empty (map snd (receipts st)))"
  by (auto simp: components_of_def)

text \<open>Everything a successful reconstruction rests on.\<close>

lemma from_observationsE:
  assumes "from_observations obs = Inr timeline"
  obtains st runs where "loop_ok obs st" "runs = runs_of (merge_components (components_of st))"
    "spans timeline = spans_of_runs runs" "runs_ok runs"
    "\<And>c. c \<in> set (components_of st) \<Longrightarrow> \<exists>m \<in> set (merge_components (components_of st)). part_of c m"
    "\<And>m. m \<in> set (merge_components (components_of st)) \<Longrightarrow> \<exists>k < length runs. in_run m (runs ! k)"
    "\<And>k p. k < length runs \<Longrightarrow> r_period (runs ! k) = Some p \<Longrightarrow> \<exists>c \<in> set (components_of st).
       c_ownership_interval c = r_ownership_interval (runs ! k) \<and> c_period c = Some p"
proof -
  obtain st where st: "fold_res observation_step empty_loop obs = Inr st"
    and sp: "spans timeline = spans_of_runs (runs_of (merge_components (components_of st)))"
    using assms by (auto simp: from_observations_def result_simps Let_def spans_of_runs_def)
  have ok: "loop_ok obs st" using loop_ok_fold[OF st, of "[]"] by (simp add: loop_ok_def)
  let ?cs = "map (component_of (windows st)) (sort_key observation_key (unique st))
        @ reversals Map.empty (map snd (receipts st))"
  have ne: "list_all (\<lambda>c. nonempty (c_bounds c)) ?cs"
    using ok by (auto simp: list_all_iff loop_ok_def component_of_nonempty dest: reversals_nonempty)
  have set: "set ?cs = set (components_of st)" by (simp add: components_of_def)
  note m = merge_components_ok[OF ne, folded components_of_def, unfolded set]
  note r = runs_of_ok[OF m(1,2)]
  show ?thesis
  proof (rule that[OF ok refl sp])
    show "runs_ok (runs_of (merge_components (components_of st)))" using r by (simp add: runs_ok_def)
    show "\<exists>k < length (runs_of (merge_components (components_of st))).
        in_run x (runs_of (merge_components (components_of st)) ! k)"
      if "x \<in> set (merge_components (components_of st))" for x
      using r that by (metis in_set_conv_nth)
    show "\<exists>c \<in> set (components_of st). c_ownership_interval c =
        r_ownership_interval (runs_of (merge_components (components_of st)) ! k) \<and> c_period c = Some p"
      if "k < length (runs_of (merge_components (components_of st)))"
        "r_period (runs_of (merge_components (components_of st)) ! k) = Some p" for k p
      using r m(4) that by (metis nth_mem opened_by_def option.distinct(1))
  qed (use m(3) in blast)
qed

lemma timeline_sorted:
  assumes "from_observations obs = Inr timeline"
  shows "sorted_wrt span_sep (spans timeline)" "a \<in> set (spans timeline) \<Longrightarrow> span_ok a"
proof -
  obtain runs where r: "runs_ok runs" "spans timeline = spans_of_runs runs"
    using from_observationsE[OF assms] by metis
  show "sorted_wrt span_sep (spans timeline)" using spans_of_runs_sorted[OF r(1)] r(2) by simp
  show "span_ok a" if "a \<in> set (spans timeline)"
    using that r(2) by (auto elim!: spans_of_runs_mem dest: span_ofD)
qed

interpretation timeline_index: span_index
  "\<lambda>xs. \<exists>obs. from_observations obs = Inr \<lparr>spans = xs\<rparr>"
  s_ownership_interval "\<lambda>a. b_lower (s_bounds a)" "\<lambda>a. b_upper (s_bounds a)"
proof
  fix xs a
  assume "\<exists>obs. from_observations obs = Inr \<lparr>spans = xs\<rparr>"
  then obtain obs where obs: "from_observations obs = Inr \<lparr>spans = xs\<rparr>" by blast
  have "sorted_wrt span_sep xs" using timeline_sorted(1)[OF obs] by simp
  then show "sorted_wrt (\<lambda>a b. s_ownership_interval a < s_ownership_interval b \<or>
      s_ownership_interval a = s_ownership_interval b \<and> b_upper (s_bounds a) < b_lower (s_bounds b)) xs"
    by (rule sorted_wrt_mono_rel[rotated]) (simp add: span_sep_def)
  assume "a \<in> set xs"
  then show "b_lower (s_bounds a) \<le> b_upper (s_bounds a)"
    using timeline_sorted(2)[OF obs, of a] by (simp add: span_ok_def)
qed

lemma attribution_at_search:
  "attribution_at timeline t own =
     map_option (\<lambda>a. (s_period a, b_lower (s_bounds a), b_upper (s_bounds a)))
       (timeline_index.search (spans timeline) t own)"
  by (simp add: attribution_at_def timeline_index.search_def timeline_index.starts_def[abs_def] Let_def)

lemma attribution_at_iff:
  assumes "from_observations obs = Inr timeline"
  shows "attribution_at timeline t own = Some (p, l, u) \<longleftrightarrow>
    (\<exists>a \<in> set (spans timeline). s_ownership_interval a = own \<and> s_period a = p \<and>
       b_lower (s_bounds a) = l \<and> b_upper (s_bounds a) = u \<and> l \<le> t \<and> t \<le> u)"
proof -
  have v: "\<exists>obs. from_observations obs = Inr \<lparr>spans = spans timeline\<rparr>" using assms by (cases timeline) auto
  have iff: "timeline_index.search (spans timeline) t own = Some a \<longleftrightarrow>
      a \<in> set (spans timeline) \<and> s_ownership_interval a = own \<and> b_lower (s_bounds a) \<le> t \<and> t \<le> b_upper (s_bounds a)" for a
    by (rule timeline_index.search_iff) (rule v)
  have "attribution_at timeline t own = Some (p, l, u) \<longleftrightarrow>
      (\<exists>a. timeline_index.search (spans timeline) t own = Some a \<and>
         (s_period a, b_lower (s_bounds a), b_upper (s_bounds a)) = (p, l, u))"
    unfolding attribution_at_search map_option_eq_Some by blast
  then show ?thesis unfolding iff by auto
qed

lemma period_at_iff:
  assumes "from_observations obs = Inr timeline"
  shows "period_at timeline t own = Some p \<longleftrightarrow>
    (\<exists>a \<in> set (spans timeline). s_ownership_interval a = own \<and> s_period a = p \<and>
       b_lower (s_bounds a) \<le> t \<and> t \<le> b_upper (s_bounds a))"
proof -
  have "period_at timeline t own = Some p \<longleftrightarrow> (\<exists>l u. attribution_at timeline t own = Some (p, l, u))"
    by (auto simp: period_at_def)
  then show ?thesis using attribution_at_iff[OF assms] by auto
qed

section \<open>Evidence\<close>

text \<open>Every component around an attributed second supports the attributed period.\<close>

lemma attribution_evidence:
  assumes "from_observations obs = Inr timeline" "period_at timeline t own = Some p"
  obtains st where "loop_ok obs st"
    "\<exists>c \<in> set (components_of st). c_ownership_interval c = own \<and> c_period c = Some p"
    "\<And>c. c \<in> set (components_of st) \<Longrightarrow> c_ownership_interval c = own \<Longrightarrow> b_lower (c_bounds c) \<le> t \<Longrightarrow>
       t \<le> b_upper (c_bounds c) \<Longrightarrow> c_period c = Some p"
proof -
  obtain st runs where st: "loop_ok obs st" "spans timeline = spans_of_runs runs" "runs_ok runs"
    "\<And>c. c \<in> set (components_of st) \<Longrightarrow> \<exists>m \<in> set (merge_components (components_of st)). part_of c m"
    "\<And>m. m \<in> set (merge_components (components_of st)) \<Longrightarrow> \<exists>k < length runs. in_run m (runs ! k)"
    "\<And>k p. k < length runs \<Longrightarrow> r_period (runs ! k) = Some p \<Longrightarrow> \<exists>c \<in> set (components_of st).
       c_ownership_interval c = r_ownership_interval (runs ! k) \<and> c_period c = Some p"
    by (rule from_observationsE[OF assms(1)]) metis
  obtain a where a: "a \<in> set (spans_of_runs runs)" "s_ownership_interval a = own" "s_period a = p"
    "b_lower (s_bounds a) \<le> t" "t \<le> b_upper (s_bounds a)"
    using assms(2) period_at_iff[OF assms(1)] st(2) by auto
  obtain i where i: "i < length runs" "span_of (runs ! i, limits_of runs ! i) = Some a"
    using a(1) by (rule spans_of_runs_mem)
  note ri = span_ofD[OF i(2)]
  have "c_period c = Some p"
    if c: "c \<in> set (components_of st)" "c_ownership_interval c = own" "b_lower (c_bounds c) \<le> t" "t \<le> b_upper (c_bounds c)" for c
  proof -
    obtain m k where m: "part_of c m" "k < length runs" "in_run m (runs ! k)" using st(4,5) c(1) by meson
    have "k = i"
      by (rule span_clear[OF st(3) i m(2) _ a(4,5)]) (use m(1,3) c a(2) in \<open>auto simp: part_of_def in_run_def\<close>)
    then have "c_period m = Some p" using m(3) ri(2) a(3) by (simp add: in_run_def)
    with m(1) show ?thesis by (simp add: part_of_def)
  qed
  moreover have "\<exists>c \<in> set (components_of st). c_ownership_interval c = own \<and> c_period c = Some p"
    using st(6)[OF i(1), of p] ri(1,2) a(2,3) by simp
  ultimately show ?thesis using that st(1) by blast
qed

text \<open>A receipt that goes back in time leaves a reversal over the seconds in between.\<close>

lemma reversals_found:
  "prev own = Some t1 \<Longrightarrow> ob \<in> set obs \<Longrightarrow> ob_ownership_interval ob = own \<Longrightarrow> ob_lower_at ob < t1 \<Longrightarrow>
   ob_lower_at ob \<le> t \<Longrightarrow> t \<le> t1 \<Longrightarrow>
   \<exists>c \<in> set (reversals prev obs). c_ownership_interval c = own \<and> b_lower (c_bounds c) \<le> t \<and> t \<le> b_upper (c_bounds c)"
proof (induction prev obs arbitrary: t1 rule: reversals.induct)
  case (2 prev x rest)
  let ?prev = "prev(ob_ownership_interval x \<mapsto> ob_lower_at x)"
  have sub: "set (reversals ?prev rest) \<subseteq> set (reversals prev (x # rest))" by (auto simp: Let_def)
  consider (here) "ob_ownership_interval x = own" "ob_lower_at x \<le> t" "ob_lower_at x < t1"
    | (later) t2 where "?prev own = Some t2" "ob \<in> set rest" "ob_lower_at ob < t2" "t \<le> t2"
    using 2(2-) by (cases "ob_ownership_interval x = own"; cases "ob = x") fastforce+
  then show ?case
  proof cases
    case here
    with 2(2,7) show ?thesis by (auto simp: Let_def)
  next
    case later
    with 2(1)[OF refl later(1,2) 2(4) later(3) 2(6) later(4)] sub show ?thesis by blast
  qed
qed simp

lemma reversals_suffix:
  "\<exists>prev'. set (reversals prev' obs2) \<subseteq> set (reversals prev (obs1 @ ob # obs2)) \<and>
     prev' (ob_ownership_interval ob) = Some (ob_lower_at ob)"
proof (induction obs1 arbitrary: prev)
  case Nil
  have "set (reversals (prev(ob_ownership_interval ob \<mapsto> ob_lower_at ob)) obs2) \<subseteq>
      set (reversals prev ([] @ ob # obs2))"
    unfolding append_Nil reversals.simps Let_def set_append by blast
  then show ?case by (metis fun_upd_same)
next
  case (Cons x obs1)
  let ?prev = "prev(ob_ownership_interval x \<mapsto> ob_lower_at x)"
  have "set (reversals ?prev (obs1 @ ob # obs2)) \<subseteq> set (reversals prev ((x # obs1) @ ob # obs2))"
    unfolding append_Cons reversals.simps Let_def set_append by blast
  with Cons[of ?prev] show ?case by blast
qed

lemma receipts_in_order:
  fixes m :: "('k::linorder \<times> 'v) list"
  assumes "sorted_wrt (<) (map fst m)" "map_of m q1 = Some x" "map_of m q2 = Some y" "q1 < q2"
  shows "\<exists>us vs. map snd m = us @ x # vs \<and> y \<in> set vs"
  using assms
proof (induction m)
  case (Cons e m)
  obtain k v where e: "e = (k, v)" by (cases e)
  show ?case
  proof (cases "q1 = k")
    case True
    then have "map_of m q2 = Some y" using Cons.prems(3,4) by (auto simp: e split: if_splits)
    then have "y \<in> set (map snd m)" by (force dest: map_of_SomeD)
    then show ?thesis using Cons.prems(2) True e by (intro exI[of _ "[]"] exI[of _ "map snd m"]) auto
  next
    case False
    then have "map_of m q1 = Some x" using Cons.prems(2) by (simp add: e)
    moreover have "q2 \<noteq> k"
    proof
      assume "q2 = k"
      moreover have "q1 \<in> set (map fst m)" using \<open>map_of m q1 = Some x\<close> by (force dest: map_of_SomeD)
      ultimately show False using Cons.prems(1,4) e by auto
    qed
    then have "map_of m q2 = Some y" using Cons.prems(3) by (simp add: e)
    ultimately obtain us vs where "map snd m = us @ x # vs" "y \<in> set vs" using Cons by auto
    then show ?thesis by (intro exI[of _ "v # us"] exI[of _ vs]) (auto simp: e)
  qed
qed simp

section \<open>Changed ranges\<close>

definition covers :: "(i64 \<times> i64) list \<Rightarrow> i64 \<Rightarrow> bool" where
  "covers rs t \<longleftrightarrow> (\<exists>(l, u) \<in> set rs. l \<le> t \<and> t \<le> u)"

lemma uncovered_covers:
  "lower \<le> t \<Longrightarrow> t \<le> b_upper (s_bounds new) \<Longrightarrow> is_i64 t \<Longrightarrow>
   (\<And>old. old \<in> set olds \<Longrightarrow> t < b_lower (s_bounds old) \<or> b_upper (s_bounds old) < t) \<Longrightarrow>
   covers (uncovered new lower olds) t"
proof (induction new lower olds rule: uncovered.induct)
  case (1 new lower)
  then show ?case by (auto simp: covers_def)
next
  case (2 new lower old rest)
  show ?case
  proof (cases "t < b_lower (s_bounds old)")
    case True
    with 2(2) show ?thesis by (auto simp: covers_def)
  next
    case False
    with 2(5)[of old] have "b_upper (s_bounds old) < t" by auto
    then have "max lower (i64_saturating_add (b_upper (s_bounds old)) 1) \<le> t"
      using 2(2,4) by (auto simp: i64_saturating_add_def is_i64_def)
    from 2(1)[OF this 2(3,4)] 2(5) show ?thesis by (auto simp: covers_def)
  qed
qed

lemma merge_ranges_covers:
  "sorted (map fst (r # rs)) \<Longrightarrow> covers (r # rs) t \<Longrightarrow> covers (merge_ranges r rs) t"
proof (induction r rs rule: merge_ranges.induct)
  case (2 prev lower upper rest)
  show ?case
  proof (cases "lower \<le> i64_saturating_add (snd prev) 1")
    case True
    have "covers ((fst prev, max (snd prev) upper) # rest) t"
      using 2(3,4) by (cases prev) (auto simp: covers_def)
    with 2(1)[OF True] 2(3) True show ?thesis by simp
  next
    case False
    with 2(2)[OF False] 2(3,4) show ?thesis by (cases prev) (auto simp: covers_def)
  qed
qed simp

lemma changed_ranges_covers:
  assumes "covers (map (\<lambda>old. (b_lower (s_bounds old), b_upper (s_bounds old)))
            (filter (\<lambda>old. \<not> list_ex (\<lambda>new. span_contains new old) (spans timeline)) (spans previous))
     @ concat (map (\<lambda>new. uncovered new (b_lower (s_bounds new))
            (filter (span_contains new) (spans previous))) (spans timeline))) t"
  shows "covers (changed_ranges timeline previous) t"
proof -
  let ?rs = "map (\<lambda>old. (b_lower (s_bounds old), b_upper (s_bounds old)))
            (filter (\<lambda>old. \<not> list_ex (\<lambda>new. span_contains new old) (spans timeline)) (spans previous))
     @ concat (map (\<lambda>new. uncovered new (b_lower (s_bounds new))
            (filter (span_contains new) (spans previous))) (spans timeline))"
  have c: "covers (sort ?rs) t" using assms unfolding covers_def set_sort .
  have "sorted_wrt (\<le>) (sort ?rs)" by simp
  then have "sorted_wrt (\<lambda>x y. fst x \<le> fst y) (sort ?rs)"
    by (rule sorted_wrt_mono_rel[rotated]) (auto simp: less_eq_prod_def)
  then have s: "sorted (map fst (sort ?rs))" by (simp only: sorted_map)
  show ?thesis
  proof (cases "sort ?rs")
    case Nil
    with c show ?thesis by (simp add: covers_def)
  next
    case (Cons r rs)
    have "covers (merge_ranges r rs) t" by (rule merge_ranges_covers) (use s c in \<open>simp_all only: Cons\<close>)
    then show ?thesis unfolding changed_ranges_def Let_def Cons by simp
  qed
qed

lemma lost_covered:
  assumes "from_observations obs = Inr timeline" "from_observations obs' = Inr previous"
    and "period_at previous t own = Some p" "period_at timeline t own \<noteq> Some p"
  shows "covers (changed_ranges timeline previous) t"
proof (rule changed_ranges_covers)
  obtain a where a: "a \<in> set (spans previous)" "s_ownership_interval a = own" "s_period a = p"
    "b_lower (s_bounds a) \<le> t" "t \<le> b_upper (s_bounds a)"
    using assms(3) unfolding period_at_iff[OF assms(2)] by blast
  have "\<not> span_contains b a" if b: "b \<in> set (spans timeline)" for b
  proof
    assume "span_contains b a"
    with a b have "period_at timeline t own = Some p"
      unfolding period_at_iff[OF assms(1)] by (intro bexI[OF _ b]) (simp add: span_contains_def)
    with assms(4) show False ..
  qed
  then have "(b_lower (s_bounds a), b_upper (s_bounds a)) \<in>
      set (map (\<lambda>old. (b_lower (s_bounds old), b_upper (s_bounds old)))
        (filter (\<lambda>old. \<not> list_ex (\<lambda>new. span_contains new old) (spans timeline)) (spans previous)))"
    using a(1) unfolding list_ex_iff set_map set_filter by blast
  with a(4,5) show "covers (map (\<lambda>old. (b_lower (s_bounds old), b_upper (s_bounds old)))
            (filter (\<lambda>old. \<not> list_ex (\<lambda>new. span_contains new old) (spans timeline)) (spans previous))
     @ concat (map (\<lambda>new. uncovered new (b_lower (s_bounds new))
            (filter (span_contains new) (spans previous))) (spans timeline))) t"
    unfolding covers_def set_append by blast
qed

lemma gained_covered:
  assumes "from_observations obs = Inr timeline" "from_observations obs' = Inr previous" "is_i64 t"
    and "period_at previous t own = None" "period_at timeline t own = Some p"
  shows "covers (changed_ranges timeline previous) t"
proof (rule changed_ranges_covers)
  obtain a where a: "a \<in> set (spans timeline)" "s_ownership_interval a = own" "s_period a = p"
    "b_lower (s_bounds a) \<le> t" "t \<le> b_upper (s_bounds a)"
    using assms(5) unfolding period_at_iff[OF assms(1)] by blast
  have "t < b_lower (s_bounds b) \<or> b_upper (s_bounds b) < t"
    if b: "b \<in> set (filter (span_contains a) (spans previous))" for b
  proof (rule ccontr)
    assume "\<not> (t < b_lower (s_bounds b) \<or> b_upper (s_bounds b) < t)"
    moreover have "b \<in> set (spans previous)" using b by simp
    ultimately have "period_at previous t own = Some p"
      unfolding period_at_iff[OF assms(2)] using a b by (intro bexI[of _ b]) (auto simp: span_contains_def)
    with assms(4) show False by simp
  qed
  then have "covers (uncovered a (b_lower (s_bounds a)) (filter (span_contains a) (spans previous))) t"
    using a assms(3) by (intro uncovered_covers)
  then show "covers (map (\<lambda>old. (b_lower (s_bounds old), b_upper (s_bounds old)))
            (filter (\<lambda>old. \<not> list_ex (\<lambda>new. span_contains new old) (spans timeline)) (spans previous))
     @ concat (map (\<lambda>new. uncovered new (b_lower (s_bounds new))
            (filter (span_contains new) (spans previous))) (spans timeline))) t"
    using a(1) unfolding covers_def set_append set_concat set_map by blast
qed

section \<open>Properties\<close>

text \<open>
  C20. Timelines are ordered: the spans come in the order of their owners, two spans of one owner
  share no second, and every span is a non-empty part of its own period.
\<close>

theorem timeline_spans_ordered:
  assumes "from_observations obs = Inr timeline"
  shows "sorted_wrt (\<lambda>a b. s_ownership_interval a < s_ownership_interval b \<or>
        (s_ownership_interval a = s_ownership_interval b \<and> b_upper (s_bounds a) < b_lower (s_bounds b)))
      (spans timeline) \<and>
    (\<forall>a \<in> set (spans timeline).
       op_reset_at (s_period a) - op_window_seconds (s_period a) \<le> b_lower (s_bounds a) \<and>
       b_lower (s_bounds a) \<le> b_upper (s_bounds a) \<and> b_upper (s_bounds a) < op_reset_at (s_period a))"
proof -
  have "sorted_wrt (\<lambda>a b. s_ownership_interval a < s_ownership_interval b \<or>
        (s_ownership_interval a = s_ownership_interval b \<and> b_upper (s_bounds a) < b_lower (s_bounds b)))
      (spans timeline)"
    using timeline_sorted(1)[OF assms] by (rule sorted_wrt_mono_rel[rotated]) (simp add: span_sep_def)
  moreover have "\<forall>a \<in> set (spans timeline). span_ok a" using timeline_sorted(2)[OF assms] by blast
  ultimately show ?thesis by (simp add: span_ok_def)
qed

text \<open>
  C19. The binary search is right: a lookup returns a period and its closed range exactly when
  some span of the timeline has that owner, period and range and contains the second.
\<close>

theorem attribution_lookup:
  assumes "from_observations obs = Inr timeline"
  shows "attribution_at timeline t own = Some (p, l, u) \<longleftrightarrow>
    (\<exists>a \<in> set (spans timeline). s_ownership_interval a = own \<and> s_period a = p \<and>
       s_bounds a = \<lparr>b_lower = l, b_upper = u\<rparr> \<and> l \<le> t \<and> t \<le> u)"
  unfolding attribution_at_iff[OF assms] by (rule bex_cong[OF refl]) (auto intro: Bounds.equality)

text \<open>
  C17. Attributions are supported and undisputed: an attributed second lies inside the official
  period, the owner's observations contain that period, every observation that names its reset
  time with a window names the same window, and every observation of the owner around that
  second either states this period or states one that does not contain the second.
\<close>

theorem attribution_supported:
  assumes "from_observations obs = Inr timeline" "period_at timeline t own = Some p"
  shows "op_reset_at p - op_window_seconds p \<le> t \<and> t < op_reset_at p \<and>
    (\<exists>ob \<in> set obs. ob_ownership_interval ob = own \<and> ob_reset_at ob = Some (op_reset_at p) \<and>
       ob_window_seconds ob = Some (op_window_seconds p)) \<and>
    (\<forall>ob \<in> set obs. \<forall>w. ob_reset_at ob = Some (op_reset_at p) \<and> ob_window_seconds ob = Some w \<longrightarrow>
       w = op_window_seconds p) \<and>
    (\<forall>ob \<in> set obs. ob_ownership_interval ob = own \<and> ob_lower_at ob \<le> t \<and> t \<le> ob_upper_at ob \<longrightarrow>
       (ob_reset_at ob = Some (op_reset_at p) \<and> ob_window_seconds ob = Some (op_window_seconds p)) \<or>
       (\<exists>r w. ob_reset_at ob = Some r \<and> ob_window_seconds ob = Some w \<and> (t < r - w \<or> r \<le> t)))"
proof -
  obtain st where st: "loop_ok obs st"
    and sup: "\<exists>c \<in> set (components_of st). c_ownership_interval c = own \<and> c_period c = Some p"
    and ev: "\<And>c. c \<in> set (components_of st) \<Longrightarrow> c_ownership_interval c = own \<Longrightarrow> b_lower (c_bounds c) \<le> t \<Longrightarrow>
       t \<le> b_upper (c_bounds c) \<Longrightarrow> c_period c = Some p"
    using attribution_evidence[OF assms] by blast
  have un: "set (unique st) = set obs" using st by (simp add: loop_ok_def)
  have comp: "ob \<in> set obs \<Longrightarrow> component_of (windows st) ob \<in> set (components_of st)" for ob
    by (simp add: set_components_of un)
  obtain ob where ob: "ob \<in> set obs" "c_period (component_of (windows st) ob) = Some p"
    "ob_ownership_interval ob = own"
    using sup un by (auto simp: set_components_of component_of_cases(1) dest: reversals_nonempty)
  have obp: "observation_period (windows st) ob = Some p" using component_of_cases(3)[OF ob(2)] by blast
  note od = observation_periodD[OF obp]
  have win: "w = op_window_seconds p"
    if "x \<in> set obs" "ob_reset_at x = Some (op_reset_at p)" "ob_window_seconds x = Some w" for x w
  proof -
    have "set (windows st (op_reset_at p)) =
        {w. \<exists>x \<in> set obs. ob_reset_at x = Some (op_reset_at p) \<and> ob_window_seconds x = Some w}"
      using st by (simp add: loop_ok_def)
    then have "w \<in> set (windows st (op_reset_at p))" "op_window_seconds p \<in> set (windows st (op_reset_at p))"
      using that ob(1) od by auto
    moreover obtain v where "windows st (op_reset_at p) = [v]" using od by (auto simp: length_Suc_conv)
    ultimately show ?thesis by simp
  qed
  have near: "(ob_reset_at x = Some (op_reset_at p) \<and> ob_window_seconds x = Some (op_window_seconds p)) \<or>
       (\<exists>r w. ob_reset_at x = Some r \<and> ob_window_seconds x = Some w \<and> (t < r - w \<or> r \<le> t))"
    if x: "x \<in> set obs" "ob_ownership_interval x = own" "ob_lower_at x \<le> t" "t \<le> ob_upper_at x" for x
  proof (cases "c_period (component_of (windows st) x)")
    case None
    have "c_period (component_of (windows st) x) = Some p"
      by (rule ev[OF comp[OF x(1)]]) (use x component_of_cases(1,2) None in simp_all)
    with None show ?thesis by simp
  next
    case (Some p')
    note cx = component_of_cases(3)[OF Some]
    note xd = observation_periodD[OF conjunct1[OF cx]]
    show ?thesis
    proof (cases "t < op_reset_at p' - op_window_seconds p' \<or> op_reset_at p' \<le> t")
      case True
      with xd show ?thesis by blast
    next
      case False
      then have "c_period (component_of (windows st) x) = Some p"
        by (intro ev[OF comp[OF x(1)]]) (use x cx component_of_cases(1) in simp_all)
      with Some xd show ?thesis by simp
    qed
  qed
  obtain a where a: "a \<in> set (spans timeline)" "s_period a = p" "b_lower (s_bounds a) \<le> t" "t \<le> b_upper (s_bounds a)"
    using assms(2) period_at_iff[OF assms(1)] by auto
  have "op_reset_at p - op_window_seconds p \<le> t" "t < op_reset_at p"
    using timeline_sorted(2)[OF assms(1) a(1)] a(2-4) by (auto simp: span_ok_def)
  with od ob(1,3) win near show ?thesis by blast
qed

text \<open>
  C18. Clock reversals fail closed: when two receipts of one owner are numbered in one order and
  timed in the other, no second between their times is attributed to any period.
\<close>

theorem clock_reversal_unattributed:
  assumes "from_observations obs = Inr timeline" "x \<in> set obs" "y \<in> set obs"
    and "ob_acquisition_sequence x = Some q1" "ob_acquisition_sequence y = Some q2" "q1 < q2"
    and "ob_ownership_interval x = own" "ob_ownership_interval y = own"
    and "ob_lower_at y < ob_lower_at x" "ob_lower_at y \<le> t" "t \<le> ob_lower_at x"
  shows "period_at timeline t own = None"
proof (rule ccontr)
  assume "period_at timeline t own \<noteq> None"
  then obtain p where p: "period_at timeline t own = Some p" by blast
  obtain st where st: "loop_ok obs st"
    and ev: "\<And>c. c \<in> set (components_of st) \<Longrightarrow> c_ownership_interval c = own \<Longrightarrow> b_lower (c_bounds c) \<le> t \<Longrightarrow>
       t \<le> b_upper (c_bounds c) \<Longrightarrow> c_period c = Some p"
    by (rule attribution_evidence[OF assms(1) p], rule that)
  have "sorted_wrt (<) (map fst (receipts st))" "map_of (receipts st) q1 = Some x" "map_of (receipts st) q2 = Some y"
    using st assms(2-5) by (simp_all add: loop_ok_def)
  from receipts_in_order[OF this assms(6)]
  obtain us vs where rs: "map snd (receipts st) = us @ x # vs" "y \<in> set vs" by blast
  obtain prev where prev: "set (reversals prev vs) \<subseteq> set (reversals Map.empty (us @ x # vs))"
    "prev own = Some (ob_lower_at x)"
    using reversals_suffix[of vs Map.empty us x] unfolding assms(7) by blast
  obtain c where c: "c \<in> set (reversals prev vs)" "c_ownership_interval c = own" "b_lower (c_bounds c) \<le> t"
    "t \<le> b_upper (c_bounds c)"
    using reversals_found[of prev own, OF prev(2) rs(2) assms(8-11)] by blast
  have "c \<in> set (reversals Map.empty (map snd (receipts st)))" using c(1) prev(1) rs(1) by auto
  then have "c \<in> set (components_of st)" "c_period c = None"
    using reversals_nonempty by (simp_all add: set_components_of)
  with ev[OF _ c(2-4)] show False by simp
qed

text \<open>
  C21. Changed ranges are complete: a second whose period differs between two timelines, for any
  owner, lies in one of the reported ranges.
\<close>

theorem changed_ranges_complete:
  assumes "from_observations obs = Inr timeline" "from_observations obs' = Inr previous" "is_i64 t"
    and "period_at timeline t own \<noteq> period_at previous t own"
  shows "\<exists>(l, u) \<in> set (changed_ranges timeline previous). l \<le> t \<and> t \<le> u"
proof -
  have "covers (changed_ranges timeline previous) t"
  proof (cases "period_at previous t own")
    case (Some p)
    then have "period_at timeline t own \<noteq> Some p" using assms(4) by metis
    with Some show ?thesis by (rule lost_covered[OF assms(1,2)])
  next
    case None
    with assms(4) have "period_at timeline t own \<noteq> None" by metis
    then obtain p where "period_at timeline t own = Some p" by blast
    with None show ?thesis by (rule gained_covered[OF assms(1,2,3)])
  qed
  then show ?thesis unfolding covers_def .
qed

section \<open>A concrete reconstruction\<close>

text \<open>
  Two receipts of a period and two of its successor, whose start falls between them; a fifth
  receipt that goes back by 500 seconds.
\<close>

definition example_point :: "i64 \<Rightarrow> i64 \<Rightarrow> i64 \<Rightarrow> u64 \<Rightarrow> OfficialObservation" where
  "example_point time reset window sequence =
     \<lparr>ob_lower_at = time, ob_upper_at = time, ob_reset_at = Some reset, ob_window_seconds = Some window,
      ob_acquisition_sequence = Some sequence, ob_ownership_interval = 1\<rparr>"

definition example_observations :: "OfficialObservation list" where
  "example_observations = [example_point 1000 5000 4500 1, example_point 2000 5000 4500 2,
     example_point 3000 9000 6500 3, example_point 4000 9000 6500 4]"

definition example_span :: "i64 \<Rightarrow> i64 \<Rightarrow> i64 \<Rightarrow> i64 \<Rightarrow> AttributedSpan" where
  "example_span lower upper reset window = \<lparr>s_ownership_interval = 1, s_bounds = \<lparr>b_lower = lower, b_upper = upper\<rparr>,
     s_period = \<lparr>op_reset_at = reset, op_window_seconds = window\<rparr>\<rparr>"

lemma example_timeline:
  "from_observations example_observations =
     Inr \<lparr>spans = [example_span 1000 2499 5000 4500, example_span 2500 4000 9000 6500]\<rparr>"
  by code_simp

lemma example_reversed:
  "from_observations (example_observations @ [example_point 3500 9000 6500 5]) =
     Inr \<lparr>spans = [example_span 1000 2499 5000 4500, example_span 2500 3000 9000 6500]\<rparr>"
  by code_simp

theorem timeline_spans_ordered_witness:
  "\<exists>timeline. from_observations example_observations = Inr timeline \<and>
     length (spans timeline) = 2 \<and> list_all (\<lambda>a. b_lower (s_bounds a) \<le> b_upper (s_bounds a)) (spans timeline)"
  using timeline_spans_ordered[OF example_timeline] example_timeline by (auto simp: list_all_iff)

theorem attribution_lookup_witness:
  "\<exists>timeline. from_observations example_observations = Inr timeline \<and>
     attribution_at timeline 2400 1 = Some (\<lparr>op_reset_at = 5000, op_window_seconds = 4500\<rparr>, 1000, 2499)"
proof -
  have "attribution_at \<lparr>spans = [example_span 1000 2499 5000 4500, example_span 2500 4000 9000 6500]\<rparr> 2400 1 =
      Some (\<lparr>op_reset_at = 5000, op_window_seconds = 4500\<rparr>, 1000, 2499)"
    unfolding attribution_lookup[OF example_timeline] by (simp add: example_span_def)
  with example_timeline show ?thesis by blast
qed

theorem attribution_supported_witness:
  "\<exists>timeline p. from_observations example_observations = Inr timeline \<and> period_at timeline 2600 1 = Some p \<and>
     op_reset_at p - op_window_seconds p \<le> 2600 \<and> 2600 < op_reset_at p"
proof -
  let ?t = "\<lparr>spans = [example_span 1000 2499 5000 4500, example_span 2500 4000 9000 6500]\<rparr>"
  have p: "period_at ?t 2600 1 = Some \<lparr>op_reset_at = 9000, op_window_seconds = 6500\<rparr>" by code_simp
  show ?thesis using attribution_supported[OF example_timeline p] p example_timeline by blast
qed

theorem clock_reversal_unattributed_witness:
  "\<exists>timeline. from_observations (example_observations @ [example_point 3500 9000 6500 5]) = Inr timeline \<and>
     period_at timeline 3700 1 = None"
proof -
  have "period_at \<lparr>spans = [example_span 1000 2499 5000 4500, example_span 2500 3000 9000 6500]\<rparr> 3700 1 = None"
    by (rule clock_reversal_unattributed[OF example_reversed, of "example_point 4000 9000 6500 4"
          "example_point 3500 9000 6500 5" 4 5])
       (simp_all add: example_observations_def example_point_def)
  with example_reversed show ?thesis by blast
qed

theorem changed_ranges_complete_witness:
  "\<exists>timeline previous. from_observations example_observations = Inr timeline \<and>
     from_observations (example_observations @ [example_point 3500 9000 6500 5]) = Inr previous \<and>
     (\<exists>(l, u) \<in> set (changed_ranges timeline previous). l \<le> 3700 \<and> 3700 \<le> u)"
proof -
  let ?t = "\<lparr>spans = [example_span 1000 2499 5000 4500, example_span 2500 4000 9000 6500]\<rparr>"
  let ?p = "\<lparr>spans = [example_span 1000 2499 5000 4500, example_span 2500 3000 9000 6500]\<rparr>"
  have "period_at ?t 3700 1 \<noteq> period_at ?p 3700 1" by code_simp
  then have "\<exists>(l, u) \<in> set (changed_ranges ?t ?p). l \<le> 3700 \<and> 3700 \<le> u"
    by (intro changed_ranges_complete[OF example_timeline example_reversed]) (simp_all add: is_i64_def i64_min_def i64_max_def)
  with example_timeline example_reversed show ?thesis by blast
qed

end
