(* ===== verification/Security.thy ===== *)
theory Security
  imports Interfaces
begin

text \<open>
  The pure boundaries of \<open>src/security.rs\<close>: bounded text for the user interface, the hosts an
  authentication URL may name, and the bounded reader of JSONL records. The URL parser is a
  library of its own and therefore an argument of \<open>validate_auth_url\<close>; a buffered reader is
  the list of the buffers it will hand out.
\<close>

datatype SecurityErrorKind =
    InvalidInput
  | InvalidUrl
  | TooLong
  | UnsafePath
  | UnsafeExecutable
  | LimitExceeded
  | Unterminated
  | Io
  | Parse
  | Child

definition MAX_EMAIL_SCALARS :: nat where "MAX_EMAIL_SCALARS = 254"
definition MAX_PLAN_SCALARS :: nat where "MAX_PLAN_SCALARS = 64"
definition MAX_MODEL_SCALARS :: nat where "MAX_MODEL_SCALARS = 128"
definition MAX_THREAD_TITLE_SCALARS :: nat where "MAX_THREAD_TITLE_SCALARS = 512"
definition MAX_LIMIT_NAME_SCALARS :: nat where "MAX_LIMIT_NAME_SCALARS = 96"
definition MAX_STATUS_SCALARS :: nat where "MAX_STATUS_SCALARS = 160"
definition MAX_ACCOUNT_ACTIVITY_LABEL_SCALARS :: nat where "MAX_ACCOUNT_ACTIVITY_LABEL_SCALARS = 24"
definition MAX_AUTH_URL_SCALARS :: nat where "MAX_AUTH_URL_SCALARS = 2048"
definition MAX_JSONL_LINE_BYTES :: nat where "MAX_JSONL_LINE_BYTES = 4 * 1024 * 1024"
definition MAX_RPC_LINE_BYTES :: nat where "MAX_RPC_LINE_BYTES = MAX_JSONL_LINE_BYTES"
definition MAX_RPC_IGNORED_MESSAGES :: nat where "MAX_RPC_IGNORED_MESSAGES = 1024"

section \<open>Text for the user interface\<close>

definition shorten_unicode :: "rstr \<Rightarrow> nat \<Rightarrow> rstr" where
  "shorten_unicode value limit =
     (if length value \<le> limit then value
      else if limit = 0 then []
      else if limit = 1 then [0x2026]
      else take (limit - 1) value @ [0x2026])"

definition is_forbidden_ui_scalar :: "scalar \<Rightarrow> bool" where
  "is_forbidden_ui_scalar c \<longleftrightarrow> c \<le> 0x1F \<or> (0x7F \<le> c \<and> c \<le> 0x9F) \<or> c = 0x61C
     \<or> (0x200E \<le> c \<and> c \<le> 0x200F) \<or> (0x2028 \<le> c \<and> c \<le> 0x202E) \<or> (0x2066 \<le> c \<and> c \<le> 0x2069)"

fun normalize_loop :: "bool \<Rightarrow> rstr \<Rightarrow> rstr" where
  "normalize_loop previous_was_space [] = []"
| "normalize_loop previous_was_space (c # cs) =
     (let scalar = (if is_forbidden_ui_scalar c then 0x20 else c) in
      if scalar = 0x20
      then (if previous_was_space then normalize_loop True cs else scalar # normalize_loop True cs)
      else scalar # normalize_loop False cs)"

definition normalize_ui_text :: "rstr \<Rightarrow> rstr" where
  "normalize_ui_text value = normalize_loop False value"

definition bounded_ui_text :: "rstr \<Rightarrow> nat \<Rightarrow> SecurityErrorKind + rstr" where
  "bounded_ui_text value limit = Inr (shorten_unicode (normalize_ui_text value) limit)"

definition bounded_contract_text :: "rstr \<Rightarrow> nat \<Rightarrow> SecurityErrorKind + rstr" where
  "bounded_contract_text value limit =
     (let normalized = normalize_ui_text value in
      if length normalized > limit then Inl TooLong else Inr normalized)"

definition bounded_email :: "rstr \<Rightarrow> SecurityErrorKind + rstr" where
  "bounded_email value = bounded_ui_text value MAX_EMAIL_SCALARS"
definition bounded_plan :: "rstr \<Rightarrow> SecurityErrorKind + rstr" where
  "bounded_plan value = bounded_contract_text value MAX_PLAN_SCALARS"
definition bounded_model :: "rstr \<Rightarrow> SecurityErrorKind + rstr" where
  "bounded_model value = bounded_contract_text value MAX_MODEL_SCALARS"
definition bounded_model_label :: "rstr \<Rightarrow> SecurityErrorKind + rstr" where
  "bounded_model_label value = bounded_ui_text value MAX_ACCOUNT_ACTIVITY_LABEL_SCALARS"
definition bounded_thread_title :: "rstr \<Rightarrow> SecurityErrorKind + rstr" where
  "bounded_thread_title value = bounded_ui_text value MAX_THREAD_TITLE_SCALARS"
definition bounded_limit_name :: "rstr \<Rightarrow> SecurityErrorKind + rstr" where
  "bounded_limit_name value = bounded_ui_text value MAX_LIMIT_NAME_SCALARS"
definition bounded_status :: "rstr \<Rightarrow> SecurityErrorKind + rstr" where
  "bounded_status value = bounded_ui_text value MAX_STATUS_SCALARS"

section \<open>Authentication hosts\<close>

definition is_ascii_alphanumeric :: "scalar \<Rightarrow> bool" where
  "is_ascii_alphanumeric c \<longleftrightarrow> is_ascii_digit c \<or> (65 \<le> c \<and> c \<le> 90) \<or> (97 \<le> c \<and> c \<le> 122)"

definition is_ascii :: "rstr \<Rightarrow> bool" where
  "is_ascii s = list_all (\<lambda>c. c < 128) s"

definition valid_dns_label :: "rstr \<Rightarrow> bool" where
  "valid_dns_label label =
     (if label = [] \<or> str_len label > 63 \<or> \<not> is_ascii label then False
      else if hd label = 45 \<or> last label = 45 then False
      else list_all (\<lambda>c. is_ascii_alphanumeric c \<or> c = 45) label)"

definition ends_with :: "rstr \<Rightarrow> rstr \<Rightarrow> bool" where
  "ends_with s t \<longleftrightarrow> length t \<le> length s \<and> drop (length s - length t) s = t"

definition allowed_auth_host :: "rstr \<Rightarrow> bool" where
  "allowed_auth_host host =
     (if host = [] \<or> last host = 46 \<or> \<not> is_ascii host then False
      else if list_ex (\<lambda>label. \<not> valid_dns_label label) (split_on 46 host) then False
      else (let lower = to_ascii_lowercase host in
        list_ex (\<lambda>base. lower = base \<or> ends_with lower (46 # base))
          [lit ''openai.com'', lit ''chatgpt.com'']))"

text \<open>The parts of a parsed URL that the check reads.\<close>

record Url =
  url_scheme :: rstr
  url_username :: rstr
  url_password :: "rstr option"
  url_fragment :: "rstr option"
  url_host_str :: "rstr option"
  url_port :: "nat option"

definition validate_auth_url :: "(rstr \<Rightarrow> Url option) \<Rightarrow> rstr \<Rightarrow> SecurityErrorKind + Url" where
  "validate_auth_url url_parse value =
     (if length value > MAX_AUTH_URL_SCALARS then Inl TooLong
      else (case url_parse value of
          None \<Rightarrow> Inl InvalidUrl
        | Some url \<Rightarrow>
            if to_ascii_lowercase (url_scheme url) \<noteq> lit ''https''
               \<or> url_username url \<noteq> []
               \<or> url_password url \<noteq> None
               \<or> url_fragment url \<noteq> None
               \<or> \<not> allowed_auth_host (case url_host_str url of None \<Rightarrow> [] | Some h \<Rightarrow> h)
               \<or> (case url_port url of None \<Rightarrow> False | Some port \<Rightarrow> port \<noteq> 443)
            then Inl InvalidUrl else Inr url))"

section \<open>Bounded JSONL records\<close>

subsection \<open>UTF-8\<close>

definition cont_byte :: "nat \<Rightarrow> bool" where
  "cont_byte b \<longleftrightarrow> 0x80 \<le> b \<and> b \<le> 0xBF"

text \<open>\<open>String::from_utf8\<close> on the byte values: the shortest encodings of scalar values only.\<close>

fun utf8_decode :: "nat list \<Rightarrow> rstr option" where
  "utf8_decode [] = Some []"
| "utf8_decode (a # bs) =
     (if a < 0x80 then map_option ((#) a) (utf8_decode bs)
      else if 0xC2 \<le> a \<and> a \<le> 0xDF then
        (case bs of b # rest \<Rightarrow>
            if cont_byte b then map_option ((#) ((a - 0xC0) * 64 + (b - 0x80))) (utf8_decode rest) else None
          | _ \<Rightarrow> None)
      else if 0xE0 \<le> a \<and> a \<le> 0xEF then
        (case bs of b # c # rest \<Rightarrow>
            if cont_byte b \<and> cont_byte c \<and> (a = 0xE0 \<longrightarrow> 0xA0 \<le> b) \<and> (a = 0xED \<longrightarrow> b \<le> 0x9F)
            then map_option ((#) ((a - 0xE0) * 4096 + (b - 0x80) * 64 + (c - 0x80))) (utf8_decode rest) else None
          | _ \<Rightarrow> None)
      else if 0xF0 \<le> a \<and> a \<le> 0xF4 then
        (case bs of b # c # d # rest \<Rightarrow>
            if cont_byte b \<and> cont_byte c \<and> cont_byte d \<and> (a = 0xF0 \<longrightarrow> 0x90 \<le> b) \<and> (a = 0xF4 \<longrightarrow> b \<le> 0x8F)
            then map_option ((#) ((a - 0xF0) * 262144 + (b - 0x80) * 4096 + (c - 0x80) * 64 + (d - 0x80)))
              (utf8_decode rest) else None
          | _ \<Rightarrow> None)
      else None)"

definition from_utf8 :: "u8 list \<Rightarrow> rstr option" where
  "from_utf8 bytes = utf8_decode (map unat bytes)"

subsection \<open>The reader\<close>

text \<open>
  What \<open>fill_buf\<close> will return: buffers of bytes, or a failure of the operating system. An empty
  buffer is the end of the input, as is the end of the list. Consuming part of a buffer leaves
  the rest of it to be handed out next.
\<close>

datatype chunk = Data "u8 list" | Fail

definition after_chunk :: "u8 list \<Rightarrow> chunk list \<Rightarrow> chunk list" where
  "after_chunk bytes rest = (if bytes = [] then rest else Data bytes # rest)"

fun position :: "('a \<Rightarrow> bool) \<Rightarrow> 'a list \<Rightarrow> nat option" where
  "position p [] = None"
| "position p (x # xs) = (if p x then Some 0 else map_option Suc (position p xs))"

fun drain_until_newline :: "chunk list \<Rightarrow> (SecurityErrorKind + bool) \<times> chunk list" where
  "drain_until_newline [] = (Inr False, [])"
| "drain_until_newline (Fail # rest) = (Inl Io, rest)"
| "drain_until_newline (Data buffer # rest) =
     (if buffer = [] then (Inr False, Data buffer # rest)
      else (case position (\<lambda>b. b = 10) buffer of
          Some p \<Rightarrow> (Inr True, after_chunk (drop (p + 1) buffer) rest)
        | None \<Rightarrow> drain_until_newline rest))"

definition finish_record :: "u8 list \<Rightarrow> bool \<Rightarrow> SecurityErrorKind + (rstr \<times> bool) option" where
  "finish_record line terminated =
     (let line = (if line \<noteq> [] \<and> last line = 13 then butlast line else line) in
      (case from_utf8 line of
         Some text \<Rightarrow> Inr (Some (text, terminated))
       | None \<Rightarrow> Inl (if terminated then Parse else Unterminated)))"

fun read_record_loop ::
  "u8 list \<Rightarrow> chunk list \<Rightarrow> (SecurityErrorKind + (rstr \<times> bool) option) \<times> chunk list" where
  "read_record_loop line [] = (if line = [] then Inr None else finish_record line False, [])"
| "read_record_loop line (Fail # rest) = (Inl Io, rest)"
| "read_record_loop line (Data buffer # rest) =
     (if buffer = [] then (if line = [] then Inr None else finish_record line False, Data buffer # rest)
      else (case position (\<lambda>b. b = 10) buffer of
          Some p \<Rightarrow>
            if length line + p > MAX_JSONL_LINE_BYTES
            then (Inl LimitExceeded, after_chunk (drop (p + 1) buffer) rest)
            else (finish_record (line @ take p buffer) True, after_chunk (drop (p + 1) buffer) rest)
        | None \<Rightarrow>
            if length line + length buffer > MAX_JSONL_LINE_BYTES
            then (case drain_until_newline rest of
                (Inl e, reader) \<Rightarrow> (Inl e, reader)
              | (Inr terminated, reader) \<Rightarrow>
                  (Inl (if terminated then LimitExceeded else Unterminated), reader))
            else read_record_loop (line @ buffer) rest))"

definition read_bounded_jsonl_record ::
  "chunk list \<Rightarrow> (SecurityErrorKind + (rstr \<times> bool) option) \<times> chunk list" where
  "read_bounded_jsonl_record reader = read_record_loop [] reader"

definition read_bounded_jsonl_line :: "chunk list \<Rightarrow> (SecurityErrorKind + rstr option) \<times> chunk list" where
  "read_bounded_jsonl_line reader =
     (case read_bounded_jsonl_record reader of
        (Inl e, reader') \<Rightarrow> (Inl e, reader')
      | (Inr (Some (line, terminated)), reader') \<Rightarrow>
          (if terminated then Inr (Some line) else Inl Unterminated, reader')
      | (Inr None, reader') \<Rightarrow> (Inr None, reader'))"

section \<open>RPC lines and budgets\<close>

definition RpcLine_new :: "rstr \<Rightarrow> SecurityErrorKind + rstr" where
  "RpcLine_new value = (if str_len value > MAX_RPC_LINE_BYTES then Inl LimitExceeded else Inr value)"

definition RpcLine_read :: "chunk list \<Rightarrow> (SecurityErrorKind + rstr option) \<times> chunk list" where
  "RpcLine_read reader =
     (case read_bounded_jsonl_line reader of
        (Inl e, reader') \<Rightarrow> (Inl e, reader')
      | (Inr None, reader') \<Rightarrow> (Inr None, reader')
      | (Inr (Some line), reader') \<Rightarrow> (try_res (RpcLine_new line) (\<lambda>l. Inr (Some l)), reader'))"

definition record_ignored_message :: "nat \<Rightarrow> nat \<Rightarrow> SecurityErrorKind + nat" where
  "record_ignored_message max_ignored_messages ignored =
     (if ignored \<ge> max_ignored_messages then Inl LimitExceeded else Inr (ignored + 1))"

section \<open>Lemmas on text\<close>

text \<open>Text in the form the normalisation produces: no forbidden scalar, no two spaces in a row.\<close>

fun ui_normal :: "rstr \<Rightarrow> bool" where
  "ui_normal [] = True"
| "ui_normal [c] = (\<not> is_forbidden_ui_scalar c)"
| "ui_normal (c # d # cs) = (\<not> is_forbidden_ui_scalar c \<and> \<not> (c = 0x20 \<and> d = 0x20) \<and> ui_normal (d # cs))"

lemma space_allowed [simp]: "\<not> is_forbidden_ui_scalar 32"
  by (simp add: is_forbidden_ui_scalar_def)

lemma ui_normal_Cons:
  "ui_normal (c # cs) \<longleftrightarrow> \<not> is_forbidden_ui_scalar c \<and> ui_normal cs \<and> (c = 0x20 \<longrightarrow> take 1 cs \<noteq> [0x20])"
  by (cases cs) auto

lemma normalize_loop_normal:
  "ui_normal (normalize_loop b s) \<and> (b \<longrightarrow> take 1 (normalize_loop b s) \<noteq> [0x20])"
  by (induction b s rule: normalize_loop.induct) (auto simp: Let_def ui_normal_Cons)

lemma normalize_loop_id: "ui_normal s \<Longrightarrow> (b \<Longrightarrow> take 1 s \<noteq> [0x20]) \<Longrightarrow> normalize_loop b s = s"
  by (induction b s rule: normalize_loop.induct) (auto simp: Let_def ui_normal_Cons)

lemma ui_normal_take: "ui_normal s \<Longrightarrow> ui_normal (take n s)"
proof (induction s arbitrary: n)
  case (Cons c s)
  show ?case
  proof (cases n)
    case (Suc k)
    have "take 1 (take k s) = [32] \<Longrightarrow> take 1 s = [32]" by (cases k; cases s) auto
    with Cons show ?thesis by (auto simp: Suc ui_normal_Cons)
  qed simp
qed simp

lemma ui_normal_ellipsis: "ui_normal s \<Longrightarrow> ui_normal (s @ [0x2026])"
proof (induction s)
  case (Cons c s)
  then show ?case by (cases s) (auto simp: ui_normal_Cons is_forbidden_ui_scalar_def)
qed (simp add: is_forbidden_ui_scalar_def)

lemma shorten_normal: "ui_normal s \<Longrightarrow> ui_normal (shorten_unicode s n)"
  using ui_normal_ellipsis[of "[]"]
  by (auto simp: shorten_unicode_def intro: ui_normal_take ui_normal_ellipsis)

lemma shorten_length: "length (shorten_unicode s n) \<le> n"
  by (auto simp: shorten_unicode_def)

lemma ui_normal_no_forbidden: "ui_normal s \<Longrightarrow> c \<in> set s \<Longrightarrow> \<not> is_forbidden_ui_scalar c"
  by (induction s) (auto simp: ui_normal_Cons)

section \<open>Lemmas on hosts\<close>

lemma split_on_append: "split_on d (xs @ d # ys) = split_on d xs @ split_on d ys"
  by (induction xs) (auto split: list.splits)

lemma ends_with_iff: "ends_with s t \<longleftrightarrow> (\<exists>u. s = u @ t)"
proof
  assume "ends_with s t"
  then have "s = take (length s - length t) s @ t" unfolding ends_with_def by (metis append_take_drop_id)
  then show "\<exists>u. s = u @ t" ..
qed (auto simp: ends_with_def)

section \<open>Lemmas on records\<close>

definition bytes_of :: "chunk list \<Rightarrow> u8 list" where
  "bytes_of reader = concat (map (\<lambda>c. case c of Data b \<Rightarrow> b | Fail \<Rightarrow> []) reader)"

definition healthy :: "chunk list \<Rightarrow> bool" where
  "healthy reader = list_all (\<lambda>c. case c of Data b \<Rightarrow> b \<noteq> [] | Fail \<Rightarrow> False) reader"

text \<open>The record at the front of a byte string, and what follows it.\<close>

definition first_record :: "u8 list \<Rightarrow> (SecurityErrorKind + (rstr \<times> bool) option) \<times> u8 list" where
  "first_record s =
     (case position (\<lambda>b. b = 10) s of
        Some p \<Rightarrow> (if p > MAX_JSONL_LINE_BYTES then Inl LimitExceeded else finish_record (take p s) True,
                   drop (p + 1) s)
      | None \<Rightarrow> (if s = [] then Inr None
                 else if length s > MAX_JSONL_LINE_BYTES then Inl Unterminated
                 else finish_record s False, []))"

lemma bytes_of_simps [simp]:
  "bytes_of [] = []" "bytes_of (Data b # r) = b @ bytes_of r" "bytes_of (after_chunk b r) = b @ bytes_of r"
  by (simp_all add: bytes_of_def after_chunk_def)

lemma healthy_simps [simp]:
  "healthy []" "healthy (Data b # r) \<longleftrightarrow> b \<noteq> [] \<and> healthy r" "\<not> healthy (Fail # r)"
  "healthy (after_chunk b r) \<longleftrightarrow> healthy r"
  by (simp_all add: healthy_def after_chunk_def)

lemma position_append:
  "position p (xs @ ys) =
     (case position p xs of Some i \<Rightarrow> Some i | None \<Rightarrow> map_option ((+) (length xs)) (position p ys))"
proof (induction xs)
  case Nil
  then show ?case by (cases "position p ys") simp_all
next
  case (Cons x xs)
  then show ?case by (cases "position p xs"; cases "position p ys") simp_all
qed

lemma position_less: "position p xs = Some i \<Longrightarrow> i < length xs"
  by (induction xs arbitrary: i) (auto split: if_splits)

lemma drain_spec:
  "healthy r \<Longrightarrow> \<exists>r'. drain_until_newline r =
     (Inr (position (\<lambda>b. b = 10) (bytes_of r) \<noteq> None), r') \<and> healthy r' \<and>
     bytes_of r' = (case position (\<lambda>b. b = 10) (bytes_of r) of None \<Rightarrow> [] | Some p \<Rightarrow> drop (p + 1) (bytes_of r))"
proof (induction r rule: drain_until_newline.induct)
  case (3 buffer rest)
  show ?case
  proof (cases "position (\<lambda>b. b = 10) buffer")
    case None
    then show ?thesis using 3 by (auto simp: position_append split: option.splits)
  next
    case (Some p)
    then show ?thesis using 3 position_less[OF Some] by (auto simp: position_append)
  qed
qed simp_all

text \<open>The loop with the bytes it already holds behaves as on all bytes at once.\<close>

lemma read_record_loop_spec:
  assumes "healthy r" "position (\<lambda>b. b = 10) line = None" "length line \<le> MAX_JSONL_LINE_BYTES"
  shows "\<exists>r'. read_record_loop line r = (fst (first_record (line @ bytes_of r)), r') \<and> healthy r' \<and>
     bytes_of r' = snd (first_record (line @ bytes_of r))"
  using assms
proof (induction line r rule: read_record_loop.induct)
  case (1 line)
  then show ?case by (auto simp: first_record_def)
next
  case (3 line buffer rest)
  show ?case
  proof (cases "position (\<lambda>b. b = 10) buffer")
    case (Some p)
    then show ?thesis using 3(2-4) position_less[OF Some]
      by (auto simp: first_record_def position_append)
  next
    case None
    show ?thesis
    proof (cases "length line + length buffer > MAX_JSONL_LINE_BYTES")
      case True
      obtain r' where d: "drain_until_newline rest = (Inr (position (\<lambda>b. b = 10) (bytes_of rest) \<noteq> None), r')"
        "healthy r'" "bytes_of r' = (case position (\<lambda>b. b = 10) (bytes_of rest) of None \<Rightarrow> []
            | Some p \<Rightarrow> drop (p + 1) (bytes_of rest))"
        using drain_spec[of rest] 3(2) by auto
      then show ?thesis using None True 3(2-4)
        by (auto simp: first_record_def position_append split: option.splits)
    next
      case False
      have "position (\<lambda>b. b = 10) (line @ buffer) = None" using None 3(3) by (simp add: position_append)
      with 3(1)[OF _ None False] 3(2) False None show ?thesis by auto
    qed
  qed
qed simp

section \<open>Properties\<close>

text \<open>
  Text for the user interface: the bounded text has at most the allowed number of scalars,
  contains no control, line-separator or bidi scalar and no two spaces in a row, and bounding it
  again changes nothing.
\<close>

theorem bounded_ui_text_canonical:
  assumes "bounded_ui_text value limit = Inr t"
  shows "length t \<le> limit \<and> \<not> list_ex is_forbidden_ui_scalar t \<and>
    \<not> (\<exists>us vs. t = us @ 0x20 # 0x20 # vs) \<and> bounded_ui_text t limit = Inr t"
proof -
  have t: "t = shorten_unicode (normalize_ui_text value) limit" using assms by (simp add: bounded_ui_text_def)
  have n: "ui_normal t" unfolding t normalize_ui_text_def
    using normalize_loop_normal by (blast intro: shorten_normal)
  have len: "length t \<le> limit" unfolding t by (rule shorten_length)
  have "\<not> ui_normal (us @ 0x20 # 0x20 # vs)" for us vs
    by (induction us) (auto simp: ui_normal_Cons)
  moreover have "bounded_ui_text t limit = Inr t"
    using len normalize_loop_id[OF n, of False] by (simp add: bounded_ui_text_def normalize_ui_text_def shorten_unicode_def)
  ultimately show ?thesis using n len ui_normal_no_forbidden by (auto simp: list_ex_iff)
qed

theorem bounded_ui_text_canonical_witness:
  "bounded_ui_text (lit ''a'' @ [0x20, 0x202E, 0x0A] @ lit ''b'') 8 = Inr (lit ''a b'') \<and>
   bounded_ui_text (lit ''a b'') 8 = Inr (lit ''a b'')"
proof -
  have h: "bounded_ui_text (lit ''a'' @ [0x20, 0x202E, 0x0A] @ lit ''b'') 8 = Inr (lit ''a b'')"
    by (simp add: bounded_ui_text_def normalize_ui_text_def is_forbidden_ui_scalar_def shorten_unicode_def lit_def)
  with bounded_ui_text_canonical[OF h] show ?thesis by blast
qed

text \<open>
  C37. JSONL records: however the input is cut into buffers, reading a record returns what the
  bytes alone determine, and leaves exactly the bytes after its newline, also after an
  oversized line.
\<close>

theorem read_record_chunking_irrelevant:
  assumes "healthy reader"
  shows "\<exists>reader'. read_bounded_jsonl_record reader = (fst (first_record (bytes_of reader)), reader') \<and>
    healthy reader' \<and> bytes_of reader' = snd (first_record (bytes_of reader))"
  using read_record_loop_spec[of reader "[]"] assms by (simp add: read_bounded_jsonl_record_def)

theorem read_record_chunking_irrelevant_witness:
  "\<exists>reader'. read_bounded_jsonl_record [Data [123], Data [125, 13], Data [10, 91]] =
     (Inr (Some (lit ''{}'', True)), reader') \<and> bytes_of reader' = [91]"
proof -
  have "healthy [Data [123], Data [125, 13], Data [10, 91]]" by simp
  moreover have "first_record (bytes_of [Data [123], Data [125, 13], Data [10, 91]]) =
      (Inr (Some (lit ''{}'', True)), [91])"
    by (simp add: first_record_def MAX_JSONL_LINE_BYTES_def finish_record_def from_utf8_def lit_def)
  ultimately show ?thesis using read_record_chunking_irrelevant by fastforce
qed

text \<open>
  Authentication hosts: an accepted host, read as labels between dots, ends with the two
  labels of \<open>openai.com\<close> or \<open>chatgpt.com\<close> (in any case), and every label is a valid DNS label;
  a name that merely contains or ends with such text is refused.
\<close>

theorem allowed_auth_host_labels:
  assumes "allowed_auth_host host"
  shows "list_all valid_dns_label (split_on 46 host) \<and>
    (\<exists>labels. split_on 46 (to_ascii_lowercase host) = labels @ [lit ''openai'', lit ''com''] \<or>
       split_on 46 (to_ascii_lowercase host) = labels @ [lit ''chatgpt'', lit ''com''])"
proof -
  have valid: "list_all valid_dns_label (split_on 46 host)"
    and base: "\<exists>base \<in> {lit ''openai.com'', lit ''chatgpt.com''}.
      to_ascii_lowercase host = base \<or> ends_with (to_ascii_lowercase host) (46 # base)"
    using assms by (auto simp: allowed_auth_host_def Let_def list_ex_iff list_all_iff split: if_splits)
  have split: "split_on 46 (lit ''openai.com'') = [lit ''openai'', lit ''com'']"
    "split_on 46 (lit ''chatgpt.com'') = [lit ''chatgpt'', lit ''com'']" by (simp_all add: lit_def)
  from base obtain b where b: "b \<in> {lit ''openai.com'', lit ''chatgpt.com''}"
    "to_ascii_lowercase host = b \<or> (\<exists>u. to_ascii_lowercase host = u @ 46 # b)"
    unfolding ends_with_iff by blast
  then have "\<exists>labels. split_on 46 (to_ascii_lowercase host) = labels @ split_on 46 b"
    by (metis append_Nil split_on_append)
  with b(1) split valid show ?thesis by auto
qed

theorem allowed_auth_host_labels_witness:
  "allowed_auth_host (lit ''auth.OpenAI.com'') \<and> \<not> allowed_auth_host (lit ''evilopenai.com'') \<and>
   (\<exists>labels. split_on 46 (to_ascii_lowercase (lit ''auth.OpenAI.com'')) = labels @ [lit ''openai'', lit ''com''] \<or>
      split_on 46 (to_ascii_lowercase (lit ''auth.OpenAI.com'')) = labels @ [lit ''chatgpt'', lit ''com''])"
proof -
  have ok: "allowed_auth_host (lit ''auth.OpenAI.com'')"
    by (simp add: allowed_auth_host_def valid_dns_label_def is_ascii_def str_len_def utf8_width_def
        is_ascii_alphanumeric_def is_ascii_digit_def to_ascii_lowercase_def ends_with_def lit_def)
  have "\<not> allowed_auth_host (lit ''evilopenai.com'')"
    by (simp add: allowed_auth_host_def to_ascii_lowercase_def ends_with_def lit_def)
  with ok allowed_auth_host_labels[OF ok] show ?thesis by blast
qed

end
