(* ===== verification/Thread_State.thy ===== *)
theory Thread_State
  imports Security "HOL-Library.List_Lexorder"
begin

text \<open>
  \<open>src/thread_state.rs\<close>: the bounded inventory of native sub-agents. The reader walks the
  parent/child edges of the state database breadth first from the owner roots, refuses cycles,
  conflicting rows and everything over its limits, and computes the depth of every descendant.
  The database and the file system are arguments: the columns of a table, the rows a query
  returns, and the canonical path of a regular file under a root.
\<close>

definition MAX_NATIVE_THREAD_DEPTH :: nat where "MAX_NATIVE_THREAD_DEPTH = 64"
definition MAX_NATIVE_THREAD_DESCENDANTS :: nat where "MAX_NATIVE_THREAD_DESCENDANTS = 1024"
definition QUERY_PARENT_BATCH :: nat where "QUERY_PARENT_BATCH = 128"
definition MAX_ROLLOUT_PATH_BYTES :: nat where "MAX_ROLLOUT_PATH_BYTES = 16 * 1024"

datatype ThreadStateError =
    UnsafePath
  | Database
  | InvalidSchema
  | InvalidRow
  | LimitExceeded
  | Cycle
  | Replaced

record NativeThreadCandidate =
  nc_id :: rstr
  nc_created_at :: "i64 option"
  nc_updated_at :: i64
  nc_title :: rstr
  nc_rollout_path :: rstr
  nc_parent_thread_id :: rstr
  nc_depth :: int

record NativeThreadRow =
  nr_id :: rstr
  nr_created_at :: "i64 option"
  nr_updated_at :: i64
  nr_title :: rstr
  nr_rollout_path :: rstr
  nr_parent_thread_id :: rstr

record ColumnContract =
  declared_type :: rstr
  not_null :: bool
  primary_key :: bool

definition valid_thread_id :: "rstr \<Rightarrow> bool" where
  "valid_thread_id value \<longleftrightarrow> 1 \<le> length value \<and> length value \<le> 128 \<and> \<not> list_ex is_control value"

section \<open>The database and the file system\<close>

text \<open>A row of \<open>table_info\<close>: name, declared type, the not-null flag and the key position.\<close>

type_synonym table_info_row = "rstr \<times> rstr \<times> i64 \<times> i64"

text \<open>A row of the query over the spawn edges, in the order of its columns.\<close>

record edge_row =
  er_parent :: rstr
  er_id :: rstr
  er_rollout_path :: "rstr option"
  er_created_at :: "i64 option"
  er_updated_at :: "i64 option"
  er_archived :: "i64 option"
  er_name :: "rstr option"
  er_preview :: "rstr option"
  er_source :: "rstr option"
  er_agent_path :: "rstr option"
  er_agent_nickname :: "rstr option"

text \<open>
  \<open>db_children\<close> answers the query for a batch of parents: whether the optional columns
  (creation time, agent path, nickname) are selected, the parents, and the row limit. \<open>None\<close> is
  a failed statement, and \<open>None\<close> in a row a column of the wrong type.
\<close>

record state_db =
  db_object_type :: "rstr \<Rightarrow> rstr option"
  db_table_info :: "rstr \<Rightarrow> table_info_row option list option"
  db_children :: "bool \<times> bool \<times> bool \<Rightarrow> rstr list \<Rightarrow> nat \<Rightarrow> edge_row option list option"

record host_env =
  canonical_regular_file_under :: "rstr \<Rightarrow> rstr \<Rightarrow> rstr option"
  char_to_uppercase :: "scalar \<Rightarrow> rstr"

fun collect_columns ::
  "(rstr \<rightharpoonup> ColumnContract) \<Rightarrow> table_info_row option list \<Rightarrow> ThreadStateError + (rstr \<rightharpoonup> ColumnContract)" where
  "collect_columns columns [] = Inr columns"
| "collect_columns columns (None # rest) = Inl InvalidSchema"
| "collect_columns columns (Some (name, declared, not_null_flag, key) # rest) =
     (if columns name \<noteq> None then Inl InvalidSchema
      else collect_columns (columns(name \<mapsto>
        \<lparr>declared_type = to_ascii_uppercase declared, not_null = (not_null_flag = 1), primary_key = (key > 0)\<rparr>)) rest)"

definition table_columns :: "state_db \<Rightarrow> rstr \<Rightarrow> ThreadStateError + (rstr \<rightharpoonup> ColumnContract)" where
  "table_columns db table =
     (case db_object_type db table of
        None \<Rightarrow> Inl InvalidSchema
      | Some object_type \<Rightarrow>
          if object_type \<noteq> lit ''table'' then Inl InvalidSchema
          else if table \<noteq> lit ''threads'' \<and> table \<noteq> lit ''thread_spawn_edges'' then Inl InvalidSchema
          else (case db_table_info db table of
              None \<Rightarrow> Inl InvalidSchema
            | Some rows \<Rightarrow> collect_columns Map.empty rows))"

definition require_column ::
  "(rstr \<rightharpoonup> ColumnContract) \<Rightarrow> rstr \<Rightarrow> rstr \<Rightarrow> bool \<Rightarrow> bool \<Rightarrow> ThreadStateError + unit" where
  "require_column columns name declared not_null_flag key =
     (case columns name of
        None \<Rightarrow> Inl InvalidSchema
      | Some column \<Rightarrow>
          if declared_type column \<noteq> declared \<or> not_null column \<noteq> not_null_flag \<or> primary_key column \<noteq> key
          then Inl InvalidSchema else Inr ())"

definition optional_text_column :: "(rstr \<rightharpoonup> ColumnContract) \<Rightarrow> rstr \<Rightarrow> ThreadStateError + bool" where
  "optional_text_column columns name =
     (case columns name of
        None \<Rightarrow> Inr False
      | Some column \<Rightarrow>
          if declared_type column \<noteq> lit ''TEXT'' \<or> not_null column \<or> primary_key column
          then Inl InvalidSchema else Inr True)"

definition optional_integer_column :: "(rstr \<rightharpoonup> ColumnContract) \<Rightarrow> rstr \<Rightarrow> ThreadStateError + bool" where
  "optional_integer_column columns name =
     (case columns name of
        None \<Rightarrow> Inr False
      | Some column \<Rightarrow>
          if declared_type column \<noteq> lit ''INTEGER'' \<or> primary_key column
          then Inl InvalidSchema else Inr True)"

definition validate_state_schema :: "state_db \<Rightarrow> ThreadStateError + unit" where
  "validate_state_schema db =
     try_res (table_columns db (lit ''thread_spawn_edges'')) (\<lambda>edges.
     try_res (require_column edges (lit ''parent_thread_id'') (lit ''TEXT'') True False) (\<lambda>_.
     try_res (require_column edges (lit ''child_thread_id'') (lit ''TEXT'') True True) (\<lambda>_.
     try_res (require_column edges (lit ''status'') (lit ''TEXT'') True False) (\<lambda>_.
     try_res (table_columns db (lit ''threads'')) (\<lambda>threads.
     try_res (require_column threads (lit ''id'') (lit ''TEXT'') False True) (\<lambda>_.
     try_res (require_column threads (lit ''rollout_path'') (lit ''TEXT'') True False) (\<lambda>_.
     try_res (require_column threads (lit ''updated_at'') (lit ''INTEGER'') True False) (\<lambda>_.
     try_res (require_column threads (lit ''archived'') (lit ''INTEGER'') True False) (\<lambda>_.
     try_res (require_column threads (lit ''name'') (lit ''TEXT'') False False) (\<lambda>_.
     try_res (require_column threads (lit ''preview'') (lit ''TEXT'') True False) (\<lambda>_.
     require_column threads (lit ''thread_source'') (lit ''TEXT'') False False)))))))))))"

section \<open>Titles\<close>

text \<open>The last normal component of a Unix path, and the extension of a file name.\<close>

definition path_file_name :: "rstr \<Rightarrow> rstr option" where
  "path_file_name path =
     (case filter (\<lambda>c. c \<noteq> [] \<and> c \<noteq> lit ''.'') (split_on 47 path) of
        [] \<Rightarrow> None
      | cs \<Rightarrow> if last cs = lit ''..'' then None else Some (last cs))"

definition path_extension :: "rstr \<Rightarrow> rstr option" where
  "path_extension path =
     (case path_file_name path of
        None \<Rightarrow> None
      | Some name \<Rightarrow>
          (case split_on 46 name of
             [] \<Rightarrow> None
           | [_] \<Rightarrow> None
           | p # ps \<Rightarrow> if p = [] \<and> length ps = 1 then None else Some (last ps)))"

definition task_title_from_agent_path :: "host_env \<Rightarrow> rstr \<Rightarrow> rstr option" where
  "task_title_from_agent_path env path =
     (case path_file_name path of
        None \<Rightarrow> None
      | Some name \<Rightarrow>
          (let component = trim name in
           (case map (\<lambda>c. if c = 95 then 32 else c) component of
              [] \<Rightarrow> None
            | c # cs \<Rightarrow>
                (case bounded_thread_title (char_to_uppercase env c @ cs) of
                   Inl _ \<Rightarrow> None
                 | Inr title \<Rightarrow> if title \<noteq> [] then Some title else None))))"

definition DEFAULT_TITLE :: rstr where
  "DEFAULT_TITLE = [0x30A2, 0x30AF, 0x30C6, 0x30A3, 0x30D6, 0x306A, 0x30B9, 0x30EC, 0x30C3, 0x30C9]"

text \<open>An optional text after \<open>map(bounded_thread_title).transpose()\<close>, its error replaced.\<close>

definition bounded_option :: "rstr option \<Rightarrow> ThreadStateError + rstr option" where
  "bounded_option v =
     (case v of
        None \<Rightarrow> Inr None
      | Some t \<Rightarrow> try_res (map_err InvalidRow (bounded_thread_title t)) (\<lambda>b. Inr (Some b)))"

definition native_thread_title ::
  "host_env \<Rightarrow> rstr option \<Rightarrow> rstr \<Rightarrow> rstr option \<Rightarrow> rstr option \<Rightarrow> ThreadStateError + rstr" where
  "native_thread_title env name preview agent_path agent_nickname =
     try_res (bounded_option name) (\<lambda>normalized.
     let normalized_name = (case normalized of None \<Rightarrow> [] | Some n \<Rightarrow> n) in
     try_res (map_err InvalidRow (bounded_thread_title preview)) (\<lambda>normalized_preview.
     if normalized_name \<noteq> [] then Inr normalized_name
     else if normalized_preview \<noteq> [] then Inr normalized_preview
     else (case Option.bind agent_path (task_title_from_agent_path env) of
         Some title \<Rightarrow> Inr title
       | None \<Rightarrow>
           try_res (bounded_option agent_nickname) (\<lambda>nickname.
             (case nickname of
                Some n \<Rightarrow> if n \<noteq> [] then Inr n else Inr DEFAULT_TITLE
              | None \<Rightarrow> Inr DEFAULT_TITLE)))))"

section \<open>Parent chains\<close>

text \<open>
  The walk towards the root: \<open>steps\<close> counts the ancestors passed, and a chain of more than the
  allowed number of descendants counts as a cycle.
\<close>

function cycle_walk :: "(rstr \<rightharpoonup> rstr) \<Rightarrow> rstr \<Rightarrow> rstr \<Rightarrow> nat \<Rightarrow> bool" where
  "cycle_walk parents child cursor steps =
     (case parents cursor of
        None \<Rightarrow> False
      | Some ancestor \<Rightarrow>
          if ancestor = child then True
          else if steps + 1 > MAX_NATIVE_THREAD_DESCENDANTS then True
          else cycle_walk parents child ancestor (steps + 1))"
  by pat_completeness auto
termination
  by (relation "measure (\<lambda>(_, _, _, steps). MAX_NATIVE_THREAD_DESCENDANTS + 1 - steps)") auto

declare cycle_walk.simps [simp del]

definition creates_cycle :: "rstr \<Rightarrow> rstr \<Rightarrow> (rstr \<rightharpoonup> rstr) \<Rightarrow> bool" where
  "creates_cycle parent child parents \<longleftrightarrow> parent = child \<or> cycle_walk parents child parent 0"

text \<open>The counter stays below its limit of 64, so its checked addition never fails.\<close>

function depth_walk ::
  "(rstr \<rightharpoonup> rstr) \<Rightarrow> rstr \<Rightarrow> rstr set \<Rightarrow> nat \<Rightarrow> ThreadStateError + nat" where
  "depth_walk parents cursor visited depth =
     (case parents cursor of
        None \<Rightarrow> Inr depth
      | Some parent \<Rightarrow>
          if cursor \<in> visited then Inl Cycle
          else if depth + 1 > MAX_NATIVE_THREAD_DEPTH then Inl LimitExceeded
          else depth_walk parents parent (insert cursor visited) (depth + 1))"
  by pat_completeness auto
termination
  by (relation "measure (\<lambda>(_, _, _, depth). MAX_NATIVE_THREAD_DEPTH + 1 - depth)") auto

declare depth_walk.simps [simp del]

definition relation_depth :: "rstr \<Rightarrow> (rstr \<rightharpoonup> rstr) \<Rightarrow> ThreadStateError + nat" where
  "relation_depth thread_id parents = depth_walk parents thread_id {} 0"

section \<open>Reading the descendants\<close>

record reader_state =
  rd_expanded :: "rstr set"
  rd_discovered_rows :: "(rstr \<times> NativeThreadRow) list"
  rd_parents :: "rstr \<rightharpoonup> rstr"
  rd_next :: "rstr list"

definition candidate_row ::
  "host_env \<Rightarrow> rstr \<Rightarrow> edge_row \<Rightarrow> ThreadStateError + NativeThreadRow" where
  "candidate_row env sessions_root row =
     try_res (ok_or InvalidRow (er_rollout_path row)) (\<lambda>rollout_path.
     if str_len rollout_path > MAX_ROLLOUT_PATH_BYTES then Inl LimitExceeded
     else try_res (ok_or UnsafePath (canonical_regular_file_under env sessions_root rollout_path)) (\<lambda>canonical_rollout.
     if path_extension canonical_rollout \<noteq> Some (lit ''jsonl'') then Inl UnsafePath
     else try_res (ok_or InvalidRow (er_preview row)) (\<lambda>preview.
     try_res (native_thread_title env (er_name row) preview (er_agent_path row) (er_agent_nickname row)) (\<lambda>title.
     try_res (ok_or InvalidRow (er_updated_at row)) (\<lambda>updated_at.
     Inr \<lparr>nr_id = er_id row, nr_created_at = er_created_at row, nr_updated_at = updated_at,
          nr_title = title, nr_rollout_path = canonical_rollout, nr_parent_thread_id = er_parent row\<rparr>)))))"

definition row_step ::
  "host_env \<Rightarrow> rstr \<Rightarrow> reader_state \<Rightarrow> edge_row option \<Rightarrow> ThreadStateError + reader_state" where
  "row_step env sessions_root st row_result =
     (case row_result of
        None \<Rightarrow> Inl InvalidRow
      | Some row \<Rightarrow>
          if \<not> valid_thread_id (er_parent row)
             \<or> \<not> valid_thread_id (er_id row)
             \<or> (case er_updated_at row of None \<Rightarrow> True | Some v \<Rightarrow> v \<le> 0)
             \<or> er_archived row \<noteq> Some 0
             \<or> er_source row \<noteq> Some (lit ''subagent'') then Inl InvalidRow
          else if (case er_created_at row of None \<Rightarrow> False | Some v \<Rightarrow> v \<le> 0) then Inl InvalidRow
          else if creates_cycle (er_parent row) (er_id row) (rd_parents st) then Inl Cycle
          else if (case rd_parents st (er_id row) of
                None \<Rightarrow> False | Some existing \<Rightarrow> existing \<noteq> er_parent row) then Inl InvalidRow
          else
            (let st = st\<lparr>rd_parents := (rd_parents st)(er_id row \<mapsto> er_parent row)\<rparr> in
             try_res (candidate_row env sessions_root row) (\<lambda>candidate.
               (case map_of (rd_discovered_rows st) (er_id row) of
                  Some existing \<Rightarrow> if existing \<noteq> candidate then Inl InvalidRow else Inr st
                | None \<Rightarrow>
                    if length (rd_discovered_rows st) \<ge> MAX_NATIVE_THREAD_DESCENDANTS then Inl LimitExceeded
                    else Inr (st\<lparr>rd_discovered_rows := btree_insert (er_id row) candidate (rd_discovered_rows st),
                                rd_next := rd_next st @ [er_id row]\<rparr>)))))"

definition batch_step ::
  "state_db \<Rightarrow> host_env \<Rightarrow> rstr \<Rightarrow> bool \<times> bool \<times> bool \<Rightarrow> reader_state \<Rightarrow> rstr list \<Rightarrow> ThreadStateError + reader_state" where
  "batch_step db env sessions_root selected st batch =
     (if length (rd_discovered_rows st) > MAX_NATIVE_THREAD_DESCENDANTS then Inl LimitExceeded
      else (let remaining = MAX_NATIVE_THREAD_DESCENDANTS - length (rd_discovered_rows st);
                row_limit = remaining + 1
            in (case db_children db selected batch row_limit of
                  None \<Rightarrow> Inl Database
                | Some rows \<Rightarrow> fold_res (row_step env sessions_root) st rows)))"

function chunks :: "nat \<Rightarrow> 'a list \<Rightarrow> 'a list list" where
  "chunks n xs = (if xs = [] \<or> n = 0 then [] else take n xs # chunks n (drop n xs))"
  by pat_completeness auto
termination
  by (relation "measure (\<lambda>(n, xs). length xs)") auto

declare chunks.simps [simp del]

text \<open>The entries of the frontier that were not expanded before, in order.\<close>

fun take_unexpanded :: "rstr set \<Rightarrow> rstr list \<Rightarrow> rstr set \<times> rstr list" where
  "take_unexpanded expanded [] = (expanded, [])"
| "take_unexpanded expanded (entry # rest) =
     (if entry \<in> expanded then take_unexpanded expanded rest
      else (let (expanded', current) = take_unexpanded (insert entry expanded) rest
            in (expanded', entry # current)))"

definition read_round ::
  "state_db \<Rightarrow> host_env \<Rightarrow> rstr \<Rightarrow> bool \<times> bool \<times> bool \<Rightarrow> reader_state \<Rightarrow> rstr list \<Rightarrow> ThreadStateError + reader_state" where
  "read_round db env sessions_root selected st current =
     fold_res (batch_step db env sessions_root selected) (st\<lparr>rd_next := []\<rparr>) (chunks QUERY_PARENT_BATCH current)"

subsection \<open>The rounds end\<close>

text \<open>What an accepted row does to the state.\<close>

definition row_effect :: "reader_state \<Rightarrow> edge_row \<Rightarrow> NativeThreadRow \<Rightarrow> reader_state \<Rightarrow> bool" where
  "row_effect st row c st' \<longleftrightarrow>
     rd_parents st' = (rd_parents st)(er_id row \<mapsto> er_parent row) \<and> rd_expanded st' = rd_expanded st \<and>
     (map_of (rd_discovered_rows st) (er_id row) = Some c \<and>
        rd_discovered_rows st' = rd_discovered_rows st \<and> rd_next st' = rd_next st \<or>
      map_of (rd_discovered_rows st) (er_id row) = None \<and>
        length (rd_discovered_rows st) < MAX_NATIVE_THREAD_DESCENDANTS \<and>
        rd_discovered_rows st' = btree_insert (er_id row) c (rd_discovered_rows st) \<and>
        rd_next st' = rd_next st @ [er_id row])"

lemma row_stepE:
  assumes "row_step env dir st r = Inr st'"
  obtains row c where "r = Some row" "valid_thread_id (er_parent row)" "valid_thread_id (er_id row)"
    "\<not> creates_cycle (er_parent row) (er_id row) (rd_parents st)"
    "rd_parents st (er_id row) = None \<or> rd_parents st (er_id row) = Some (er_parent row)"
    "candidate_row env dir row = Inr c" "0 < nr_updated_at c" "row_effect st row c st'"
proof -
  obtain row where row: "r = Some row" using assms by (cases r) (auto simp: row_step_def)
  have guards: "valid_thread_id (er_parent row)" "valid_thread_id (er_id row)"
    "\<exists>v. er_updated_at row = Some v \<and> 0 < v"
    "\<not> creates_cycle (er_parent row) (er_id row) (rd_parents st)"
    "rd_parents st (er_id row) = None \<or> rd_parents st (er_id row) = Some (er_parent row)"
    using assms by (auto simp: row_step_def row split: if_splits option.splits)
  obtain c where c: "candidate_row env dir row = Inr c" and eff: "row_effect st row c st'"
    using assms by (auto simp: row_step_def row Let_def row_effect_def result_simps split: if_splits option.splits)
  moreover have "0 < nr_updated_at c"
    using c guards(3) by (auto simp: candidate_row_def result_simps split: if_splits)
  ultimately show ?thesis using that row guards c eff by blast
qed

lemma length_btree_insert: "map_of m k = None \<Longrightarrow> length (btree_insert k v m) = Suc (length m)"
proof (induction m)
  case (Cons e m)
  then show ?case by (cases e) (auto split: if_splits)
qed simp

text \<open>The rows added since the round began are the entries of the next frontier.\<close>

definition grows :: "reader_state \<Rightarrow> reader_state \<Rightarrow> bool" where
  "grows st st' \<longleftrightarrow>
     length (rd_discovered_rows st') + length (rd_next st) = length (rd_discovered_rows st) + length (rd_next st') \<and>
     length (rd_next st) \<le> length (rd_next st') \<and>
     (length (rd_discovered_rows st) \<le> MAX_NATIVE_THREAD_DESCENDANTS \<longrightarrow>
        length (rd_discovered_rows st') \<le> MAX_NATIVE_THREAD_DESCENDANTS)"

lemma grows_refl: "grows st st"
  by (simp add: grows_def)

lemma grows_trans: "grows a b \<Longrightarrow> grows b c \<Longrightarrow> grows a c"
  by (auto simp: grows_def)

lemma fold_res_induct:
  assumes "fold_res f a xs = Inr b" "P a" "\<And>s x s'. x \<in> set xs \<Longrightarrow> P s \<Longrightarrow> f s x = Inr s' \<Longrightarrow> P s'"
  shows "P b"
  using assms
proof (induction xs arbitrary: a)
  case (Cons x xs)
  then obtain s where s: "f a x = Inr s" "fold_res f s xs = Inr b" by (auto simp: result_simps)
  have "P s" using Cons.prems(2) s(1) by (rule Cons.prems(3)[OF list.set_intros(1)])
  then show ?case
    by (rule Cons.IH[OF s(2)]) (rule Cons.prems(3), auto)
qed simp

lemma row_step_grows: "row_step env dir st r = Inr st' \<Longrightarrow> grows st st'"
  by (erule row_stepE) (auto simp: row_effect_def grows_def length_btree_insert)

lemma batch_step_grows:
  assumes "batch_step db env dir sel st b = Inr st'"
  shows "grows st st' \<and> length (rd_discovered_rows st) \<le> MAX_NATIVE_THREAD_DESCENDANTS"
proof -
  obtain rows where "fold_res (row_step env dir) st rows = Inr st'"
    "length (rd_discovered_rows st) \<le> MAX_NATIVE_THREAD_DESCENDANTS"
    using assms by (auto simp: batch_step_def Let_def split: if_splits option.splits)
  then show ?thesis
    using fold_res_induct[of "row_step env dir" st rows st' "grows st"]
    by (metis grows_refl grows_trans row_step_grows)
qed

lemma read_round_grows:
  assumes "read_round db env dir sel st current = Inr st'" "current \<noteq> []"
  shows "length (rd_discovered_rows st') = length (rd_discovered_rows st) + length (rd_next st') \<and>
    length (rd_discovered_rows st') \<le> MAX_NATIVE_THREAD_DESCENDANTS"
proof -
  obtain b bs where bs: "chunks QUERY_PARENT_BATCH current = b # bs"
    using assms(2) chunks.simps[of QUERY_PARENT_BATCH current] by (auto simp: QUERY_PARENT_BATCH_def)
  then obtain st1 where st1: "batch_step db env dir sel (st\<lparr>rd_next := []\<rparr>) b = Inr st1"
    "fold_res (batch_step db env dir sel) st1 bs = Inr st'"
    using assms(1) by (auto simp: read_round_def result_simps)
  have "grows st1 st'"
    using fold_res_induct[OF st1(2), of "grows st1"] by (metis grows_refl grows_trans batch_step_grows)
  with batch_step_grows[OF st1(1)] show ?thesis by (auto simp: grows_def)
qed

text \<open>
  The rounds. A round that discovers nothing leaves an empty frontier, and every other round
  adds a row to at most 1024, so the loop ends whatever the database answers.
\<close>

function read_rounds ::
  "state_db \<Rightarrow> host_env \<Rightarrow> rstr \<Rightarrow> bool \<times> bool \<times> bool \<Rightarrow> reader_state \<Rightarrow> rstr list \<Rightarrow> ThreadStateError + reader_state" where
  "read_rounds db env sessions_root selected st frontier =
     (if frontier = [] then Inr st
      else (let (expanded, current) = take_unexpanded (rd_expanded st) frontier;
                st = st\<lparr>rd_expanded := expanded\<rparr>
            in if current = [] then Inr st
               else (case read_round db env sessions_root selected st current of
                   Inl e \<Rightarrow> Inl e
                 | Inr st' \<Rightarrow> read_rounds db env sessions_root selected st' (rd_next st'))))"
  by pat_completeness auto
termination
proof (relation "inv_image (less_than <*lex*> less_than) (\<lambda>(_, _, _, _, st, frontier).
    (MAX_NATIVE_THREAD_DESCENDANTS + 1 - length (rd_discovered_rows st), length frontier))", goal_cases)
  case (2 db env dir sel st frontier p expanded current st1 st')
  then have r: "read_round db env dir sel st1 current = Inr st'" "current \<noteq> []"
    and st1: "rd_discovered_rows st1 = rd_discovered_rows st" by auto
  note g = read_round_grows[OF r]
  show ?case
  proof (cases "rd_next st'")
    case Nil
    with g st1 2(1) show ?thesis by simp
  next
    case (Cons x xs)
    with g st1 show ?thesis by auto
  qed
qed (auto intro: wf_inv_image)

declare read_rounds.simps [simp del]

definition candidate_of ::
  "(rstr \<rightharpoonup> rstr) \<Rightarrow> NativeThreadRow \<Rightarrow> ThreadStateError + NativeThreadCandidate" where
  "candidate_of parents row =
     try_res (relation_depth (nr_id row) parents) (\<lambda>depth.
     Inr \<lparr>nc_id = nr_id row, nc_created_at = nr_created_at row, nc_updated_at = nr_updated_at row,
          nc_title = nr_title row, nc_rollout_path = nr_rollout_path row,
          nc_parent_thread_id = nr_parent_thread_id row, nc_depth = int depth\<rparr>)"

text \<open>
  The set of owner roots is given as its elements in order. A depth is at most 64, so its
  conversion to 32 bits succeeds.
\<close>

definition read_descendants ::
  "state_db \<Rightarrow> host_env \<Rightarrow> rstr \<Rightarrow> rstr list \<Rightarrow> ThreadStateError + NativeThreadCandidate list" where
  "read_descendants db env sessions_root owner_root_ids =
     (if length owner_root_ids > MAX_NATIVE_THREAD_DESCENDANTS
         \<or> list_ex (\<lambda>i. \<not> valid_thread_id i) owner_root_ids then Inl LimitExceeded
      else
        try_res (table_columns db (lit ''threads'')) (\<lambda>thread_columns.
        try_res (optional_text_column thread_columns (lit ''agent_path'')) (\<lambda>has_agent_path.
        try_res (optional_text_column thread_columns (lit ''agent_nickname'')) (\<lambda>has_agent_nickname.
        try_res (optional_integer_column thread_columns (lit ''created_at'')) (\<lambda>has_created_at.
        try_res (read_rounds db env sessions_root (has_created_at, has_agent_path, has_agent_nickname)
          \<lparr>rd_expanded = {}, rd_discovered_rows = [], rd_parents = Map.empty, rd_next = []\<rparr> owner_root_ids)
          (\<lambda>st. map_res (candidate_of (rd_parents st)) (map snd (rd_discovered_rows st))))))))"

end
