(* ===== verification/Thread_Graph.thy ===== *)
theory Thread_Graph
  imports Thread_State
begin

text \<open>
  What the inventory of \<open>src/thread_state.rs\<close> guarantees: the cycle test is exact, the parent
  relation it builds is a forest, and every descendant it returns hangs on an owner root at
  the depth it reports.
\<close>

section \<open>Parent relations\<close>

definition parent_rel :: "('a \<rightharpoonup> 'a) \<Rightarrow> ('a \<times> 'a) set" where
  "parent_rel m = {(c, p). m c = Some p}"

fun ancestor :: "('a \<rightharpoonup> 'a) \<Rightarrow> nat \<Rightarrow> 'a \<Rightarrow> 'a option" where
  "ancestor m 0 x = Some x"
| "ancestor m (Suc n) x = Option.bind (m x) (ancestor m n)"

lemma parent_rel_upd:
  "m c = None \<or> m c = Some p \<Longrightarrow> parent_rel (m(c \<mapsto> p)) = insert (c, p) (parent_rel m)"
  by (auto simp: parent_rel_def split: if_splits)

lemma parent_step: "(x, z) \<in> (parent_rel m)\<^sup>+ \<Longrightarrow> \<exists>a. m x = Some a \<and> (a, z) \<in> (parent_rel m)\<^sup>*"
  by (auto simp: parent_rel_def dest!: tranclD)

text \<open>In a finite acyclic relation a chain passes each child at most once.\<close>

definition above :: "('a \<rightharpoonup> 'a) \<Rightarrow> 'a \<Rightarrow> 'a set" where
  "above m x = {z \<in> dom m. (x, z) \<in> (parent_rel m)\<^sup>*}"

lemma above_step:
  assumes "acyclic (parent_rel m)" "finite (dom m)" "m x = Some a"
  shows "card (above m a) < card (above m x)"
proof -
  have step: "(x, a) \<in> parent_rel m" using assms(3) by (simp add: parent_rel_def)
  have "above m a \<subseteq> above m x - {x}"
  proof
    fix z assume z: "z \<in> above m a"
    then have "(x, z) \<in> (parent_rel m)\<^sup>+" using step by (auto simp: above_def)
    moreover from this have "z \<noteq> x" using assms(1) by (auto simp: acyclic_def)
    ultimately show "z \<in> above m x - {x}" using z by (auto simp: above_def)
  qed
  moreover have "x \<in> above m x" using assms(3) by (auto simp: above_def)
  ultimately have "above m a \<subset> above m x" by blast
  moreover have "finite (above m x)" using assms(2) by (simp add: above_def)
  ultimately show ?thesis by (rule psubset_card_mono[rotated])
qed

lemma cycle_walk_sound:
  "\<not> cycle_walk m child cur n \<Longrightarrow> (cur, child) \<notin> (parent_rel m)\<^sup>+"
proof (induction m child cur n rule: cycle_walk.induct)
  case (1 m child cur n)
  show ?case
  proof
    assume "(cur, child) \<in> (parent_rel m)\<^sup>+"
    then obtain a where a: "m cur = Some a" "(a, child) \<in> (parent_rel m)\<^sup>*" by (auto dest: parent_step)
    from 1(2) a(1) have ne: "a \<noteq> child" "\<not> n + 1 > MAX_NATIVE_THREAD_DESCENDANTS" "\<not> cycle_walk m child a (n + 1)"
      by (auto simp: cycle_walk.simps[of m child cur n] split: if_splits)
    from 1(1)[OF a(1) ne] a(2) ne(1) show False by (auto dest: rtranclD)
  qed
qed

lemma cycle_walk_complete:
  "cycle_walk m child cur n \<Longrightarrow> acyclic (parent_rel m) \<Longrightarrow> finite (dom m) \<Longrightarrow>
   card (above m cur) + n \<le> MAX_NATIVE_THREAD_DESCENDANTS \<Longrightarrow> (cur, child) \<in> (parent_rel m)\<^sup>+"
proof (induction m child cur n rule: cycle_walk.induct)
  case (1 m child cur n)
  obtain a where a: "m cur = Some a"
    using 1(2) by (cases "m cur") (auto simp: cycle_walk.simps[of m child cur n])
  have step: "(cur, a) \<in> parent_rel m" using a by (simp add: parent_rel_def)
  show ?case
  proof (cases "a = child")
    case False
    have less: "card (above m a) < card (above m cur)" by (rule above_step[OF 1(3,4) a])
    then have lim: "\<not> n + 1 > MAX_NATIVE_THREAD_DESCENDANTS" using 1(5) by linarith
    have "cycle_walk m child a (n + 1)"
      using 1(2) a False lim by (simp add: cycle_walk.simps[of m child cur n])
    moreover have "card (above m a) + (n + 1) \<le> MAX_NATIVE_THREAD_DESCENDANTS" using less 1(5) by linarith
    ultimately have "(a, child) \<in> (parent_rel m)\<^sup>+" using 1(1)[OF a False lim] 1(3,4) by blast
    with step show ?thesis by (rule trancl_into_trancl2)
  qed (use step in auto)
qed

lemma card_above: "finite (dom m) \<Longrightarrow> card (above m x) \<le> card (dom m)"
  by (rule card_mono) (auto simp: above_def)

text \<open>The depth is the number of ancestors, and an acyclic relation never looks like a cycle.\<close>

lemma depth_walk_ok:
  "depth_walk m cur visited n = Inr d \<Longrightarrow> n \<le> MAX_NATIVE_THREAD_DEPTH \<Longrightarrow>
   \<exists>k top. d = n + k \<and> d \<le> MAX_NATIVE_THREAD_DEPTH \<and> ancestor m k cur = Some top \<and> m top = None"
proof (induction m cur visited n rule: depth_walk.induct)
  case (1 m cur visited n)
  show ?case
  proof (cases "m cur")
    case None
    with 1(2,3) show ?thesis
      by (intro exI[of _ 0] exI[of _ cur]) (simp add: depth_walk.simps[of m cur visited n])
  next
    case (Some p)
    with 1(2) have ne: "cur \<notin> visited" "\<not> n + 1 > MAX_NATIVE_THREAD_DEPTH"
      "depth_walk m p (insert cur visited) (n + 1) = Inr d"
      by (auto simp: depth_walk.simps[of m cur visited n] split: if_splits)
    obtain k top where "d = n + 1 + k" "d \<le> MAX_NATIVE_THREAD_DEPTH" "ancestor m k p = Some top" "m top = None"
      using 1(1)[OF Some ne(1,2,3)] ne(2) by auto
    then show ?thesis using Some by (intro exI[of _ "Suc k"] exI[of _ top]) simp
  qed
qed

lemma depth_walk_acyclic:
  "acyclic (parent_rel m) \<Longrightarrow> \<forall>v \<in> visited. (v, cur) \<in> (parent_rel m)\<^sup>+ \<Longrightarrow> depth_walk m cur visited n \<noteq> Inl Cycle"
proof (induction m cur visited n rule: depth_walk.induct)
  case (1 m cur visited n)
  show ?case
  proof (cases "m cur")
    case None
    then show ?thesis by (simp add: depth_walk.simps[of m cur visited n])
  next
    case (Some p)
    then have step: "(cur, p) \<in> parent_rel m" by (simp add: parent_rel_def)
    have fresh: "cur \<notin> visited" using 1(2,3) by (auto simp: acyclic_def)
    have "\<forall>v \<in> insert cur visited. (v, p) \<in> (parent_rel m)\<^sup>+" using 1(3) step by (auto intro: trancl_into_trancl)
    with 1(1)[OF Some fresh] 1(2) fresh show ?thesis
      by (simp add: depth_walk.simps[of m cur visited n] Some)
  qed
qed

section \<open>The invariant of the reader\<close>

definition reader_ok :: "reader_state \<Rightarrow> bool" where
  "reader_ok st \<longleftrightarrow> sorted_wrt (<) (map fst (rd_discovered_rows st)) \<and>
     length (rd_discovered_rows st) \<le> MAX_NATIVE_THREAD_DESCENDANTS \<and>
     acyclic (parent_rel (rd_parents st)) \<and>
     rd_parents st = map_option nr_parent_thread_id \<circ> map_of (rd_discovered_rows st) \<and>
     (\<forall>(k, row) \<in> set (rd_discovered_rows st). nr_id row = k \<and> valid_thread_id k \<and>
        valid_thread_id (nr_parent_thread_id row) \<and> 0 < nr_updated_at row \<and>
        nr_title row \<noteq> [] \<and> length (nr_title row) \<le> MAX_THREAD_TITLE_SCALARS)"

lemma bounded_thread_title_length: "bounded_thread_title v = Inr t \<Longrightarrow> length t \<le> MAX_THREAD_TITLE_SCALARS"
  by (auto simp: bounded_thread_title_def bounded_ui_text_def shorten_length)

lemma reader_ok_upd [simp]:
  "reader_ok (st\<lparr>rd_next := ns\<rparr>) = reader_ok st" "reader_ok (st\<lparr>rd_expanded := e\<rparr>) = reader_ok st"
  by (simp_all add: reader_ok_def)

definition title_ok :: "rstr \<Rightarrow> bool" where
  "title_ok t \<longleftrightarrow> t \<noteq> [] \<and> length t \<le> MAX_THREAD_TITLE_SCALARS"

lemma task_title_ok: "task_title_from_agent_path env path = Some t \<Longrightarrow> title_ok t"
  using bounded_thread_title_length
  by (auto simp: task_title_from_agent_path_def title_ok_def Let_def split: option.splits list.splits sum.splits if_splits)

lemma bounded_option_ok: "bounded_option v = Inr (Some t) \<Longrightarrow> length t \<le> MAX_THREAD_TITLE_SCALARS"
  using bounded_thread_title_length by (auto simp: bounded_option_def result_simps split: option.splits)

lemma default_title_ok: "title_ok DEFAULT_TITLE"
  by (simp add: title_ok_def DEFAULT_TITLE_def MAX_THREAD_TITLE_SCALARS_def)

lemma native_thread_title_ok:
  assumes "native_thread_title env name preview path nick = Inr t"
  shows "title_ok t"
proof -
  obtain n pv where n: "bounded_option name = Inr n" and pv: "bounded_thread_title preview = Inr pv"
    and t: "(if (case n of None \<Rightarrow> [] | Some n \<Rightarrow> n) \<noteq> [] then Inr (case n of None \<Rightarrow> [] | Some n \<Rightarrow> n)
       else if pv \<noteq> [] then Inr pv
       else (case Option.bind path (task_title_from_agent_path env) of
           Some title \<Rightarrow> Inr title
         | None \<Rightarrow> try_res (bounded_option nick) (\<lambda>nickname.
             (case nickname of Some n \<Rightarrow> if n \<noteq> [] then Inr n else Inr DEFAULT_TITLE
              | None \<Rightarrow> Inr DEFAULT_TITLE)))) = Inr t"
    using assms unfolding native_thread_title_def Let_def try_res_eq_Inr map_err_eq_Inr by blast
  have nk: "title_ok t" if "try_res (bounded_option nick) (\<lambda>nickname.
             (case nickname of Some n \<Rightarrow> if n \<noteq> [] then Inr n else Inr DEFAULT_TITLE
              | None \<Rightarrow> Inr DEFAULT_TITLE)) = Inr t"
    using that bounded_option_ok[of nick] default_title_ok
    by (auto simp: result_simps title_ok_def split: option.splits if_splits)
  show ?thesis
    using t nk bounded_thread_title_length[OF pv] bounded_option_ok[of name] n task_title_ok[of env]
    by (auto simp: title_ok_def bind_eq_Some_conv split: option.splits if_splits)
qed

lemma candidate_row_ok:
  "candidate_row env dir row = Inr c \<Longrightarrow> nr_id c = er_id row \<and> nr_parent_thread_id c = er_parent row \<and>
     nr_title c \<noteq> [] \<and> length (nr_title c) \<le> MAX_THREAD_TITLE_SCALARS"
  using native_thread_title_ok by (auto simp: candidate_row_def result_simps title_ok_def split: if_splits)

definition row_ok :: "rstr \<times> NativeThreadRow \<Rightarrow> bool" where
  "row_ok kr \<longleftrightarrow> (case kr of (k, row) \<Rightarrow> nr_id row = k \<and> valid_thread_id k \<and>
     valid_thread_id (nr_parent_thread_id row) \<and> 0 < nr_updated_at row \<and>
     nr_title row \<noteq> [] \<and> length (nr_title row) \<le> MAX_THREAD_TITLE_SCALARS)"

lemma reader_okD:
  assumes "reader_ok st"
  shows "sorted_wrt (<) (map fst (rd_discovered_rows st))"
    "length (rd_discovered_rows st) \<le> MAX_NATIVE_THREAD_DESCENDANTS"
    "acyclic (parent_rel (rd_parents st))"
    "rd_parents st x = map_option nr_parent_thread_id (map_of (rd_discovered_rows st) x)"
    "kr \<in> set (rd_discovered_rows st) \<Longrightarrow> row_ok kr"
proof -
  have "rd_parents st = map_option nr_parent_thread_id \<circ> map_of (rd_discovered_rows st)"
    using assms unfolding reader_ok_def by blast
  then show "rd_parents st x = map_option nr_parent_thread_id (map_of (rd_discovered_rows st) x)"
    by (metis comp_apply)
qed (use assms in \<open>unfold reader_ok_def row_ok_def, blast+\<close>)

lemma reader_okI:
  assumes "sorted_wrt (<) (map fst (rd_discovered_rows st))"
    "length (rd_discovered_rows st) \<le> MAX_NATIVE_THREAD_DESCENDANTS"
    "acyclic (parent_rel (rd_parents st))"
    "\<And>x. rd_parents st x = map_option nr_parent_thread_id (map_of (rd_discovered_rows st) x)"
    "\<And>kr. kr \<in> set (rd_discovered_rows st) \<Longrightarrow> row_ok kr"
  shows "reader_ok st"
proof -
  have "rd_parents st = map_option nr_parent_thread_id \<circ> map_of (rd_discovered_rows st)"
    using assms(4) by (simp add: fun_eq_iff)
  with assms(1-3,5) show ?thesis unfolding reader_ok_def row_ok_def by blast
qed

lemma row_step_ok:
  assumes "reader_ok st" "row_step env dir st r = Inr st'"
  shows "reader_ok st'"
proof -
  obtain row c where r: "valid_thread_id (er_parent row)" "valid_thread_id (er_id row)"
    "\<not> creates_cycle (er_parent row) (er_id row) (rd_parents st)"
    "rd_parents st (er_id row) = None \<or> rd_parents st (er_id row) = Some (er_parent row)"
    "candidate_row env dir row = Inr c" "0 < nr_updated_at c" "row_effect st row c st'"
    using assms(2) by (rule row_stepE)
  note ok = reader_okD[OF assms(1)]
  note c = candidate_row_ok[OF r(5)]
  have p: "rd_parents st' = (rd_parents st)(er_id row \<mapsto> er_parent row)" using r(7) by (simp add: row_effect_def)
  have "(er_parent row, er_id row) \<notin> (parent_rel (rd_parents st))\<^sup>*"
    using r(3) cycle_walk_sound by (fastforce simp: creates_cycle_def dest: rtranclD)
  then have ac: "acyclic (parent_rel (rd_parents st'))"
    unfolding p parent_rel_upd[of "rd_parents st" "er_id row", OF r(4)] acyclic_insert using ok(3) by blast
  show ?thesis
  proof (cases "map_of (rd_discovered_rows st) (er_id row)")
    case (Some row')
    with r(7) have d: "rd_discovered_rows st' = rd_discovered_rows st" "row' = c" by (auto simp: row_effect_def)
    have "rd_parents st (er_id row) = Some (er_parent row)" using ok(4) Some c d(2) by simp
    then have "rd_parents st' = rd_parents st" unfolding p by (metis fun_upd_triv)
    then show ?thesis using ok ac by (intro reader_okI) (simp_all add: d(1))
  next
    case None
    with r(7) have d: "rd_discovered_rows st' = btree_insert (er_id row) c (rd_discovered_rows st)"
      "length (rd_discovered_rows st) < MAX_NATIVE_THREAD_DESCENDANTS" by (auto simp: row_effect_def)
    have "row_ok (er_id row, c)" using c r(1,2,6) by (simp add: row_ok_def)
    then have rows: "row_ok kr" if "kr \<in> set (rd_discovered_rows st')" for kr
      using that ok(5) set_btree_insert[of "er_id row" c "rd_discovered_rows st"] unfolding d(1) by blast
    have "rd_parents st' x = map_option nr_parent_thread_id (map_of (rd_discovered_rows st') x)" for x
      using c ok(4)[of x] by (simp add: p d(1) map_of_btree_insert[OF ok(1)])
    then show ?thesis
      using ac d(2) sorted_btree_insert[OF ok(1)] rows
      by (intro reader_okI) (simp_all add: d(1) length_btree_insert[OF None])
  qed
qed

lemma batch_step_ok:
  assumes "reader_ok st" "batch_step db env dir sel st b = Inr st'"
  shows "reader_ok st'"
proof -
  obtain rows where "fold_res (row_step env dir) st rows = Inr st'"
    using assms(2) by (auto simp: batch_step_def Let_def split: if_splits option.splits)
  then show ?thesis by (rule fold_res_induct) (use assms(1) row_step_ok in blast)+
qed

lemma read_round_ok: "reader_ok st \<Longrightarrow> read_round db env dir sel st cur = Inr st' \<Longrightarrow> reader_ok st'"
  unfolding read_round_def
  by (erule fold_res_induct[where P = reader_ok]) (auto intro: batch_step_ok)

lemma read_rounds_ok: "read_rounds db env dir sel st frontier = Inr st' \<Longrightarrow> reader_ok st \<Longrightarrow> reader_ok st'"
proof (induction db env dir sel st frontier rule: read_rounds.induct)
  case (1 db env dir sel st frontier)
  obtain e cur where t: "take_unexpanded (rd_expanded st) frontier = (e, cur)" by fastforce
  have ok: "reader_ok (st\<lparr>rd_expanded := e\<rparr>)" using 1(3) by simp
  show ?case
  proof (cases "frontier = [] \<or> cur = []")
    case True
    then show ?thesis using 1(2,3) ok by (auto simp: read_rounds.simps[of db env dir sel st] t split: if_splits)
  next
    case False
    with 1(2) obtain st1 where st1: "read_round db env dir sel (st\<lparr>rd_expanded := e\<rparr>) cur = Inr st1"
      "read_rounds db env dir sel st1 (rd_next st1) = Inr st'"
      by (auto simp: read_rounds.simps[of db env dir sel st] t split: sum.splits)
    show ?thesis
      using 1(1)[OF _ t[symmetric] refl refl] False st1 read_round_ok[OF ok st1(1)] by blast
  qed
qed

section \<open>Every parent is known\<close>

text \<open>
  What the query promises: a row's parent is one of the parents asked for
  (\<open>WHERE e.parent_thread_id IN (...)\<close>).
\<close>

definition respects_where :: "state_db \<Rightarrow> bool" where
  "respects_where db \<longleftrightarrow> (\<forall>sel batch limit rows row. db_children db sel batch limit = Some rows \<longrightarrow>
     Some row \<in> set rows \<longrightarrow> er_parent row \<in> set batch)"

definition known :: "rstr list \<Rightarrow> reader_state \<Rightarrow> rstr set" where
  "known roots st = set roots \<union> fst ` set (rd_discovered_rows st)"

definition rooted :: "rstr list \<Rightarrow> reader_state \<Rightarrow> bool" where
  "rooted roots st \<longleftrightarrow> nr_parent_thread_id ` snd ` set (rd_discovered_rows st) \<subseteq> known roots st \<and>
     set (rd_next st) \<subseteq> known roots st"

lemma set_btree_insert_new:
  "map_of m k = None \<Longrightarrow> set (btree_insert k v m) = insert (k, v) (set m)"
proof (induction m)
  case (Cons e m)
  then show ?case by (cases e) (auto split: if_splits)
qed simp

lemma row_step_rooted:
  assumes "rooted roots st" "row_step env dir st r = Inr st'"
    and "\<And>row. r = Some row \<Longrightarrow> er_parent row \<in> known roots st"
  shows "rooted roots st' \<and> known roots st \<subseteq> known roots st'"
proof -
  obtain row c where r: "r = Some row" "candidate_row env dir row = Inr c" "row_effect st row c st'"
    using assms(2) by (rule row_stepE)
  have p: "er_parent row \<in> known roots st" using assms(3) r(1) .
  consider "rd_discovered_rows st' = rd_discovered_rows st" "rd_next st' = rd_next st"
    | "set (rd_discovered_rows st') = insert (er_id row, c) (set (rd_discovered_rows st))"
      "rd_next st' = rd_next st @ [er_id row]"
    using r(3) set_btree_insert_new[of "rd_discovered_rows st" "er_id row" c] unfolding row_effect_def by metis
  then show ?thesis
    using assms(1) p candidate_row_ok[OF r(2)] by cases (auto simp: rooted_def known_def)
qed

lemma batch_step_rooted:
  assumes "respects_where db" "rooted roots st" "set b \<subseteq> known roots st" "batch_step db env dir sel st b = Inr st'"
  shows "rooted roots st' \<and> known roots st \<subseteq> known roots st'"
proof -
  obtain limit rows where rows: "db_children db sel b limit = Some rows" "fold_res (row_step env dir) st rows = Inr st'"
    using assms(4) by (auto simp: batch_step_def Let_def split: if_splits option.splits)
  show ?thesis
    using rows(2)
  proof (rule fold_res_induct)
    fix s x s'
    assume x: "x \<in> set rows" "rooted roots s \<and> known roots st \<subseteq> known roots s" "row_step env dir s x = Inr s'"
    have "er_parent row \<in> known roots s" if "x = Some row" for row
      using assms(1,3) rows(1) x(1,2) that unfolding respects_where_def by blast
    then show "rooted roots s' \<and> known roots st \<subseteq> known roots s'"
      using row_step_rooted[of roots s env dir x s'] x(2,3) by blast
  qed (use assms(2) in simp)
qed

lemma chunks_subset: "b \<in> set (chunks n xs) \<Longrightarrow> set b \<subseteq> set xs"
proof (induction n xs rule: chunks.induct)
  case (1 n xs)
  then show ?case
    using set_take_subset[of n xs] set_drop_subset[of n xs] chunks.simps[of n xs] by (auto split: if_splits)
qed

lemma read_round_rooted:
  assumes "respects_where db" "rooted roots st" "set cur \<subseteq> known roots st" "read_round db env dir sel st cur = Inr st'"
  shows "rooted roots st'"
proof -
  have "rooted roots st' \<and> known roots st \<subseteq> known roots st'"
    using assms(4) unfolding read_round_def
  proof (rule fold_res_induct)
    show "rooted roots (st\<lparr>rd_next := []\<rparr>) \<and> known roots st \<subseteq> known roots (st\<lparr>rd_next := []\<rparr>)"
      using assms(2) by (auto simp: rooted_def known_def)
  next
    fix s b s'
    assume b: "b \<in> set (chunks QUERY_PARENT_BATCH cur)" "rooted roots s \<and> known roots st \<subseteq> known roots s"
      "batch_step db env dir sel s b = Inr s'"
    have "set b \<subseteq> known roots s" using chunks_subset[OF b(1)] assms(3) b(2) by blast
    with batch_step_rooted[OF assms(1) _ _ b(3)] b(2)
    show "rooted roots s' \<and> known roots st \<subseteq> known roots s'" by blast
  qed
  then show ?thesis ..
qed

lemma take_unexpanded_subset: "take_unexpanded e xs = (e', cur) \<Longrightarrow> set cur \<subseteq> set xs"
  by (induction e xs arbitrary: cur e' rule: take_unexpanded.induct) (auto split: if_splits prod.splits)

lemma read_rounds_rooted:
  "read_rounds db env dir sel st frontier = Inr st' \<Longrightarrow> respects_where db \<Longrightarrow> rooted roots st \<Longrightarrow>
   set frontier \<subseteq> known roots st \<Longrightarrow> rooted roots st'"
proof (induction db env dir sel st frontier rule: read_rounds.induct)
  case (1 db env dir sel st frontier)
  obtain e cur where t: "take_unexpanded (rd_expanded st) frontier = (e, cur)" by fastforce
  have ok: "rooted roots (st\<lparr>rd_expanded := e\<rparr>)" "known roots (st\<lparr>rd_expanded := e\<rparr>) = known roots st"
    using 1(4) by (simp_all add: rooted_def known_def)
  show ?case
  proof (cases "frontier = [] \<or> cur = []")
    case True
    then show ?thesis using 1(2,4) ok by (auto simp: read_rounds.simps[of db env dir sel st] t split: if_splits)
  next
    case False
    with 1(2) obtain st1 where st1: "read_round db env dir sel (st\<lparr>rd_expanded := e\<rparr>) cur = Inr st1"
      "read_rounds db env dir sel st1 (rd_next st1) = Inr st'"
      by (auto simp: read_rounds.simps[of db env dir sel st] t split: sum.splits)
    have "set cur \<subseteq> known roots (st\<lparr>rd_expanded := e\<rparr>)" using take_unexpanded_subset[OF t] 1(5) ok(2) by blast
    from read_round_rooted[OF 1(3) ok(1) this st1(1)] have r: "rooted roots st1" .
    then have "set (rd_next st1) \<subseteq> known roots st1" by (simp add: rooted_def)
    with 1(1)[OF _ t[symmetric] refl refl _ st1(1) st1(2) 1(3) r] False show ?thesis by blast
  qed
qed

section \<open>The returned descendants\<close>

definition candidate_link :: "NativeThreadCandidate \<Rightarrow> rstr \<times> rstr" where
  "candidate_link c = (nc_id c, nc_parent_thread_id c)"

lemma read_descendantsE:
  assumes "read_descendants db env dir roots = Inr out"
  obtains sel st where "read_rounds db env dir sel
      \<lparr>rd_expanded = {}, rd_discovered_rows = [], rd_parents = Map.empty, rd_next = []\<rparr> roots = Inr st"
    "reader_ok st" "list_all2 (\<lambda>row c. candidate_of (rd_parents st) row = Inr c) (map snd (rd_discovered_rows st)) out"
proof -
  obtain sel st where st: "read_rounds db env dir sel
      \<lparr>rd_expanded = {}, rd_discovered_rows = [], rd_parents = Map.empty, rd_next = []\<rparr> roots = Inr st"
    "map_res (candidate_of (rd_parents st)) (map snd (rd_discovered_rows st)) = Inr out"
    using assms unfolding read_descendants_def by (auto simp: result_simps split: if_splits)
  have "reader_ok \<lparr>rd_expanded = {}, rd_discovered_rows = [], rd_parents = Map.empty, rd_next = []\<rparr>"
    by (intro reader_okI) (simp_all add: parent_rel_def acyclic_def)
  with read_rounds_ok[OF st(1)] st that map_res_iff show ?thesis by blast
qed

lemma candidates_links:
  assumes "list_all2 (\<lambda>row c. candidate_of parents row = Inr c) (map snd rows) out"
    and "\<And>kr. kr \<in> set rows \<Longrightarrow> row_ok kr"
  shows "map candidate_link out = map (\<lambda>(k, row). (k, nr_parent_thread_id row)) rows"
  using assms
proof (induction rows arbitrary: out)
  case (Cons kr rows)
  obtain c out' where out: "out = c # out'" "candidate_of parents (snd kr) = Inr c"
    "list_all2 (\<lambda>row c. candidate_of parents row = Inr c) (map snd rows) out'"
    using Cons.prems(1) by (auto simp: list_all2_Cons1)
  then have "candidate_link c = (nr_id (snd kr), nr_parent_thread_id (snd kr))"
    by (auto simp: candidate_of_def candidate_link_def result_simps)
  moreover have "nr_id (snd kr) = fst kr" using Cons.prems(2)[of kr] by (simp add: row_ok_def split: prod.splits)
  moreover have "map candidate_link out' = map (\<lambda>(k, row). (k, nr_parent_thread_id row)) rows"
    using Cons.IH[OF out(3)] Cons.prems(2) by simp
  ultimately show ?case by (simp add: out(1) case_prod_beta)
qed simp

lemma candidate_source:
  "list_all2 P (map snd rows) out \<Longrightarrow> c \<in> set out \<Longrightarrow> \<exists>k row. (k, row) \<in> set rows \<and> P row c"
proof (induction rows arbitrary: out)
  case (Cons kr rows)
  then obtain c' out' where out: "out = c' # out'" "P (snd kr) c'" "list_all2 P (map snd rows) out'"
    by (auto simp: list_all2_Cons1)
  show ?case
  proof (cases "c = c'")
    case True
    with out(2) show ?thesis by (cases kr) auto
  next
    case False
    with Cons.IH[OF out(3)] Cons.prems(2) out(1) show ?thesis by auto
  qed
qed simp

lemma candidate_depth:
  assumes "candidate_of (rd_parents st) row = Inr c" "reader_ok st" "(k, row) \<in> set (rd_discovered_rows st)"
  shows "\<exists>d top. nc_depth c = int d \<and> 1 \<le> d \<and> d \<le> 64 \<and> ancestor (rd_parents st) d (nc_id c) = Some top \<and>
    rd_parents st top = None"
proof -
  have row: "nr_id row = k" using reader_okD(5)[OF assms(2,3)] by (simp add: row_ok_def)
  obtain d where d: "relation_depth (nr_id row) (rd_parents st) = Inr d" "nc_depth c = int d" "nc_id c = nr_id row"
    using assms(1) by (auto simp: candidate_of_def result_simps)
  obtain top where top: "d \<le> 64" "ancestor (rd_parents st) d (nr_id row) = Some top" "rd_parents st top = None"
    using depth_walk_ok[OF d(1)[unfolded relation_depth_def]] by (auto simp: MAX_NATIVE_THREAD_DEPTH_def)
  have "k \<in> fst ` set (rd_discovered_rows st)" using assms(3) by force
  then have "rd_parents st (nr_id row) \<noteq> None"
    using reader_okD(4)[OF assms(2), of k] row by (simp add: map_of_eq_None_iff)
  then have "d \<noteq> 0" using top(2,3) by (cases d) auto
  with top d show ?thesis by auto
qed

section \<open>Properties\<close>

text \<open>
  C38. The cycle test is exact: in an acyclic parent relation with at most 1024 children, adding
  an edge is refused exactly when the new child is already an ancestor of its parent; the limit
  on the number of steps never refuses a sound edge.
\<close>

theorem creates_cycle_exact:
  assumes "acyclic (parent_rel parents)" "finite (dom parents)" "card (dom parents) \<le> 1024"
  shows "creates_cycle parent child parents \<longleftrightarrow> (parent, child) \<in> (parent_rel parents)\<^sup>*"
proof -
  have "card (above parents parent) + 0 \<le> MAX_NATIVE_THREAD_DESCENDANTS"
    using card_above[OF assms(2), of parent] assms(3) by (simp add: MAX_NATIVE_THREAD_DESCENDANTS_def)
  then show ?thesis
    using cycle_walk_complete[OF _ assms(1,2), of child parent 0] cycle_walk_sound[of parents child parent 0]
    by (auto simp: creates_cycle_def dest: rtranclD)
qed

theorem creates_cycle_exact_witness:
  "creates_cycle (lit ''c'') (lit ''a'') [lit ''b'' \<mapsto> lit ''a'', lit ''c'' \<mapsto> lit ''b''] \<and>
   (lit ''c'', lit ''a'') \<in> (parent_rel [lit ''b'' \<mapsto> lit ''a'', lit ''c'' \<mapsto> lit ''b''])\<^sup>*"
proof -
  let ?m = "[lit ''b'' \<mapsto> lit ''a'', lit ''c'' \<mapsto> lit ''b'']"
  have rel: "parent_rel ?m = {(lit ''c'', lit ''b''), (lit ''b'', lit ''a'')}"
    by (auto simp: parent_rel_def lit_def split: if_splits)
  have "acyclic (parent_rel ?m)" unfolding rel
    by (rule acyclicI_order[where f = hd]) (auto simp: lit_def)
  moreover have "dom ?m = {lit ''b'', lit ''c''}" by (auto simp: lit_def)
  moreover have "card {lit ''b'', lit ''c''} \<le> 1024" by (simp add: lit_def)
  ultimately have "creates_cycle (lit ''c'') (lit ''a'') ?m \<longleftrightarrow> (lit ''c'', lit ''a'') \<in> (parent_rel ?m)\<^sup>*"
    by (intro creates_cycle_exact) simp_all
  moreover have "(lit ''c'', lit ''a'') \<in> (parent_rel ?m)\<^sup>*" unfolding rel by (meson insertI1 insertI2 r_into_rtrancl rtrancl_trans)
  ultimately show ?thesis by blast
qed

text \<open>
  C39. The inventory is bounded: the returned descendants come in strict order of their ids, are
  at most 1024, and each has a valid id and parent id, a positive update time, a non-empty title
  of at most 512 scalars and a depth between 1 and 64.
\<close>

theorem descendants_bounded:
  assumes "read_descendants db env dir owner_root_ids = Inr out"
  shows "sorted_wrt (<) (map nc_id out) \<and> length out \<le> 1024 \<and>
    (\<forall>c \<in> set out. valid_thread_id (nc_id c) \<and> valid_thread_id (nc_parent_thread_id c) \<and> 0 < nc_updated_at c \<and>
       nc_title c \<noteq> [] \<and> length (nc_title c) \<le> 512 \<and> 1 \<le> nc_depth c \<and> nc_depth c \<le> 64)"
proof -
  obtain st where st: "reader_ok st"
    "list_all2 (\<lambda>row c. candidate_of (rd_parents st) row = Inr c) (map snd (rd_discovered_rows st)) out"
    using assms by (rule read_descendantsE)
  from candidates_links[OF st(2) reader_okD(5)[OF st(1)]]
  have "map fst (map candidate_link out) = map fst (map (\<lambda>(k, row). (k, nr_parent_thread_id row)) (rd_discovered_rows st))"
    by (rule arg_cong)
  then have "map (fst \<circ> candidate_link) out = map fst (rd_discovered_rows st)"
    by (simp add: case_prod_beta comp_def del: map_eq_conv)
  then have ids: "map nc_id out = map fst (rd_discovered_rows st)" by (simp add: candidate_link_def comp_def)
  have "length out \<le> 1024"
    using list_all2_lengthD[OF st(2)] reader_okD(2)[OF st(1)] by (simp add: MAX_NATIVE_THREAD_DESCENDANTS_def)
  moreover have "valid_thread_id (nc_id c) \<and> valid_thread_id (nc_parent_thread_id c) \<and> 0 < nc_updated_at c \<and>
       nc_title c \<noteq> [] \<and> length (nc_title c) \<le> 512 \<and> 1 \<le> nc_depth c \<and> nc_depth c \<le> 64" if c: "c \<in> set out" for c
  proof -
    obtain k row where row: "(k, row) \<in> set (rd_discovered_rows st)" "candidate_of (rd_parents st) row = Inr c"
      using candidate_source[OF st(2) c] by blast
    have "nc_id c = nr_id row" "nc_parent_thread_id c = nr_parent_thread_id row" "nc_updated_at c = nr_updated_at row"
      "nc_title c = nr_title row" using row(2) by (auto simp: candidate_of_def result_simps)
    with reader_okD(5)[OF st(1) row(1)] candidate_depth[OF row(2) st(1) row(1)] show ?thesis
      by (auto simp: row_ok_def MAX_THREAD_TITLE_SCALARS_def)
  qed
  ultimately show ?thesis using ids reader_okD(1)[OF st(1)] by simp
qed

text \<open>
  C40. Every descendant hangs on an owner: with a database that honours the query's condition on
  the parents, following the returned parent links as many times as the reported depth leads
  from a descendant to one of the owner roots, which is not itself a returned child.
\<close>

theorem descendants_rooted:
  assumes "respects_where db" "read_descendants db env dir owner_root_ids = Inr out"
    and "links = map_of (map (\<lambda>c. (nc_id c, nc_parent_thread_id c)) out)"
  shows "acyclic (parent_rel links) \<and>
    (\<forall>c \<in> set out. \<exists>top \<in> set owner_root_ids. ancestor links (nat (nc_depth c)) (nc_id c) = Some top \<and> links top = None)"
proof -
  obtain sel st where st: "read_rounds db env dir sel
      \<lparr>rd_expanded = {}, rd_discovered_rows = [], rd_parents = Map.empty, rd_next = []\<rparr> owner_root_ids = Inr st"
    "reader_ok st" "list_all2 (\<lambda>row c. candidate_of (rd_parents st) row = Inr c) (map snd (rd_discovered_rows st)) out"
    using assms(2) by (rule read_descendantsE)
  have "links = map_of (map (\<lambda>(k, row). (k, nr_parent_thread_id row)) (rd_discovered_rows st))"
    using candidates_links[OF st(3) reader_okD(5)[OF st(2)]] by (simp add: assms(3) candidate_link_def[abs_def])
  then have links: "links = rd_parents st"
    by (simp only: map_of_map) (simp add: fun_eq_iff reader_okD(4)[OF st(2)])
  have root: "rooted owner_root_ids st"
    by (rule read_rounds_rooted[OF st(1) assms(1)]) (simp_all add: rooted_def known_def)
  have top_root: "top \<in> set owner_root_ids"
    if "ancestor links (Suc n) x = Some top" "links top = None" for n x top
  proof -
    have "\<exists>y. links y = Some top" using that(1)
      by (induction n arbitrary: x) (auto simp: bind_eq_Some_conv)
    then obtain y row where "map_of (rd_discovered_rows st) y = Some row" "nr_parent_thread_id row = top"
      using reader_okD(4)[OF st(2)] by (auto simp: links)
    then have "top \<in> known owner_root_ids st" using root by (force simp: rooted_def dest: map_of_SomeD)
    moreover have "top \<notin> fst ` set (rd_discovered_rows st)"
      using that(2) reader_okD(4)[OF st(2), of top] by (simp add: links map_of_eq_None_iff)
    ultimately show ?thesis by (simp add: known_def)
  qed
  have "\<exists>top \<in> set owner_root_ids. ancestor links (nat (nc_depth c)) (nc_id c) = Some top \<and> links top = None"
    if c: "c \<in> set out" for c
  proof -
    obtain k row where row: "(k, row) \<in> set (rd_discovered_rows st)" "candidate_of (rd_parents st) row = Inr c"
      using candidate_source[OF st(3) c] by blast
    obtain d top where d: "nc_depth c = int d" "1 \<le> d" "ancestor links d (nc_id c) = Some top" "links top = None"
      using candidate_depth[OF row(2) st(2) row(1)] unfolding links by blast
    from d(2) obtain n where "d = Suc n" by (cases d) auto
    with top_root[of n "nc_id c" top] d(3,4) have "top \<in> set owner_root_ids" by blast
    moreover have "nat (nc_depth c) = d" using d(1) by simp
    ultimately show ?thesis using d(3,4) by metis
  qed
  then show ?thesis using reader_okD(3)[OF st(2)] links by simp
qed

section \<open>A concrete inventory\<close>

text \<open>A root with a child and a grandchild; the database answers from a list of edges.\<close>

definition example_edge :: "rstr \<Rightarrow> rstr \<Rightarrow> edge_row" where
  "example_edge parent child = \<lparr>er_parent = parent, er_id = child, er_rollout_path = Some (lit ''/s/x.jsonl''),
     er_created_at = None, er_updated_at = Some 5, er_archived = Some 0, er_name = None, er_preview = Some (lit ''t''),
     er_source = Some (lit ''subagent''), er_agent_path = None, er_agent_nickname = None\<rparr>"

definition example_db :: state_db where
  "example_db = \<lparr>db_object_type = (\<lambda>_. Some (lit ''table'')), db_table_info = (\<lambda>_. Some []),
     db_children = (\<lambda>sel batch limit. Some (map Some (filter (\<lambda>row. er_parent row \<in> set batch)
       [example_edge (lit ''a'') (lit ''b''), example_edge (lit ''r'') (lit ''a'')])))\<rparr>"

definition example_env :: host_env where
  "example_env = \<lparr>canonical_regular_file_under = (\<lambda>_ path. Some path), char_to_uppercase = (\<lambda>c. [c])\<rparr>"

lemma example_respects_where: "respects_where example_db"
  by (auto simp: respects_where_def example_db_def)

lemmas example_defs = example_db_def example_env_def example_edge_def

lemma example_candidate:
  "candidate_row example_env dir (example_edge parent child) =
     Inr \<lparr>nr_id = child, nr_created_at = None, nr_updated_at = 5, nr_title = lit ''t'',
       nr_rollout_path = lit ''/s/x.jsonl'', nr_parent_thread_id = parent\<rparr>"
  by (simp add: candidate_row_def example_defs lit_def str_len_def utf8_width_def MAX_ROLLOUT_PATH_BYTES_def
      path_extension_def path_file_name_def native_thread_title_def bounded_option_def bounded_thread_title_def
      bounded_ui_text_def normalize_ui_text_def is_forbidden_ui_scalar_def shorten_unicode_def
      MAX_THREAD_TITLE_SCALARS_def)

lemma example_row_step:
  assumes "valid_thread_id parent" "valid_thread_id child" "\<not> creates_cycle parent child (rd_parents st)"
    "rd_parents st child = None" "map_of (rd_discovered_rows st) child = None" "length (rd_discovered_rows st) < 1024"
  shows "row_step example_env dir st (Some (example_edge parent child)) =
    Inr (st\<lparr>rd_parents := (rd_parents st)(child \<mapsto> parent),
       rd_discovered_rows := btree_insert child \<lparr>nr_id = child, nr_created_at = None, nr_updated_at = 5, nr_title = lit ''t'',
         nr_rollout_path = lit ''/s/x.jsonl'', nr_parent_thread_id = parent\<rparr> (rd_discovered_rows st),
       rd_next := rd_next st @ [child]\<rparr>)"
proof -
  have e: "er_parent (example_edge parent child) = parent" "er_id (example_edge parent child) = child"
    "er_updated_at (example_edge parent child) = Some 5" "er_archived (example_edge parent child) = Some 0"
    "er_source (example_edge parent child) = Some (lit ''subagent'')" "er_created_at (example_edge parent child) = None"
    by (simp_all add: example_edge_def)
  show ?thesis
    unfolding row_step_def option.case e example_candidate try_res_simps
    using assms by (simp add: MAX_NATIVE_THREAD_DESCENDANTS_def Let_def)
qed

definition example_row :: "rstr \<Rightarrow> rstr \<Rightarrow> NativeThreadRow" where
  "example_row parent child = \<lparr>nr_id = child, nr_created_at = None, nr_updated_at = 5, nr_title = lit ''t'',
     nr_rollout_path = lit ''/s/x.jsonl'', nr_parent_thread_id = parent\<rparr>"

definition example_out :: "NativeThreadCandidate list" where
  "example_out = map (\<lambda>(c, p, d). \<lparr>nc_id = c, nc_created_at = None, nc_updated_at = 5, nc_title = lit ''t'',
     nc_rollout_path = lit ''/s/x.jsonl'', nc_parent_thread_id = p, nc_depth = d\<rparr>)
     [(lit ''a'', lit ''r'', 1), (lit ''b'', lit ''a'', 2)]"

lemma example_read: "read_descendants example_db example_env dir [lit ''r''] = Inr example_out"
proof -
  have ids: "valid_thread_id (lit ''r'')" "valid_thread_id (lit ''a'')" "valid_thread_id (lit ''b'')"
    "lit ''a'' \<noteq> lit ''r''" "lit ''b'' \<noteq> lit ''r''" "lit ''b'' \<noteq> lit ''a''" "lit ''a'' < lit ''b''"
    by (simp_all add: valid_thread_id_def is_control_def lit_def)
  have chunk: "chunks QUERY_PARENT_BATCH [x] = [[x]]" for x :: rstr
    by (simp add: QUERY_PARENT_BATCH_def chunks.simps[of 128])
  have rows: "db_children example_db sel [x] n =
      Some (map Some (filter (\<lambda>row. er_parent row = x) [example_edge (lit ''a'') (lit ''b''), example_edge (lit ''r'') (lit ''a'')]))"
    for sel x n by (simp add: example_db_def)
  have p: "er_parent (example_edge x y) = x" for x y by (simp add: example_edge_def)
  let ?st = "\<lambda>e ds ps nx. \<lparr>rd_expanded = e, rd_discovered_rows = ds, rd_parents = ps, rd_next = nx\<rparr>"
  have r1: "read_round example_db example_env dir sel (?st {lit ''r''} [] Map.empty []) [lit ''r''] =
      Inr (?st {lit ''r''} [(lit ''a'', example_row (lit ''r'') (lit ''a''))] [lit ''a'' \<mapsto> lit ''r''] [lit ''a''])" for sel
    using ids
    by (simp add: read_round_def chunk batch_step_def rows p example_row_step creates_cycle_def cycle_walk.simps
        example_row_def Let_def)
  have r2: "read_round example_db example_env dir sel (?st {lit ''a'', lit ''r''}
        [(lit ''a'', example_row (lit ''r'') (lit ''a''))] [lit ''a'' \<mapsto> lit ''r''] [lit ''a'']) [lit ''a''] =
      Inr (?st {lit ''a'', lit ''r''} [(lit ''a'', example_row (lit ''r'') (lit ''a'')), (lit ''b'', example_row (lit ''a'') (lit ''b''))]
        [lit ''a'' \<mapsto> lit ''r'', lit ''b'' \<mapsto> lit ''a''] [lit ''b''])" for sel
    using ids
    by (simp add: read_round_def chunk batch_step_def rows p example_row_step creates_cycle_def cycle_walk.simps
        example_row_def Let_def MAX_NATIVE_THREAD_DESCENDANTS_def)
  have r3: "read_round example_db example_env dir sel (?st {lit ''b'', lit ''a'', lit ''r''}
        [(lit ''a'', example_row (lit ''r'') (lit ''a'')), (lit ''b'', example_row (lit ''a'') (lit ''b''))]
        [lit ''a'' \<mapsto> lit ''r'', lit ''b'' \<mapsto> lit ''a''] [lit ''b'']) [lit ''b''] =
      Inr (?st {lit ''b'', lit ''a'', lit ''r''} [(lit ''a'', example_row (lit ''r'') (lit ''a'')), (lit ''b'', example_row (lit ''a'') (lit ''b''))]
        [lit ''a'' \<mapsto> lit ''r'', lit ''b'' \<mapsto> lit ''a''] [])" for sel
    using ids by (simp add: read_round_def chunk batch_step_def rows p Let_def MAX_NATIVE_THREAD_DESCENDANTS_def)
  have rr: "read_rounds example_db example_env dir sel (?st {} [] Map.empty []) [lit ''r''] =
      Inr (?st {lit ''b'', lit ''a'', lit ''r''} [(lit ''a'', example_row (lit ''r'') (lit ''a'')), (lit ''b'', example_row (lit ''a'') (lit ''b''))]
        [lit ''a'' \<mapsto> lit ''r'', lit ''b'' \<mapsto> lit ''a''] [])" for sel
    using ids by (simp add: read_rounds.simps r1 r2 r3)
  have "map_res (candidate_of [lit ''a'' \<mapsto> lit ''r'', lit ''b'' \<mapsto> lit ''a''])
      [example_row (lit ''r'') (lit ''a''), example_row (lit ''a'') (lit ''b'')] = Inr example_out"
    using ids by (simp add: candidate_of_def relation_depth_def depth_walk.simps MAX_NATIVE_THREAD_DEPTH_def
        example_row_def example_out_def)
  moreover have "table_columns example_db (lit ''threads'') = Inr Map.empty"
    by (simp add: table_columns_def example_db_def)
  ultimately show ?thesis
    using ids(1) by (simp add: read_descendants_def MAX_NATIVE_THREAD_DESCENDANTS_def
        optional_text_column_def optional_integer_column_def rr)
qed

theorem descendants_bounded_witness:
  "read_descendants example_db example_env [] [lit ''r''] = Inr example_out \<and>
   sorted_wrt (<) (map nc_id example_out) \<and> length example_out \<le> 1024"
  using descendants_bounded[OF example_read[of "[]"]] example_read[of "[]"] by blast

theorem descendants_rooted_witness:
  "respects_where example_db \<and> read_descendants example_db example_env [] [lit ''r''] = Inr example_out \<and>
   acyclic (parent_rel (map_of (map (\<lambda>c. (nc_id c, nc_parent_thread_id c)) example_out)))"
  using descendants_rooted[OF example_respects_where example_read[of "[]"] refl] example_respects_where example_read[of "[]"]
  by blast

end
