(* ===== verification/Store_Values.thy ===== *)
theory Store_Values
  imports Contract_Base Token_Facts Runtime_Contract Security "HOL-Library.Product_Lexorder" "HOL-Library.List_Lexorder"
begin

text \<open>
  The value checks of \<open>codex-info-db-writer/src/lib.rs\<close> that its modules share: bounded text,
  canonical decimal and hexadecimal columns, the identity of a storage partition and of a
  recorded session, the model context columns of a checkpoint, and the canonical snapshot of
  the active threads. An error is the message of \<open>UsageStoreError::InvalidImport\<close> or an invalid
  timestamp; the JSON encoder is an argument.
\<close>

datatype UsageStoreError =
    InvalidImport rstr
  | InvalidStoreTimestamp rstr i64

section \<open>Text and numbers\<close>

definition active_thread_text_valid :: "rstr \<Rightarrow> nat \<Rightarrow> bool" where
  "active_thread_text_valid value max_scalars \<longleftrightarrow> value \<noteq> [] \<and> length value \<le> max_scalars \<and>
     \<not> list_ex (\<lambda>c. is_control c \<or> c = 0x61C \<or> c = 0x200E \<or> c = 0x200F
        \<or> (0x202A \<le> c \<and> c \<le> 0x202E) \<or> (0x2066 \<le> c \<and> c \<le> 0x2069)) value"

definition MAX_LOGIN_ID_SCALARS :: nat where "MAX_LOGIN_ID_SCALARS = 254"

definition valid_login_id :: "rstr \<Rightarrow> bool" where
  "valid_login_id value \<longleftrightarrow> value \<noteq> [] \<and> trim value = value \<and> length value \<le> MAX_LOGIN_ID_SCALARS \<and>
     \<not> list_ex is_control value"

definition canonical_u64_text :: "rstr \<Rightarrow> rstr \<Rightarrow> UsageStoreError + u64" where
  "canonical_u64_text value field =
     (case parse_uint (2 ^ 64) value of
        None \<Rightarrow> Inl (InvalidImport (field @ lit '' is not a canonical unsigned integer''))
      | Some parsed \<Rightarrow>
          if to_string parsed \<noteq> value
          then Inl (InvalidImport (field @ lit '' is not a canonical unsigned integer''))
          else Inr (word_of_nat parsed))"

definition canonical_optional_u64_text :: "rstr option \<Rightarrow> rstr \<Rightarrow> UsageStoreError + u64 option" where
  "canonical_optional_u64_text value field =
     (case value of
        None \<Rightarrow> Inr None
      | Some text \<Rightarrow> try_res (canonical_u64_text text field) (\<lambda>n. Inr (Some n)))"

definition hex_digit_value :: "scalar \<Rightarrow> nat" where
  "hex_digit_value c = (if c \<le> 57 then c - 48 else c - 87)"

text \<open>\<open>from_str_radix\<close> with base sixteen on lower hexadecimal digits.\<close>

definition hex_value :: "rstr \<Rightarrow> nat" where
  "hex_value s = foldl (\<lambda>acc c. acc * 16 + hex_digit_value c) 0 s"

definition canonical_u128_hex :: "rstr \<Rightarrow> rstr \<Rightarrow> UsageStoreError + u128" where
  "canonical_u128_hex value field =
     (if str_len value \<noteq> 32 \<or> list_ex (\<lambda>c. \<not> is_lower_hex_digit c) value
      then Inl (InvalidImport (field @ lit '' is not canonical lower hexadecimal''))
      else if hex_value value = 0 then Inl (InvalidImport (field @ lit '' must be non-zero''))
      else Inr (word_of_nat (hex_value value)))"

text \<open>The format \<open>{:032x}\<close>.\<close>

definition format_032x :: "u128 \<Rightarrow> rstr" where
  "format_032x n = map (\<lambda>shift. HEX ! (unat n div 16 ^ shift mod 16)) (rev [0..<32])"

definition validate_sha256 :: "rstr \<Rightarrow> rstr \<Rightarrow> UsageStoreError + unit" where
  "validate_sha256 value field =
     (if str_len value \<noteq> 64 \<or> list_ex (\<lambda>c. \<not> is_lower_hex_digit c) value
      then Inl (InvalidImport (field @ lit '' is not a SHA-256 digest'')) else Inr ())"

definition validate_lower_hex :: "rstr \<Rightarrow> nat \<Rightarrow> rstr \<Rightarrow> UsageStoreError + unit" where
  "validate_lower_hex value bytes field =
     (if str_len value \<noteq> bytes * 2 \<or> list_ex (\<lambda>c. \<not> is_lower_hex_digit c) value
      then Inl (InvalidImport (field @ lit '' is not canonical lower hexadecimal'')) else Inr ())"

definition RECORDER_GAP_TEXT_BYTES :: nat where "RECORDER_GAP_TEXT_BYTES = 512"

definition validate_gap_text :: "rstr \<Rightarrow> rstr \<Rightarrow> UsageStoreError + unit" where
  "validate_gap_text value field =
     (if value = [] \<or> str_len value > RECORDER_GAP_TEXT_BYTES \<or> \<not> is_ascii value
         \<or> list_ex (\<lambda>c. c \<le> 0x1F \<or> c = 0x7F) value
      then Inl (InvalidImport (field @ lit '' is invalid'')) else Inr ())"

section \<open>Identities\<close>

record StoragePartitionIdentity =
  sp_schema_version :: rstr
  sp_profile_scope_id :: rstr
  sp_account_scope_id :: rstr
  sp_storage_epoch :: u64
  sp_partition_id :: rstr

definition lower_hex :: "rstr \<Rightarrow> nat \<Rightarrow> bool" where
  "lower_hex value bytes \<longleftrightarrow> str_len value = bytes * 2 \<and> list_all is_lower_hex_digit value"

definition StoragePartitionIdentity_validate :: "StoragePartitionIdentity \<Rightarrow> UsageStoreError + unit" where
  "StoragePartitionIdentity_validate p =
     (if sp_schema_version p \<noteq> lit ''codex-info-account-db-v1''
         \<or> \<not> lower_hex (sp_profile_scope_id p) 16
         \<or> \<not> lower_hex (sp_account_scope_id p) 32
         \<or> sp_storage_epoch p = 0
         \<or> \<not> lower_hex (sp_partition_id p) 32
      then Inl (InvalidImport (lit ''storage partition identity is invalid'')) else Inr ())"

definition MAX_RECORDED_ROOT_IDENTITY_BYTES :: nat where "MAX_RECORDED_ROOT_IDENTITY_BYTES = 256"
definition MAX_RECORDED_RELATIVE_PATH_BYTES :: nat where "MAX_RECORDED_RELATIVE_PATH_BYTES = 4096"

text \<open>
  The components of a Unix path: empty pieces and dots after the first piece vanish, so a
  relative path has only normal components when no piece is \<open>..\<close> and the first is not a dot.
\<close>

definition only_normal_components :: "rstr \<Rightarrow> bool" where
  "only_normal_components path \<longleftrightarrow> take 1 path \<noteq> [47] \<and> hd (split_on 47 path) \<noteq> lit ''.'' \<and>
     lit ''..'' \<notin> set (split_on 47 path)"

record RecordedSessionSource =
  rss_root_identity :: rstr
  rss_relative_path :: rstr
  rss_file_bytes :: u64
  rss_modified_nanos :: u128
  rss_file_device :: u64
  rss_file_inode :: u64

definition RecordedSessionSource_validate :: "RecordedSessionSource \<Rightarrow> UsageStoreError + unit" where
  "RecordedSessionSource_validate s =
     (if rss_root_identity s = [] \<or> str_len (rss_root_identity s) > MAX_RECORDED_ROOT_IDENTITY_BYTES
         \<or> \<not> is_ascii (rss_root_identity s)
      then Inl (InvalidImport (lit ''recorded session root identity is invalid''))
      else if rss_relative_path s = [] \<or> str_len (rss_relative_path s) > MAX_RECORDED_RELATIVE_PATH_BYTES
      then Inl (InvalidImport (lit ''recorded session relative path is invalid''))
      else if \<not> only_normal_components (rss_relative_path s)
      then Inl (InvalidImport (lit ''recorded session relative path is invalid''))
      else if unat (rss_file_bytes s) > 2 ^ 63 - 1
      then Inl (InvalidImport (lit ''recorded session size exceeds SQLite INTEGER range''))
      else Inr ())"

definition validate_session_key :: "rstr \<Rightarrow> rstr \<Rightarrow> UsageStoreError + unit" where
  "validate_session_key root_identity relative_path =
     RecordedSessionSource_validate
       \<lparr>rss_root_identity = root_identity, rss_relative_path = relative_path, rss_file_bytes = 0,
        rss_modified_nanos = 0, rss_file_device = 0, rss_file_inode = 0\<rparr>"

section \<open>Model context columns\<close>

datatype SessionModelContextKind = CtxNone | InitialSettings | Turn | CtxUnknown

fun SessionModelContextKind_as_str :: "SessionModelContextKind \<Rightarrow> rstr" where
  "SessionModelContextKind_as_str CtxNone = lit ''none''"
| "SessionModelContextKind_as_str InitialSettings = lit ''initial-settings''"
| "SessionModelContextKind_as_str Turn = lit ''turn''"
| "SessionModelContextKind_as_str CtxUnknown = lit ''unknown''"

definition SessionModelContextKind_parse :: "rstr \<Rightarrow> SessionModelContextKind option" where
  "SessionModelContextKind_parse value =
     (if value = lit ''none'' then Some CtxNone
      else if value = lit ''initial-settings'' then Some InitialSettings
      else if value = lit ''turn'' then Some Turn
      else if value = lit ''unknown'' then Some CtxUnknown
      else None)"

datatype SessionModelInterval = IntervalNone | IntervalModel rstr | Mixed | IntervalUnknown

fun SessionModelInterval_to_storage :: "SessionModelInterval \<Rightarrow> rstr" where
  "SessionModelInterval_to_storage IntervalNone = lit ''none''"
| "SessionModelInterval_to_storage (IntervalModel model) = lit ''model:'' @ model"
| "SessionModelInterval_to_storage Mixed = lit ''mixed''"
| "SessionModelInterval_to_storage IntervalUnknown = lit ''unknown''"

definition SessionModelInterval_parse :: "rstr \<Rightarrow> SessionModelInterval option" where
  "SessionModelInterval_parse value =
     (if value = lit ''none'' then Some IntervalNone
      else if value = lit ''mixed'' then Some Mixed
      else if value = lit ''unknown'' then Some IntervalUnknown
      else (case strip_prefix (lit ''model:'') value of
          None \<Rightarrow> None
        | Some model \<Rightarrow> if normalize_model_name model = Some model then Some (IntervalModel model) else None))"

lemma interval_storage_roundtrip:
  assumes "\<And>m. i = IntervalModel m \<Longrightarrow> normalize_model_name m = Some m"
  shows "SessionModelInterval_parse (SessionModelInterval_to_storage i) = Some i"
  using assms by (cases i) (simp_all add: SessionModelInterval_parse_def lit_def)

definition canonical_context_pair :: "u64 option \<Rightarrow> u64 option \<Rightarrow> u64 option \<times> u64 option" where
  "canonical_context_pair context_usage_tokens context_window_tokens =
     (case (context_usage_tokens, context_window_tokens) of
        (Some usage, Some window) \<Rightarrow> (Some usage, Some window)
      | _ \<Rightarrow> (None, None))"

definition MAX_SESSION_MODEL_BYTES :: nat where "MAX_SESSION_MODEL_BYTES = 512"

definition valid_session_model :: "rstr \<Rightarrow> bool" where
  "valid_session_model model \<longleftrightarrow> model \<noteq> [] \<and> str_len model \<le> MAX_SESSION_MODEL_BYTES \<and>
     trim model = model \<and> \<not> list_ex is_control model"

section \<open>Active threads\<close>

definition MAX_ACTIVE_THREADS :: nat where "MAX_ACTIVE_THREADS = 256"
definition MAX_ACTIVE_THREAD_ID_SCALARS :: nat where "MAX_ACTIVE_THREAD_ID_SCALARS = 512"
definition MAX_ACTIVE_THREAD_TITLE_SCALARS :: nat where "MAX_ACTIVE_THREAD_TITLE_SCALARS = 512"
definition MAX_ACTIVE_THREAD_MODEL_SCALARS :: nat where "MAX_ACTIVE_THREAD_MODEL_SCALARS = 128"
definition MAX_ACTIVE_THREAD_MODEL_LABEL_SCALARS :: nat where "MAX_ACTIVE_THREAD_MODEL_LABEL_SCALARS = 24"
definition MAX_ACTIVE_THREAD_JSON_BYTES :: nat where "MAX_ACTIVE_THREAD_JSON_BYTES = 1024 * 1024"

record ActiveThreadRecord =
  at_id :: rstr
  at_updated_at :: i64
  at_title :: rstr
  at_activity_status :: rstr
  at_parent_thread_id :: "rstr option"
  at_model :: rstr
  at_model_label :: rstr
  at_total_tokens :: "u64 option"
  at_context_usage_tokens :: "u64 option"
  at_context_window_tokens :: "u64 option"
  at_created_at :: "i64 option"
  at_last_user_message_at :: "i64 option"
  at_is_subagent :: bool
  at_depth :: "int option"

record ActiveThreadSnapshot =
  snap_observed_at :: i64
  snap_threads :: "ActiveThreadRecord list"

definition validate_active_thread_record :: "ActiveThreadRecord \<Rightarrow> UsageStoreError + unit" where
  "validate_active_thread_record r =
     (if at_updated_at r \<le> 0 \<or> at_updated_at r > MAX_PUBLIC_UNIX_SECONDS
         \<or> \<not> active_thread_text_valid (at_id r) MAX_ACTIVE_THREAD_ID_SCALARS
         \<or> \<not> active_thread_text_valid (at_title r) MAX_ACTIVE_THREAD_TITLE_SCALARS
         \<or> at_activity_status r \<notin> {lit ''running'', lit ''stopped'', lit ''unknown''}
         \<or> \<not> active_thread_text_valid (at_model r) MAX_ACTIVE_THREAD_MODEL_SCALARS
         \<or> \<not> active_thread_text_valid (at_model_label r) MAX_ACTIVE_THREAD_MODEL_LABEL_SCALARS
         \<or> \<not> pred_option (\<lambda>v. active_thread_text_valid v MAX_ACTIVE_THREAD_ID_SCALARS) (at_parent_thread_id r)
         \<or> \<not> pred_option valid_timestamp (at_created_at r)
         \<or> \<not> pred_option valid_timestamp (at_last_user_message_at r)
         \<or> \<not> pred_option (\<lambda>v. 0 \<le> v \<and> v \<le> 1024) (at_depth r)
      then Inl (InvalidImport (lit ''active thread contains an invalid scalar'')) else Inr ())"

fun check_active_threads :: "rstr set \<Rightarrow> ActiveThreadRecord list \<Rightarrow> UsageStoreError + unit" where
  "check_active_threads ids [] = Inr ()"
| "check_active_threads ids (thread # rest) =
     try_res (validate_active_thread_record thread) (\<lambda>_.
       if at_id thread \<in> ids
       then Inl (InvalidImport (lit ''active thread snapshot contains duplicate ids''))
       else check_active_threads (insert (at_id thread) ids) rest)"

text \<open>
  Newest activity first, then descending id. The ids are different when the sort runs, so no two
  records compare equal and the order of the ascending sort, reversed, is the source's order.
  \<open>to_json\<close> stands for the serialisation of the sorted rows; \<open>None\<close> is its failure.
\<close>

definition sort_active_threads :: "ActiveThreadRecord list \<Rightarrow> ActiveThreadRecord list" where
  "sort_active_threads threads = rev (sort_key (\<lambda>t. (at_updated_at t, at_id t)) threads)"

definition canonical_active_thread_snapshot ::
  "(ActiveThreadRecord list \<Rightarrow> rstr option) \<Rightarrow> ActiveThreadSnapshot \<Rightarrow> UsageStoreError + i64 \<times> rstr" where
  "canonical_active_thread_snapshot to_json snapshot =
     (if \<not> valid_timestamp (snap_observed_at snapshot)
      then Inl (InvalidStoreTimestamp (lit ''active thread snapshot'') (snap_observed_at snapshot))
      else if length (snap_threads snapshot) > MAX_ACTIVE_THREADS
      then Inl (InvalidImport (lit ''active thread snapshot contains too many threads''))
      else try_res (check_active_threads {} (snap_threads snapshot)) (\<lambda>_.
        (case to_json (sort_active_threads (snap_threads snapshot)) of
           None \<Rightarrow> Inl (InvalidImport (lit ''active thread snapshot is not serializable''))
         | Some encoded \<Rightarrow>
             if str_len encoded > MAX_ACTIVE_THREAD_JSON_BYTES
             then Inl (InvalidImport (lit ''active thread snapshot JSON is too large''))
             else Inr (snap_observed_at snapshot, encoded))))"

section \<open>Lemmas on hexadecimal columns\<close>

definition hex_digits :: "nat \<Rightarrow> nat \<Rightarrow> rstr" where
  "hex_digits k n = map (\<lambda>shift. HEX ! (n div 16 ^ shift mod 16)) (rev [0..<k])"

lemma hex_digits_0 [simp]: "hex_digits 0 n = []"
  by (simp add: hex_digits_def)

lemma hex_digits_Suc: "hex_digits (Suc k) n = hex_digits k (n div 16) @ [HEX ! (n mod 16)]"
proof -
  have "rev [0..<Suc k] = map Suc (rev [0..<k]) @ [0]"
    by (simp add: upt_conv_Cons map_Suc_upt rev_map[symmetric] del: upt_Suc)
  then show ?thesis by (simp add: hex_digits_def div_mult2_eq)
qed

lemma less_16_cases:
  assumes "n < (16::nat)"
  shows "n \<in> {0, 1, 2, 3, 4, 5, 6, 7, 8, 9, 10, 11, 12, 13, 14, 15}"
  using assms unfolding insert_iff empty_iff by presburger

lemma HEX_value: "n < 16 \<Longrightarrow> is_lower_hex_digit (HEX ! n) \<and> hex_digit_value (HEX ! n) = n"
  by (drule less_16_cases)
    (auto simp: HEX_def lit_def is_lower_hex_digit_def is_ascii_digit_def hex_digit_value_def)

lemma hex_digit_of_value:
  assumes "is_lower_hex_digit c"
  shows "hex_digit_value c < 16 \<and> HEX ! hex_digit_value c = c"
proof -
  have "c \<in> {48, 49, 50, 51, 52, 53, 54, 55, 56, 57, 97, 98, 99, 100, 101, 102}"
    using assms unfolding is_lower_hex_digit_def is_ascii_digit_def insert_iff empty_iff by presburger
  then show ?thesis by (auto simp: HEX_def lit_def hex_digit_value_def)
qed

lemma hex_value_snoc [simp]: "hex_value (s @ [c]) = hex_value s * 16 + hex_digit_value c"
  by (simp add: hex_value_def)

lemma hex_value_Nil [simp]: "hex_value [] = 0"
  by (simp add: hex_value_def)

lemma hex_value_digits: "hex_value (hex_digits k n) = n mod 16 ^ k"
proof (induction k arbitrary: n)
  case (Suc k)
  have "n mod 16 ^ Suc k = 16 * (n div 16 mod 16 ^ k) + n mod 16"
    by (simp add: mod_mult2_eq)
  then show ?case using Suc HEX_value[of "n mod 16"] by (simp add: hex_digits_Suc)
qed simp

lemma hex_digits_value:
  "list_all is_lower_hex_digit s \<Longrightarrow> hex_digits (length s) (hex_value s) = s \<and> hex_value s < 16 ^ length s"
proof (induction s rule: rev_induct)
  case (snoc c s)
  then have c: "hex_digit_value c < 16 \<and> HEX ! hex_digit_value c = c"
    and s: "hex_digits (length s) (hex_value s) = s" "hex_value s < 16 ^ length s"
    by (auto dest: hex_digit_of_value)
  have "(hex_value s * 16 + hex_digit_value c) div 16 = hex_value s" using c by simp
  moreover have "(hex_value s * 16 + hex_digit_value c) mod 16 = hex_digit_value c" using c by simp
  ultimately show ?case using c s by (simp add: hex_digits_Suc)
qed simp

lemma hex_digits_lower: "list_all is_lower_hex_digit (hex_digits k n)"
  using HEX_value by (auto simp: hex_digits_def list_all_iff)

lemma length_hex_digits [simp]: "length (hex_digits k n) = k"
  by (simp add: hex_digits_def)

lemma str_len_lower_hex: "list_all is_lower_hex_digit s \<Longrightarrow> str_len s = length s"
  by (induction s) (auto simp: str_len_def is_lower_hex_digit_def is_ascii_digit_def utf8_width_def)

lemma format_032x_digits: "format_032x n = hex_digits 32 (unat n)"
  by (simp add: format_032x_def hex_digits_def)

lemma u128_lt_hex: "unat (n :: u128) < 16 ^ 32"
  using unat_lt_width[of n] by simp

section \<open>Lemmas on active threads\<close>

lemma check_active_threads_ok:
  "check_active_threads ids ts = Inr () \<longleftrightarrow>
     (\<forall>t\<in>set ts. validate_active_thread_record t = Inr ()) \<and> distinct (map at_id ts) \<and>
     at_id ` set ts \<inter> ids = {}"
proof (induction ts arbitrary: ids)
  case (Cons t ts)
  then show ?case
    by (cases "validate_active_thread_record t") (auto simp: validate_active_thread_record_def split: if_splits)
qed simp

lemma sort_active_threads_perm:
  assumes "mset ts = mset us" "distinct (map at_id ts)"
  shows "sort_active_threads ts = sort_active_threads us"
proof -
  have "inj_on (\<lambda>t. (at_updated_at t, at_id t)) (set ts)"
    using assms(2) by (auto simp: inj_on_def distinct_map)
  then show ?thesis
    unfolding sort_active_threads_def
    by (intro arg_cong[of _ _ rev] sort_key_eq_sort_key assms(1))
qed

section \<open>Properties\<close>

text \<open>
  A 128-bit column is read back exactly when it was written: the accepted texts are the
  32-digit spellings \<open>{:032x}\<close> of the non-zero values, and the value read is the one spelt.
\<close>

theorem canonical_u128_hex_roundtrip:
  "canonical_u128_hex s field = Inr n \<longleftrightarrow> n \<noteq> 0 \<and> s = format_032x n"
proof
  assume ok: "canonical_u128_hex s field = Inr n"
  then have s: "list_all is_lower_hex_digit s" "length s = 32" "hex_value s \<noteq> 0" "n = word_of_nat (hex_value s)"
    by (auto simp: canonical_u128_hex_def list_ex_iff list_all_iff str_len_lower_hex split: if_splits)
  have lt: "hex_value s < 2 ^ 128" using hex_digits_value[OF s(1)] s(2) by simp
  then have "unat n = hex_value s" by (simp add: s(4) unat_of_nat)
  with s hex_digits_value[OF s(1)] show "n \<noteq> 0 \<and> s = format_032x n"
    by (auto simp: format_032x_digits)
next
  assume n: "n \<noteq> 0 \<and> s = format_032x n"
  have "hex_value s = unat n" using n u128_lt_hex[of n] by (simp add: format_032x_digits hex_value_digits)
  moreover have "list_all is_lower_hex_digit s \<and> str_len s = 32"
    using n by (simp add: format_032x_digits hex_digits_lower str_len_lower_hex)
  ultimately show "canonical_u128_hex s field = Inr n"
    using n by (auto simp: canonical_u128_hex_def list_ex_iff list_all_iff unat_eq_0)
qed

text \<open>
  The stored bytes of an active thread snapshot do not depend on the order in which the
  recorder lists the threads: a permutation of an accepted snapshot is accepted with the same
  observation time and the same bytes, whatever encoder is used.
\<close>

theorem active_thread_snapshot_order_irrelevant:
  assumes "canonical_active_thread_snapshot to_json snapshot = Inr stored"
    and "mset (snap_threads other) = mset (snap_threads snapshot)"
    and "snap_observed_at other = snap_observed_at snapshot"
  shows "canonical_active_thread_snapshot to_json other = Inr stored"
proof -
  let ?ts = "snap_threads snapshot" and ?us = "snap_threads other"
  have ok: "check_active_threads {} ?ts = Inr ()"
    using assms(1) by (auto simp: canonical_active_thread_snapshot_def result_simps split: if_splits)
  have "distinct (map at_id ?us) \<longleftrightarrow> distinct (map at_id ?ts)"
    using assms(2) by (metis mset_eq_imp_distinct_iff mset_map)
  then have ok': "check_active_threads {} ?us = Inr ()"
    using ok mset_eq_setD[OF assms(2)] by (simp add: check_active_threads_ok)
  have "sort_active_threads ?us = sort_active_threads ?ts"
    using sort_active_threads_perm[OF assms(2)[symmetric]] ok by (simp add: check_active_threads_ok)
  then have "canonical_active_thread_snapshot to_json other = canonical_active_thread_snapshot to_json snapshot"
    using assms(3) ok ok' mset_eq_length[OF assms(2)]
    by (simp add: canonical_active_thread_snapshot_def split: option.split)
  with assms(1) show ?thesis by simp
qed

definition example_thread :: "rstr \<Rightarrow> i64 \<Rightarrow> ActiveThreadRecord" where
  "example_thread i updated = \<lparr>at_id = i, at_updated_at = updated, at_title = lit ''t'', at_activity_status = lit ''running'',
     at_parent_thread_id = None, at_model = lit ''m'', at_model_label = lit ''m'', at_total_tokens = None,
     at_context_usage_tokens = None, at_context_window_tokens = None, at_created_at = None,
     at_last_user_message_at = None, at_is_subagent = False, at_depth = Some 0\<rparr>"

theorem active_thread_snapshot_order_irrelevant_witness:
  "canonical_active_thread_snapshot (\<lambda>ts. Some (concat (map at_id ts)))
     \<lparr>snap_observed_at = 9, snap_threads = [example_thread (lit ''b'') 7, example_thread (lit ''a'') 8]\<rparr>
   = Inr (9, lit ''ab'')"
proof (rule active_thread_snapshot_order_irrelevant)
  show "canonical_active_thread_snapshot (\<lambda>ts. Some (concat (map at_id ts)))
     \<lparr>snap_observed_at = 9, snap_threads = [example_thread (lit ''a'') 8, example_thread (lit ''b'') 7]\<rparr>
     = Inr (9, lit ''ab'')"
    by (simp add: canonical_active_thread_snapshot_def example_thread_def validate_active_thread_record_def
        active_thread_text_valid_def sort_active_threads_def lit_def str_len_def utf8_width_def is_control_def
        valid_timestamp_def MAX_PUBLIC_UNIX_SECONDS_def MAX_ACTIVE_THREADS_def MAX_ACTIVE_THREAD_ID_SCALARS_def
        MAX_ACTIVE_THREAD_TITLE_SCALARS_def MAX_ACTIVE_THREAD_MODEL_SCALARS_def
        MAX_ACTIVE_THREAD_MODEL_LABEL_SCALARS_def MAX_ACTIVE_THREAD_JSON_BYTES_def)
qed auto

end
