(* ===== verification/Source_Admission.thy ===== *)
theory Source_Admission
  imports Store_Values Model_Names
begin

text \<open>
  \<open>codex-info-db-writer/src/source_admission.rs\<close>: the facts about a session file that the recorder
  keeps with a checkpoint. A file that reports responses one by one holds a list of pending
  responses; the last of them is classified by the records that follow it. The message digest
  is an argument, because \<open>sha2\<close> is not part of the sources; so is the JSON codec of the stored
  form. The theory holds the data, the operations and the validity predicates; the invariants
  are in \<open>Response_Classification\<close>.
\<close>

section \<open>Source identity and ownership\<close>

definition valid_identifier :: "rstr \<Rightarrow> bool" where
  "valid_identifier value \<longleftrightarrow> active_thread_text_valid value 512"

datatype UsageStream = LegacyCounterStream | ResponseRecordStream

record SessionMetadata =
  sm_thread_id :: rstr
  sm_session_id :: "rstr option"

record ForkHistory =
  fh_parent_thread_id :: rstr
  fh_reading_inherited :: bool

record RecordPointer =
  rp_start :: u64
  rp_end :: u64
  rp_sha256 :: rstr
  rp_timestamp :: i64

definition RecordPointer_valid :: "RecordPointer \<Rightarrow> u64 \<Rightarrow> bool" where
  "RecordPointer_valid p end_offset \<longleftrightarrow> rp_start p < rp_end p \<and> rp_end p \<le> end_offset \<and>
     valid_timestamp (rp_timestamp p) \<and> is_ok (validate_sha256 (rp_sha256 p) (lit ''source record''))"

record CreatorOrigin =
  co_pointer :: RecordPointer
  co_ownership_start_at :: i64
  co_ownership_end_at :: "i64 option"

record SourceBindingProcess =
  sb_pid :: int
  sb_starttime_ticks :: u64
  sb_executable_device :: u64
  sb_executable_inode :: u64

datatype SourceBindingProof =
    Rpc i64 i64 SourceBindingProcess
  | AcceptedPrefix RecordPointer

record SourceAccountBinding =
  ab_version :: u8
  ab_partition :: StoragePartitionIdentity
  ab_root_identity :: rstr
  ab_relative_path :: rstr
  ab_file_device :: u64
  ab_file_inode :: u64
  ab_prefix_generation :: rstr
  ab_prefix_end :: u64
  ab_metadata :: SessionMetadata
  ab_proof :: SourceBindingProof
  ab_creator_origin :: "CreatorOrigin option"

definition proof_valid :: "SourceBindingProof \<Rightarrow> u64 \<Rightarrow> bool" where
  "proof_valid proof prefix_end =
     (case proof of
        Rpc began_at ended_at process \<Rightarrow>
          valid_timestamp began_at \<and> valid_timestamp ended_at \<and> began_at \<le> ended_at \<and> sb_pid process > 0
      | AcceptedPrefix anchor \<Rightarrow> RecordPointer_valid anchor prefix_end)"

definition origin_valid :: "SourceBindingProof \<Rightarrow> u64 \<Rightarrow> CreatorOrigin \<Rightarrow> bool" where
  "origin_valid proof prefix_end origin =
     (case proof of
        AcceptedPrefix _ \<Rightarrow> False
      | Rpc began_at ended_at _ \<Rightarrow>
          rp_start (co_pointer origin) = 0 \<and>
          RecordPointer_valid (co_pointer origin) prefix_end \<and>
          valid_timestamp (co_ownership_start_at origin) \<and>
          co_ownership_start_at origin \<le> rp_timestamp (co_pointer origin) \<and>
          rp_timestamp (co_pointer origin) \<le> began_at \<and>
          pred_option (\<lambda>end_at. valid_timestamp end_at \<and> ended_at < end_at) (co_ownership_end_at origin))"

definition SourceAccountBinding_valid :: "SourceAccountBinding \<Rightarrow> u64 \<Rightarrow> bool" where
  "SourceAccountBinding_valid b end_offset \<longleftrightarrow>
     ab_version b = 1 \<and>
     is_ok (StoragePartitionIdentity_validate (ab_partition b)) \<and>
     is_ok (validate_session_key (ab_root_identity b) (ab_relative_path b)) \<and>
     str_len (ab_prefix_generation b) = 32 \<and>
     list_all is_lower_hex_digit (ab_prefix_generation b) \<and>
     hex_value (ab_prefix_generation b) \<noteq> 0 \<and>
     ab_prefix_end b > 0 \<and>
     ab_prefix_end b \<le> end_offset \<and>
     unat (ab_prefix_end b) \<le> 2 ^ 63 - 1 \<and>
     valid_identifier (sm_thread_id (ab_metadata b)) \<and>
     pred_option valid_identifier (sm_session_id (ab_metadata b)) \<and>
     proof_valid (ab_proof b) (ab_prefix_end b) \<and>
     pred_option (origin_valid (ab_proof b) (ab_prefix_end b)) (ab_creator_origin b)"

definition eligible_from :: "SourceAccountBinding \<Rightarrow> i64 option" where
  "eligible_from b =
     (case ab_proof b of
        Rpc began_at _ _ \<Rightarrow>
          Some (case ab_creator_origin b of
              None \<Rightarrow> began_at
            | Some origin \<Rightarrow> rp_timestamp (co_pointer origin))
      | AcceptedPrefix _ \<Rightarrow> None)"

section \<open>Response records\<close>

record ResponseIds =
  ri_thread_id :: rstr
  ri_session_id :: rstr
  ri_root_turn_id :: rstr
  ri_turn_id :: rstr
  ri_response_id :: rstr

definition ordered_ids :: "ResponseIds \<Rightarrow> rstr list" where
  "ordered_ids ids =
     [ri_thread_id ids, ri_session_id ids, ri_root_turn_id ids, ri_turn_id ids, ri_response_id ids]"

text \<open>The UTF-8 bytes of a string.\<close>

definition utf8_encode_char :: "scalar \<Rightarrow> nat list" where
  "utf8_encode_char c =
     (if c < 0x80 then [c]
      else if c < 0x800 then [0xC0 + c div 64, 0x80 + c mod 64]
      else if c < 0x10000 then [0xE0 + c div 4096, 0x80 + c div 64 mod 64, 0x80 + c mod 64]
      else [0xF0 + c div 262144, 0x80 + c div 4096 mod 64, 0x80 + c div 64 mod 64, 0x80 + c mod 64])"

definition as_bytes :: "rstr \<Rightarrow> u8 list" where
  "as_bytes s = map word_of_nat (concat (map utf8_encode_char s))"

text \<open>\<open>u64::to_be_bytes\<close>.\<close>

definition to_be_bytes :: "u64 \<Rightarrow> u8 list" where
  "to_be_bytes n = map (\<lambda>i. word_of_nat (unat n div 256 ^ i mod 256)) (rev [0..<8])"

text \<open>
  The digested message: every identifier behind its length. The digest's bytes are printed in
  two hexadecimal digits each.
\<close>

definition ids_message :: "ResponseIds \<Rightarrow> u8 list" where
  "ids_message ids =
     concat (map (\<lambda>i. to_be_bytes (word_of_nat (length (as_bytes i))) @ as_bytes i) (ordered_ids ids))"

definition format_02x :: "u8 \<Rightarrow> rstr" where
  "format_02x b = [HEX ! (unat b div 16), HEX ! (unat b mod 16)]"

definition ResponseIds_key :: "(u8 list \<Rightarrow> u8 list) \<Rightarrow> ResponseIds \<Rightarrow> rstr" where
  "ResponseIds_key sha256 ids = concat (map format_02x (sha256 (ids_message ids)))"

definition ResponseIds_valid :: "ResponseIds \<Rightarrow> bool" where
  "ResponseIds_valid ids \<longleftrightarrow> list_all valid_identifier (ordered_ids ids)"

record ResponseUsage =
  ru_total :: u64
  ru_input :: u64
  ru_cached_input :: u64
  ru_cache_write_input :: u64
  ru_output :: u64
  ru_reasoning_output :: u64

definition ResponseUsage_valid :: "ResponseUsage \<Rightarrow> bool" where
  "ResponseUsage_valid u \<longleftrightarrow>
     list_all (\<lambda>v. unat v \<le> 2 ^ 63 - 1)
       [ru_total u, ru_input u, ru_cached_input u, ru_cache_write_input u, ru_output u, ru_reasoning_output u] \<and>
     checked_add (ru_input u) (ru_output u) = Some (ru_total u) \<and>
     (case checked_add (ru_cached_input u) (ru_cache_write_input u) of
        None \<Rightarrow> False
      | Some v \<Rightarrow> v \<le> ru_input u) \<and>
     ru_reasoning_output u \<le> ru_output u"

record ResponseRecord =
  rr_ids :: ResponseIds
  rr_usage :: ResponseUsage
  rr_turn_usage :: ResponseUsage
  rr_thread_usage :: ResponseUsage

definition ResponseRecord_valid :: "ResponseRecord \<Rightarrow> bool" where
  "ResponseRecord_valid r \<longleftrightarrow> ResponseIds_valid (rr_ids r) \<and> ResponseUsage_valid (rr_usage r) \<and>
     ResponseUsage_valid (rr_turn_usage r) \<and> ResponseUsage_valid (rr_thread_usage r)"

record StrongContext =
  sc_turn_id :: "rstr option"
  sc_root_turn_id :: "rstr option"
  sc_pointer :: RecordPointer

record ResponseContext =
  rc_model :: rstr
  rc_context :: StrongContext

record ClassificationPointer =
  cp_start :: u64
  cp_end :: u64
  cp_sha256 :: rstr

definition ClassificationPointer_valid_after :: "ClassificationPointer \<Rightarrow> u64 \<Rightarrow> u64 \<Rightarrow> bool" where
  "ClassificationPointer_valid_after p start end_offset \<longleftrightarrow> start \<le> cp_start p \<and> cp_start p < cp_end p \<and>
     cp_end p \<le> end_offset \<and> is_ok (validate_sha256 (cp_sha256 p) (lit ''classification record''))"

datatype ClassificationProof =
    ProofRecord ClassificationPointer
  | SourceEnd u64

fun ClassificationProof_valid_after :: "ClassificationProof \<Rightarrow> u64 \<Rightarrow> u64 \<Rightarrow> bool" where
  "ClassificationProof_valid_after (ProofRecord pointer) start end_offset =
     ClassificationPointer_valid_after pointer start end_offset"
| "ClassificationProof_valid_after (SourceEnd offset) start end_offset \<longleftrightarrow>
     start \<le> offset \<and> offset \<le> end_offset"

datatype ResponseModelFailure =
    UnrecognizedControl
  | SnapshotConflict
  | ReplacementMissing
  | ReplacementMismatch
  | HistoryBoundary
  | SourceBoundary

datatype ResponseModelClassification =
    LegacyUnknown
  | AwaitingBoundary
  | AwaitingReplacement ClassificationPointer
  | Normal ClassificationProof
  | Compaction ClassificationPointer ResponseContext
  | Unassigned ResponseModelFailure ClassificationProof

definition is_legacy_unknown :: "ResponseModelClassification \<Rightarrow> bool" where
  "is_legacy_unknown c \<longleftrightarrow> c = LegacyUnknown"

fun is_open :: "ResponseModelClassification \<Rightarrow> bool" where
  "is_open AwaitingBoundary = True"
| "is_open (AwaitingReplacement _) = True"
| "is_open _ = False"

datatype ResponseClassificationInput =
    NoOp
  | Counter
  | Task
  | NextRoot
  | Strong ResponseContext bool
  | Snapshot ResponseRecord
  | UnknownInput
  | HistoryInput

datatype ResponseCounterAssociation =
    AssociationUnknown
  | Awaiting
  | Unmatched ClassificationProof
  | Matched RecordPointer "ResponseUsage option" "ClassificationPointer option"

record PendingResponse =
  pr_key :: rstr
  pr_record :: ResponseRecord
  pr_pointer :: RecordPointer
  pr_session_scope_qualified :: bool
  pr_root_context :: "ResponseContext option"
  pr_classification :: ResponseModelClassification
  pr_counter_association :: ResponseCounterAssociation

section \<open>Operations on a pending response\<close>

definition matched_counter :: "PendingResponse \<Rightarrow> RecordPointer option" where
  "matched_counter r =
     (case pr_counter_association r of Matched pointer _ _ \<Rightarrow> Some pointer | _ \<Rightarrow> None)"

text \<open>The context repeats the model and both turn ids of the response's own context.\<close>

definition reaffirms_original :: "PendingResponse \<Rightarrow> ResponseContext \<Rightarrow> bool" where
  "reaffirms_original r context \<longleftrightarrow>
     (case pr_root_context r of
        None \<Rightarrow> False
      | Some root_context \<Rightarrow>
          rc_model root_context = rc_model context \<and>
          sc_turn_id (rc_context root_context) = sc_turn_id (rc_context context) \<and>
          sc_root_turn_id (rc_context root_context) = sc_root_turn_id (rc_context context))"

definition matches_root :: "PendingResponse \<Rightarrow> ResponseContext \<Rightarrow> bool" where
  "matches_root r context \<longleftrightarrow>
     (case pr_root_context r of None \<Rightarrow> False | Some root_context \<Rightarrow> rc_model root_context = rc_model context) \<and>
     sc_turn_id (rc_context context) = Some (ri_turn_id (rr_ids (pr_record r))) \<and>
     sc_root_turn_id (rc_context context) = Some (ri_root_turn_id (rr_ids (pr_record r)))"

definition is_replacement :: "PendingResponse \<Rightarrow> ResponseContext \<Rightarrow> bool" where
  "is_replacement r context =
     (case pr_classification r of Compaction _ replacement \<Rightarrow> replacement = context | _ \<Rightarrow> False)"

definition compaction_snapshot :: "PendingResponse \<Rightarrow> ClassificationPointer option" where
  "compaction_snapshot r = (case pr_classification r of Compaction snapshot _ \<Rightarrow> Some snapshot | _ \<Rightarrow> None)"

definition unmatched_at :: "PendingResponse \<Rightarrow> ClassificationPointer \<Rightarrow> PendingResponse" where
  "unmatched_at r boundary = r\<lparr>pr_counter_association := Unmatched (ProofRecord boundary)\<rparr>"

definition observe_counter_association ::
  "ResponseClassificationInput \<Rightarrow> ClassificationPointer \<Rightarrow> RecordPointer option \<Rightarrow> ResponseUsage option \<Rightarrow>
   PendingResponse \<Rightarrow> PendingResponse" where
  "observe_counter_association input boundary pointer last_usage r =
     (if pr_counter_association r \<noteq> Awaiting then r
      else (case input of
          NoOp \<Rightarrow> r
        | Snapshot snapshot_record \<Rightarrow>
            if snapshot_record = pr_record r then r else unmatched_at r boundary
        | Strong context _ \<Rightarrow>
            if reaffirms_original r context \<or> is_replacement r context then r else unmatched_at r boundary
        | Counter \<Rightarrow>
            (case pointer of
               None \<Rightarrow> unmatched_at r boundary
             | Some at_pointer \<Rightarrow>
                 (let snapshot = compaction_snapshot r in
                  if last_usage = Some (rr_usage (pr_record r)) \<or> snapshot \<noteq> None
                  then r\<lparr>pr_counter_association :=
                         Matched at_pointer (if snapshot = None then last_usage else None) snapshot\<rparr>
                  else unmatched_at r boundary))
        | _ \<Rightarrow> unmatched_at r boundary))"

definition counter_association_valid :: "PendingResponse \<Rightarrow> u64 \<Rightarrow> bool" where
  "counter_association_valid r end_offset =
     (case pr_counter_association r of
        AssociationUnknown \<Rightarrow> True
      | Awaiting \<Rightarrow> True
      | Unmatched boundary \<Rightarrow> ClassificationProof_valid_after boundary (rp_end (pr_pointer r)) end_offset
      | Matched pointer last_usage snapshot \<Rightarrow>
          RecordPointer_valid pointer end_offset \<and>
          rp_start pointer \<ge> rp_end (pr_pointer r) \<and>
          (case (last_usage, snapshot) of
             (Some usage, None) \<Rightarrow> usage = rr_usage (pr_record r)
           | (None, Some at_snapshot) \<Rightarrow>
               compaction_snapshot r = Some at_snapshot \<and> cp_end at_snapshot \<le> rp_start pointer
           | _ \<Rightarrow> False))"

definition qualified_model :: "PendingResponse \<Rightarrow> rstr option" where
  "qualified_model r =
     (if \<not> pr_session_scope_qualified r then None
      else (case pr_root_context r of
          None \<Rightarrow> None
        | Some context \<Rightarrow>
            (let same_turn =
                   sc_turn_id (rc_context context) = Some (ri_turn_id (rr_ids (pr_record r))) \<and>
                   sc_root_turn_id (rc_context context) = Some (ri_root_turn_id (rr_ids (pr_record r)))
             in (case pr_classification r of
                   Normal _ \<Rightarrow> if same_turn then Some (rc_model context) else None
                 | Compaction _ _ \<Rightarrow>
                     if sc_turn_id (rc_context context) \<noteq> None \<and> sc_root_turn_id (rc_context context) \<noteq> None
                     then Some (rc_model context) else None
                 | _ \<Rightarrow> None))))"

definition unassigned_at ::
  "ClassificationPointer \<Rightarrow> ResponseModelFailure \<Rightarrow> PendingResponse \<Rightarrow> PendingResponse" where
  "unassigned_at boundary reason r = r\<lparr>pr_classification := Unassigned reason (ProofRecord boundary)\<rparr>"

definition observe_classification ::
  "ResponseClassificationInput \<Rightarrow> ClassificationPointer \<Rightarrow> PendingResponse \<Rightarrow> PendingResponse" where
  "observe_classification input pointer r =
     (case pr_classification r of
        AwaitingBoundary \<Rightarrow>
          (case input of
             NoOp \<Rightarrow> r
           | Strong context _ \<Rightarrow>
               if reaffirms_original r context then r
               else r\<lparr>pr_classification := Normal (ProofRecord pointer)\<rparr>
           | Counter \<Rightarrow> r\<lparr>pr_classification := Normal (ProofRecord pointer)\<rparr>
           | Task \<Rightarrow> r\<lparr>pr_classification := Normal (ProofRecord pointer)\<rparr>
           | NextRoot \<Rightarrow> r\<lparr>pr_classification := Normal (ProofRecord pointer)\<rparr>
           | Snapshot snapshot \<Rightarrow>
               if snapshot = pr_record r then r\<lparr>pr_classification := AwaitingReplacement pointer\<rparr>
               else unassigned_at pointer SnapshotConflict r
           | UnknownInput \<Rightarrow> unassigned_at pointer UnrecognizedControl r
           | HistoryInput \<Rightarrow> unassigned_at pointer HistoryBoundary r)
      | AwaitingReplacement snapshot \<Rightarrow>
          (case input of
             NoOp \<Rightarrow> r
           | Snapshot snapshot_record \<Rightarrow>
               if snapshot_record = pr_record r then r else unassigned_at pointer SnapshotConflict r
           | Strong context is_turn \<Rightarrow>
               if is_turn \<and> pr_session_scope_qualified r \<and> matches_root r context
               then r\<lparr>pr_classification := Compaction snapshot context\<rparr>
               else unassigned_at pointer ReplacementMismatch r
           | UnknownInput \<Rightarrow> unassigned_at pointer UnrecognizedControl r
           | HistoryInput \<Rightarrow> unassigned_at pointer HistoryBoundary r
           | Counter \<Rightarrow> unassigned_at pointer ReplacementMissing r
           | Task \<Rightarrow> unassigned_at pointer ReplacementMissing r
           | NextRoot \<Rightarrow> unassigned_at pointer ReplacementMissing r)
      | _ \<Rightarrow> r)"

definition close_source_classification :: "u64 \<Rightarrow> PendingResponse \<Rightarrow> PendingResponse" where
  "close_source_classification offset r =
     (let r = (if pr_counter_association r = Awaiting
               then r\<lparr>pr_counter_association := Unmatched (SourceEnd offset)\<rparr> else r)
      in if is_open (pr_classification r)
         then r\<lparr>pr_classification := Unassigned SourceBoundary (SourceEnd offset)\<rparr> else r)"

definition classification_valid :: "PendingResponse \<Rightarrow> u64 \<Rightarrow> bool" where
  "classification_valid r end_offset =
     (let start = rp_end (pr_pointer r) in
      case pr_classification r of
        LegacyUnknown \<Rightarrow> True
      | AwaitingBoundary \<Rightarrow> True
      | AwaitingReplacement snapshot \<Rightarrow> ClassificationPointer_valid_after snapshot start end_offset
      | Normal boundary \<Rightarrow>
          (case boundary of ProofRecord _ \<Rightarrow> True | SourceEnd _ \<Rightarrow> False) \<and>
          ClassificationProof_valid_after boundary start end_offset
      | Unassigned reason boundary \<Rightarrow>
          (case boundary of ProofRecord _ \<Rightarrow> False | SourceEnd _ \<Rightarrow> True) = (reason = SourceBoundary) \<and>
          ClassificationProof_valid_after boundary start end_offset
      | Compaction snapshot replacement \<Rightarrow>
          pr_session_scope_qualified r \<and>
          ClassificationPointer_valid_after snapshot start end_offset \<and>
          RecordPointer_valid (sc_pointer (rc_context replacement)) end_offset \<and>
          cp_end snapshot \<le> rp_start (sc_pointer (rc_context replacement)) \<and>
          (case pr_root_context r of
             None \<Rightarrow> False | Some root_context \<Rightarrow> rc_model root_context = rc_model replacement) \<and>
          sc_turn_id (rc_context replacement) = Some (ri_turn_id (rr_ids (pr_record r))) \<and>
          sc_root_turn_id (rc_context replacement) = Some (ri_root_turn_id (rr_ids (pr_record r))))"

section \<open>The admission state of a source\<close>

record SourceAdmission =
  sa_version :: u8
  sa_stream :: UsageStream
  sa_metadata :: "SessionMetadata option"
  sa_metadata_qualified :: bool
  sa_fork_history :: "ForkHistory option"
  sa_strong_context :: "StrongContext option"
  sa_adopted_context :: "ClassificationPointer option"
  sa_previous_raw :: "RecordPointer option"
  sa_response_waiting_for_counter :: bool
  sa_responses :: "PendingResponse list"
  sa_account_binding :: "SourceAccountBinding option"

definition requires_prefix_reconstruction :: "SourceAdmission \<Rightarrow> bool" where
  "requires_prefix_reconstruction s \<longleftrightarrow> sa_version s \<noteq> 2 \<or>
     list_ex (\<lambda>r. is_legacy_unknown (pr_classification r)) (sa_responses s)"

definition from_prefix_start :: SourceAdmission where
  "from_prefix_start =
     \<lparr>sa_version = 2, sa_stream = LegacyCounterStream, sa_metadata = None, sa_metadata_qualified = False,
      sa_fork_history = None, sa_strong_context = None, sa_adopted_context = None, sa_previous_raw = None,
      sa_response_waiting_for_counter = False, sa_responses = [], sa_account_binding = None\<rparr>"

definition from_response_boundary :: SourceAdmission where
  "from_response_boundary = from_prefix_start\<lparr>sa_stream := ResponseRecordStream\<rparr>"

definition push_response :: "PendingResponse \<Rightarrow> SourceAdmission \<Rightarrow> SourceAdmission" where
  "push_response response s = s\<lparr>sa_version := 2, sa_responses := sa_responses s @ [response]\<rparr>"

text \<open>\<open>last_mut\<close>: the update of the last element, nothing on an empty vector.\<close>

definition update_last :: "('a \<Rightarrow> 'a) \<Rightarrow> 'a list \<Rightarrow> 'a list" where
  "update_last f xs = (if xs = [] then [] else butlast xs @ [f (last xs)])"

definition observe_response_classification ::
  "ResponseClassificationInput \<Rightarrow> ClassificationPointer \<Rightarrow> SourceAdmission \<Rightarrow> SourceAdmission" where
  "observe_response_classification input pointer s =
     s\<lparr>sa_responses := update_last (observe_classification input pointer) (sa_responses s)\<rparr>"

definition context_valid :: "u64 \<Rightarrow> StrongContext \<Rightarrow> bool" where
  "context_valid end_offset context \<longleftrightarrow>
     pred_option valid_identifier (sc_turn_id context) \<and>
     pred_option valid_identifier (sc_root_turn_id context) \<and>
     RecordPointer_valid (sc_pointer context) end_offset"

definition SessionMetadata_valid :: "SessionMetadata \<Rightarrow> bool" where
  "SessionMetadata_valid meta \<longleftrightarrow> valid_identifier (sm_thread_id meta) \<and>
     pred_option valid_identifier (sm_session_id meta)"

definition fork_valid :: "SourceAdmission \<Rightarrow> ForkHistory \<Rightarrow> bool" where
  "fork_valid s fork \<longleftrightarrow> sa_version s = 2 \<and> valid_identifier (fh_parent_thread_id fork) \<and>
     (case sa_metadata s of None \<Rightarrow> False | Some meta \<Rightarrow> sm_thread_id meta \<noteq> fh_parent_thread_id fork)"

definition binding_admitted :: "SourceAdmission \<Rightarrow> u64 \<Rightarrow> SourceAccountBinding \<Rightarrow> bool" where
  "binding_admitted s end_offset binding \<longleftrightarrow> sa_version s = 2 \<and> sa_metadata_qualified s \<and>
     (case sa_metadata s of
        None \<Rightarrow> False
      | Some current \<Rightarrow>
          sm_thread_id current = sm_thread_id (ab_metadata binding) \<and>
          pred_option (\<lambda>saved. sm_session_id current = Some saved) (sm_session_id (ab_metadata binding))) \<and>
     SourceAccountBinding_valid binding end_offset"

definition root_context_valid :: "u64 \<Rightarrow> PendingResponse \<Rightarrow> ResponseContext \<Rightarrow> bool" where
  "root_context_valid end_offset r root_context \<longleftrightarrow>
     normalize_model_name (rc_model root_context) = Some (rc_model root_context) \<and>
     context_valid end_offset (rc_context root_context) \<and>
     rp_end (sc_pointer (rc_context root_context)) \<le> rp_start (pr_pointer r) \<and>
     (case sc_turn_id (rc_context root_context) of None \<Rightarrow> False | Some i \<Rightarrow> valid_identifier i) \<and>
     (case sc_root_turn_id (rc_context root_context) of None \<Rightarrow> False | Some i \<Rightarrow> valid_identifier i)"

definition scope_matches :: "SessionMetadata option \<Rightarrow> ResponseIds \<Rightarrow> bool" where
  "scope_matches metadata ids =
     (case metadata of
        None \<Rightarrow> False
      | Some meta \<Rightarrow> sm_thread_id meta = ri_thread_id ids \<and> sm_session_id meta = Some (ri_session_id ids))"

definition response_valid ::
  "(u8 list \<Rightarrow> u8 list) \<Rightarrow> SourceAdmission \<Rightarrow> u64 \<Rightarrow> PendingResponse \<Rightarrow> bool" where
  "response_valid sha256 s end_offset r \<longleftrightarrow>
     ResponseRecord_valid (pr_record r) \<and>
     (sa_version s = 2 \<or> is_legacy_unknown (pr_classification r)) \<and>
     classification_valid r end_offset \<and>
     counter_association_valid r end_offset \<and>
     pr_key r = ResponseIds_key sha256 (rr_ids (pr_record r)) \<and>
     RecordPointer_valid (pr_pointer r) end_offset \<and>
     (\<not> pr_session_scope_qualified r \<or> scope_matches (sa_metadata s) (rr_ids (pr_record r))) \<and>
     pred_option (root_context_valid end_offset r) (pr_root_context r)"

definition SourceAdmission_valid :: "(u8 list \<Rightarrow> u8 list) \<Rightarrow> SourceAdmission \<Rightarrow> u64 \<Rightarrow> bool" where
  "SourceAdmission_valid sha256 s end_offset \<longleftrightarrow>
     sa_version s \<in> {1, 2} \<and>
     pred_option SessionMetadata_valid (sa_metadata s) \<and>
     (\<not> sa_metadata_qualified s \<or> sa_metadata s \<noteq> None) \<and>
     pred_option (fork_valid s) (sa_fork_history s) \<and>
     pred_option (binding_admitted s end_offset) (sa_account_binding s) \<and>
     pred_option (context_valid end_offset) (sa_strong_context s) \<and>
     pred_option (\<lambda>pointer. sa_version s = 2 \<and> ClassificationPointer_valid_after pointer 0 end_offset)
       (sa_adopted_context s) \<and>
     pred_option (\<lambda>p. RecordPointer_valid p end_offset) (sa_previous_raw s) \<and>
     (sa_stream s = ResponseRecordStream \<or>
        (\<not> sa_response_waiting_for_counter s \<and> sa_responses s = [])) \<and>
     list_all (\<lambda>r. \<not> is_open (pr_classification r)) (drop 1 (rev (sa_responses s))) \<and>
     list_all (response_valid sha256 s end_offset) (sa_responses s)"

text \<open>The stored form, with the JSON codec as an argument.\<close>

definition from_storage ::
  "(u8 list \<Rightarrow> u8 list) \<Rightarrow> (rstr \<Rightarrow> SourceAdmission option) \<Rightarrow> rstr \<Rightarrow> u64 \<Rightarrow> SourceAdmission option" where
  "from_storage sha256 from_str value end_offset =
     (case from_str value of
        None \<Rightarrow> None
      | Some s \<Rightarrow> if SourceAdmission_valid sha256 s end_offset then Some s else None)"

section \<open>Checkpoints\<close>

record SessionCheckpoint =
  ck_root_identity :: rstr
  ck_relative_path :: rstr
  ck_file_device :: u64
  ck_file_inode :: u64
  ck_committed_offset :: u64
  ck_discard_until_lf :: bool
  ck_collector_epoch :: u128
  ck_cycle_seq :: u64
  ck_prefix_generation :: u128
  ck_prefix_sha256 :: rstr
  ck_fully_attributed_from_zero :: bool
  ck_token_baseline_known :: bool
  ck_history_base_pending :: bool
  ck_last_model :: "rstr option"
  ck_last_model_context_kind :: "SessionModelContextKind option"
  ck_last_model_interval :: "SessionModelInterval option"
  ck_source_admission :: "SourceAdmission option"
  ck_last_task_running :: "bool option"
  ck_context_usage_tokens :: "u64 option"
  ck_context_window_tokens :: "u64 option"
  ck_previous_total :: "u64 option"
  ck_previous_input :: "u64 option"
  ck_previous_cached_input :: "u64 option"
  ck_previous_output :: "u64 option"
  ck_previous_cache_write_input :: "u64 option"

definition matches_checkpoint :: "SourceAccountBinding \<Rightarrow> SessionCheckpoint \<Rightarrow> bool" where
  "matches_checkpoint b ck \<longleftrightarrow>
     SourceAccountBinding_valid b (ck_committed_offset ck) \<and>
     ab_root_identity b = ck_root_identity ck \<and>
     ab_relative_path b = ck_relative_path ck \<and>
     ab_file_device b = ck_file_device ck \<and>
     ab_file_inode b = ck_file_inode ck \<and>
     ab_prefix_generation b = format_032x (ck_prefix_generation ck)"

end
