(* ===== verification/Session_Record.thy ===== *)
theory Session_Record
  imports Source_Admission
begin

text \<open>
  The first part of \<open>src/session_input.rs\<close>: what the bounded parser keeps of one line of a session
  file (\<open>SessionRecordSummary\<close>), which of its shapes each consumer may trust, and the attribution of
  a stretch of the file to a model (\<open>ModelAttributionState\<close>). Masks of keys are 64-bit words, one bit
  for each key, as in the source. The parser of RFC 3339 times belongs to \<open>chrono\<close> and is the
  argument \<open>rfc3339\<close>.
\<close>

section \<open>Token snapshots\<close>

record TokenSnapshot =
  ts_total :: u64
  ts_input :: "u64 option"
  ts_cached_input :: "u64 option"
  ts_output :: "u64 option"
  ts_cache_write_input :: "u64 option"

definition TokenSnapshot_default :: TokenSnapshot where
  "TokenSnapshot_default =
     \<lparr>ts_total = 0, ts_input = None, ts_cached_input = None, ts_output = None, ts_cache_write_input = None\<rparr>"

definition TokenSnapshot_facts :: "TokenSnapshot \<Rightarrow> TokenFacts" where
  "TokenSnapshot_facts t =
     \<lparr>tf_total = ts_total t, tf_input = ts_input t, tf_cached_input = ts_cached_input t,
      tf_cache_write_input = ts_cache_write_input t, tf_output = ts_output t\<rparr>"

definition TokenSnapshot_from_facts :: "TokenFacts \<Rightarrow> TokenSnapshot" where
  "TokenSnapshot_from_facts f =
     \<lparr>ts_total = tf_total f, ts_input = tf_input f, ts_cached_input = tf_cached_input f,
      ts_output = tf_output f, ts_cache_write_input = tf_cache_write_input f\<rparr>"

definition TokenSnapshot_is_zero :: "TokenSnapshot \<Rightarrow> bool" where
  "TokenSnapshot_is_zero t \<longleftrightarrow> ts_total t = 0 \<and>
     list_all (\<lambda>value. value = Some 0) [ts_input t, ts_cached_input t, ts_output t, ts_cache_write_input t]"

definition TokenSnapshot_valid :: "TokenSnapshot \<Rightarrow> bool" where
  "TokenSnapshot_valid t \<longleftrightarrow> is_ok (validate_fact (TokenSnapshot_facts t))"

definition TokenSnapshot_valid_raw :: "TokenSnapshot \<Rightarrow> bool" where
  "TokenSnapshot_valid_raw t \<longleftrightarrow> is_ok (validate_raw_counter (TokenSnapshot_facts t))"

definition TokenSnapshot_has_usage :: "TokenSnapshot \<Rightarrow> bool" where
  "TokenSnapshot_has_usage t \<longleftrightarrow> ts_total t > 0"

section \<open>Keys\<close>

datatype SessionJsonKey =
    KType | KTimestamp | KModel | KPayload | KThreadSettings | KHistoryBase | KInfo
    | KTotalTokenUsage | KLastTokenUsage | KModelContextWindow | KTotalTokens
    | KCacheWriteInputTokens | KInputTokens | KCachedInputTokens | KOutputTokens
    | KReasoningOutputTokens | KId | KThreadId | KSessionId | KTurnId | KRootTurnId
    | KResponseId | KUsage | KTurnTokenUsage | KThreadTokenUsage | KLatestTokenUsageRecord
    | KMessage | KText | KFull | KState | KTriggerTurn | KReplacementHistory
    | KReplacementHistoryMetadata | KWindowNumber | KWindowId | KFirstWindowId
    | KPreviousWindowId | KThreadIdCamel | KTurnIdCamel | KGoal | KItem | KStartedAtMs
    | KCompletedAtMs | KItemId | KSummaryIndex | KObjective | KStatus | KTokensUsed
    | KTimeUsedSeconds | KCreatedAt | KUpdatedAt | KTokenBudget | KRole | KOrdinal | KMetadata
    | KForkedFromId | KCreatorAccountId | KOther

fun key_index :: "SessionJsonKey \<Rightarrow> nat" where
  "key_index KType = 0"
| "key_index KTimestamp = 1"
| "key_index KModel = 2"
| "key_index KPayload = 3"
| "key_index KThreadSettings = 4"
| "key_index KHistoryBase = 5"
| "key_index KInfo = 6"
| "key_index KTotalTokenUsage = 7"
| "key_index KLastTokenUsage = 8"
| "key_index KModelContextWindow = 9"
| "key_index KTotalTokens = 10"
| "key_index KCacheWriteInputTokens = 11"
| "key_index KInputTokens = 12"
| "key_index KCachedInputTokens = 13"
| "key_index KOutputTokens = 14"
| "key_index KReasoningOutputTokens = 15"
| "key_index KId = 16"
| "key_index KThreadId = 17"
| "key_index KSessionId = 18"
| "key_index KTurnId = 19"
| "key_index KRootTurnId = 20"
| "key_index KResponseId = 21"
| "key_index KUsage = 22"
| "key_index KTurnTokenUsage = 23"
| "key_index KThreadTokenUsage = 24"
| "key_index KLatestTokenUsageRecord = 25"
| "key_index KMessage = 26"
| "key_index KText = 27"
| "key_index KFull = 28"
| "key_index KState = 29"
| "key_index KTriggerTurn = 30"
| "key_index KReplacementHistory = 31"
| "key_index KReplacementHistoryMetadata = 32"
| "key_index KWindowNumber = 33"
| "key_index KWindowId = 34"
| "key_index KFirstWindowId = 35"
| "key_index KPreviousWindowId = 36"
| "key_index KThreadIdCamel = 37"
| "key_index KTurnIdCamel = 38"
| "key_index KGoal = 39"
| "key_index KItem = 40"
| "key_index KStartedAtMs = 41"
| "key_index KCompletedAtMs = 42"
| "key_index KItemId = 43"
| "key_index KSummaryIndex = 44"
| "key_index KObjective = 45"
| "key_index KStatus = 46"
| "key_index KTokensUsed = 47"
| "key_index KTimeUsedSeconds = 48"
| "key_index KCreatedAt = 49"
| "key_index KUpdatedAt = 50"
| "key_index KTokenBudget = 51"
| "key_index KRole = 52"
| "key_index KOrdinal = 53"
| "key_index KMetadata = 54"
| "key_index KForkedFromId = 55"
| "key_index KCreatorAccountId = 56"
| "key_index KOther = 57"

definition key_bit :: "SessionJsonKey \<Rightarrow> u64" where
  "key_bit k = push_bit (key_index k) 1"

definition has_key :: "u64 \<Rightarrow> SessionJsonKey \<Rightarrow> bool" where
  "has_key keys k \<longleftrightarrow> and keys (key_bit k) \<noteq> 0"

fun response_field :: "SessionJsonKey \<Rightarrow> bool" where
  "response_field KThreadId = True"
| "response_field KSessionId = True"
| "response_field KTurnId = True"
| "response_field KRootTurnId = True"
| "response_field KResponseId = True"
| "response_field KUsage = True"
| "response_field KTurnTokenUsage = True"
| "response_field KThreadTokenUsage = True"
| "response_field _ = False"

fun token_component :: "SessionJsonKey \<Rightarrow> bool" where
  "token_component KTotalTokens = True"
| "token_component KInputTokens = True"
| "token_component KCachedInputTokens = True"
| "token_component KCacheWriteInputTokens = True"
| "token_component KOutputTokens = True"
| "token_component _ = False"

definition SESSION_JSON_KEYS :: "(rstr \<times> SessionJsonKey) list" where
  "SESSION_JSON_KEYS = [
     (lit ''forked_from_id'', KForkedFromId),
     (lit ''creator_account_id'', KCreatorAccountId),
     (lit ''type'', KType),
     (lit ''timestamp'', KTimestamp),
     (lit ''model'', KModel),
     (lit ''payload'', KPayload),
     (lit ''thread_settings'', KThreadSettings),
     (lit ''history_base'', KHistoryBase),
     (lit ''info'', KInfo),
     (lit ''total_token_usage'', KTotalTokenUsage),
     (lit ''last_token_usage'', KLastTokenUsage),
     (lit ''model_context_window'', KModelContextWindow),
     (lit ''total_tokens'', KTotalTokens),
     (lit ''cache_write_input_tokens'', KCacheWriteInputTokens),
     (lit ''input_tokens'', KInputTokens),
     (lit ''cached_input_tokens'', KCachedInputTokens),
     (lit ''output_tokens'', KOutputTokens),
     (lit ''reasoning_output_tokens'', KReasoningOutputTokens),
     (lit ''id'', KId),
     (lit ''thread_id'', KThreadId),
     (lit ''session_id'', KSessionId),
     (lit ''turn_id'', KTurnId),
     (lit ''root_turn_id'', KRootTurnId),
     (lit ''response_id'', KResponseId),
     (lit ''usage'', KUsage),
     (lit ''turn_token_usage'', KTurnTokenUsage),
     (lit ''thread_token_usage'', KThreadTokenUsage),
     (lit ''latest_token_usage_record'', KLatestTokenUsageRecord),
     (lit ''message'', KMessage),
     (lit ''text'', KText),
     (lit ''full'', KFull),
     (lit ''state'', KState),
     (lit ''trigger_turn'', KTriggerTurn),
     (lit ''replacement_history'', KReplacementHistory),
     (lit ''replacement_history_metadata'', KReplacementHistoryMetadata),
     (lit ''window_number'', KWindowNumber),
     (lit ''window_id'', KWindowId),
     (lit ''first_window_id'', KFirstWindowId),
     (lit ''previous_window_id'', KPreviousWindowId),
     (lit ''threadId'', KThreadIdCamel),
     (lit ''turnId'', KTurnIdCamel),
     (lit ''goal'', KGoal),
     (lit ''item'', KItem),
     (lit ''started_at_ms'', KStartedAtMs),
     (lit ''completed_at_ms'', KCompletedAtMs),
     (lit ''item_id'', KItemId),
     (lit ''summary_index'', KSummaryIndex),
     (lit ''objective'', KObjective),
     (lit ''status'', KStatus),
     (lit ''tokensUsed'', KTokensUsed),
     (lit ''timeUsedSeconds'', KTimeUsedSeconds),
     (lit ''createdAt'', KCreatedAt),
     (lit ''updatedAt'', KUpdatedAt),
     (lit ''tokenBudget'', KTokenBudget),
     (lit ''role'', KRole),
     (lit ''ordinal'', KOrdinal),
     (lit ''metadata'', KMetadata)]"

datatype SessionJsonObject =
    ObjRoot
  | ObjPayload
  | ObjThreadSettings
  | ObjInfo
  | ObjTokenUsage
  | ObjLastTokenUsage
  | ObjResponseSnapshot
  | ObjResponseUsage bool
  | ObjResponseTurnUsage bool
  | ObjResponseThreadUsage bool
  | ObjGoal

section \<open>Summaries\<close>

record TokenUsageSummary =
  tu_total :: "u64 option"
  tu_cache_write_input :: "u64 option"
  tu_input :: "u64 option"
  tu_cached_input :: "u64 option"
  tu_output :: "u64 option"
  tu_reasoning_output :: "u64 option"
  tu_reasoning_malformed :: bool
  tu_total_seen :: bool
  tu_malformed :: bool

definition TokenUsageSummary_default :: TokenUsageSummary where
  "TokenUsageSummary_default =
     \<lparr>tu_total = None, tu_cache_write_input = None, tu_input = None,
      tu_cached_input = None, tu_output = None, tu_reasoning_output = None,
      tu_reasoning_malformed = False, tu_total_seen = False, tu_malformed = False\<rparr>"

definition response_usage :: "TokenUsageSummary \<Rightarrow> ResponseUsage option" where
  "response_usage u =
     (case (tu_total u, tu_input u, tu_cached_input u, tu_cache_write_input u, tu_output u, tu_reasoning_output u) of
        (Some total_n, Some inp, Some cached, Some cache_write, Some outp, Some reasoning) \<Rightarrow>
          (let usage = \<lparr>ru_total = total_n, ru_input = inp, ru_cached_input = cached,
                 ru_cache_write_input = cache_write, ru_output = outp, ru_reasoning_output = reasoning\<rparr>
           in if \<not> tu_malformed u \<and> \<not> tu_reasoning_malformed u \<and> ResponseUsage_valid usage
              then Some usage else None)
      | _ \<Rightarrow> None)"

definition usage_snapshot :: "TokenUsageSummary \<Rightarrow> TokenSnapshot option" where
  "usage_snapshot u =
     (case tu_total u of
        None \<Rightarrow> None
      | Some total_n \<Rightarrow> Some \<lparr>ts_total = total_n, ts_input = tu_input u, ts_cached_input = tu_cached_input u,
          ts_output = tu_output u, ts_cache_write_input = tu_cache_write_input u\<rparr>)"

definition valid_snapshot :: "TokenUsageSummary \<Rightarrow> TokenSnapshot option" where
  "valid_snapshot u = (if \<not> tu_malformed u then usage_snapshot u else None)"

record ResponsePayloadSummary =
  rps_thread_id :: "rstr option"
  rps_session_id :: "rstr option"
  rps_session_id_seen :: bool
  rps_turn_id :: "rstr option"
  rps_root_turn_id :: "rstr option"
  rps_response_id :: "rstr option"
  rps_malformed_identifiers :: u64
  rps_usage :: TokenUsageSummary
  rps_turn_usage :: TokenUsageSummary
  rps_thread_usage :: TokenUsageSummary

definition ResponsePayloadSummary_default :: ResponsePayloadSummary where
  "ResponsePayloadSummary_default =
     \<lparr>rps_thread_id = None, rps_session_id = None, rps_session_id_seen = False,
      rps_turn_id = None, rps_root_turn_id = None, rps_response_id = None,
      rps_malformed_identifiers = 0, rps_usage = TokenUsageSummary_default,
      rps_turn_usage = TokenUsageSummary_default,
      rps_thread_usage = TokenUsageSummary_default\<rparr>"

definition response_record :: "ResponsePayloadSummary \<Rightarrow> ResponseRecord option" where
  "response_record p =
     (if rps_malformed_identifiers p \<noteq> 0 then None
      else (case (rps_thread_id p, rps_session_id p, rps_root_turn_id p, rps_turn_id p, rps_response_id p) of
          (Some thread_id, Some session_id, Some root_turn_id, Some turn_id, Some response_id) \<Rightarrow>
            (case (response_usage (rps_usage p), response_usage (rps_turn_usage p), response_usage (rps_thread_usage p)) of
               (Some usage, Some turn_usage, Some thread_usage) \<Rightarrow>
                 (let rec = \<lparr>rr_ids = \<lparr>ri_thread_id = thread_id, ri_session_id = session_id,
                        ri_root_turn_id = root_turn_id, ri_turn_id = turn_id, ri_response_id = response_id\<rparr>,
                        rr_usage = usage, rr_turn_usage = turn_usage, rr_thread_usage = thread_usage\<rparr>
                  in if ResponseRecord_valid rec then Some rec else None)
             | _ \<Rightarrow> None)
        | _ \<Rightarrow> None))"

datatype SessionNoOp =
    ResponseItem
  | ActivityNotice
  | WorldState
  | InterAgentMetadata
  | Compacted
  | ThreadGoal
  | ItemCompleted
  | Message
  | Reasoning
  | ReasoningSection

fun noop_keys :: "SessionNoOp \<Rightarrow> SessionJsonKey list" where
  "noop_keys ResponseItem = []"
| "noop_keys ActivityNotice = []"
| "noop_keys WorldState = [KFull, KState]"
| "noop_keys InterAgentMetadata = [KTriggerTurn]"
| "noop_keys Compacted =
     [KMessage, KReplacementHistory, KReplacementHistoryMetadata, KWindowNumber, KWindowId,
      KFirstWindowId, KPreviousWindowId, KLatestTokenUsageRecord]"
| "noop_keys ThreadGoal = [KThreadIdCamel, KTurnIdCamel, KGoal]"
| "noop_keys ItemCompleted = [KThreadId, KTurnId, KItem, KStartedAtMs, KCompletedAtMs]"
| "noop_keys Message = [KMessage]"
| "noop_keys Reasoning = [KText]"
| "noop_keys ReasoningSection = [KItemId, KSummaryIndex]"

fun noop_required :: "SessionNoOp \<Rightarrow> SessionJsonKey list" where
  "noop_required Compacted = [KMessage]"
| "noop_required ThreadGoal = [KThreadIdCamel, KGoal]"
| "noop_required ItemCompleted = [KItem]"
| "noop_required ReasoningSection = []"
| "noop_required kind = noop_keys kind"

record GoalShape =
  gs_seen :: u64
  gs_malformed :: u64
  gs_duplicates :: bool
  gs_thread_id :: "rstr option"

definition GoalShape_default :: GoalShape where
  "GoalShape_default =
     \<lparr>gs_seen = 0, gs_malformed = 0, gs_duplicates = False, gs_thread_id = None\<rparr>"

definition goal_keys :: "SessionJsonKey list" where
  "goal_keys = [KThreadIdCamel, KObjective, KStatus, KTokensUsed, KTimeUsedSeconds, KCreatedAt,
     KUpdatedAt, KTokenBudget]"

definition GoalShape_valid :: "GoalShape \<Rightarrow> rstr option \<Rightarrow> bool" where
  "GoalShape_valid g thread_id \<longleftrightarrow> \<not> gs_duplicates g \<and> gs_malformed g = 0 \<and> gs_thread_id g = thread_id \<and>
     list_all (\<lambda>k. has_key (gs_seen g) k) (filter (\<lambda>k. k \<noteq> KTokenBudget) goal_keys)"

record NoOpShape =
  ns_seen :: u64
  ns_malformed :: u64
  ns_thread_id :: "rstr option"
  ns_goal :: GoalShape
  ns_replacement_history :: "u64 option"
  ns_replacement_metadata :: "u64 option"
  ns_role_seen :: bool
  ns_role_is_string :: bool
  ns_role_is_user :: bool

definition NoOpShape_default :: NoOpShape where
  "NoOpShape_default =
     \<lparr>ns_seen = 0, ns_malformed = 0, ns_thread_id = None, ns_goal = GoalShape_default,
      ns_replacement_history = None, ns_replacement_metadata = None, ns_role_seen = False,
      ns_role_is_string = False, ns_role_is_user = False\<rparr>"

definition NoOpShape_field :: "SessionJsonKey \<Rightarrow> bool \<Rightarrow> NoOpShape \<Rightarrow> NoOpShape" where
  "NoOpShape_field k valid n =
     (let n = n\<lparr>ns_seen := or (ns_seen n) (key_bit k)\<rparr>
      in if valid then n else n\<lparr>ns_malformed := or (ns_malformed n) (key_bit k)\<rparr>)"

record PayloadSummary =
  ps_noop :: NoOpShape
  ps_metadata_id :: "rstr option"
  ps_metadata_id_malformed :: bool
  ps_forked_from_id :: "rstr option"
  ps_forked_from_id_malformed :: bool
  ps_creator_account_sha256 :: "u8 list option"
  ps_response :: ResponsePayloadSummary
  ps_snapshot_non_null :: bool
  ps_snapshot :: ResponsePayloadSummary
  ps_event_type :: "rstr option"
  ps_event_type_seen :: bool
  ps_event_type_malformed :: bool
  ps_model :: "rstr option"
  ps_model_seen :: bool
  ps_model_malformed :: bool
  ps_thread_settings_seen :: bool
  ps_thread_settings_object :: bool
  ps_thread_settings_model :: "rstr option"
  ps_thread_settings_model_seen :: bool
  ps_thread_settings_model_malformed :: bool
  ps_history_base_seen :: bool
  ps_history_base_non_null :: bool
  ps_info_seen :: bool
  ps_info_null :: bool
  ps_info_object :: bool
  ps_token_usage_seen :: bool
  ps_token_usage_object :: bool
  ps_token_usage :: TokenUsageSummary
  ps_last_token_usage_seen :: bool
  ps_last_token_usage_null :: bool
  ps_last_token_usage_object :: bool
  ps_last_token_usage :: TokenUsageSummary
  ps_context_window :: "u64 option"
  ps_context_window_seen :: bool
  ps_context_window_malformed :: bool

definition PayloadSummary_default :: PayloadSummary where
  "PayloadSummary_default =
     \<lparr>ps_noop = NoOpShape_default, ps_metadata_id = None,
      ps_metadata_id_malformed = False, ps_forked_from_id = None,
      ps_forked_from_id_malformed = False, ps_creator_account_sha256 = None,
      ps_response = ResponsePayloadSummary_default, ps_snapshot_non_null = False,
      ps_snapshot = ResponsePayloadSummary_default, ps_event_type = None,
      ps_event_type_seen = False, ps_event_type_malformed = False, ps_model = None,
      ps_model_seen = False, ps_model_malformed = False, ps_thread_settings_seen = False,
      ps_thread_settings_object = False, ps_thread_settings_model = None,
      ps_thread_settings_model_seen = False, ps_thread_settings_model_malformed = False,
      ps_history_base_seen = False, ps_history_base_non_null = False, ps_info_seen = False,
      ps_info_null = False, ps_info_object = False, ps_token_usage_seen = False,
      ps_token_usage_object = False, ps_token_usage = TokenUsageSummary_default,
      ps_last_token_usage_seen = False, ps_last_token_usage_null = False,
      ps_last_token_usage_object = False, ps_last_token_usage = TokenUsageSummary_default,
      ps_context_window = None, ps_context_window_seen = False,
      ps_context_window_malformed = False\<rparr>"

definition NoOpShape_valid :: "NoOpShape \<Rightarrow> SessionNoOp \<Rightarrow> PayloadSummary \<Rightarrow> bool" where
  "NoOpShape_valid n kind payload =
     (if list_ex (\<lambda>k. has_key (ns_malformed n) k) (noop_keys kind)
         \<or> list_ex (\<lambda>k. \<not> has_key (ns_seen n) k) (noop_required kind) then False
      else (case kind of
          ThreadGoal \<Rightarrow> ns_thread_id n \<noteq> None \<and> GoalShape_valid (ns_goal n) (ns_thread_id n)
        | ItemCompleted \<Rightarrow>
            rps_thread_id (ps_response payload) \<noteq> None \<and> rps_turn_id (ps_response payload) \<noteq> None \<and>
            and (rps_malformed_identifiers (ps_response payload)) (or (key_bit KThreadId) (key_bit KTurnId)) = 0
        | Compacted \<Rightarrow>
            pred_option (\<lambda>c. ns_replacement_history n = Some c) (ns_replacement_metadata n) \<and>
            (\<not> ps_snapshot_non_null payload \<or> response_record (ps_snapshot payload) \<noteq> None)
        | _ \<Rightarrow> True))"

record SessionRecordSummary =
  sr_unknown_envelope_field :: bool
  sr_ordinal_seen :: bool
  sr_ordinal_malformed :: bool
  sr_response_metadata_seen :: bool
  sr_response_metadata_object :: bool
  sr_response_metadata_null :: bool
  sr_outer_type :: "rstr option"
  sr_timestamp :: "rstr option"
  sr_timestamp_seen :: bool
  sr_timestamp_malformed :: bool
  sr_root_model :: "rstr option"
  sr_root_model_seen :: bool
  sr_root_model_malformed :: bool
  sr_payload_seen :: bool
  sr_payload_object :: bool
  sr_payload :: PayloadSummary
  sr_duplicate_fields :: bool
  sr_root_duplicates :: u64
  sr_payload_duplicates :: u64
  sr_info_duplicates :: bool
  sr_counter_duplicates :: bool
  sr_thread_settings_duplicates :: bool
  sr_response_duplicates :: bool
  sr_snapshot_duplicates :: bool

definition SessionRecordSummary_default :: SessionRecordSummary where
  "SessionRecordSummary_default =
     \<lparr>sr_unknown_envelope_field = False, sr_ordinal_seen = False,
      sr_ordinal_malformed = False, sr_response_metadata_seen = False,
      sr_response_metadata_object = False, sr_response_metadata_null = False,
      sr_outer_type = None, sr_timestamp = None, sr_timestamp_seen = False,
      sr_timestamp_malformed = False, sr_root_model = None, sr_root_model_seen = False,
      sr_root_model_malformed = False, sr_payload_seen = False, sr_payload_object = False,
      sr_payload = PayloadSummary_default, sr_duplicate_fields = False, sr_root_duplicates = 0,
      sr_payload_duplicates = 0, sr_info_duplicates = False, sr_counter_duplicates = False,
      sr_thread_settings_duplicates = False, sr_response_duplicates = False,
      sr_snapshot_duplicates = False\<rparr>"

section \<open>Recognising a record\<close>

definition is_one_of :: "rstr option \<Rightarrow> rstr list \<Rightarrow> bool" where
  "is_one_of value names = (case value of None \<Rightarrow> False | Some v \<Rightarrow> v \<in> set names)"

definition task_names :: "rstr list" where
  "task_names = [lit ''task_started'', lit ''task_complete'', lit ''task_completed'', lit ''turn_aborted'']"

definition turn_names :: "rstr list" where
  "turn_names = [lit ''turn_context'', lit ''thread_context'']"

definition event_type :: "SessionRecordSummary \<Rightarrow> rstr option" where
  "event_type s =
     (if is_one_of (sr_outer_type s)
           (task_names @ [lit ''token_count''] @ turn_names @ [lit ''thread_settings_applied''])
      then sr_outer_type s
      else if sr_outer_type s = Some (lit ''event_msg'') then ps_event_type (sr_payload s)
      else None)"

definition response_stream_marker :: "SessionRecordSummary \<Rightarrow> bool" where
  "response_stream_marker s \<longleftrightarrow> sr_outer_type s = Some (lit ''token_usage_record'') \<or>
     (sr_outer_type s = Some (lit ''compacted'') \<and> ps_snapshot_non_null (sr_payload s))"

definition known_state_input :: "SessionRecordSummary \<Rightarrow> bool" where
  "known_state_input s \<longleftrightarrow>
     is_one_of (sr_outer_type s) [lit ''session_meta'', lit ''token_usage_record''] \<or>
     is_one_of (event_type s)
       ([lit ''token_count''] @ turn_names @ [lit ''thread_settings_applied''] @ task_names)"

definition metadata_shape_valid :: "SessionRecordSummary \<Rightarrow> bool" where
  "metadata_shape_valid s \<longleftrightarrow>
     \<not> sr_duplicate_fields s \<and> sr_payload_object s \<and>
     ps_metadata_id (sr_payload s) \<noteq> None \<and>
     \<not> ps_metadata_id_malformed (sr_payload s) \<and>
     \<not> ps_forked_from_id_malformed (sr_payload s) \<and>
     pred_option (\<lambda>parent. ps_metadata_id (sr_payload s) \<noteq> Some parent) (ps_forked_from_id (sr_payload s)) \<and>
     \<not> has_key (rps_malformed_identifiers (ps_response (sr_payload s))) KSessionId \<and>
     (\<not> rps_session_id_seen (ps_response (sr_payload s)) \<or> rps_session_id (ps_response (sr_payload s)) \<noteq> None)"

definition task_running_for_event_type :: "rstr \<Rightarrow> bool option" where
  "task_running_for_event_type event =
     (if event = lit ''task_started'' then Some True
      else if event \<in> {lit ''task_complete'', lit ''task_completed'', lit ''turn_aborted''} then Some False
      else None)"

definition task_running :: "SessionRecordSummary \<Rightarrow> bool option" where
  "task_running s = Option.bind (event_type s) task_running_for_event_type"

definition event_timestamp :: "(rstr \<Rightarrow> i64 option) \<Rightarrow> SessionRecordSummary \<Rightarrow> i64" where
  "event_timestamp rfc3339 s =
     (case Option.bind (sr_timestamp s) rfc3339 of None \<Rightarrow> 0 | Some seconds \<Rightarrow> seconds)"

definition timestamp_accepted :: "(rstr \<Rightarrow> i64 option) \<Rightarrow> SessionRecordSummary \<Rightarrow> bool" where
  "timestamp_accepted rfc3339 s \<longleftrightarrow> \<not> sr_timestamp_malformed s \<and> sr_timestamp_seen s \<and>
     valid_timestamp (event_timestamp rfc3339 s)"

definition context_envelope_valid :: "(rstr \<Rightarrow> i64 option) \<Rightarrow> SessionRecordSummary \<Rightarrow> bool" where
  "context_envelope_valid rfc3339 s \<longleftrightarrow>
     (let payload = sr_payload s;
          payload_valid =
            (if sr_payload_seen s
             then sr_payload_object s \<and> \<not> ps_event_type_malformed payload \<and>
               (if sr_outer_type s = Some (lit ''event_msg'')
                then ps_event_type_seen payload \<and> ps_event_type payload \<noteq> None
                else \<not> ps_event_type_seen payload \<or> ps_event_type payload = sr_outer_type s)
             else is_one_of (sr_outer_type s) (turn_names @ [lit ''thread_settings_applied''] @ task_names))
      in \<not> sr_duplicate_fields s \<and> timestamp_accepted rfc3339 s \<and> payload_valid)"

definition task_shape_valid :: "(rstr \<Rightarrow> i64 option) \<Rightarrow> SessionRecordSummary \<Rightarrow> bool" where
  "task_shape_valid rfc3339 s \<longleftrightarrow> task_running s \<noteq> None \<and> context_envelope_valid rfc3339 s"

definition ordinal_shape_valid :: "SessionRecordSummary \<Rightarrow> bool" where
  "ordinal_shape_valid s \<longleftrightarrow> \<not> sr_ordinal_malformed s \<and> \<not> has_key (sr_root_duplicates s) KOrdinal"

definition response_metadata_shape_valid :: "SessionRecordSummary \<Rightarrow> bool" where
  "response_metadata_shape_valid s \<longleftrightarrow> \<not> sr_response_metadata_seen s \<or>
     (sr_outer_type s = Some (lit ''response_item'') \<and>
      (sr_response_metadata_null s \<or> sr_response_metadata_object s) \<and>
      \<not> has_key (sr_root_duplicates s) KMetadata)"

definition envelope_metadata_shape_valid :: "SessionRecordSummary \<Rightarrow> bool" where
  "envelope_metadata_shape_valid s \<longleftrightarrow> ordinal_shape_valid s \<and> response_metadata_shape_valid s"

definition noop_kind :: "SessionRecordSummary \<Rightarrow> SessionNoOp option" where
  "noop_kind s =
     (case sr_outer_type s of
        None \<Rightarrow> None
      | Some outer \<Rightarrow>
          if outer = lit ''response_item'' then Some ResponseItem
          else if outer = lit ''world_state'' then Some WorldState
          else if outer = lit ''inter_agent_communication_metadata'' then Some InterAgentMetadata
          else if outer = lit ''compacted'' then Some Compacted
          else if outer = lit ''event_msg'' then
            (case ps_event_type (sr_payload s) of
               None \<Rightarrow> None
             | Some event \<Rightarrow>
                 if event \<in> {lit ''mcp_tool_call_begin'', lit ''mcp_tool_call_end'', lit ''sub_agent_activity'',
                     lit ''web_search_end'', lit ''patch_apply_end'', lit ''context_compacted''}
                 then Some ActivityNotice
                 else if event = lit ''thread_goal_updated'' then Some ThreadGoal
                 else if event = lit ''item_completed'' then Some ItemCompleted
                 else if event \<in> {lit ''agent_message'', lit ''user_message''} then Some Message
                 else if event \<in> {lit ''agent_reasoning'', lit ''agent_reasoning_raw_content''} then Some Reasoning
                 else if event = lit ''agent_reasoning_section_break'' then Some ReasoningSection
                 else None)
          else None)"

definition noop_valid :: "(rstr \<Rightarrow> i64 option) \<Rightarrow> SessionRecordSummary \<Rightarrow> bool option" where
  "noop_valid rfc3339 s =
     (case noop_kind s of
        None \<Rightarrow> None
      | Some kind \<Rightarrow> Some (\<not> sr_duplicate_fields s \<and> sr_payload_object s \<and> timestamp_accepted rfc3339 s \<and>
          NoOpShape_valid (ps_noop (sr_payload s)) kind (sr_payload s)))"

text \<open>The places a model name may stand, from the envelope inwards.\<close>

fun choose_model :: "rstr option \<Rightarrow> (bool \<times> rstr option \<times> bool) list \<Rightarrow> rstr option" where
  "choose_model chosen [] = chosen"
| "choose_model chosen ((seen, value, malformed) # positions) =
     (if \<not> seen then choose_model chosen positions
      else (case value of
          None \<Rightarrow> None
        | Some v \<Rightarrow>
            if malformed \<or> normalize_model_name v = None
               \<or> (case chosen of None \<Rightarrow> False | Some prior \<Rightarrow> trim prior \<noteq> trim v)
            then None else choose_model (Some v) positions))"

definition event_model :: "SessionRecordSummary \<Rightarrow> rstr option" where
  "event_model s =
     (let payload = sr_payload s; weak = (event_type s = Some (lit ''thread_settings_applied''))
      in if \<not> weak \<and> \<not> is_one_of (event_type s) turn_names then None
         else if weak \<and> ps_thread_settings_seen payload \<and> \<not> ps_thread_settings_object payload then None
         else choose_model None
           [(sr_root_model_seen s, sr_root_model s, sr_root_model_malformed s),
            (ps_model_seen payload, ps_model payload, ps_model_malformed payload),
            (weak \<and> ps_thread_settings_model_seen payload, ps_thread_settings_model payload,
             ps_thread_settings_model_malformed payload)])"

definition qualified_context_model :: "(rstr \<Rightarrow> i64 option) \<Rightarrow> SessionRecordSummary \<Rightarrow> rstr option" where
  "qualified_context_model rfc3339 s =
     (if \<not> context_envelope_valid rfc3339 s
         \<or> (is_one_of (event_type s) turn_names \<and>
            and (rps_malformed_identifiers (ps_response (sr_payload s)))
              (or (key_bit KTurnId) (key_bit KRootTurnId)) \<noteq> 0)
      then None else event_model s)"

definition token_snapshot :: "SessionRecordSummary \<Rightarrow> TokenSnapshot option" where
  "token_snapshot s =
     (if event_type s = Some (lit ''token_count'') \<and> sr_payload_object s
      then valid_snapshot (ps_token_usage (sr_payload s)) else None)"

definition history_base_continuation :: "SessionRecordSummary \<Rightarrow> bool" where
  "history_base_continuation s \<longleftrightarrow> sr_outer_type s = Some (lit ''session_meta'') \<and> sr_payload_object s \<and>
     ps_history_base_seen (sr_payload s) \<and> ps_history_base_non_null (sr_payload s)"

definition last_token_snapshot :: "SessionRecordSummary \<Rightarrow> TokenSnapshot option" where
  "last_token_snapshot s =
     (let payload = sr_payload s in
      if event_type s = Some (lit ''token_count'') \<and> sr_payload_object s \<and> ps_info_object payload \<and>
         ps_last_token_usage_seen payload \<and> ps_last_token_usage_object payload
      then (case valid_snapshot (ps_last_token_usage payload) of
          None \<Rightarrow> None
        | Some snapshot \<Rightarrow> if TokenSnapshot_valid_raw snapshot then Some snapshot else None)
      else None)"

definition context_usage_tokens :: "SessionRecordSummary \<Rightarrow> u64 option" where
  "context_usage_tokens s = map_option ts_total (last_token_snapshot s)"

definition context_window_tokens :: "SessionRecordSummary \<Rightarrow> u64 option" where
  "context_window_tokens s =
     (let payload = sr_payload s in
      if event_type s = Some (lit ''token_count'') \<and> sr_payload_object s \<and> ps_info_object payload \<and>
         ps_context_window_seen payload \<and> \<not> ps_context_window_malformed payload
      then (case ps_context_window payload of
          None \<Rightarrow> None
        | Some window \<Rightarrow> if window > 0 then Some window else None)
      else None)"

definition context_pair :: "(rstr \<Rightarrow> i64 option) \<Rightarrow> SessionRecordSummary \<Rightarrow> (u64 \<times> u64) option" where
  "context_pair rfc3339 s =
     (if \<not> context_envelope_valid rfc3339 s then None
      else (case (context_usage_tokens s, context_window_tokens s) of
          (Some usage, Some window) \<Rightarrow> Some (usage, window)
        | _ \<Rightarrow> None))"

definition context_unparsed :: "(rstr \<Rightarrow> i64 option) \<Rightarrow> SessionRecordSummary \<Rightarrow> bool" where
  "context_unparsed rfc3339 s =
     (let payload = sr_payload s in
      if event_type s \<noteq> Some (lit ''token_count'') \<or> \<not> context_envelope_valid rfc3339 s
         \<or> \<not> ps_info_object payload then False
      else ps_context_window_malformed payload \<or> ps_context_window payload = Some 0 \<or>
        (ps_last_token_usage_seen payload \<and> \<not> ps_last_token_usage_null payload \<and> last_token_snapshot s = None))"

definition usage_unparsed :: "(rstr \<Rightarrow> i64 option) \<Rightarrow> SessionRecordSummary \<Rightarrow> bool" where
  "usage_unparsed rfc3339 s =
     (let payload = sr_payload s in
      if event_type s = Some (lit ''token_count'') then
        (if \<not> context_envelope_valid rfc3339 s \<or> \<not> ps_info_seen payload then True
         else if ps_info_null payload then False
         else \<not> ps_info_object payload \<or> \<not> ps_token_usage_seen payload \<or> \<not> ps_token_usage_object payload
           \<or> \<not> tu_total_seen (ps_token_usage payload) \<or> tu_malformed (ps_token_usage payload))
      else if is_one_of (event_type s) (turn_names @ [lit ''thread_settings_applied''])
      then qualified_context_model rfc3339 s = None
      else False)"

definition input_shape_valid_for_coverage :: "(rstr \<Rightarrow> i64 option) \<Rightarrow> SessionRecordSummary \<Rightarrow> bool" where
  "input_shape_valid_for_coverage rfc3339 s =
     (if \<not> envelope_metadata_shape_valid s then False
      else (case noop_valid rfc3339 s of
          Some valid \<Rightarrow> valid
        | None \<Rightarrow>
            if task_running s \<noteq> None then task_shape_valid rfc3339 s
            else if sr_outer_type s = Some (lit ''session_meta'') then metadata_shape_valid s
            else if sr_outer_type s = Some (lit ''token_usage_record'') then
              \<not> sr_duplicate_fields s \<and> sr_payload_object s \<and> timestamp_accepted rfc3339 s \<and>
              response_record (ps_response (sr_payload s)) \<noteq> None
            else if \<not> known_state_input s \<or> usage_unparsed rfc3339 s \<or> context_unparsed rfc3339 s then False
            else if event_type s = Some (lit ''token_count'') then
              ps_info_null (sr_payload s) \<or>
              (case token_snapshot s of None \<Rightarrow> False | Some snapshot \<Rightarrow> TokenSnapshot_valid_raw snapshot)
            else True))"

definition live_shape_valid :: "(rstr \<Rightarrow> i64 option) \<Rightarrow> SessionRecordSummary \<Rightarrow> bool" where
  "live_shape_valid rfc3339 s \<longleftrightarrow>
     input_shape_valid_for_coverage rfc3339 s \<and> \<not> sr_unknown_envelope_field s \<and>
     (sr_outer_type s \<noteq> Some (lit ''response_item'') \<or>
      ((\<not> ps_event_type_seen (sr_payload s) \<or> ps_event_type (sr_payload s) \<noteq> None) \<and>
       (\<not> ns_role_seen (ps_noop (sr_payload s)) \<or> ns_role_is_string (ps_noop (sr_payload s))) \<and>
       \<not> has_key (sr_payload_duplicates s) KRole))"

definition user_message_timestamp :: "(rstr \<Rightarrow> i64 option) \<Rightarrow> SessionRecordSummary \<Rightarrow> i64 option" where
  "user_message_timestamp rfc3339 s =
     (if live_shape_valid rfc3339 s \<and>
         (event_type s = Some (lit ''user_message'') \<or>
          (sr_outer_type s = Some (lit ''response_item'') \<and>
           ps_event_type (sr_payload s) = Some (lit ''message'') \<and> ns_role_is_user (ps_noop (sr_payload s))))
      then Some (event_timestamp rfc3339 s) else None)"

section \<open>Duplicate keys\<close>

definition map_payload :: "(PayloadSummary \<Rightarrow> PayloadSummary) \<Rightarrow> SessionRecordSummary \<Rightarrow> SessionRecordSummary" where
  "map_payload f s = s\<lparr>sr_payload := f (sr_payload s)\<rparr>"

definition observe_response_duplicate ::
  "bool \<Rightarrow> SessionJsonKey \<Rightarrow> SessionRecordSummary \<Rightarrow> SessionRecordSummary" where
  "observe_response_duplicate snapshot k s =
     (if token_component k \<or> k = KReasoningOutputTokens
      then (if snapshot then s\<lparr>sr_snapshot_duplicates := True\<rparr> else s\<lparr>sr_response_duplicates := True\<rparr>)
      else s)"

fun observe_duplicate ::
  "SessionJsonObject \<Rightarrow> SessionJsonKey \<Rightarrow> SessionRecordSummary \<Rightarrow> SessionRecordSummary" where
  "observe_duplicate ObjRoot k s = s\<lparr>sr_root_duplicates := or (sr_root_duplicates s) (key_bit k)\<rparr>"
| "observe_duplicate ObjPayload k s = s\<lparr>sr_payload_duplicates := or (sr_payload_duplicates s) (key_bit k)\<rparr>"
| "observe_duplicate ObjInfo k s = s\<lparr>sr_info_duplicates := sr_info_duplicates s
     \<or> k = KTotalTokenUsage \<or> k = KLastTokenUsage \<or> k = KModelContextWindow\<rparr>"
| "observe_duplicate ObjThreadSettings k s =
     s\<lparr>sr_thread_settings_duplicates := sr_thread_settings_duplicates s \<or> k = KModel\<rparr>"
| "observe_duplicate ObjTokenUsage k s =
     (let s = s\<lparr>sr_counter_duplicates := sr_counter_duplicates s \<or> token_component k\<rparr>
      in if k = KReasoningOutputTokens
         then map_payload (\<lambda>p. p\<lparr>ps_token_usage := (ps_token_usage p)\<lparr>tu_reasoning_malformed := True\<rparr>\<rparr>) s
         else s)"
| "observe_duplicate ObjLastTokenUsage k s =
     (let s = s\<lparr>sr_counter_duplicates := sr_counter_duplicates s \<or> token_component k\<rparr>
      in if k = KReasoningOutputTokens
         then map_payload (\<lambda>p. p\<lparr>ps_last_token_usage := (ps_last_token_usage p)\<lparr>tu_reasoning_malformed := True\<rparr>\<rparr>) s
         else s)"
| "observe_duplicate ObjResponseSnapshot k s =
     s\<lparr>sr_snapshot_duplicates := sr_snapshot_duplicates s \<or> response_field k\<rparr>"
| "observe_duplicate ObjGoal k s =
     map_payload (\<lambda>p. p\<lparr>ps_noop := (ps_noop p)\<lparr>ns_goal := (ns_goal (ps_noop p))
       \<lparr>gs_duplicates := gs_duplicates (ns_goal (ps_noop p)) \<or> k \<in> set goal_keys\<rparr>\<rparr>\<rparr>) s"
| "observe_duplicate (ObjResponseUsage snapshot) k s = observe_response_duplicate snapshot k s"
| "observe_duplicate (ObjResponseTurnUsage snapshot) k s = observe_response_duplicate snapshot k s"
| "observe_duplicate (ObjResponseThreadUsage snapshot) k s = observe_response_duplicate snapshot k s"

definition important_duplicates :: "SessionRecordSummary \<Rightarrow> bool" where
  "important_duplicates s =
     (let root_has = list_ex (has_key (sr_root_duplicates s));
          payload_has = list_ex (has_key (sr_payload_duplicates s))
      in if root_has [KType, KTimestamp, KPayload, KOrdinal, KMetadata] \<or> payload_has [KType] then True
         else (case noop_kind s of
             Some kind \<Rightarrow>
               payload_has (noop_keys kind) \<or> (kind = Compacted \<and> sr_snapshot_duplicates s) \<or>
               (kind = ThreadGoal \<and> gs_duplicates (ns_goal (ps_noop (sr_payload s))))
           | None \<Rightarrow>
               if sr_outer_type s = Some (lit ''session_meta'')
               then payload_has [KId, KSessionId, KHistoryBase, KForkedFromId]
               else if sr_outer_type s = Some (lit ''token_usage_record'')
               then sr_response_duplicates s \<or>
                 (sr_payload_duplicates s \<noteq> 0 \<and>
                  list_ex (\<lambda>(_, k). response_field k \<and> has_key (sr_payload_duplicates s) k) SESSION_JSON_KEYS)
               else if sr_outer_type s = Some (lit ''compacted'')
               then sr_snapshot_duplicates s \<or> payload_has [KLatestTokenUsageRecord]
               else if event_type s = Some (lit ''token_count'')
               then payload_has [KInfo] \<or> sr_info_duplicates s \<or> sr_counter_duplicates s
               else if is_one_of (event_type s) turn_names
               then root_has [KModel] \<or> payload_has [KModel, KTurnId, KRootTurnId]
               else if event_type s = Some (lit ''thread_settings_applied'')
               then root_has [KModel] \<or> payload_has [KModel, KThreadSettings] \<or> sr_thread_settings_duplicates s
               else False))"

section \<open>Model attribution\<close>

record ModelAttributionState =
  ma_model :: "rstr option"
  ma_kind :: SessionModelContextKind
  ma_interval :: SessionModelInterval

definition ModelAttributionState_new :: ModelAttributionState where
  "ModelAttributionState_new = \<lparr>ma_model = None, ma_kind = CtxNone, ma_interval = IntervalNone\<rparr>"

definition invalidate :: "ModelAttributionState \<Rightarrow> ModelAttributionState" where
  "invalidate st = st\<lparr>ma_kind := CtxUnknown, ma_interval := IntervalUnknown\<rparr>"

definition checkpoint_model :: "rstr \<Rightarrow> rstr option" where
  "checkpoint_model model =
     (case normalize_model_name model of
        None \<Rightarrow> None
      | Some m \<Rightarrow> if m \<noteq> lit ''UNATTRIBUTED'' then Some m else None)"

fun widen_interval :: "rstr \<Rightarrow> SessionModelInterval \<Rightarrow> SessionModelInterval" where
  "widen_interval model IntervalNone = IntervalModel model"
| "widen_interval model (IntervalModel previous) = (if previous = model then IntervalModel model else Mixed)"
| "widen_interval model Mixed = Mixed"
| "widen_interval model IntervalUnknown = IntervalUnknown"

text \<open>The result tells whether a recognised context was malformed.\<close>

definition observe_context ::
  "(rstr \<Rightarrow> i64 option) \<Rightarrow> SessionRecordSummary \<Rightarrow> ModelAttributionState \<Rightarrow> bool \<times> ModelAttributionState" where
  "observe_context rfc3339 rec st =
     (let weak = (event_type rec = Some (lit ''thread_settings_applied''))
      in if \<not> weak \<and> \<not> is_one_of (event_type rec) turn_names then (False, st)
         else (case Option.bind (qualified_context_model rfc3339 rec) checkpoint_model of
             None \<Rightarrow> (True, if \<not> weak \<or> ma_kind st \<noteq> Turn then invalidate st else st)
           | Some model \<Rightarrow>
               if weak \<and> ma_kind st \<noteq> CtxNone then (False, st)
               else (False, \<lparr>ma_model = Some model, ma_kind = (if weak then InitialSettings else Turn),
                 ma_interval = widen_interval model (ma_interval st)\<rparr>)))"

definition interval_model :: "ModelAttributionState \<Rightarrow> rstr option" where
  "interval_model st =
     (case ma_interval st of
        IntervalNone \<Rightarrow> if ma_kind st = InitialSettings \<or> ma_kind st = Turn then ma_model st else None
      | IntervalModel model \<Rightarrow> Some model
      | _ \<Rightarrow> None)"

definition start_interval :: "ModelAttributionState \<Rightarrow> ModelAttributionState" where
  "start_interval st = st\<lparr>ma_interval := IntervalNone\<rparr>"

end
