(* ===== verification/Session_Parser.thy ===== *)
theory Session_Parser
  imports Session_Record Security
begin

text \<open>
  The second part of \<open>src/session_input.rs\<close>: the bounded streaming parser that reads one line of a
  session file and keeps its summary. The reader is the list of the bytes it will deliver and what
  it does when they run out: report the end of the file, or fail. A parser is a function on the
  state of \<open>SessionRecordInput\<close> that returns a value or an error together with the next state, because
  the caller looks at the state also after an error. Every loop of the source is an iteration with
  fuel, and a function that calls itself through the containers takes the fuel for its calls;
  \<open>Starved\<close> marks exhausted fuel, which the number of bytes left rules out (\<open>Parser_Framing\<close>).
\<close>

section \<open>State and control\<close>

datatype SessionRecordParseError = Io | Syntax

record SessionRecordInput =
  in_rest :: "u8 list"
  in_fails :: bool
  in_consumed :: u64
  in_saw_bytes :: bool
  in_terminated :: bool
  in_eof :: bool
  in_depth :: nat

datatype 'a outcome = Done 'a | Fail SessionRecordParseError | Starved

type_synonym 'a parser = "SessionRecordInput \<Rightarrow> 'a outcome \<times> SessionRecordInput"

definition SessionRecordInput_new :: "u8 list \<Rightarrow> bool \<Rightarrow> SessionRecordInput" where
  "SessionRecordInput_new bytes fails =
     \<lparr>in_rest = bytes, in_fails = fails, in_consumed = 0, in_saw_bytes = False, in_terminated = False,
      in_eof = False, in_depth = 0\<rparr>"

definition yields :: "'a \<Rightarrow> 'a parser" where
  "yields x i = (Done x, i)"

definition fails :: "SessionRecordParseError \<Rightarrow> 'a parser" where
  "fails e i = (Fail e, i)"

definition pbind :: "'a parser \<Rightarrow> ('a \<Rightarrow> 'b parser) \<Rightarrow> 'b parser" where
  "pbind p f i =
     (case p i of
        (Done x, i') \<Rightarrow> f x i'
      | (Fail e, i') \<Rightarrow> (Fail e, i')
      | (Starved, i') \<Rightarrow> (Starved, i'))"

text \<open>A loop: the body goes on with a new state (\<open>Inl\<close>) or leaves with a result (\<open>Inr\<close>).\<close>

primrec iterate :: "nat \<Rightarrow> ('s \<Rightarrow> ('s + 'a) parser) \<Rightarrow> 's \<Rightarrow> 'a parser" where
  "iterate 0 body s = (\<lambda>i. (Starved, i))"
| "iterate (Suc n) body s =
     pbind (body s) (\<lambda>r. case r of Inl s' \<Rightarrow> iterate n body s' | Inr x \<Rightarrow> yields x)"

section \<open>Bytes\<close>

definition consume :: "nat \<Rightarrow> SessionRecordInput \<Rightarrow> SessionRecordInput" where
  "consume amount i =
     i\<lparr>in_rest := drop amount (in_rest i), in_consumed := saturating_add (in_consumed i) (word_of_nat amount)\<rparr>"

definition peek_byte :: "u8 option parser" where
  "peek_byte i =
     (case in_rest i of
        [] \<Rightarrow> if in_fails i then (Fail Io, i) else (Done None, i\<lparr>in_eof := True\<rparr>)
      | byte # _ \<Rightarrow> (Done (if byte = 10 then None else Some byte), i))"

definition next_byte :: "u8 option parser" where
  "next_byte i =
     (case in_rest i of
        [] \<Rightarrow> if in_fails i then (Fail Io, i) else (Done None, i\<lparr>in_eof := True\<rparr>)
      | byte # _ \<Rightarrow>
          if byte = 10 then (Done None, (consume 1 i)\<lparr>in_terminated := True\<rparr>)
          else (Done (Some byte), (consume 1 i)\<lparr>in_saw_bytes := True\<rparr>))"

definition next_required :: "u8 parser" where
  "next_required = pbind next_byte (\<lambda>b. case b of None \<Rightarrow> fails Syntax | Some byte \<Rightarrow> yields byte)"

text \<open>The next byte of the line is taken when it is one of the expected ones.\<close>

definition accept :: "(u8 \<Rightarrow> bool) \<Rightarrow> u8 option parser" where
  "accept P =
     pbind peek_byte (\<lambda>b. case b of
         Some byte \<Rightarrow> if P byte then pbind next_byte (\<lambda>_. yields (Some byte)) else yields None
       | None \<Rightarrow> yields None)"

definition consume_if :: "u8 \<Rightarrow> bool parser" where
  "consume_if expected = pbind (accept (\<lambda>byte. byte = expected)) (\<lambda>b. yields (b \<noteq> None))"

definition expect_byte :: "u8 \<Rightarrow> unit parser" where
  "expect_byte expected = pbind next_required (\<lambda>byte. if byte \<noteq> expected then fails Syntax else yields ())"

definition is_digit_byte :: "u8 \<Rightarrow> bool" where
  "is_digit_byte byte \<longleftrightarrow> 48 \<le> byte \<and> byte \<le> 57"

definition peek_is :: "(u8 \<Rightarrow> bool) \<Rightarrow> bool parser" where
  "peek_is P = pbind peek_byte (\<lambda>b. yields (case b of None \<Rightarrow> False | Some byte \<Rightarrow> P byte))"

text \<open>The loops that pass over a run of bytes.\<close>

definition skip_while :: "(u8 \<Rightarrow> bool) \<Rightarrow> nat \<Rightarrow> unit parser" where
  "skip_while P n =
     iterate n (\<lambda>_. pbind (accept P) (\<lambda>b. yields (case b of Some _ \<Rightarrow> Inl () | None \<Rightarrow> Inr ()))) ()"

definition skip_whitespace :: "nat \<Rightarrow> unit parser" where
  "skip_whitespace = skip_while (\<lambda>byte. byte = 32 \<or> byte = 9 \<or> byte = 13)"

definition enter_container :: "unit parser" where
  "enter_container i = (if in_depth i \<ge> 128 then (Fail Syntax, i) else (Done (), i\<lparr>in_depth := in_depth i + 1\<rparr>))"

definition leave_container :: "SessionRecordInput \<Rightarrow> SessionRecordInput" where
  "leave_container i = i\<lparr>in_depth := in_depth i - 1\<rparr>"

definition in_container :: "'a parser \<Rightarrow> 'a parser" where
  "in_container p = pbind enter_container (\<lambda>_ i. let (r, i') = p i in (r, leave_container i'))"

section \<open>Characters\<close>

definition hex_digit_value :: "u8 \<Rightarrow> nat option" where
  "hex_digit_value byte =
     (if 48 \<le> byte \<and> byte \<le> 57 then Some (unat byte - 48)
      else if 97 \<le> byte \<and> byte \<le> 102 then Some (unat byte - 87)
      else if 65 \<le> byte \<and> byte \<le> 70 then Some (unat byte - 55)
      else None)"

definition hex_digit :: "nat \<Rightarrow> nat parser" where
  "hex_digit value =
     pbind next_required (\<lambda>byte. case hex_digit_value byte of
       None \<Rightarrow> fails Syntax | Some digit \<Rightarrow> yields (value * 16 + digit))"

definition parse_hex_quad :: "nat parser" where
  "parse_hex_quad = pbind (pbind (pbind (hex_digit 0) hex_digit) hex_digit) hex_digit"

definition parse_unicode_escape :: "scalar parser" where
  "parse_unicode_escape =
     pbind parse_hex_quad (\<lambda>first.
       if 0xD800 \<le> first \<and> first \<le> 0xDBFF then
         pbind (expect_byte 92) (\<lambda>_. pbind (expect_byte 117) (\<lambda>_.
         pbind parse_hex_quad (\<lambda>second.
           if \<not> (0xDC00 \<le> second \<and> second \<le> 0xDFFF) then fails Syntax
           else yields (0x10000 + (first - 0xD800) * 1024 + (second - 0xDC00)))))
       else if 0xDC00 \<le> first \<and> first \<le> 0xDFFF then fails Syntax
       else yields first)"

definition parse_escape_character :: "scalar parser" where
  "parse_escape_character =
     pbind next_required (\<lambda>byte.
       if byte = 34 \<or> byte = 92 \<or> byte = 47 then yields (unat byte)
       else if byte = 98 then yields 8
       else if byte = 102 then yields 12
       else if byte = 110 then yields 10
       else if byte = 114 then yields 13
       else if byte = 116 then yields 9
       else if byte = 117 then parse_unicode_escape
       else fails Syntax)"

definition utf8_length :: "u8 \<Rightarrow> nat option" where
  "utf8_length first =
     (if 0xC2 \<le> first \<and> first \<le> 0xDF then Some 2
      else if 0xE0 \<le> first \<and> first \<le> 0xEF then Some 3
      else if 0xF0 \<le> first \<and> first \<le> 0xF4 then Some 4
      else None)"

primrec read_continuation :: "nat \<Rightarrow> u8 list \<Rightarrow> u8 list parser" where
  "read_continuation 0 bytes = yields bytes"
| "read_continuation (Suc k) bytes =
     pbind next_required (\<lambda>byte.
       if \<not> (0x80 \<le> byte \<and> byte \<le> 0xBF) then fails Syntax else read_continuation k (bytes @ [byte]))"

text \<open>The character the bytes encode; the callers decode it again or ignore it.\<close>

definition read_utf8_character :: "u8 \<Rightarrow> scalar parser" where
  "read_utf8_character first =
     (case utf8_length first of
        None \<Rightarrow> fails Syntax
      | Some k \<Rightarrow>
          pbind (read_continuation (k - 1) [first]) (\<lambda>bytes.
            case from_utf8 bytes of Some [c] \<Rightarrow> yields c | _ \<Rightarrow> fails Syntax))"

text \<open>One character of a string, \<open>None\<close> at the closing quote.\<close>

definition string_character :: "scalar option parser" where
  "string_character =
     pbind next_required (\<lambda>byte.
       if byte = 34 then yields None
       else if byte = 92 then pbind parse_escape_character (\<lambda>c. yields (Some c))
       else if byte < 0x20 then fails Syntax
       else if byte < 0x80 then yields (Some (unat byte))
       else pbind (read_utf8_character byte) (\<lambda>c. yields (Some c)))"

section \<open>Strings\<close>

definition skip_string :: "nat \<Rightarrow> unit parser" where
  "skip_string n =
     pbind (expect_byte 34) (\<lambda>_.
       iterate n (\<lambda>_. pbind string_character (\<lambda>c. yields (case c of None \<Rightarrow> Inr () | Some _ \<Rightarrow> Inl ()))) ())"

text \<open>The text and whether it was cut at the limit of bytes.\<close>

definition text_step :: "nat \<Rightarrow> rstr \<times> bool \<Rightarrow> (rstr \<times> bool + rstr \<times> bool) parser" where
  "text_step limit st =
     pbind string_character (\<lambda>c. yields (case c of
         None \<Rightarrow> Inr st
       | Some ch \<Rightarrow>
           let (text, truncated) = st in
           if str_len text + utf8_width ch \<le> limit then Inl (text @ [ch], truncated) else Inl (text, True)))"

definition parse_text_limit :: "nat \<Rightarrow> nat \<Rightarrow> (rstr \<times> bool) parser" where
  "parse_text_limit n limit = pbind (expect_byte 34) (\<lambda>_. iterate n (text_step limit) ([], False))"

definition parse_text :: "nat \<Rightarrow> (rstr \<times> bool) parser" where
  "parse_text n = parse_text_limit n MAX_SESSION_MODEL_BYTES"

text \<open>The candidates that still agree with the characters read, and the number of these.\<close>

definition match_character :: "nat \<Rightarrow> scalar \<Rightarrow> bool list \<Rightarrow> bool list" where
  "match_character len c agree =
     (if c < 0x80
      then map2 (\<lambda>m (candidate, _). m \<and> len < length candidate \<and> candidate ! len = c) agree SESSION_JSON_KEYS
      else map (\<lambda>_. False) agree)"

definition key_step :: "bool list \<times> nat \<Rightarrow> (bool list \<times> nat + bool list \<times> nat) parser" where
  "key_step st =
     pbind string_character (\<lambda>c. yields (case c of
         None \<Rightarrow> Inr st
       | Some ch \<Rightarrow> let (agree, len) = st in Inl (match_character len ch agree, len + 1)))"

definition matched_key :: "bool list \<times> nat \<Rightarrow> SessionJsonKey" where
  "matched_key st =
     (let (agree, len) = st in
      case List.find (\<lambda>(m, candidate, _). m \<and> length candidate = len) (zip agree SESSION_JSON_KEYS) of
        None \<Rightarrow> KOther | Some (_, _, k) \<Rightarrow> k)"

definition parse_key :: "nat \<Rightarrow> SessionJsonKey parser" where
  "parse_key n =
     pbind (expect_byte 34) (\<lambda>_.
     pbind (iterate n key_step (map (\<lambda>_. True) SESSION_JSON_KEYS, 0)) (\<lambda>st. yields (matched_key st)))"

definition scalar_step :: "nat \<Rightarrow> nat \<Rightarrow> (nat + nat) parser" where
  "scalar_step max_n n =
     pbind string_character (\<lambda>c. yields (case c of None \<Rightarrow> Inr n | Some _ \<Rightarrow> Inl (min (n + 1) (max_n + 1))))"

definition builder_step :: "ModelNameBuilder \<Rightarrow> (ModelNameBuilder + rstr option) parser" where
  "builder_step b =
     pbind string_character (\<lambda>c. yields (case c of None \<Rightarrow> Inr (finish b) | Some ch \<Rightarrow> Inl (push b ch)))"

section \<open>Numbers, literals and skipped values\<close>

definition push_digit :: "u64 \<times> bool \<Rightarrow> u8 \<Rightarrow> u64 \<times> bool" where
  "push_digit st byte =
     (let (value, overflow) = st in
      case word_of_nat_checked (unat value * 10 + (unat byte - 48)) of
        Some next_value \<Rightarrow> (next_value, overflow)
      | None \<Rightarrow> (value, True))"

definition digits_step :: "u64 \<times> bool \<Rightarrow> (u64 \<times> bool + u64 \<times> bool) parser" where
  "digits_step st =
     pbind (accept is_digit_byte) (\<lambda>b. yields (case b of
         Some byte \<Rightarrow> Inl (push_digit st byte)
       | None \<Rightarrow> Inr st))"

definition parse_integer_part :: "nat \<Rightarrow> (u64 \<times> bool) parser" where
  "parse_integer_part n =
     pbind next_required (\<lambda>byte.
       if byte = 48 then
         pbind (peek_is is_digit_byte) (\<lambda>more. if more then fails Syntax else yields (0, False))
       else if is_digit_byte byte then iterate n digits_step (word_of_nat (unat byte - 48), False)
       else fails Syntax)"

definition skip_digits :: "nat \<Rightarrow> unit parser" where
  "skip_digits n =
     pbind (peek_is is_digit_byte) (\<lambda>more. if \<not> more then fails Syntax else skip_while is_digit_byte n)"

definition parse_fraction :: "nat \<Rightarrow> bool parser" where
  "parse_fraction n =
     pbind (consume_if 46) (\<lambda>dot. if dot then pbind (skip_digits n) (\<lambda>_. yields True) else yields False)"

definition parse_exponent :: "nat \<Rightarrow> bool parser" where
  "parse_exponent n =
     pbind (accept (\<lambda>byte. byte = 101 \<or> byte = 69)) (\<lambda>e.
       if e = None then yields False
       else pbind (consume_if 43) (\<lambda>plus.
         pbind (if plus then yields False else consume_if 45) (\<lambda>_.
         pbind (skip_digits n) (\<lambda>_. yields True))))"

definition parse_number :: "nat \<Rightarrow> u64 option parser" where
  "parse_number n =
     pbind (consume_if 45) (\<lambda>negative.
     pbind (parse_integer_part n) (\<lambda>(value, overflow).
     pbind (parse_fraction n) (\<lambda>fraction.
     pbind (parse_exponent n) (\<lambda>exponent.
     yields (if \<not> negative \<and> \<not> fraction \<and> \<not> exponent \<and> \<not> overflow then Some value else None)))))"

primrec parse_literal :: "u8 list \<Rightarrow> unit parser" where
  "parse_literal [] = yields ()"
| "parse_literal (expected # literal) = pbind (expect_byte expected) (\<lambda>_. parse_literal literal)"

text \<open>
  The end of an item of a container: the loop leaves at the closing byte and goes on after a
  comma, which must not stand before the closing byte.
\<close>

definition next_item :: "nat \<Rightarrow> u8 \<Rightarrow> 's \<Rightarrow> ('s + 's) parser" where
  "next_item n closing s =
     pbind (skip_whitespace n) (\<lambda>_.
     pbind (consume_if closing) (\<lambda>closed.
       if closed then yields (Inr s)
       else pbind (consume_if 44) (\<lambda>comma.
         if \<not> comma then fails Syntax
         else pbind (skip_whitespace n) (\<lambda>_.
           pbind (peek_is (\<lambda>byte. byte = closing)) (\<lambda>trailing.
             if trailing then fails Syntax else yields (Inl s))))))"

text \<open>The items of a container, with the parser of one item.\<close>

definition parse_items :: "nat \<Rightarrow> u8 \<Rightarrow> u8 \<Rightarrow> ('s \<Rightarrow> 's parser) \<Rightarrow> 's \<Rightarrow> 's parser" where
  "parse_items n opening closing item s =
     in_container
       (pbind (expect_byte opening) (\<lambda>_.
        pbind (skip_whitespace n) (\<lambda>_.
        pbind (consume_if closing) (\<lambda>closed.
          if closed then yields s
          else iterate n (\<lambda>s. pbind (item s) (next_item n closing)) s))))"

definition skip_object :: "nat \<Rightarrow> unit parser \<Rightarrow> unit parser" where
  "skip_object n skip =
     parse_items n 123 125 (\<lambda>_.
       pbind (skip_string n) (\<lambda>_. pbind (skip_whitespace n) (\<lambda>_. pbind (expect_byte 58) (\<lambda>_. skip)))) ()"

definition skip_array :: "nat \<Rightarrow> unit parser \<Rightarrow> unit parser" where
  "skip_array n skip = parse_items n 91 93 (\<lambda>_. skip) ()"

fun skip_value :: "nat \<Rightarrow> unit parser" where
  "skip_value 0 = (\<lambda>i. (Starved, i))"
| "skip_value (Suc n) =
     pbind (skip_whitespace (Suc n)) (\<lambda>_.
     pbind peek_byte (\<lambda>b. case b of
         None \<Rightarrow> fails Syntax
       | Some byte \<Rightarrow>
           if byte = 34 then skip_string (Suc n)
           else if byte = 123 then skip_object (Suc n) (skip_value n)
           else if byte = 91 then skip_array (Suc n) (skip_value n)
           else if byte = 110 then parse_literal [110, 117, 108, 108]
           else if byte = 116 then parse_literal [116, 114, 117, 101]
           else if byte = 102 then parse_literal [102, 97, 108, 115, 101]
           else if byte = 45 \<or> is_digit_byte byte then pbind (parse_number (Suc n)) (\<lambda>_. yields ())
           else fails Syntax))"

section \<open>Values of a field\<close>

definition parse_text_value :: "nat \<Rightarrow> (rstr option \<times> bool) parser" where
  "parse_text_value n =
     pbind peek_byte (\<lambda>b.
       if b = Some 34 then pbind (parse_text n) (\<lambda>(value, truncated). yields (Some value, truncated))
       else pbind (skip_value n) (\<lambda>_. yields (None, b \<noteq> Some 110)))"

definition parse_identifier_value :: "nat \<Rightarrow> (rstr option \<times> bool) parser" where
  "parse_identifier_value n =
     pbind peek_byte (\<lambda>b.
       if b \<noteq> Some 34 then parse_text_value n
       else pbind (parse_text_limit n (512 * 4)) (\<lambda>(value, truncated).
         let valid = \<not> truncated \<and> valid_identifier value
         in yields (if valid then Some value else None, \<not> valid)))"

definition parse_model_value :: "nat \<Rightarrow> (rstr option \<times> bool) parser" where
  "parse_model_value n =
     pbind peek_byte (\<lambda>b.
       if b \<noteq> Some 34 then parse_text_value n
       else pbind next_required (\<lambda>_.
         pbind (iterate n builder_step builder_default) (\<lambda>model. yields (model, model = None))))"

definition parse_u64_value :: "nat \<Rightarrow> (u64 option \<times> bool) parser" where
  "parse_u64_value n =
     pbind peek_byte (\<lambda>b. case b of
         None \<Rightarrow> fails Syntax
       | Some byte \<Rightarrow>
           if byte = 45 \<or> is_digit_byte byte
           then pbind (parse_number n) (\<lambda>value. yields (value, value = None))
           else pbind (skip_value n) (\<lambda>_. yields (None, byte \<noteq> 110)))"

definition parse_signed_shape :: "nat \<Rightarrow> bool \<Rightarrow> bool parser" where
  "parse_signed_shape n nullable =
     pbind peek_byte (\<lambda>b.
       if b = Some 110 then pbind (skip_value n) (\<lambda>_. yields nullable)
       else if \<not> (case b of None \<Rightarrow> False | Some byte \<Rightarrow> byte = 45 \<or> is_digit_byte byte)
       then pbind (skip_value n) (\<lambda>_. yields False)
       else pbind (consume_if 45) (\<lambda>negative.
         pbind (peek_is is_digit_byte) (\<lambda>digit.
           if \<not> digit then fails Syntax
           else pbind (parse_number n) (\<lambda>magnitude.
             yields (case magnitude of
                 None \<Rightarrow> False | Some v \<Rightarrow> unat v \<le> 2 ^ 63 - 1 + (if negative then 1 else 0))))))"

definition parse_string_scalar_shape :: "nat \<Rightarrow> nat \<Rightarrow> nat \<Rightarrow> bool parser" where
  "parse_string_scalar_shape n min_n max_n =
     pbind peek_byte (\<lambda>b.
       if b \<noteq> Some 34 then pbind (skip_value n) (\<lambda>_. yields False)
       else pbind next_required (\<lambda>_.
         pbind (iterate n (scalar_step max_n) 0) (\<lambda>k. yields (min_n \<le> k \<and> k \<le> max_n))))"

definition shape_item :: "nat \<Rightarrow> u64 \<times> bool \<Rightarrow> (u64 \<times> bool) parser" where
  "shape_item n st =
     pbind (peek_is (\<lambda>byte. byte = 123)) (\<lambda>obj.
     pbind (skip_value n) (\<lambda>_.
       case checked_add (fst st) 1 of None \<Rightarrow> fails Syntax | Some k \<Rightarrow> yields (k, snd st \<and> obj)))"

definition parse_object_array_shape :: "nat \<Rightarrow> (u64 option \<times> bool) parser" where
  "parse_object_array_shape n =
     pbind peek_byte (\<lambda>b.
       if b = Some 110 then pbind (skip_value n) (\<lambda>_. yields (None, True))
       else if b \<noteq> Some 91 then pbind (skip_value n) (\<lambda>_. yields (None, False))
       else pbind (parse_items n 91 93 (shape_item n) (0, True)) (\<lambda>(k, valid). yields (Some k, valid)))"

section \<open>Fields of the objects\<close>

type_synonym object_parser = "SessionJsonObject \<Rightarrow> SessionRecordSummary \<Rightarrow> SessionRecordSummary parser"

definition map_response ::
  "bool \<Rightarrow> (ResponsePayloadSummary \<Rightarrow> ResponsePayloadSummary) \<Rightarrow> SessionRecordSummary \<Rightarrow> SessionRecordSummary" where
  "map_response snapshot f =
     map_payload (\<lambda>p. if snapshot then p\<lparr>ps_snapshot := f (ps_snapshot p)\<rparr> else p\<lparr>ps_response := f (ps_response p)\<rparr>)"

definition map_noop :: "(NoOpShape \<Rightarrow> NoOpShape) \<Rightarrow> SessionRecordSummary \<Rightarrow> SessionRecordSummary" where
  "map_noop f = map_payload (\<lambda>p. p\<lparr>ps_noop := f (ps_noop p)\<rparr>)"

definition map_goal :: "(GoalShape \<Rightarrow> GoalShape) \<Rightarrow> SessionRecordSummary \<Rightarrow> SessionRecordSummary" where
  "map_goal f = map_noop (\<lambda>n. n\<lparr>ns_goal := f (ns_goal n)\<rparr>)"

text \<open>An object value is parsed, any other value skipped; the flag tells which.\<close>

definition object_or_skip ::
  "nat \<Rightarrow> object_parser \<Rightarrow> SessionJsonObject \<Rightarrow> (bool \<Rightarrow> SessionRecordSummary) \<Rightarrow>
   (bool \<times> SessionRecordSummary) parser" where
  "object_or_skip n obj object s =
     pbind (peek_is (\<lambda>byte. byte = 123)) (\<lambda>is_object.
       if is_object then pbind (obj object (s True)) (\<lambda>s'. yields (True, s'))
       else pbind (skip_value n) (\<lambda>_. yields (False, s False)))"

fun set_identifier :: "SessionJsonKey \<Rightarrow> rstr option \<Rightarrow> ResponsePayloadSummary \<Rightarrow> ResponsePayloadSummary" where
  "set_identifier KThreadId value r = r\<lparr>rps_thread_id := value\<rparr>"
| "set_identifier KSessionId value r = r\<lparr>rps_session_id_seen := True, rps_session_id := value\<rparr>"
| "set_identifier KTurnId value r = r\<lparr>rps_turn_id := value\<rparr>"
| "set_identifier KRootTurnId value r = r\<lparr>rps_root_turn_id := value\<rparr>"
| "set_identifier KResponseId value r = r\<lparr>rps_response_id := value\<rparr>"
| "set_identifier _ value r = r"

fun map_usage_of :: "SessionJsonKey \<Rightarrow> (TokenUsageSummary \<Rightarrow> TokenUsageSummary) \<Rightarrow> ResponsePayloadSummary \<Rightarrow>
    ResponsePayloadSummary" where
  "map_usage_of KUsage f r = r\<lparr>rps_usage := f (rps_usage r)\<rparr>"
| "map_usage_of KTurnTokenUsage f r = r\<lparr>rps_turn_usage := f (rps_turn_usage r)\<rparr>"
| "map_usage_of KThreadTokenUsage f r = r\<lparr>rps_thread_usage := f (rps_thread_usage r)\<rparr>"
| "map_usage_of _ f r = r"

fun usage_object :: "SessionJsonKey \<Rightarrow> bool \<Rightarrow> SessionJsonObject" where
  "usage_object KTurnTokenUsage snapshot = ObjResponseTurnUsage snapshot"
| "usage_object KThreadTokenUsage snapshot = ObjResponseThreadUsage snapshot"
| "usage_object _ snapshot = ObjResponseUsage snapshot"

definition parse_response_field ::
  "nat \<Rightarrow> object_parser \<Rightarrow> SessionJsonKey \<Rightarrow> bool \<Rightarrow> SessionRecordSummary \<Rightarrow> SessionRecordSummary parser" where
  "parse_response_field n obj k snapshot s =
     (if k \<in> {KThreadId, KSessionId, KTurnId, KRootTurnId, KResponseId} then
        pbind (parse_identifier_value n) (\<lambda>(value, malformed).
          yields (map_response snapshot (\<lambda>r. set_identifier k value
            (if malformed then r\<lparr>rps_malformed_identifiers := or (rps_malformed_identifiers r) (key_bit k)\<rparr> else r)) s))
      else if k \<in> {KUsage, KTurnTokenUsage, KThreadTokenUsage} then
        pbind (object_or_skip n obj (usage_object k snapshot) (\<lambda>is_object.
          map_response snapshot (map_usage_of k (\<lambda>_. TokenUsageSummary_default\<lparr>tu_malformed := \<not> is_object\<rparr>)) s))
          (\<lambda>(_, s'). yields s')
      else pbind (skip_value n) (\<lambda>_. yields s))"

definition string_shape :: "nat \<Rightarrow> (u8 \<Rightarrow> bool) \<Rightarrow> bool parser" where
  "string_shape n P = pbind (peek_is P) (\<lambda>valid. pbind (skip_value n) (\<lambda>_. yields valid))"

definition parse_noop_value ::
  "nat \<Rightarrow> object_parser \<Rightarrow> SessionJsonKey \<Rightarrow> SessionRecordSummary \<Rightarrow> (bool \<times> SessionRecordSummary) parser" where
  "parse_noop_value n obj k s =
     (if k \<in> {KMessage, KText, KItemId} then pbind (string_shape n (\<lambda>b. b = 34)) (\<lambda>valid. yields (valid, s))
      else if k \<in> {KFull, KTriggerTurn} then
        pbind (string_shape n (\<lambda>b. b = 116 \<or> b = 102)) (\<lambda>valid. yields (valid, s))
      else if k = KState then pbind (skip_value n) (\<lambda>_. yields (True, s))
      else if k = KItem then pbind (string_shape n (\<lambda>b. b = 123)) (\<lambda>valid. yields (valid, s))
      else if k \<in> {KThreadIdCamel, KTurnIdCamel} then
        pbind (parse_identifier_value n) (\<lambda>(value, malformed).
          yields (\<not> malformed \<and> (k = KTurnIdCamel \<or> value \<noteq> None),
            if k = KThreadIdCamel then map_noop (\<lambda>x. x\<lparr>ns_thread_id := value\<rparr>) s else s))
      else if k = KGoal then object_or_skip n obj ObjGoal (\<lambda>_. map_goal (\<lambda>_. GoalShape_default) s)
      else if k = KSummaryIndex then pbind (parse_signed_shape n False) (\<lambda>valid. yields (valid, s))
      else if k \<in> {KStartedAtMs, KCompletedAtMs} then
        pbind (parse_u64_value n) (\<lambda>(value, malformed).
          yields (\<not> malformed \<and> pred_option (\<lambda>v. unat v \<le> 2 ^ 63 - 1) value \<and> (k = KStartedAtMs \<or> value \<noteq> None), s))
      else if k = KWindowNumber then pbind (parse_u64_value n) (\<lambda>(_, malformed). yields (\<not> malformed, s))
      else if k \<in> {KFirstWindowId, KPreviousWindowId} then
        pbind (parse_identifier_value n) (\<lambda>(_, malformed). yields (\<not> malformed, s))
      else if k = KWindowId then
        pbind (peek_is (\<lambda>b. b = 34)) (\<lambda>text.
          if text then pbind (parse_identifier_value n) (\<lambda>(_, malformed). yields (\<not> malformed, s))
          else pbind (parse_u64_value n) (\<lambda>(_, malformed). yields (\<not> malformed, s)))
      else
        pbind (parse_object_array_shape n) (\<lambda>(k', valid).
          yields (valid, map_noop (\<lambda>x. if k = KReplacementHistory then x\<lparr>ns_replacement_history := k'\<rparr>
                                       else x\<lparr>ns_replacement_metadata := k'\<rparr>) s)))"

definition noop_field_keys :: "SessionJsonKey list" where
  "noop_field_keys =
     [KMessage, KText, KFull, KState, KTriggerTurn, KReplacementHistory, KReplacementHistoryMetadata, KWindowNumber,
      KWindowId, KFirstWindowId, KPreviousWindowId, KThreadIdCamel, KTurnIdCamel, KGoal, KItem, KStartedAtMs,
      KCompletedAtMs, KItemId, KSummaryIndex]"

definition parse_noop_field ::
  "nat \<Rightarrow> object_parser \<Rightarrow> SessionJsonKey \<Rightarrow> SessionRecordSummary \<Rightarrow> SessionRecordSummary parser" where
  "parse_noop_field n obj k s =
     (if k \<in> set noop_field_keys
      then pbind (parse_noop_value n obj k s) (\<lambda>(valid, s'). yields (map_noop (NoOpShape_field k valid) s'))
      else pbind (skip_value n) (\<lambda>_. yields s))"

definition goal_statuses :: "rstr list" where
  "goal_statuses = [lit ''active'', lit ''paused'', lit ''blocked'', lit ''usageLimited'', lit ''budgetLimited'', lit ''complete'']"

definition parse_goal_value ::
  "nat \<Rightarrow> SessionJsonKey \<Rightarrow> SessionRecordSummary \<Rightarrow> (bool \<times> SessionRecordSummary) parser" where
  "parse_goal_value n k s =
     (if k = KThreadIdCamel then
        pbind (parse_identifier_value n) (\<lambda>(value, malformed).
          yields (\<not> malformed \<and> value \<noteq> None, map_goal (\<lambda>g. g\<lparr>gs_thread_id := value\<rparr>) s))
      else if k = KObjective then pbind (parse_string_scalar_shape n 1 4000) (\<lambda>valid. yields (valid, s))
      else if k = KStatus then
        pbind (parse_text_value n) (\<lambda>(value, malformed). yields (\<not> malformed \<and> is_one_of value goal_statuses, s))
      else pbind (parse_signed_shape n (k = KTokenBudget)) (\<lambda>valid. yields (valid, s)))"

definition parse_goal_field :: "nat \<Rightarrow> SessionJsonKey \<Rightarrow> SessionRecordSummary \<Rightarrow> SessionRecordSummary parser" where
  "parse_goal_field n k s =
     (if k \<notin> set goal_keys then pbind (skip_value n) (\<lambda>_. yields s)
      else pbind (parse_goal_value n k s) (\<lambda>(valid, s').
        yields (map_goal (\<lambda>g. g\<lparr>gs_seen := or (gs_seen g) (key_bit k),
          gs_malformed := (if valid then gs_malformed g else or (gs_malformed g) (key_bit k))\<rparr>) s')))"

definition parse_root_value ::
  "nat \<Rightarrow> object_parser \<Rightarrow> SessionJsonKey \<Rightarrow> SessionRecordSummary \<Rightarrow> SessionRecordSummary parser" where
  "parse_root_value n obj k s =
     (if k = KType then pbind (parse_text_value n) (\<lambda>(value, _). yields (s\<lparr>sr_outer_type := value\<rparr>))
      else if k = KMetadata then
        pbind peek_byte (\<lambda>b. pbind (skip_value n) (\<lambda>_.
          yields (s\<lparr>sr_response_metadata_seen := True, sr_response_metadata_null := (b = Some 110),
                    sr_response_metadata_object := (b = Some 123)\<rparr>)))
      else if k = KOrdinal then
        pbind (parse_u64_value n) (\<lambda>(_, malformed).
          yields (s\<lparr>sr_ordinal_seen := True, sr_ordinal_malformed := (sr_ordinal_malformed s \<or> malformed)\<rparr>))
      else if k = KTimestamp then
        pbind (parse_text_value n) (\<lambda>(value, malformed).
          yields (s\<lparr>sr_timestamp_seen := True, sr_timestamp := value, sr_timestamp_malformed := malformed\<rparr>))
      else if k = KModel then
        pbind (parse_model_value n) (\<lambda>(value, malformed).
          yields (s\<lparr>sr_root_model_seen := True, sr_root_model := value, sr_root_model_malformed := malformed\<rparr>))
      else if k = KPayload then
        pbind (object_or_skip n obj ObjPayload (\<lambda>is_object.
          s\<lparr>sr_payload_seen := True, sr_payload := PayloadSummary_default, sr_payload_object := is_object\<rparr>))
          (\<lambda>(_, s'). yields s')
      else pbind (skip_value n) (\<lambda>_. yields (s\<lparr>sr_unknown_envelope_field := True\<rparr>)))"

text \<open>Fields of the payload with a value of their own.\<close>

definition parse_payload_text ::
  "(u8 list \<Rightarrow> u8 list) \<Rightarrow> nat \<Rightarrow> SessionJsonKey \<Rightarrow> PayloadSummary \<Rightarrow> PayloadSummary parser" where
  "parse_payload_text sha256 n k p =
     (if k = KRole then
        pbind (parse_text_value n) (\<lambda>(value, truncated).
          yields (p\<lparr>ps_noop := (ps_noop p)\<lparr>ns_role_seen := True, ns_role_is_string := (value \<noteq> None),
            ns_role_is_user := (\<not> truncated \<and> value = Some (lit ''user''))\<rparr>\<rparr>))
      else if k = KId then
        pbind (parse_identifier_value n) (\<lambda>(value, malformed).
          yields (p\<lparr>ps_metadata_id := value, ps_metadata_id_malformed := malformed\<rparr>))
      else if k = KCreatorAccountId then
        pbind (parse_identifier_value n) (\<lambda>(value, malformed).
          yields (p\<lparr>ps_creator_account_sha256 :=
            (if malformed then None else map_option (\<lambda>v. sha256 (as_bytes v)) value)\<rparr>))
      else if k = KForkedFromId then
        pbind (parse_identifier_value n) (\<lambda>(value, malformed).
          yields (p\<lparr>ps_forked_from_id := value, ps_forked_from_id_malformed := malformed\<rparr>))
      else if k = KType then
        pbind (parse_text_value n) (\<lambda>(value, malformed).
          yields (p\<lparr>ps_event_type_seen := True, ps_event_type := value, ps_event_type_malformed := malformed\<rparr>))
      else if k = KModel then
        pbind (parse_model_value n) (\<lambda>(value, malformed).
          yields (p\<lparr>ps_model_seen := True, ps_model := value, ps_model_malformed := malformed\<rparr>))
      else
        pbind peek_byte (\<lambda>b. pbind (skip_value n) (\<lambda>_.
          yields (p\<lparr>ps_history_base_seen := True, ps_history_base_non_null := (b \<noteq> Some 110)\<rparr>))))"

definition payload_text_keys :: "SessionJsonKey list" where
  "payload_text_keys = [KRole, KId, KCreatorAccountId, KForkedFromId, KType, KModel, KHistoryBase]"

text \<open>Fields of the payload that hold an object.\<close>

definition parse_payload_object ::
  "nat \<Rightarrow> object_parser \<Rightarrow> SessionJsonKey \<Rightarrow> SessionRecordSummary \<Rightarrow> SessionRecordSummary parser" where
  "parse_payload_object n obj k s =
     (if k = KLatestTokenUsageRecord then
        pbind peek_byte (\<lambda>b.
          pbind (object_or_skip n obj ObjResponseSnapshot (\<lambda>_.
            map_payload (\<lambda>p. p\<lparr>ps_snapshot_non_null := (b \<noteq> Some 110), ps_snapshot := ResponsePayloadSummary_default\<rparr>) s))
            (\<lambda>(_, s'). yields s'))
      else if k = KThreadSettings then
        pbind (object_or_skip n obj ObjThreadSettings (\<lambda>is_object.
          map_payload (\<lambda>p. p\<lparr>ps_thread_settings_seen := True, ps_thread_settings_model := None,
            ps_thread_settings_model_seen := False, ps_thread_settings_model_malformed := False,
            ps_thread_settings_object := is_object\<rparr>) s)) (\<lambda>(_, s'). yields s')
      else
        pbind peek_byte (\<lambda>b.
          pbind (object_or_skip n obj ObjInfo (\<lambda>is_object.
            map_payload (\<lambda>p. p\<lparr>ps_info_seen := True, ps_info_null := (b = Some 110), ps_info_object := is_object,
              ps_token_usage_seen := False, ps_token_usage_object := False,
              ps_token_usage := TokenUsageSummary_default\<rparr>) s)) (\<lambda>(_, s'). yields s')))"

definition payload_object_keys :: "SessionJsonKey list" where
  "payload_object_keys = [KLatestTokenUsageRecord, KThreadSettings, KInfo]"

definition parse_payload_value ::
  "(u8 list \<Rightarrow> u8 list) \<Rightarrow> nat \<Rightarrow> object_parser \<Rightarrow> SessionJsonKey \<Rightarrow> SessionRecordSummary \<Rightarrow>
   SessionRecordSummary parser" where
  "parse_payload_value sha256 n obj k s =
     (if k \<in> set noop_field_keys then parse_noop_field n obj k s
      else if response_field k then parse_response_field n obj k False s
      else if k \<in> set payload_text_keys then
        pbind (parse_payload_text sha256 n k (sr_payload s)) (\<lambda>p. yields (s\<lparr>sr_payload := p\<rparr>))
      else if k \<in> set payload_object_keys then parse_payload_object n obj k s
      else pbind (skip_value n) (\<lambda>_. yields s))"

definition parse_thread_settings_value :: "nat \<Rightarrow> SessionJsonKey \<Rightarrow> SessionRecordSummary \<Rightarrow> SessionRecordSummary parser" where
  "parse_thread_settings_value n k s =
     (if k = KModel then
        pbind (parse_model_value n) (\<lambda>(value, malformed).
          yields (map_payload (\<lambda>p. p\<lparr>ps_thread_settings_model_seen := True, ps_thread_settings_model := value,
            ps_thread_settings_model_malformed := malformed\<rparr>) s))
      else pbind (skip_value n) (\<lambda>_. yields s))"

definition close_usage :: "bool \<Rightarrow> TokenUsageSummary \<Rightarrow> TokenUsageSummary" where
  "close_usage is_object u = (if \<not> is_object \<or> \<not> tu_total_seen u then u\<lparr>tu_malformed := True\<rparr> else u)"

definition parse_info_value ::
  "nat \<Rightarrow> object_parser \<Rightarrow> SessionJsonKey \<Rightarrow> SessionRecordSummary \<Rightarrow> SessionRecordSummary parser" where
  "parse_info_value n obj k s =
     (if k = KTotalTokenUsage then
        pbind (object_or_skip n obj ObjTokenUsage (\<lambda>is_object.
          map_payload (\<lambda>p. p\<lparr>ps_token_usage_seen := True, ps_token_usage_object := is_object,
            ps_token_usage := TokenUsageSummary_default\<rparr>) s)) (\<lambda>(is_object, s').
          yields (map_payload (\<lambda>p. p\<lparr>ps_token_usage := close_usage is_object (ps_token_usage p)\<rparr>) s'))
      else if k = KLastTokenUsage then
        pbind peek_byte (\<lambda>b.
        pbind (object_or_skip n obj ObjLastTokenUsage (\<lambda>is_object.
          map_payload (\<lambda>p. p\<lparr>ps_last_token_usage_seen := True, ps_last_token_usage_null := (b = Some 110),
            ps_last_token_usage_object := is_object, ps_last_token_usage := TokenUsageSummary_default\<rparr>) s))
          (\<lambda>(is_object, s').
            yields (map_payload (\<lambda>p. p\<lparr>ps_last_token_usage := close_usage is_object (ps_last_token_usage p)\<rparr>) s')))
      else if k = KModelContextWindow then
        pbind (parse_u64_value n) (\<lambda>(value, malformed).
          yields (map_payload (\<lambda>p. p\<lparr>ps_context_window_seen := True, ps_context_window := value,
            ps_context_window_malformed := malformed\<rparr>) s))
      else pbind (skip_value n) (\<lambda>_. yields s))"

fun map_usage :: "SessionJsonObject \<Rightarrow> (TokenUsageSummary \<Rightarrow> TokenUsageSummary) \<Rightarrow> SessionRecordSummary \<Rightarrow>
    SessionRecordSummary" where
  "map_usage ObjTokenUsage f s = map_payload (\<lambda>p. p\<lparr>ps_token_usage := f (ps_token_usage p)\<rparr>) s"
| "map_usage ObjLastTokenUsage f s = map_payload (\<lambda>p. p\<lparr>ps_last_token_usage := f (ps_last_token_usage p)\<rparr>) s"
| "map_usage (ObjResponseUsage snapshot) f s = map_response snapshot (map_usage_of KUsage f) s"
| "map_usage (ObjResponseTurnUsage snapshot) f s = map_response snapshot (map_usage_of KTurnTokenUsage f) s"
| "map_usage (ObjResponseThreadUsage snapshot) f s = map_response snapshot (map_usage_of KThreadTokenUsage f) s"
| "map_usage _ f s = s"

fun set_component :: "SessionJsonKey \<Rightarrow> u64 option \<Rightarrow> bool \<Rightarrow> TokenUsageSummary \<Rightarrow> TokenUsageSummary" where
  "set_component KTotalTokens value malformed u =
     u\<lparr>tu_total_seen := True, tu_total := value, tu_malformed := (tu_malformed u \<or> malformed \<or> value = None)\<rparr>"
| "set_component KCacheWriteInputTokens value malformed u =
     u\<lparr>tu_cache_write_input := value, tu_malformed := (tu_malformed u \<or> malformed)\<rparr>"
| "set_component KInputTokens value malformed u =
     u\<lparr>tu_input := value, tu_malformed := (tu_malformed u \<or> malformed)\<rparr>"
| "set_component KCachedInputTokens value malformed u =
     u\<lparr>tu_cached_input := value, tu_malformed := (tu_malformed u \<or> malformed)\<rparr>"
| "set_component KOutputTokens value malformed u =
     u\<lparr>tu_output := value, tu_malformed := (tu_malformed u \<or> malformed)\<rparr>"
| "set_component KReasoningOutputTokens value malformed u =
     u\<lparr>tu_reasoning_output := value, tu_reasoning_malformed := (tu_reasoning_malformed u \<or> malformed)\<rparr>"
| "set_component _ value malformed u = u"

definition parse_usage_value ::
  "nat \<Rightarrow> SessionJsonObject \<Rightarrow> SessionJsonKey \<Rightarrow> SessionRecordSummary \<Rightarrow> SessionRecordSummary parser" where
  "parse_usage_value n object k s =
     (if token_component k \<or> k = KReasoningOutputTokens then
        pbind (parse_u64_value n) (\<lambda>(value, malformed). yields (map_usage object (set_component k value malformed) s))
      else pbind (skip_value n) (\<lambda>_. yields s))"

definition parse_object_value ::
  "(u8 list \<Rightarrow> u8 list) \<Rightarrow> nat \<Rightarrow> object_parser \<Rightarrow> SessionJsonObject \<Rightarrow> SessionJsonKey \<Rightarrow> SessionRecordSummary \<Rightarrow>
   SessionRecordSummary parser" where
  "parse_object_value sha256 n obj object k s =
     (case object of
        ObjRoot \<Rightarrow> parse_root_value n obj k s
      | ObjPayload \<Rightarrow> parse_payload_value sha256 n obj k s
      | ObjThreadSettings \<Rightarrow> parse_thread_settings_value n k s
      | ObjInfo \<Rightarrow> parse_info_value n obj k s
      | ObjGoal \<Rightarrow> parse_goal_field n k s
      | ObjResponseSnapshot \<Rightarrow> parse_response_field n obj k True s
      | _ \<Rightarrow> parse_usage_value n object k s)"

definition parse_entry ::
  "(u8 list \<Rightarrow> u8 list) \<Rightarrow> nat \<Rightarrow> object_parser \<Rightarrow> SessionJsonObject \<Rightarrow> u64 \<times> SessionRecordSummary \<Rightarrow>
   (u64 \<times> SessionRecordSummary) parser" where
  "parse_entry sha256 n obj object st =
     pbind (parse_key n) (\<lambda>k.
       let (seen, s) = st;
           s = (if k \<noteq> KOther \<and> has_key seen k then observe_duplicate object k s else s);
           seen = (if k \<noteq> KOther then or seen (key_bit k) else seen)
       in pbind (skip_whitespace n) (\<lambda>_.
          pbind (expect_byte 58) (\<lambda>_.
          pbind (skip_whitespace n) (\<lambda>_.
          pbind (parse_object_value sha256 n obj object k s) (\<lambda>s'. yields (seen, s'))))))"

fun parse_object :: "(u8 list \<Rightarrow> u8 list) \<Rightarrow> nat \<Rightarrow> object_parser" where
  "parse_object sha256 0 object s = (\<lambda>i. (Starved, i))"
| "parse_object sha256 (Suc n) object s =
     pbind (parse_items (Suc n) 123 125 (parse_entry sha256 (Suc n) (parse_object sha256 n) object) (0, s))
       (\<lambda>(_, s'). yields s')"

definition finish_summary :: "SessionRecordSummary \<Rightarrow> SessionRecordSummary" where
  "finish_summary s =
     (let s = s\<lparr>sr_duplicate_fields := important_duplicates s\<rparr>
      in if sr_response_metadata_seen s \<and> sr_outer_type s \<noteq> Some (lit ''response_item'')
         then s\<lparr>sr_unknown_envelope_field := True\<rparr> else s)"

definition parse_record :: "(u8 list \<Rightarrow> u8 list) \<Rightarrow> nat \<Rightarrow> SessionRecordSummary parser" where
  "parse_record sha256 n =
     pbind (skip_whitespace n) (\<lambda>_.
     pbind peek_byte (\<lambda>b.
     pbind (case b of
         None \<Rightarrow> fails Syntax
       | Some byte \<Rightarrow>
           if byte = 123 then parse_object sha256 n ObjRoot SessionRecordSummary_default
           else if byte = 91 then pbind (skip_array n (skip_value n)) (\<lambda>_. yields SessionRecordSummary_default)
           else pbind (skip_value n) (\<lambda>_. yields SessionRecordSummary_default)) (\<lambda>s.
     pbind (skip_whitespace n) (\<lambda>_.
     pbind peek_byte (\<lambda>b. if b \<noteq> None then fails Syntax else yields (finish_summary s))))))"

section \<open>Framing\<close>

definition finish_line :: "bool parser" where
  "finish_line i =
     (if in_terminated i then (Done True, i)
      else (case in_rest i of
          [] \<Rightarrow> if in_fails i then (Fail Io, i) else (Done False, i\<lparr>in_eof := True\<rparr>)
        | byte # _ \<Rightarrow>
            if byte = 10 then (Done True, (consume 1 i)\<lparr>in_terminated := True\<rparr>) else (Done False, i)))"

text \<open>The rest of the line is passed over, whatever the sizes of the buffers.\<close>

definition drain_record :: "bool parser" where
  "drain_record i =
     (if in_terminated i then (Done True, i)
      else (let position = length (takeWhile (\<lambda>byte. byte \<noteq> 10) (in_rest i));
                passed = (consume position i)\<lparr>in_saw_bytes := (in_saw_bytes i \<or> position > 0)\<rparr>
            in if position < length (in_rest i) then (Done True, (consume 1 passed)\<lparr>in_terminated := True\<rparr>)
               else if in_fails i then (Fail Io, passed)
               else (Done False, passed\<lparr>in_eof := True\<rparr>)))"

datatype RecordRead =
    RecordEnd
  | RecordPresent SessionRecordSummary u64
  | RecordInvalid u64 bool
  | RecordUnterminated u64

text \<open>An error of the reader, with the message the caller wraps (\<open>None\<close>: passed on as it is).\<close>

datatype read_outcome = ReadDone RecordRead | ReadFailed "rstr option" | ReadStarved

definition read_streaming_record ::
  "(u8 list \<Rightarrow> u8 list) \<Rightarrow> nat \<Rightarrow> u8 list \<Rightarrow> bool \<Rightarrow> read_outcome \<times> u8 list" where
  "read_streaming_record sha256 n bytes io_fails =
     (if bytes = [] then (if io_fails then ReadFailed None else ReadDone RecordEnd, bytes)
      else (case parse_record sha256 n (SessionRecordInput_new bytes io_fails) of
          (Starved, i) \<Rightarrow> (ReadStarved, in_rest i)
        | (Fail Io, i) \<Rightarrow> (ReadFailed (Some (lit ''session source read failed while parsing'')), in_rest i)
        | (Fail Syntax, i) \<Rightarrow>
            if \<not> in_saw_bytes i \<and> in_eof i \<and> \<not> in_terminated i then (ReadDone RecordEnd, in_rest i)
            else (case drain_record i of
                (Done True, i') \<Rightarrow> (ReadDone (RecordInvalid (in_consumed i') True), in_rest i')
              | (Done False, i') \<Rightarrow> (ReadDone (RecordUnterminated (in_consumed i')), in_rest i')
              | (_, i') \<Rightarrow> (ReadFailed (Some (lit ''session source read failed while draining'')), in_rest i'))
        | (Done s, i) \<Rightarrow>
            (case finish_line i of
               (Done True, i') \<Rightarrow> (ReadDone (RecordPresent s (in_consumed i')), in_rest i')
             | (Done False, i') \<Rightarrow> (ReadDone (RecordUnterminated (in_consumed i')), in_rest i')
             | (_, i') \<Rightarrow> (ReadFailed (Some (lit ''session source read failed while framing'')), in_rest i'))))"

end
