(* ===== verification/Parser_Framing.thy ===== *)
theory Parser_Framing
  imports Session_Parser
begin

text \<open>
  Every parser stops, and stops inside its line. The predicate \<open>runs n k p\<close> says of a parser what a
  caller relies on when fewer than \<open>n\<close> bytes are left: the fuel suffices, the bytes taken are a
  prefix of those left and counted, a line feed is only taken by an error that ends the line, and a
  result \<open>x\<close> has taken at least \<open>k x\<close> bytes. One rule for each way of composing parsers carries the
  predicate through the whole grammar.
\<close>

section \<open>The contract of a parser\<close>

definition at_line :: "SessionRecordInput \<Rightarrow> bool" where
  "at_line i \<longleftrightarrow> \<not> in_terminated i \<and> unat (in_consumed i) + length (in_rest i) < 2 ^ 64"

definition takes :: "SessionRecordInput \<Rightarrow> 'a outcome \<Rightarrow> SessionRecordInput \<Rightarrow> u8 list \<Rightarrow> bool" where
  "takes i r i' used \<longleftrightarrow>
     in_fails i' = in_fails i \<and> in_rest i = used @ in_rest i' \<and>
     unat (in_consumed i') = unat (in_consumed i) + length used \<and>
     (if in_terminated i' then r = Fail Syntax \<and> used \<noteq> [] \<and> last used = 10 \<and> 10 \<notin> set (butlast used)
      else 10 \<notin> set used \<and> in_saw_bytes i' = (in_saw_bytes i \<or> used \<noteq> [])) \<and>
     (in_eof i' \<longrightarrow> in_eof i \<or> in_rest i' = []) \<and>
     (r = Fail Io \<longrightarrow> in_fails i \<and> in_rest i' = []) \<and> r \<noteq> Starved"

definition runs :: "nat \<Rightarrow> ('a \<Rightarrow> nat) \<Rightarrow> 'a parser \<Rightarrow> bool" where
  "runs n k p \<longleftrightarrow>
     (\<forall>i r i'. at_line i \<longrightarrow> length (in_rest i) < n \<longrightarrow> p i = (r, i') \<longrightarrow>
        (\<exists>used. takes i r i' used \<and> (\<forall>x. r = Done x \<longrightarrow> k x \<le> length used)))"

lemma runsI:
  "(\<And>i r i'. at_line i \<Longrightarrow> length (in_rest i) < n \<Longrightarrow> p i = (r, i') \<Longrightarrow>
     \<exists>used. takes i r i' used \<and> (\<forall>x. r = Done x \<longrightarrow> k x \<le> length used)) \<Longrightarrow> runs n k p"
  by (auto simp: runs_def)

lemma runsD:
  assumes "runs n k p" "at_line i" "length (in_rest i) < n" "p i = (r, i')"
  shows "\<exists>used. takes i r i' used \<and> (\<forall>x. r = Done x \<longrightarrow> k x \<le> length used)"
  by (rule assms(1)[unfolded runs_def, rule_format, OF assms(2-4)])

lemma takes_Done: "at_line i \<Longrightarrow> takes i (Done x) i' used \<Longrightarrow> at_line i' \<and> length (in_rest i') + length used = length (in_rest i)"
  by (auto simp: takes_def at_line_def split: if_splits)

lemma takes_trans:
  assumes "takes i (Done x) i1 u" "takes i1 r i2 v"
  shows "takes i r i2 (u @ v)"
proof -
  have "\<not> in_terminated i1" using assms(1) by (auto simp: takes_def)
  then show ?thesis
    using assms by (cases "in_terminated i2") (simp_all add: takes_def butlast_append, auto)
qed

lemma runs_mono: "runs n k p \<Longrightarrow> m \<le> n \<Longrightarrow> (\<And>x. j x \<le> k x) \<Longrightarrow> runs m j p"
proof (rule runsI)
  fix i r i'
  assume p: "runs n k p" and le: "m \<le> n" "\<And>x. j x \<le> k x"
    and i: "at_line i" "length (in_rest i) < m" "p i = (r, i')"
  from le i have "length (in_rest i) < n" by simp
  obtain u where "takes i r i' u" "\<forall>x. r = Done x \<longrightarrow> k x \<le> length u"
    using runsD[OF p i(1) \<open>length (in_rest i) < n\<close> i(3)] by blast
  then show "\<exists>used. takes i r i' used \<and> (\<forall>x. r = Done x \<longrightarrow> j x \<le> length used)"
    using le(2) by (meson le_trans)
qed

section \<open>Rules\<close>

lemma runs_yields: "k x = 0 \<Longrightarrow> runs n k (yields x)"
  by (rule runsI, rule exI[of _ "[]"]) (auto simp: yields_def takes_def at_line_def)

lemma runs_fails: "runs n k (fails Syntax)"
  by (rule runsI, rule exI[of _ "[]"]) (auto simp: fails_def takes_def at_line_def)

lemma runs_pbind:
  assumes p: "runs n k p" and f: "\<And>x. runs (n - k x) (\<lambda>y. j y - k x) (f x)"
  shows "runs n j (pbind p f)"
proof (rule runsI)
  fix i r i'
  assume i: "at_line i" "length (in_rest i) < n" and e: "pbind p f i = (r, i')"
  obtain r1 i1 where p1: "p i = (r1, i1)" by fastforce
  obtain u where u: "takes i r1 i1 u" "\<forall>x. r1 = Done x \<longrightarrow> k x \<le> length u" using runsD[OF p i p1] by blast
  show "\<exists>used. takes i r i' used \<and> (\<forall>x. r = Done x \<longrightarrow> j x \<le> length used)"
  proof (cases r1)
    case (Done x)
    then have l: "at_line i1" "length (in_rest i1) + length u = length (in_rest i)" "k x \<le> length u"
      using takes_Done[OF i(1), of x i1 u] u by auto
    have fx: "f x i1 = (r, i')" using e p1 Done by (simp add: pbind_def)
    have "length (in_rest i1) < n - k x" using l i(2) by simp
    then obtain v where v: "takes i1 r i' v" "\<forall>y. r = Done y \<longrightarrow> j y - k x \<le> length v"
      using runsD[OF f l(1) _ fx] by blast
    have "takes i r i' (u @ v)" using u(1) v(1) unfolding Done by (rule takes_trans)
    moreover have "j y \<le> length (u @ v)" if "r = Done y" for y using v(2) that l(3) by fastforce
    ultimately show ?thesis by blast
  next
    case (Fail err)
    then have "takes i r i' u" "\<nexists>x. r = Done x" using e p1 u(1) by (auto simp: pbind_def takes_def)
    then show ?thesis by blast
  next
    case Starved
    then show ?thesis using u by (simp add: takes_def)
  qed
qed

lemma runs_then: "runs n (\<lambda>_. 0) p \<Longrightarrow> (\<And>x. runs n j (f x)) \<Longrightarrow> runs n j (pbind p f)"
  using runs_pbind[of n "\<lambda>_. 0" p j f] by simp

lemma runs_ate: "runs n (\<lambda>_. 1) p \<Longrightarrow> (\<And>x. runs (n - 1) (\<lambda>y. j y - 1) (f x)) \<Longrightarrow> runs n j (pbind p f)"
  using runs_pbind[of n "\<lambda>_. 1" p j f] by simp

lemma runs_iterate_le:
  assumes "\<And>s. runs m (case_sum (\<lambda>_. 1) k) (body s)" "m \<le> n"
  shows "runs m k (iterate n body s)"
  using assms
proof (induction n arbitrary: m s)
  case 0
  then show ?case by (simp add: runs_def)
next
  case (Suc n)
  have "runs (m - 1) (case_sum (\<lambda>_. 1) k) (body s)" for s
    using Suc.prems(1) by (rule runs_mono) simp_all
  from Suc.IH[OF this] have rest: "runs (m - 1) k (iterate n body s)" for s
    using Suc.prems(2) by simp
  have "runs (m - case_sum (\<lambda>_. 1) k r) (\<lambda>y. k y - case_sum (\<lambda>_. 1) k r)
      (case r of Inl s' \<Rightarrow> iterate n body s' | Inr x \<Rightarrow> yields x)" for r
    by (cases r) (auto intro: runs_yields runs_mono[OF rest])
  with Suc.prems(1) show ?case unfolding iterate.simps by (rule runs_pbind)
qed

lemmas runs_iterate = runs_iterate_le[OF _ order_refl]

lemma runs_if: "(c \<Longrightarrow> runs n k p) \<Longrightarrow> (\<not> c \<Longrightarrow> runs n k q) \<Longrightarrow> runs n k (if c then p else q)"
  by simp

lemma runs_in_container: "runs n k p \<Longrightarrow> runs n k (in_container p)"
proof (rule runsI)
  fix i r i'
  assume p: "runs n k p" and i: "at_line i" "length (in_rest i) < n" and e: "in_container p i = (r, i')"
  show "\<exists>used. takes i r i' used \<and> (\<forall>x. r = Done x \<longrightarrow> k x \<le> length used)"
  proof (cases "in_depth i \<ge> 128")
    case True
    with e i show ?thesis
      by (auto simp: in_container_def pbind_def enter_container_def takes_def at_line_def intro!: exI[of _ "[]"])
  next
    case False
    define j where "j = i\<lparr>in_depth := in_depth i + 1\<rparr>"
    obtain r1 i1 where p1: "p j = (r1, i1)" by fastforce
    have out: "r = r1" "i' = leave_container i1"
      using e p1 False by (auto simp: in_container_def pbind_def enter_container_def j_def)
    have "at_line j" "length (in_rest j) < n" using i by (auto simp: j_def at_line_def)
    then obtain u where u: "takes j r1 i1 u" "\<forall>x. r1 = Done x \<longrightarrow> k x \<le> length u" using runsD[OF p _ _ p1] by blast
    have "takes i r i' u" using u(1) by (auto simp: takes_def out leave_container_def j_def)
    then show ?thesis using u(2) out(1) by blast
  qed
qed

lemma runs_option:
  "(x = None \<Longrightarrow> runs n k p) \<Longrightarrow> (\<And>y. x = Some y \<Longrightarrow> runs n k (q y)) \<Longrightarrow>
     runs n k (case x of None \<Rightarrow> p | Some y \<Rightarrow> q y)"
  by (simp split: option.split)

lemma runs_prod: "(\<And>x y. runs n k (f x y)) \<Longrightarrow> runs n k (case z of (x, y) \<Rightarrow> f x y)"
  by (simp split: prod.split)

lemma runs_first: "runs n (\<lambda>_. 1) p \<Longrightarrow> (\<And>x. runs n (\<lambda>_. 0) (f x)) \<Longrightarrow> runs n (\<lambda>_. 1) (pbind p f)"
  by (rule runs_ate) (auto intro: runs_mono[where n = n and k = "\<lambda>_. 0"])

lemmas runs_rules = runs_then runs_yields runs_fails runs_if runs_option runs_prod

section \<open>Bytes and characters\<close>

lemma runs_peek_byte: "runs n (\<lambda>_. 0) peek_byte"
  by (rule runsI, rule exI[of _ "[]"])
     (auto simp: peek_byte_def takes_def at_line_def split: list.splits if_splits)

lemma consume_one:
  assumes "at_line i" "in_rest i = byte # rest"
  shows "in_rest (consume (Suc 0) i) = rest" "unat (in_consumed (consume (Suc 0) i)) = Suc (unat (in_consumed i))"
    "in_fails (consume (Suc 0) i) = in_fails i" "in_saw_bytes (consume (Suc 0) i) = in_saw_bytes i"
    "in_terminated (consume (Suc 0) i) = in_terminated i" "in_eof (consume (Suc 0) i) = in_eof i"
  using assms by (simp_all add: consume_def at_line_def unat_saturating_add)

lemma runs_next_required: "(\<And>x. k x \<le> 1) \<Longrightarrow> runs n k next_required"
proof (rule runsI)
  fix i r i'
  assume k: "\<And>x. k x \<le> 1" and i: "at_line i" and e: "next_required i = (r, i')"
  show "\<exists>used. takes i r i' used \<and> (\<forall>x. r = Done x \<longrightarrow> k x \<le> length used)"
  proof (cases "in_rest i")
    case Nil
    with e i show ?thesis
      by (intro exI[of _ "[]"])
         (auto simp: next_required_def next_byte_def pbind_def fails_def takes_def at_line_def split: if_splits)
  next
    case (Cons byte rest)
    with e i k show ?thesis
      by (intro exI[of _ "[byte]"])
         (auto simp: next_required_def next_byte_def pbind_def fails_def yields_def takes_def at_line_def
            consume_one[OF i Cons] split: if_splits)
  qed
qed

lemma runs_accept: "runs n (case_option 0 (\<lambda>_. 1)) (accept P)"
proof (rule runsI)
  fix i r i'
  assume i: "at_line i" and e: "accept P i = (r, i')"
  show "\<exists>used. takes i r i' used \<and> (\<forall>x. r = Done x \<longrightarrow> case_option 0 (\<lambda>_. 1) x \<le> length used)"
  proof (cases "in_rest i")
    case Nil
    with e i show ?thesis
      by (intro exI[of _ "[]"])
         (auto simp: accept_def peek_byte_def pbind_def yields_def takes_def at_line_def split: if_splits)
  next
    case (Cons byte rest)
    with e i show ?thesis
      by (intro exI[of _ "if byte \<noteq> 10 \<and> P byte then [byte] else []"])
         (auto simp: accept_def peek_byte_def next_byte_def pbind_def yields_def takes_def at_line_def
            consume_one[OF i Cons] split: if_splits)
  qed
qed

lemma runs_accept_0: "runs n (\<lambda>_. 0) (accept P)"
  by (rule runs_mono[OF runs_accept order_refl]) simp

lemma runs_consume_if: "runs n (\<lambda>b. if b then 1 else 0) (consume_if expected)"
  unfolding consume_if_def
  by (rule runs_pbind[OF runs_accept]) (auto intro!: runs_yields split: option.split)

lemma runs_consume_if_0: "runs n (\<lambda>_. 0) (consume_if expected)"
  by (rule runs_mono[OF runs_consume_if order_refl]) simp

lemma runs_expect_byte: "(\<And>x. k x \<le> 1) \<Longrightarrow> runs n k (expect_byte expected)"
  unfolding expect_byte_def
  by (rule runs_pbind[where k = "\<lambda>_. 1"]) (auto intro!: runs_next_required runs_fails runs_yields)

lemma runs_peek_is: "runs n (\<lambda>_. 0) (peek_is P)"
  unfolding peek_is_def by (intro runs_rules runs_peek_byte) simp_all

lemma runs_skip_while: "runs n (\<lambda>_. 0) (skip_while P n)"
  unfolding skip_while_def
  by (rule runs_iterate, rule runs_pbind[OF runs_accept]) (auto intro!: runs_yields split: option.split)

lemma runs_skip_whitespace: "runs n (\<lambda>_. 0) (skip_whitespace n)"
  unfolding skip_whitespace_def by (rule runs_skip_while)

lemmas runs_bytes = runs_peek_byte runs_next_required runs_accept_0 runs_consume_if_0 runs_expect_byte runs_peek_is
  runs_skip_while runs_skip_whitespace

lemma runs_parse_escape_character: "runs n (\<lambda>_. 0) parse_escape_character"
  unfolding parse_escape_character_def parse_unicode_escape_def parse_hex_quad_def hex_digit_def
  by (intro runs_rules runs_bytes) simp_all

lemma runs_read_continuation: "runs n (\<lambda>_. 0) (read_continuation k bytes)"
  by (induction k arbitrary: bytes) (simp_all add: runs_yields, intro runs_rules runs_bytes, simp_all)

lemma runs_read_utf8_character: "runs n (\<lambda>_. 0) (read_utf8_character first)"
  unfolding read_utf8_character_def
  by (intro runs_option runs_then runs_fails runs_read_continuation)
     (simp_all add: runs_yields runs_fails split: list.split)

text \<open>Every character of a string, the closing quote included, takes a byte.\<close>

lemma runs_string_character: "(\<And>x. k x \<le> 1) \<Longrightarrow> runs n k string_character"
  unfolding string_character_def
  by (rule runs_pbind[where k = "\<lambda>_. 1"])
     (auto intro!: runs_next_required runs_rules runs_parse_escape_character runs_read_utf8_character)

lemma runs_string_loop:
  assumes "\<And>s. body s = pbind string_character (\<lambda>c. yields (f s c))"
  shows "runs n (\<lambda>_. 1) (iterate n body s)"
  unfolding assms
  by (rule runs_iterate, rule runs_pbind[where k = "\<lambda>_. 1"])
     (auto intro!: runs_string_character runs_yields split: sum.split)

section \<open>Values\<close>

lemma runs_skip_string: "(\<And>x. k x \<le> 1) \<Longrightarrow> runs n k (skip_string n)"
  unfolding skip_string_def
  by (rule runs_pbind[where k = "\<lambda>_. 1"])
     (auto intro!: runs_expect_byte runs_mono[OF runs_string_loop])

lemma runs_parse_text_limit: "runs n (\<lambda>_. 0) (parse_text_limit n limit)"
  unfolding parse_text_limit_def
  by (intro runs_then runs_expect_byte)
     (auto simp: text_step_def intro!: runs_mono[OF runs_string_loop])

lemma runs_parse_key: "runs n (\<lambda>_. 1) (parse_key n)"
  unfolding parse_key_def
  by (intro runs_first runs_then runs_expect_byte runs_yields)
     (auto simp: key_step_def intro!: runs_mono[OF runs_string_loop])

lemma runs_digits: "runs n (\<lambda>_. 0) (iterate n digits_step st)"
  unfolding digits_step_def
  by (rule runs_iterate, rule runs_pbind[OF runs_accept]) (auto intro!: runs_yields split: option.split)

lemma runs_parse_number: "(\<And>x. k x \<le> 1) \<Longrightarrow> runs n k (parse_number n)"
proof -
  have "runs n (\<lambda>_. 1) (parse_integer_part n)"
    unfolding parse_integer_part_def
    by (intro runs_first runs_rules runs_bytes runs_digits) simp_all
  moreover have "runs n (\<lambda>_. 0) (parse_fraction n)" "runs n (\<lambda>_. 0) (parse_exponent n)"
    unfolding parse_fraction_def parse_exponent_def skip_digits_def
    by (intro runs_rules runs_bytes; simp)+
  ultimately have "runs n (\<lambda>_. 1) (parse_number n)"
    unfolding parse_number_def
    by (intro runs_then[where p = "consume_if 45"] runs_first runs_rules runs_bytes) simp_all
  then show "(\<And>x. k x \<le> 1) \<Longrightarrow> runs n k (parse_number n)" by (rule runs_mono) simp_all
qed

lemma runs_parse_literal: "runs n (\<lambda>_. 0) (parse_literal literal)"
  by (induction literal) (simp_all add: runs_yields, intro runs_rules runs_bytes, simp_all)

lemma runs_parse_literal_1: "literal \<noteq> [] \<Longrightarrow> runs n (\<lambda>_. 1) (parse_literal literal)"
  by (cases literal) (simp_all del: One_nat_def add: runs_first runs_expect_byte runs_parse_literal)

lemma runs_next_item: "runs n (\<lambda>_. 0) (next_item n closing s)"
  unfolding next_item_def by (intro runs_rules runs_bytes) simp_all

text \<open>The items are parsed with one byte less, the opening one.\<close>

lemma runs_parse_items:
  assumes "\<And>s. runs n (\<lambda>_. 1) (item s)"
  shows "runs (Suc n) (\<lambda>_. 1) (parse_items (Suc n) opening closing item s)"
proof -
  have "runs n (case_sum (\<lambda>_. 1) (\<lambda>_. 0)) (pbind (item s) (next_item (Suc n) closing))" for s
    using assms by (rule runs_pbind) (auto intro!: runs_mono[OF runs_next_item[of "Suc n"]] split: sum.split)
  then have loop: "runs n (\<lambda>_. 0) (iterate (Suc n) (\<lambda>s. pbind (item s) (next_item (Suc n) closing)) s)" for s
    by (rule runs_iterate_le) simp
  have "runs n (\<lambda>_. 0) (pbind (skip_whitespace (Suc n)) (\<lambda>_. pbind (consume_if closing) (\<lambda>closed.
      if closed then yields s
      else iterate (Suc n) (\<lambda>s. pbind (item s) (next_item (Suc n) closing)) s)))"
    by (intro runs_then runs_if runs_yields loop runs_mono[OF runs_skip_whitespace[of "Suc n"]]
          runs_mono[OF runs_consume_if_0[of "Suc n"]]) simp_all
  then show ?thesis
    unfolding parse_items_def
    by (intro runs_in_container runs_ate[where n = "Suc n"] runs_expect_byte) (simp_all del: iterate.simps)
qed

lemma runs_skip_value: "runs n (\<lambda>_. 1) (skip_value n)"
proof (induction n)
  case 0
  show ?case by (simp add: runs_def)
next
  case (Suc n)
  have "runs n (\<lambda>_. 1) (pbind (skip_string (Suc n)) (\<lambda>_. pbind (skip_whitespace (Suc n)) (\<lambda>_.
      pbind (expect_byte 58) (\<lambda>_. skip_value n))))"
    by (intro runs_first runs_then runs_expect_byte runs_mono[OF runs_skip_string[of "\<lambda>_. 1" "Suc n"]]
          runs_mono[OF runs_skip_whitespace] runs_mono[OF Suc]) simp_all
  then have "runs (Suc n) (\<lambda>_. 1) (skip_object (Suc n) (skip_value n))"
    unfolding skip_object_def by (rule runs_parse_items)
  moreover have "runs (Suc n) (\<lambda>_. 1) (skip_array (Suc n) (skip_value n))"
    unfolding skip_array_def using Suc by (rule runs_parse_items)
  moreover have "runs (Suc n) (\<lambda>_. 1) (pbind (parse_number (Suc n)) (\<lambda>_. yields ()))"
    by (intro runs_first runs_parse_number runs_yields) simp_all
  ultimately have "runs (Suc n) (\<lambda>_. 1) (case b of
      None \<Rightarrow> fails Syntax
    | Some byte \<Rightarrow>
        if byte = 34 then skip_string (Suc n)
        else if byte = 123 then skip_object (Suc n) (skip_value n)
        else if byte = 91 then skip_array (Suc n) (skip_value n)
        else if byte = 110 then parse_literal [110, 117, 108, 108]
        else if byte = 116 then parse_literal [116, 114, 117, 101]
        else if byte = 102 then parse_literal [102, 97, 108, 115, 101]
        else if byte = 45 \<or> is_digit_byte byte then pbind (parse_number (Suc n)) (\<lambda>_. yields ())
        else fails Syntax)" for b
    by (intro runs_option runs_if runs_fails runs_skip_string runs_parse_literal_1) simp_all
  then show ?case
    unfolding skip_value.simps by (intro runs_then runs_skip_whitespace runs_peek_byte)
qed

lemma runs_skip: "(\<And>x. k x \<le> 1) \<Longrightarrow> runs n k (skip_value n)"
  by (rule runs_mono[OF runs_skip_value]) simp_all

lemma runs_items: "(\<And>s. runs n (\<lambda>_. 1) (item s)) \<Longrightarrow> runs n (\<lambda>_. 0) (parse_items n opening closing item s)"
proof (cases n)
  case (Suc m)
  assume "\<And>s. runs n (\<lambda>_. 1) (item s)"
  then have "runs m (\<lambda>_. 1) (item s)" for s by (rule runs_mono) (simp_all add: Suc)
  then show ?thesis unfolding Suc by (intro runs_mono[OF runs_parse_items]) simp_all
qed (simp add: runs_def)

lemmas runs_values = runs_bytes runs_skip runs_parse_text_limit runs_parse_number

lemma runs_text_values:
  "runs n (\<lambda>_. 0) (parse_text_value n)" "runs n (\<lambda>_. 0) (parse_identifier_value n)"
  "runs n (\<lambda>_. 0) (parse_u64_value n)" "runs n (\<lambda>_. 0) (parse_signed_shape n nullable)"
  unfolding parse_text_value_def parse_identifier_value_def parse_u64_value_def parse_signed_shape_def parse_text_def Let_def
  by (intro runs_rules runs_values; simp)+

lemma runs_loop_values:
  "runs n (\<lambda>_. 0) (parse_model_value n)" "runs n (\<lambda>_. 0) (parse_string_scalar_shape n a b)"
  unfolding parse_model_value_def parse_string_scalar_shape_def
  by (intro runs_rules runs_values runs_text_values runs_mono[OF runs_string_loop];
      simp add: builder_step_def scalar_step_def)+

lemma runs_parse_object_array_shape: "runs n (\<lambda>_. 0) (parse_object_array_shape n)"
proof -
  have "runs n (\<lambda>_. 1) (shape_item n st)" for st
    unfolding shape_item_def
    by (intro runs_then[OF runs_peek_is] runs_first runs_skip runs_option runs_fails runs_yields) simp_all
  then show ?thesis
    unfolding parse_object_array_shape_def by (intro runs_rules runs_values runs_items) simp_all
qed

lemmas runs_fields = runs_values runs_text_values runs_loop_values runs_parse_object_array_shape

section \<open>Objects\<close>

text \<open>Inside an object the fuel is one more than the bound, because the opening byte is gone.\<close>

lemmas runs_within = runs_rules runs_peek_byte runs_peek_is runs_expect_byte
  runs_mono[OF runs_skip_value] runs_mono[OF runs_skip_whitespace] runs_mono[OF runs_text_values(1)]
  runs_mono[OF runs_text_values(2)] runs_mono[OF runs_text_values(3)] runs_mono[OF runs_text_values(4)]
  runs_mono[OF runs_loop_values(1)] runs_mono[OF runs_loop_values(2)] runs_mono[OF runs_parse_object_array_shape]

lemma runs_object_or_skip:
  "(\<And>s. runs m (\<lambda>_. 0) (obj object s)) \<Longrightarrow> m \<le> n \<Longrightarrow> runs m (\<lambda>_. 0) (object_or_skip n obj object s)"
  unfolding object_or_skip_def by (intro runs_within) simp_all

lemma runs_parse_response_field:
  "(\<And>object s. runs m (\<lambda>_. 0) (obj object s)) \<Longrightarrow> m \<le> n \<Longrightarrow>
     runs m (\<lambda>_. 0) (parse_response_field n obj k snapshot s)"
  unfolding parse_response_field_def by (intro runs_within runs_object_or_skip) simp_all

lemma runs_parse_noop_field:
  "(\<And>object s. runs m (\<lambda>_. 0) (obj object s)) \<Longrightarrow> m \<le> n \<Longrightarrow> runs m (\<lambda>_. 0) (parse_noop_field n obj k s)"
  unfolding parse_noop_field_def parse_noop_value_def string_shape_def
  by (intro runs_within runs_object_or_skip) simp_all

lemma runs_parse_goal_field: "m \<le> n \<Longrightarrow> runs m (\<lambda>_. 0) (parse_goal_field n k s)"
  unfolding parse_goal_field_def parse_goal_value_def by (intro runs_within) simp_all

lemma runs_parse_root_value:
  "(\<And>object s. runs m (\<lambda>_. 0) (obj object s)) \<Longrightarrow> m \<le> n \<Longrightarrow> runs m (\<lambda>_. 0) (parse_root_value n obj k s)"
  unfolding parse_root_value_def by (intro runs_within runs_object_or_skip) simp_all

lemma runs_parse_payload_text: "m \<le> n \<Longrightarrow> runs m (\<lambda>_. 0) (parse_payload_text sha256 n k p)"
  unfolding parse_payload_text_def by (intro runs_within) simp_all

lemma runs_parse_payload_value:
  assumes "\<And>object s. runs m (\<lambda>_. 0) (obj object s)" "m \<le> n"
  shows "runs m (\<lambda>_. 0) (parse_payload_value sha256 n obj k s)"
proof -
  have "runs m (\<lambda>_. 0) (parse_payload_object n obj k s)"
    unfolding parse_payload_object_def using assms by (intro runs_within runs_object_or_skip) simp_all
  then show ?thesis
    unfolding parse_payload_value_def
    using assms by (intro runs_within runs_parse_noop_field runs_parse_response_field runs_parse_payload_text) simp_all
qed

lemma runs_parse_info_value:
  "(\<And>object s. runs m (\<lambda>_. 0) (obj object s)) \<Longrightarrow> m \<le> n \<Longrightarrow> runs m (\<lambda>_. 0) (parse_info_value n obj k s)"
  unfolding parse_info_value_def by (intro runs_within runs_object_or_skip) simp_all

lemma runs_parse_object_value:
  assumes "\<And>object s. runs m (\<lambda>_. 0) (obj object s)" "m \<le> n"
  shows "runs m (\<lambda>_. 0) (parse_object_value sha256 n obj object k s)"
proof -
  have "runs m (\<lambda>_. 0) (parse_usage_value n object k s)" "runs m (\<lambda>_. 0) (parse_thread_settings_value n k s)"
    unfolding parse_usage_value_def parse_thread_settings_value_def using assms(2) by (intro runs_within; simp)+
  then show ?thesis
    using assms runs_parse_root_value runs_parse_payload_value runs_parse_info_value runs_parse_goal_field
      runs_parse_response_field
    by (cases object) (simp_all add: parse_object_value_def)
qed

lemma runs_parse_entry:
  assumes "\<And>object s. runs m (\<lambda>_. 0) (obj object s)" "m \<le> n"
  shows "runs m (\<lambda>_. 1) (parse_entry sha256 n obj object st)"
  unfolding parse_entry_def Let_def
  by (intro runs_first runs_mono[OF runs_parse_key] runs_within runs_parse_object_value) (simp_all add: assms)

lemma runs_parse_object: "runs n (\<lambda>_. 0) (parse_object sha256 n object s)"
proof (induction n arbitrary: object s)
  case 0
  show ?case by (simp add: runs_def)
next
  case (Suc n)
  then have "runs n (\<lambda>_. 1) (parse_entry sha256 (Suc n) (parse_object sha256 n) object st)" for st
    by (rule runs_parse_entry) simp
  then have "runs (Suc n) (\<lambda>_. 1) (parse_items (Suc n) 123 125 (parse_entry sha256 (Suc n) (parse_object sha256 n) object) (0, s))"
    by (rule runs_parse_items)
  then have "runs (Suc n) (\<lambda>_. 0) (parse_items (Suc n) 123 125 (parse_entry sha256 (Suc n) (parse_object sha256 n) object) (0, s))"
    by (rule runs_mono) simp_all
  then show ?case by (simp del: One_nat_def, intro runs_rules) simp_all
qed

lemma runs_parse_record: "runs n (\<lambda>_. 0) (parse_record sha256 n)"
proof -
  have "runs n (\<lambda>_. 0) (skip_array n (skip_value n))"
    unfolding skip_array_def by (rule runs_items) (rule runs_skip_value)
  then show ?thesis
    unfolding parse_record_def by (intro runs_rules runs_values runs_parse_object) simp_all
qed

section \<open>Records\<close>

text \<open>A parsed record ends where its line ends.\<close>

lemma pbind_Done:
  assumes "pbind p f i = (Done y, i')"
  obtains x i1 where "p i = (Done x, i1)" "f x i1 = (Done y, i')"
  using assms by (auto simp: pbind_def split: prod.splits outcome.splits)

lemma parse_record_Done:
  assumes "parse_record sha256 n i = (Done s, i')"
  shows "in_rest i' = [] \<or> hd (in_rest i') = 10"
  using assms unfolding parse_record_def
  by (elim pbind_Done) (auto simp: peek_byte_def yields_def fails_def split: list.splits if_splits)

lemma consume_many:
  assumes "at_line i" "k \<le> length (in_rest i)"
  shows "at_line (consume k i)" "unat (in_consumed (consume k i)) = unat (in_consumed i) + k"
    "in_rest (consume k i) = drop k (in_rest i)" "in_fails (consume k i) = in_fails i"
  using assms by (simp_all add: consume_def at_line_def unat_saturating_add unat_of_nat)

lemma drain_record_line:
  assumes i: "at_line i" and rest: "in_rest i = xs @ 10 # ys" "10 \<notin> set xs"
  shows "\<exists>i'. drain_record i = (Done True, i') \<and> in_rest i' = ys \<and>
    unat (in_consumed i') = unat (in_consumed i) + Suc (length xs)"
proof -
  have len: "length (takeWhile (\<lambda>byte. byte \<noteq> 10) (in_rest i)) = length xs"
    unfolding rest(1) using rest(2) by (subst takeWhile_append2) auto
  define j where "j = (consume (length xs) i)\<lparr>in_saw_bytes := (in_saw_bytes i \<or> 0 < length xs)\<rparr>"
  have d: "drain_record i = (Done True, (consume 1 j)\<lparr>in_terminated := True\<rparr>)"
    using i rest(1) unfolding drain_record_def Let_def len j_def at_line_def by simp
  have k: "length xs \<le> length (in_rest i)" using rest(1) by simp
  have j: "at_line j" "in_rest j = 10 # ys" "unat (in_consumed j) = unat (in_consumed i) + length xs"
    using consume_many(1)[OF i k] consume_many(2,3)[OF i k] rest(1) by (simp_all add: j_def at_line_def)
  show ?thesis unfolding d using consume_one(1,2)[OF j(1,2)] j(3) by simp
qed

lemma drain_record_end:
  assumes i: "at_line i" and rest: "10 \<notin> set (in_rest i)"
  shows "\<exists>i'. drain_record i = (if in_fails i then Fail Io else Done False, i') \<and> in_rest i' = [] \<and>
    unat (in_consumed i') = unat (in_consumed i) + length (in_rest i)"
proof -
  have len: "length (takeWhile (\<lambda>byte. byte \<noteq> 10) (in_rest i)) = length (in_rest i)"
    by (rule arg_cong[where f = length], rule takeWhile_eq_all_conv[THEN iffD2]) (use rest in auto)
  show ?thesis
    unfolding drain_record_def Let_def len using i consume_many(2,3)[OF i order_refl] by (simp add: at_line_def)
qed

section \<open>Framing\<close>

definition frames :: "u8 list \<Rightarrow> bool \<Rightarrow> read_outcome \<times> u8 list \<Rightarrow> bool" where
  "frames bytes io_fails result \<longleftrightarrow>
     (if 10 \<in> set bytes
      then \<exists>line rest m. bytes = line @ 10 # rest \<and> 10 \<notin> set line \<and> unat m = Suc (length line) \<and>
        (result = (ReadDone (RecordInvalid m True), rest) \<or> (\<exists>s. result = (ReadDone (RecordPresent s m), rest)))
      else \<exists>m. unat m = length bytes \<and>
        (\<exists>message. result = (if io_fails then ReadFailed message else ReadDone (RecordUnterminated m), [])))"

lemma frames_line:
  assumes "bytes = line @ 10 # rest" "10 \<notin> set line" "unat m = Suc (length line)"
    "result = (ReadDone (RecordInvalid m True), rest) \<or> (\<exists>s. result = (ReadDone (RecordPresent s m), rest))"
  shows "frames bytes io_fails result"
  unfolding frames_def using assms by auto

lemma frames_end:
  assumes "10 \<notin> set bytes" "unat m = length bytes"
    "result = (if io_fails then ReadFailed message else ReadDone (RecordUnterminated m), [])"
  shows "frames bytes io_fails result"
  unfolding frames_def using assms by auto

lemma read_frames:
  assumes small: "length bytes < 2 ^ 64" "length bytes < n" "bytes \<noteq> []"
  shows "frames bytes io_fails (read_streaming_record sha256 n bytes io_fails)"
proof -
  define i0 where "i0 = SessionRecordInput_new bytes io_fails"
  have i0: "at_line i0" "in_rest i0 = bytes" "in_fails i0 = io_fails" "\<not> in_eof i0" "\<not> in_saw_bytes i0"
    "in_consumed i0 = 0" using small by (simp_all add: i0_def SessionRecordInput_new_def at_line_def)
  obtain r i where p: "parse_record sha256 n i0 = (r, i)" by fastforce
  note read = read_streaming_record_def[of sha256 n bytes io_fails, folded i0_def, unfolded p]
  obtain used where used: "takes i0 r i used"
    using runsD[OF runs_parse_record i0(1) _ p] small(2) i0(2) by auto
  have e: "bytes = used @ in_rest i" "in_fails i = io_fails" "unat (in_consumed i) = length used"
    using used unfolding takes_def i0 by simp_all
  have open_line: "10 \<notin> set used" "in_saw_bytes i \<longleftrightarrow> used \<noteq> []" "at_line i" if "\<not> in_terminated i"
    using used that e small(1) i0(5) unfolding takes_def at_line_def by simp_all
  show ?thesis
  proof (cases r)
    case (Done s)
    then have no: "\<not> in_terminated i" using used by (auto simp: takes_def)
    have at_end: "in_rest i = [] \<or> hd (in_rest i) = 10" using p unfolding Done by (rule parse_record_Done)
    show ?thesis
    proof (cases "in_rest i")
      case Nil
      then have "read_streaming_record sha256 n bytes io_fails =
          (if io_fails then ReadFailed (Some (lit ''session source read failed while framing''))
           else ReadDone (RecordUnterminated (in_consumed i)), [])"
        using no small(3) e(2) by (simp add: read Done finish_line_def)
      with open_line(1)[OF no] e Nil show ?thesis by (intro frames_end[of _ "in_consumed i"]) simp_all
    next
      case (Cons b rest)
      with at_end have b: "in_rest i = 10 # rest" by simp
      note one = consume_one[OF open_line(3)[OF no] b]
      have "read_streaming_record sha256 n bytes io_fails =
          (ReadDone (RecordPresent s (in_consumed (consume (Suc 0) i))), rest)"
        using no small(3) one b by (simp add: read Done finish_line_def)
      then show ?thesis using open_line(1)[OF no] e b one
        by (intro frames_line[of _ used rest "in_consumed (consume (Suc 0) i)"]) auto
    qed
  next
    case (Fail err)
    show ?thesis
    proof (cases err)
      case Io
      then have "in_rest i = []" "io_fails" "\<not> in_terminated i"
        using used unfolding Fail takes_def i0 by (auto split: if_splits)
      moreover from this have "read_streaming_record sha256 n bytes io_fails =
          (ReadFailed (Some (lit ''session source read failed while parsing'')), [])"
        unfolding read Fail Io using small(3) by simp
      ultimately show ?thesis using e open_line(1) by (intro frames_end[of _ "in_consumed i"]) simp_all
    next
      case Syntax
      show ?thesis
      proof (cases "in_terminated i")
        case True
        then obtain xs where xs: "used = xs @ [10]" "10 \<notin> set xs"
          using used by (metis append_butlast_last_id takes_def)
        moreover have "read_streaming_record sha256 n bytes io_fails =
            (ReadDone (RecordInvalid (in_consumed i) True), in_rest i)"
          using True small(3) by (simp add: read Fail Syntax drain_record_def)
        ultimately show ?thesis using e by (intro frames_line[of _ xs "in_rest i" "in_consumed i"]) simp_all
      next
        case False
        note o = open_line[OF False]
        have "in_eof i \<longrightarrow> in_rest i = []" using used i0(4) by (simp add: takes_def)
        then have going: "\<not> (\<not> in_saw_bytes i \<and> in_eof i \<and> \<not> in_terminated i)" using e(1) small(3) o(2) by auto
        show ?thesis
        proof (cases "10 \<in> set (in_rest i)")
          case True
          then obtain xs ys where s: "in_rest i = xs @ 10 # ys" "10 \<notin> set xs" by (metis split_list_first)
          from drain_record_line[OF o(3) s] obtain i' where
            "drain_record i = (Done True, i')" "in_rest i' = ys" "unat (in_consumed i') = unat (in_consumed i) + Suc (length xs)"
            by blast
          moreover from this have "read_streaming_record sha256 n bytes io_fails =
              (ReadDone (RecordInvalid (in_consumed i') True), ys)"
            using small(3) going by (simp add: read Fail Syntax)
          ultimately show ?thesis using e s o(1)
            by (intro frames_line[of _ "used @ xs" ys "in_consumed i'"]) simp_all
        next
          case False
          from drain_record_end[OF o(3) this] obtain i' where
            "drain_record i = (if in_fails i then Fail Io else Done False, i')" "in_rest i' = []"
            "unat (in_consumed i') = unat (in_consumed i) + length (in_rest i)" by blast
          moreover from this have "read_streaming_record sha256 n bytes io_fails =
              (if io_fails then ReadFailed (Some (lit ''session source read failed while draining''))
               else ReadDone (RecordUnterminated (in_consumed i')), [])"
            using small(3) going e(2) by (simp add: read Fail Syntax)
          ultimately show ?thesis using e o(1) False by (intro frames_end[of _ "in_consumed i'"]) simp_all
        qed
      qed
    qed
  next
    case Starved
    then show ?thesis using used by (simp add: takes_def)
  qed
qed

end
