(* ===== verification/Parser_Lines.thy ===== *)
theory Parser_Lines
  imports Parser_Framing
begin

text \<open>
  A line stands alone. More fuel never changes a result (\<open>below\<close>), and what follows the line feed
  never influences what is read before it (\<open>tail_free\<close>). Together they say that reading a record from
  a stream is reading its line: the record at the front of a file is a function of the bytes up to the first
  line feed.
\<close>

section \<open>More fuel\<close>

definition below :: "'a parser \<Rightarrow> 'a parser \<Rightarrow> bool" where
  "below p q \<longleftrightarrow> (\<forall>i. fst (p i) = Starved \<or> q i = p i)"

lemma below_refl: "below p p"
  by (simp add: below_def)

lemma below_starved: "below (\<lambda>i. (Starved, i)) q"
  by (simp add: below_def)

lemma belowI: "(\<And>i r i'. p i = (r, i') \<Longrightarrow> r \<noteq> Starved \<Longrightarrow> q i = (r, i')) \<Longrightarrow> below p q"
  unfolding below_def by (metis prod.collapse)

lemma belowD: "below p q \<Longrightarrow> p i = (r, i') \<Longrightarrow> r \<noteq> Starved \<Longrightarrow> q i = (r, i')"
  unfolding below_def by (metis fst_conv)

lemma below_pbind:
  assumes "below p q" "\<And>x. below (f x) (g x)"
  shows "below (pbind p f) (pbind q g)"
proof (rule belowI)
  fix i r i' assume e: "pbind p f i = (r, i')" and r: "r \<noteq> Starved"
  obtain r1 i1 where p: "p i = (r1, i1)" by fastforce
  with e r have "r1 \<noteq> Starved" by (auto simp: pbind_def)
  with p have "q i = (r1, i1)" by (rule belowD[OF assms(1)])
  with e r p show "pbind q g i = (r, i')"
    by (cases r1) (auto simp: pbind_def dest: belowD[OF assms(2)])
qed

lemma below_if: "below p p' \<Longrightarrow> below q q' \<Longrightarrow> below (if c then p else q) (if c then p' else q')"
  by simp

lemma below_prod: "(\<And>x y. below (f x y) (g x y)) \<Longrightarrow> below (case z of (x, y) \<Rightarrow> f x y) (case z of (x, y) \<Rightarrow> g x y)"
  by (simp split: prod.split)

lemma below_option:
  "below p p' \<Longrightarrow> (\<And>y. below (q y) (q' y)) \<Longrightarrow>
     below (case x of None \<Rightarrow> p | Some y \<Rightarrow> q y) (case x of None \<Rightarrow> p' | Some y \<Rightarrow> q' y)"
  by (simp split: option.split)

lemma below_sum:
  "(\<And>x. below (p x) (p' x)) \<Longrightarrow> (\<And>y. below (q y) (q' y)) \<Longrightarrow>
     below (case z of Inl x \<Rightarrow> p x | Inr y \<Rightarrow> q y) (case z of Inl x \<Rightarrow> p' x | Inr y \<Rightarrow> q' y)"
  by (simp split: sum.split)

lemma below_iterate:
  assumes "\<And>s. below (body s) (body' s)"
  shows "n \<le> m \<Longrightarrow> below (iterate n body s) (iterate m body' s)"
proof (induction n arbitrary: m s)
  case 0
  show ?case by (simp add: below_starved)
next
  case (Suc n)
  then obtain k where "m = Suc k" "n \<le> k" by (cases m) simp_all
  with Suc.IH show ?case by (simp, intro below_pbind assms below_sum below_refl)
qed

lemma below_in_container: "below p q \<Longrightarrow> below (in_container p) (in_container q)"
  unfolding in_container_def
  by (intro below_pbind below_refl belowI) (auto simp: Let_def dest: belowD split: prod.splits)

lemmas below_rules = below_if below_prod below_option below_pbind below_iterate below_in_container

lemma below_skip_while: "n \<le> m \<Longrightarrow> below (skip_while P n) (skip_while P m)"
  unfolding skip_while_def by (intro below_iterate below_refl)

lemma below_skip_whitespace: "n \<le> m \<Longrightarrow> below (skip_whitespace n) (skip_whitespace m)"
  unfolding skip_whitespace_def by (rule below_skip_while)

lemma below_strings:
  assumes "n \<le> m"
  shows "below (skip_string n) (skip_string m)" "below (parse_text_limit n limit) (parse_text_limit m limit)"
    "below (parse_key n) (parse_key m)"
  unfolding skip_string_def parse_text_limit_def parse_key_def
  by (intro below_pbind below_iterate below_refl assms)+

lemma below_parse_number: "n \<le> m \<Longrightarrow> below (parse_number n) (parse_number m)"
  unfolding parse_number_def parse_integer_part_def parse_fraction_def parse_exponent_def skip_digits_def
  by (intro below_rules below_skip_while below_refl)

lemma below_parse_items:
  "n \<le> m \<Longrightarrow> (\<And>s. below (item s) (item' s)) \<Longrightarrow>
     below (parse_items n opening closing item s) (parse_items m opening closing item' s)"
  unfolding parse_items_def next_item_def
  by (intro below_rules below_skip_whitespace below_refl)

lemma below_containers:
  assumes "n \<le> m" "below skip skip'"
  shows "below (skip_object n skip) (skip_object m skip')" "below (skip_array n skip) (skip_array m skip')"
  unfolding skip_object_def skip_array_def
  by (intro below_parse_items below_pbind below_strings below_skip_whitespace below_refl assms)+

lemma below_skip_value: "n \<le> m \<Longrightarrow> below (skip_value n) (skip_value m)"
proof (induction n arbitrary: m)
  case 0
  show ?case by (simp add: below_starved)
next
  case (Suc n)
  then obtain k where k: "m = Suc k" "n \<le> k" by (cases m) simp_all
  show ?case
    unfolding k(1) skip_value.simps
    by (intro below_rules below_skip_whitespace below_strings below_containers below_parse_number below_refl Suc.IH)
       (simp_all add: k(2))
qed

lemmas below_leaves = below_skip_value below_strings below_parse_number below_skip_whitespace

lemma below_values:
  assumes "n \<le> m"
  shows "below (parse_text_value n) (parse_text_value m)" "below (parse_u64_value n) (parse_u64_value m)"
    "below (parse_string_scalar_shape n a b) (parse_string_scalar_shape m a b)"
    "below (parse_signed_shape n c) (parse_signed_shape m c)" "below (string_shape n P) (string_shape m P)"
    "below (parse_object_array_shape n) (parse_object_array_shape m)"
  unfolding parse_text_value_def parse_text_def parse_u64_value_def parse_string_scalar_shape_def parse_signed_shape_def
    string_shape_def parse_object_array_shape_def shape_item_def
  by (intro below_rules below_parse_items below_leaves below_refl assms)+

lemma below_names:
  assumes "n \<le> m"
  shows "below (parse_identifier_value n) (parse_identifier_value m)" "below (parse_model_value n) (parse_model_value m)"
  unfolding parse_identifier_value_def parse_model_value_def Let_def
  by (intro below_rules below_values below_leaves below_refl assms)+

lemmas below_fields = below_if below_prod below_option below_pbind below_values below_names below_skip_value

lemma below_object_or_skip:
  assumes "n \<le> m" "\<And>object s. below (obj object s) (obj' object s)"
  shows "below (object_or_skip n obj object s) (object_or_skip m obj' object s)"
  unfolding object_or_skip_def by (intro below_rules below_skip_value below_refl assms)

lemma below_object_value:
  assumes "n \<le> m" "\<And>object s. below (obj object s) (obj' object s)"
  shows "below (parse_object_value sha256 n obj object k s) (parse_object_value sha256 m obj' object k s)"
proof -
  have response: "below (parse_response_field n obj k snapshot s) (parse_response_field m obj' k snapshot s)" for snapshot s
    unfolding parse_response_field_def by (intro below_fields below_object_or_skip below_refl assms)
  have noop: "below (parse_noop_field n obj k s) (parse_noop_field m obj' k s)" for s
    unfolding parse_noop_field_def parse_noop_value_def by (intro below_fields below_object_or_skip below_refl assms)
  have goal: "below (parse_goal_field n k s) (parse_goal_field m k s)" for s
    unfolding parse_goal_field_def parse_goal_value_def by (intro below_fields below_refl assms)
  have root: "below (parse_root_value n obj k s) (parse_root_value m obj' k s)"
    unfolding parse_root_value_def by (intro below_fields below_object_or_skip below_refl assms)
  have payload: "below (parse_payload_value sha256 n obj k s) (parse_payload_value sha256 m obj' k s)"
    unfolding parse_payload_value_def parse_payload_text_def parse_payload_object_def
    by (intro below_if noop response below_fields below_object_or_skip below_refl assms)
  have others: "below (parse_thread_settings_value n k s) (parse_thread_settings_value m k s)"
    "below (parse_info_value n obj k s) (parse_info_value m obj' k s)"
    "below (parse_usage_value n object' k s) (parse_usage_value m object' k s)" for object'
    unfolding parse_thread_settings_value_def parse_info_value_def parse_usage_value_def
    by (intro below_fields below_object_or_skip below_refl assms)+
  show ?thesis
    unfolding parse_object_value_def by (cases object) (simp_all add: root payload others goal response)
qed

lemma below_parse_object: "n \<le> m \<Longrightarrow> below (parse_object sha256 n object s) (parse_object sha256 m object s)"
proof (induction n arbitrary: m object s)
  case 0
  show ?case by (simp add: below_starved)
next
  case (Suc n)
  then obtain k where k: "m = Suc k" "n \<le> k" by (cases m) simp_all
  show ?case
    unfolding k(1) parse_object.simps parse_entry_def Let_def
    by (intro below_pbind below_parse_items below_prod below_strings below_skip_whitespace below_object_value below_refl Suc.IH)
       (simp_all add: k(2))
qed

lemma below_parse_record: "n \<le> m \<Longrightarrow> below (parse_record sha256 n) (parse_record sha256 m)"
  unfolding parse_record_def
  by (intro below_rules below_parse_object below_containers below_leaves below_refl)

lemma read_more_fuel:
  assumes "fst (read_streaming_record sha256 n bytes io_fails) \<noteq> ReadStarved" "n \<le> m"
  shows "read_streaming_record sha256 m bytes io_fails = read_streaming_record sha256 n bytes io_fails"
proof (cases "bytes = []")
  case False
  obtain r i where p: "parse_record sha256 n (SessionRecordInput_new bytes io_fails) = (r, i)" by fastforce
  with assms(1) False have "r \<noteq> Starved" by (auto simp: read_streaming_record_def)
  with p have "parse_record sha256 m (SessionRecordInput_new bytes io_fails) = (r, i)"
    by (rule belowD[OF below_parse_record[OF assms(2)]])
  with p show ?thesis by (simp add: read_streaming_record_def)
qed (simp add: read_streaming_record_def)

section \<open>Bytes after the line\<close>

definition same_state :: "SessionRecordInput \<Rightarrow> SessionRecordInput \<Rightarrow> bool" where
  "same_state i j \<longleftrightarrow> in_consumed j = in_consumed i \<and> in_saw_bytes j = in_saw_bytes i \<and>
     in_terminated j = in_terminated i \<and> in_eof j = in_eof i \<and> in_depth j = in_depth i"

definition swap_tail :: "u8 list \<Rightarrow> u8 list \<Rightarrow> SessionRecordInput \<Rightarrow> SessionRecordInput \<Rightarrow> bool" where
  "swap_tail a b i j \<longleftrightarrow> \<not> in_terminated i \<and>
same_state i j \<and>
     (\<exists>line. 10 \<notin> set line \<and> in_rest i = line @ 10 # a \<and> in_rest j = line @ 10 # b)"

definition swap_end :: "u8 list \<Rightarrow> u8 list \<Rightarrow> SessionRecordInput \<Rightarrow> SessionRecordInput \<Rightarrow> bool" where
  "swap_end a b i j \<longleftrightarrow> in_terminated i \<and> same_state i j \<and> in_rest i = a \<and> in_rest j = b"

definition tail_free :: "'a parser \<Rightarrow> bool" where
  "tail_free p \<longleftrightarrow> (\<forall>a b i j. swap_tail a b i j \<longrightarrow>
     (\<exists>r i' j'. p i = (r, i') \<and> p j = (r, j') \<and> (swap_tail a b i' j' \<or> (\<forall>x. r \<noteq> Done x) \<and> swap_end a b i' j')))"

lemma tail_freeI:
  "(\<And>a b i j. swap_tail a b i j \<Longrightarrow>
     \<exists>r i' j'. p i = (r, i') \<and> p j = (r, j') \<and> (swap_tail a b i' j' \<or> (\<forall>x. r \<noteq> Done x) \<and> swap_end a b i' j')) \<Longrightarrow> tail_free p"
  by (simp add: tail_free_def)

lemma tail_freeD:
  assumes "tail_free p" "swap_tail a b i j"
  obtains r i' j' where "p i = (r, i')" "p j = (r, j')" "swap_tail a b i' j' \<or> (\<forall>x. r \<noteq> Done x) \<and> swap_end a b i' j'"
  using assms unfolding tail_free_def by blast

lemma swap_tailE:
  assumes "swap_tail a b i j"
  obtains line where "\<not> in_terminated i" "same_state i j" "10 \<notin> set line" "in_rest i = line @ 10 # a" "in_rest j = line @ 10 # b"
  using assms by (auto simp: swap_tail_def)

lemma tail_free_yields: "tail_free (yields x)"
  by (rule tail_freeI) (auto simp: yields_def)

lemma tail_free_fails: "tail_free (fails e)"
  by (rule tail_freeI) (auto simp: fails_def)

lemma tail_free_starved: "tail_free (\<lambda>i. (Starved, i))"
  by (rule tail_freeI) auto

lemma tail_free_pbind:
  assumes "tail_free p" "\<And>x. tail_free (f x)"
  shows "tail_free (pbind p f)"
proof (rule tail_freeI)
  fix a b i j assume "swap_tail a b i j"
  with assms(1) obtain r i' j' where r: "p i = (r, i')" "p j = (r, j')"
    "swap_tail a b i' j' \<or> (\<forall>x. r \<noteq> Done x) \<and> swap_end a b i' j'" by (rule tail_freeD)
  show "\<exists>r i' j'. pbind p f i = (r, i') \<and> pbind p f j = (r, j') \<and>
      (swap_tail a b i' j' \<or> (\<forall>x. r \<noteq> Done x) \<and> swap_end a b i' j')"
  proof (cases r)
    case (Done x)
    with r(3) have "swap_tail a b i' j'" by simp
    with assms(2)[of x] show ?thesis using r Done by (auto simp: pbind_def elim!: tail_freeD)
  qed (use r in \<open>auto simp: pbind_def\<close>)
qed

lemma tail_free_if: "tail_free p \<Longrightarrow> tail_free q \<Longrightarrow> tail_free (if c then p else q)"
  by simp

lemma tail_free_prod: "(\<And>x y. tail_free (f x y)) \<Longrightarrow> tail_free (case z of (x, y) \<Rightarrow> f x y)"
  by (simp split: prod.split)

lemma tail_free_option: "tail_free p \<Longrightarrow> (\<And>y. tail_free (q y)) \<Longrightarrow> tail_free (case x of None \<Rightarrow> p | Some y \<Rightarrow> q y)"
  by (simp split: option.split)

lemma tail_free_sum:
  "(\<And>x. tail_free (p x)) \<Longrightarrow> (\<And>y. tail_free (q y)) \<Longrightarrow> tail_free (case z of Inl x \<Rightarrow> p x | Inr y \<Rightarrow> q y)"
  by (simp split: sum.split)

lemma tail_free_iterate: "(\<And>s. tail_free (body s)) \<Longrightarrow> tail_free (iterate n body s)"
  by (induction n arbitrary: s) (auto intro!: tail_free_starved tail_free_pbind tail_free_sum tail_free_yields)

lemma tail_free_in_container:
  assumes "tail_free p"
  shows "tail_free (in_container p)"
proof -
  have "tail_free enter_container"
    by (rule tail_freeI) (auto simp: enter_container_def swap_tail_def same_state_def)
  moreover have "tail_free (\<lambda>i. let (r, i') = p i in (r, leave_container i'))"
  proof (rule tail_freeI)
    fix a b i j assume "swap_tail a b i j"
    with assms obtain r i' j' where "p i = (r, i')" "p j = (r, j')"
      "swap_tail a b i' j' \<or> (\<forall>x. r \<noteq> Done x) \<and> swap_end a b i' j'" by (rule tail_freeD)
    then show "\<exists>r i' j'. (let (r, i') = p i in (r, leave_container i')) = (r, i') \<and>
        (let (r, i') = p j in (r, leave_container i')) = (r, j') \<and>
        (swap_tail a b i' j' \<or> (\<forall>x. r \<noteq> Done x) \<and> swap_end a b i' j')"
      by (auto simp: leave_container_def swap_tail_def swap_end_def same_state_def)
  qed
  ultimately show ?thesis unfolding in_container_def by (rule tail_free_pbind)
qed

lemma tail_free_peek_byte: "tail_free peek_byte"
proof (rule tail_freeI)
  fix a b i j assume s: "swap_tail a b i j"
  then obtain line where "\<not> in_terminated i" "same_state i j" "10 \<notin> set line" "in_rest i = line @ 10 # a"
    "in_rest j = line @ 10 # b" by (rule swap_tailE)
  with s show "\<exists>r i' j'. peek_byte i = (r, i') \<and> peek_byte j = (r, j') \<and>
      (swap_tail a b i' j' \<or> (\<forall>x. r \<noteq> Done x) \<and> swap_end a b i' j')"
    by (cases line) (auto simp: peek_byte_def)
qed

lemma tail_free_next_required: "tail_free next_required"
proof (rule tail_freeI)
  fix a b i j assume "swap_tail a b i j"
  then obtain line where "\<not> in_terminated i" "same_state i j" "10 \<notin> set line" "in_rest i = line @ 10 # a"
    "in_rest j = line @ 10 # b" by (rule swap_tailE)
  then show "\<exists>r i' j'. next_required i = (r, i') \<and> next_required j = (r, j') \<and>
      (swap_tail a b i' j' \<or> (\<forall>x. r \<noteq> Done x) \<and> swap_end a b i' j')"
    by (cases line) (auto simp: next_required_def next_byte_def pbind_def fails_def yields_def consume_def swap_tail_def swap_end_def
        same_state_def)
qed

lemma tail_free_accept: "tail_free (accept P)"
proof (rule tail_freeI)
  fix a b i j assume "swap_tail a b i j"
  then obtain line where "\<not> in_terminated i" "same_state i j" "10 \<notin> set line" "in_rest i = line @ 10 # a"
    "in_rest j = line @ 10 # b" by (rule swap_tailE)
  then show "\<exists>r i' j'. accept P i = (r, i') \<and> accept P j = (r, j') \<and>
      (swap_tail a b i' j' \<or> (\<forall>x. r \<noteq> Done x) \<and> swap_end a b i' j')"
    by (cases line) (auto simp: accept_def peek_byte_def next_byte_def pbind_def yields_def consume_def swap_tail_def
        same_state_def)
qed

lemmas tail_free_rules = tail_free_if tail_free_prod tail_free_option tail_free_sum tail_free_pbind tail_free_yields
  tail_free_fails tail_free_iterate tail_free_in_container tail_free_peek_byte tail_free_next_required tail_free_accept

lemma tail_free_bytes:
  "tail_free (consume_if x)" "tail_free (expect_byte x)" "tail_free (peek_is P)" "tail_free (skip_while P n)"
  "tail_free (skip_whitespace n)"
  unfolding consume_if_def expect_byte_def peek_is_def skip_whitespace_def skip_while_def
  by (intro tail_free_rules)+

lemma tail_free_hex_quad: "tail_free parse_hex_quad"
  unfolding parse_hex_quad_def hex_digit_def by (intro tail_free_rules)

lemma tail_free_utf8: "tail_free (read_utf8_character first)"
proof -
  have cont: "tail_free (read_continuation k bytes)" for k bytes
    by (induction k arbitrary: bytes) (auto intro!: tail_free_rules)
  have char: "tail_free (case from_utf8 bytes of Some [c] \<Rightarrow> yields c | _ \<Rightarrow> fails Syntax)" for bytes
    by (auto intro: tail_free_yields tail_free_fails split: option.split list.split)
  show ?thesis
    unfolding read_utf8_character_def
    by (cases "utf8_length first") (auto intro!: tail_free_pbind cont char tail_free_fails)
qed

lemma tail_free_string_character: "tail_free string_character"
  unfolding string_character_def parse_escape_character_def parse_unicode_escape_def
  by (intro tail_free_rules tail_free_bytes tail_free_hex_quad tail_free_utf8)

lemma tail_free_strings:
  "tail_free (skip_string n)" "tail_free (parse_text_limit n limit)" "tail_free (parse_key n)"
  unfolding skip_string_def parse_text_limit_def parse_key_def text_step_def key_step_def
  by (intro tail_free_rules tail_free_bytes tail_free_string_character)+

lemma tail_free_parse_number: "tail_free (parse_number n)"
  unfolding parse_number_def parse_integer_part_def parse_fraction_def parse_exponent_def skip_digits_def digits_step_def
  by (intro tail_free_rules tail_free_bytes)

lemma tail_free_parse_items: "(\<And>s. tail_free (item s)) \<Longrightarrow> tail_free (parse_items n opening closing item s)"
  unfolding parse_items_def next_item_def by (intro tail_free_rules tail_free_bytes)

lemma tail_free_parse_literal: "tail_free (parse_literal literal)"
  by (induction literal) (auto intro!: tail_free_rules tail_free_bytes)

lemma tail_free_skip_value: "tail_free (skip_value n)"
proof (induction n)
  case (Suc n)
  show ?case
    unfolding skip_value.simps skip_object_def skip_array_def
    by (intro tail_free_rules tail_free_bytes tail_free_strings tail_free_parse_items tail_free_parse_literal
          tail_free_parse_number Suc.IH)
qed (simp add: tail_free_starved)

lemmas tail_free_leaves = tail_free_rules tail_free_bytes tail_free_strings tail_free_string_character
  tail_free_parse_number tail_free_skip_value tail_free_parse_items

lemma tail_free_values:
  "tail_free (parse_text_value n)" "tail_free (parse_u64_value n)" "tail_free (parse_string_scalar_shape n x y)"
  "tail_free (parse_signed_shape n c)" "tail_free (string_shape n P)" "tail_free (parse_object_array_shape n)"
  unfolding parse_text_value_def parse_text_def parse_u64_value_def parse_string_scalar_shape_def parse_signed_shape_def
    string_shape_def parse_object_array_shape_def shape_item_def scalar_step_def
  by (intro tail_free_leaves)+

lemma tail_free_names: "tail_free (parse_identifier_value n)" "tail_free (parse_model_value n)"
  unfolding parse_identifier_value_def parse_model_value_def Let_def builder_step_def
  by (intro tail_free_values tail_free_leaves)+

lemmas tail_free_fields = tail_free_values tail_free_names tail_free_leaves

lemma tail_free_object_value:
  assumes "\<And>object s. tail_free (obj object s)"
  shows "tail_free (parse_object_value sha256 n obj object k s)"
proof -
  have object: "tail_free (object_or_skip n obj object s)" for object s
    unfolding object_or_skip_def by (intro tail_free_fields assms)
  have response: "tail_free (parse_response_field n obj k snapshot s)" for snapshot s
    unfolding parse_response_field_def by (intro tail_free_fields object)
  have noop: "tail_free (parse_noop_field n obj k s)" for s
    unfolding parse_noop_field_def parse_noop_value_def by (intro tail_free_fields object)
  have others: "tail_free (parse_thread_settings_value n k s)" "tail_free (parse_info_value n obj k s)"
    "tail_free (parse_usage_value n object' k s)" "tail_free (parse_goal_field n k s)" "tail_free (parse_root_value n obj k s)"
    for object'
    unfolding parse_thread_settings_value_def parse_info_value_def parse_usage_value_def parse_goal_field_def
      parse_goal_value_def parse_root_value_def
    by (intro tail_free_fields object)+
  have payload: "tail_free (parse_payload_value sha256 n obj k s)"
    unfolding parse_payload_value_def parse_payload_text_def parse_payload_object_def
    by (intro tail_free_if noop response tail_free_fields object)
  show ?thesis
    unfolding parse_object_value_def by (cases object) (simp_all add: payload others response)
qed

lemma tail_free_parse_object: "tail_free (parse_object sha256 n object s)"
proof (induction n arbitrary: object s)
  case (Suc n)
  show ?case
    unfolding parse_object.simps parse_entry_def Let_def
    by (intro tail_free_leaves tail_free_object_value Suc.IH)
qed (simp add: tail_free_starved)

lemma tail_free_parse_record: "tail_free (parse_record sha256 n)"
  unfolding parse_record_def skip_array_def by (intro tail_free_leaves tail_free_parse_object)

section \<open>A line alone\<close>

text \<open>What the reader makes of a complete line (without its line feed).\<close>

definition line_outcome :: "(u8 list \<Rightarrow> u8 list) \<Rightarrow> u8 list \<Rightarrow> read_outcome" where
  "line_outcome sha256 line = fst (read_streaming_record sha256 (length line + 2) (line @ [10]) False)"

lemma finish_tail_free:
  assumes "swap_tail a b i j"
  shows "fst (finish_line i) = fst (finish_line j) \<and> in_consumed (snd (finish_line i)) = in_consumed (snd (finish_line j))"
proof -
  from assms obtain line where "\<not> in_terminated i" "same_state i j" "10 \<notin> set line" "in_rest i = line @ 10 # a"
    "in_rest j = line @ 10 # b" by (rule swap_tailE)
  then show ?thesis by (cases line) (auto simp: finish_line_def same_state_def consume_def)
qed

lemma line_taken: "10 \<notin> set line \<Longrightarrow> takeWhile (\<lambda>byte. byte \<noteq> 10) (line @ 10 # rest) = line" for line :: "u8 list"
  by (induction line) auto

lemma drain_tail_free:
  assumes "swap_tail a b i j \<or> swap_end a b i j"
  shows "fst (drain_record i) = Done True \<and> fst (drain_record j) = Done True \<and>
    in_consumed (snd (drain_record i)) = in_consumed (snd (drain_record j))"
  using assms by (auto simp: drain_record_def swap_tail_def swap_end_def same_state_def consume_def Let_def line_taken)

lemma read_tail_free:
  assumes "10 \<notin> set line"
  shows "fst (read_streaming_record sha256 n (line @ 10 # a) x) = fst (read_streaming_record sha256 n (line @ 10 # b) y)"
proof -
  let ?i = "SessionRecordInput_new (line @ 10 # a) x" and ?j = "SessionRecordInput_new (line @ 10 # b) y"
  have "swap_tail a b ?i ?j" using assms by (auto simp: swap_tail_def same_state_def SessionRecordInput_new_def)
  with tail_free_parse_record obtain r i j where r: "parse_record sha256 n ?i = (r, i)" "parse_record sha256 n ?j = (r, j)"
    and ij: "swap_tail a b i j \<or> (\<forall>x. r \<noteq> Done x) \<and> swap_end a b i j" by (rule tail_freeD)
  have state: "in_saw_bytes j = in_saw_bytes i" "in_eof j = in_eof i" "in_terminated j = in_terminated i"
    using ij by (auto simp: swap_tail_def swap_end_def same_state_def)
  obtain d e where drain: "drain_record i = (Done True, d)" "drain_record j = (Done True, e)" "in_consumed d = in_consumed e"
    using drain_tail_free[of a b i j] ij by (metis prod.collapse)
  show ?thesis
  proof (cases r)
    case (Done s)
    with ij have "swap_tail a b i j" by simp
    from finish_tail_free[OF this] obtain q d e where
      "finish_line i = (q, d)" "finish_line j = (q, e)" "in_consumed d = in_consumed e" by (metis prod.collapse)
    then show ?thesis using r Done by (auto simp: read_streaming_record_def split: outcome.split bool.split)
  next
    case (Fail err)
    then show ?thesis using r state drain by (cases err) (auto simp: read_streaming_record_def)
  next
    case Starved
    then show ?thesis using r by (simp add: read_streaming_record_def)
  qed
qed

lemma first_line_unique:
  "line @ 10 # rest = line' @ 10 # rest' \<Longrightarrow> 10 \<notin> set line \<Longrightarrow> 10 \<notin> set line' \<Longrightarrow> line = line' \<and> rest = rest'" for line :: "u8 list"
proof (induction line arbitrary: line')
  case Nil
  then show ?case by (cases line') auto
next
  case (Cons x line)
  then show ?case by (cases line') auto
qed

lemma read_line:
  assumes "10 \<notin> set line" "length line + 1 + length rest < 2 ^ 64" "length line + 1 + length rest < n"
  shows "read_streaming_record sha256 n (line @ 10 # rest) io_fails = (line_outcome sha256 line, rest)"
proof -
  have "frames (line @ [10]) False (read_streaming_record sha256 (length line + 2) (line @ [10]) False)"
    using assms by (intro read_frames) auto
  then have "line_outcome sha256 line \<noteq> ReadStarved" by (auto simp: frames_def line_outcome_def)
  then have "line_outcome sha256 line = fst (read_streaming_record sha256 n (line @ [10]) False)"
    using assms(3) read_more_fuel[of sha256 "length line + 2" "line @ [10]" False n] by (simp add: line_outcome_def)
  also have "\<dots> = fst (read_streaming_record sha256 n (line @ 10 # rest) io_fails)"
    using assms(1) by (rule read_tail_free)
  finally have out: "fst (read_streaming_record sha256 n (line @ 10 # rest) io_fails) = line_outcome sha256 line" ..
  have "frames (line @ 10 # rest) io_fails (read_streaming_record sha256 n (line @ 10 # rest) io_fails)"
    using assms by (intro read_frames) auto
  then have "snd (read_streaming_record sha256 n (line @ 10 # rest) io_fails) = rest"
    using assms(1) by (auto simp: frames_def dest: first_line_unique)
  with out show ?thesis by (metis prod.collapse)
qed

end
