(* ===== verification/Parser_Summary.thy ===== *)
theory Parser_Summary
  imports Parser_Framing
begin

text \<open>
  What a parsed summary may hold: valid identifiers only, canonical model names only, and texts
  within their byte limits, whatever the bytes of the line. \<open>gives p Q\<close> says that every result of a
  parser satisfies \<open>Q\<close>; the rules follow the structure of the parsers.
\<close>

section \<open>Results of a parser\<close>

definition gives :: "'a parser \<Rightarrow> ('a \<Rightarrow> bool) \<Rightarrow> bool" where
  "gives p Q \<longleftrightarrow> (\<forall>i x i'. p i = (Done x, i') \<longrightarrow> Q x)"

lemma givesD: "gives p Q \<Longrightarrow> p i = (Done x, i') \<Longrightarrow> Q x"
  by (auto simp: gives_def)

lemma gives_mono: "gives p Q \<Longrightarrow> (\<And>x. Q x \<Longrightarrow> R x) \<Longrightarrow> gives p R"
  by (auto simp: gives_def)

lemma gives_yields: "Q x \<Longrightarrow> gives (yields x) Q"
  by (simp add: gives_def yields_def)

lemma gives_fails: "gives (fails e) Q"
  by (simp add: gives_def fails_def)

lemma gives_pbind: "gives p R \<Longrightarrow> (\<And>x. R x \<Longrightarrow> gives (f x) Q) \<Longrightarrow> gives (pbind p f) Q"
  unfolding gives_def[of "pbind p f"] by (blast elim: pbind_Done dest: givesD)

lemma gives_then: "(\<And>x. gives (f x) Q) \<Longrightarrow> gives (pbind p f) Q"
  by (auto simp: gives_def elim!: pbind_Done)

lemma gives_if: "(c \<Longrightarrow> gives p Q) \<Longrightarrow> (\<not> c \<Longrightarrow> gives q Q) \<Longrightarrow> gives (if c then p else q) Q"
  by simp

lemma gives_prod: "(\<And>x y. z = (x, y) \<Longrightarrow> gives (f x y) Q) \<Longrightarrow> gives (case z of (x, y) \<Rightarrow> f x y) Q"
  by (simp split: prod.split)

lemma gives_option:
  "(x = None \<Longrightarrow> gives p Q) \<Longrightarrow> (\<And>y. x = Some y \<Longrightarrow> gives (q y) Q) \<Longrightarrow>
     gives (case x of None \<Rightarrow> p | Some y \<Rightarrow> q y) Q"
  by (simp split: option.split)

lemma gives_iterate:
  assumes "\<And>s. I s \<Longrightarrow> gives (body s) (case_sum I Q)"
  shows "I s \<Longrightarrow> gives (iterate n body s) Q"
proof (induction n arbitrary: s)
  case 0
  show ?case by (simp add: gives_def)
next
  case (Suc n)
  show ?case
    unfolding iterate.simps
    by (rule gives_pbind[OF assms[OF Suc.prems]])
       (auto intro: Suc.IH gives_yields split: sum.splits)
qed

lemma gives_in_container: "gives p Q \<Longrightarrow> gives (in_container p) Q"
  unfolding in_container_def by (rule gives_then) (auto simp: gives_def[of "\<lambda>i. f i" for f] dest: givesD split: prod.splits)

lemma gives_next_item: "I s \<Longrightarrow> gives (next_item n closing s) (case_sum I I)"
  unfolding next_item_def by (intro gives_then gives_if gives_yields gives_fails) simp_all

lemma gives_parse_items:
  assumes "\<And>s. I s \<Longrightarrow> gives (item s) I" "I s"
  shows "gives (parse_items n opening closing item s) I"
proof -
  have "gives (pbind (item s) (next_item n closing)) (case_sum I I)" if "I s" for s
    using assms(1)[OF that] by (rule gives_pbind) (rule gives_next_item)
  then show ?thesis
    unfolding parse_items_def
    by (intro gives_in_container gives_then[where p = "expect_byte opening"] gives_then[where p = "skip_whitespace n"]
          gives_then[where p = "consume_if closing"] gives_if gives_yields gives_iterate[where I = I] assms(2))
qed

lemmas gives_rules = gives_if gives_prod gives_option gives_yields gives_fails gives_then

section \<open>Typed values\<close>

definition identifier_typed :: "rstr option \<Rightarrow> bool" where
  "identifier_typed = pred_option valid_identifier"

definition model_typed :: "rstr option \<Rightarrow> bool" where
  "model_typed = pred_option (\<lambda>m. normalize_model_name m = Some m)"

definition text_typed :: "rstr option \<Rightarrow> bool" where
  "text_typed = pred_option (\<lambda>t. str_len t \<le> MAX_SESSION_MODEL_BYTES)"

lemma typed_None [simp]: "identifier_typed None" "model_typed None" "text_typed None"
  by (simp_all add: identifier_typed_def model_typed_def text_typed_def)

lemma gives_parse_text_limit: "gives (parse_text_limit n limit) (\<lambda>(text, _). str_len text \<le> limit)"
proof -
  have "gives (text_step limit st) (case_sum (\<lambda>(text, _). str_len text \<le> limit) (\<lambda>(text, _). str_len text \<le> limit))"
    if "(\<lambda>(text, _). str_len text \<le> limit) st" for st
    using that unfolding text_step_def
    by (intro gives_then gives_yields) (auto simp: Let_def str_len_def split: option.split prod.splits)
  then show ?thesis
    unfolding parse_text_limit_def
    by (intro gives_then gives_iterate[where I = "\<lambda>(text, _). str_len text \<le> limit"]) (auto simp: str_len_def)
qed

lemma gives_parse_text_value: "gives (parse_text_value n) (\<lambda>(v, _). text_typed v)"
  unfolding parse_text_value_def parse_text_def
  by (intro gives_then[where p = peek_byte] gives_if gives_pbind[OF gives_parse_text_limit] gives_then[where p = "skip_value n"]
        gives_prod gives_yields) (auto simp: text_typed_def)

text \<open>At a byte that is not a quote the value is not a text.\<close>

lemma parse_text_value_other:
  assumes "peek_byte i = (Done b, i')" "b \<noteq> Some 34" "parse_text_value n i' = (Done (v, m), i'')"
  shows "v = None"
proof -
  have "peek_byte i' = (Done b, i')" using assms(1) by (auto simp: peek_byte_def split: list.splits if_splits)
  with assms(2,3) show ?thesis by (auto simp: parse_text_value_def pbind_def yields_def split: prod.splits outcome.splits)
qed

lemma gives_parse_identifier_value: "gives (parse_identifier_value n) (\<lambda>(v, _). identifier_typed v)"
proof -
  have "identifier_typed v" if "parse_identifier_value n i = (Done (v, m), i')" for i v m i'
  proof -
    from that obtain b i1 where b: "peek_byte i = (Done b, i1)"
      and rest: "(if b \<noteq> Some 34 then parse_text_value n
        else pbind (parse_text_limit n (512 * 4)) (\<lambda>(value, truncated).
          let valid = \<not> truncated \<and> valid_identifier value
          in yields (if valid then Some value else None, \<not> valid))) i1 = (Done (v, m), i')"
      unfolding parse_identifier_value_def by (elim pbind_Done)
    show ?thesis
    proof (cases "b = Some 34")
      case True
      with rest show ?thesis
        by (auto simp: Let_def yields_def identifier_typed_def elim!: pbind_Done split: prod.splits if_splits)
    next
      case False
      with rest have "parse_text_value n i1 = (Done (v, m), i')" by simp
      from parse_text_value_other[OF b False this] show ?thesis by simp
    qed
  qed
  then show ?thesis by (auto simp: gives_def)
qed

lemma gives_parse_model_value: "gives (parse_model_value n) (\<lambda>(v, _). model_typed v)"
proof -
  have loop: "gives (iterate n builder_step builder_default) model_typed"
  proof (rule gives_iterate[where I = "\<lambda>b. \<exists>s. b = foldl push builder_default s"])
    fix b assume "\<exists>s. b = foldl push builder_default s"
    then obtain s where s: "b = foldl push builder_default s" by blast
    have "model_typed (finish b)"
      using normalize_model_name_idem by (auto simp: s name_stream.finish_feed model_typed_def option.pred_set)
    moreover have "\<exists>s. push b c = foldl push builder_default s" for c by (rule exI[of _ "s @ [c]"]) (simp add: s)
    ultimately show "gives (builder_step b) (case_sum (\<lambda>b. \<exists>s. b = foldl push builder_default s) model_typed)"
      unfolding builder_step_def by (intro gives_then gives_yields) (auto split: option.split)
  qed (metis foldl.simps(1))
  have "model_typed v" if "parse_model_value n i = (Done (v, m), i')" for i v m i'
  proof -
    from that obtain b i1 where b: "peek_byte i = (Done b, i1)"
      and rest: "(if b \<noteq> Some 34 then parse_text_value n
        else pbind next_required (\<lambda>_. pbind (iterate n builder_step builder_default) (\<lambda>model. yields (model, model = None)))) i1
          = (Done (v, m), i')"
      unfolding parse_model_value_def by (elim pbind_Done)
    show ?thesis
    proof (cases "b = Some 34")
      case True
      with rest show ?thesis by (auto simp: yields_def elim!: pbind_Done dest: givesD[OF loop])
    next
      case False
      with rest have "parse_text_value n i1 = (Done (v, m), i')" by simp
      from parse_text_value_other[OF b False this] show ?thesis by simp
    qed
  qed
  then show ?thesis by (auto simp: gives_def)
qed

section \<open>Typed summaries\<close>

definition response_typed :: "ResponsePayloadSummary \<Rightarrow> bool" where
  "response_typed r \<longleftrightarrow> identifier_typed (rps_thread_id r) \<and> identifier_typed (rps_session_id r) \<and>
     identifier_typed (rps_turn_id r) \<and> identifier_typed (rps_root_turn_id r) \<and> identifier_typed (rps_response_id r)"

definition payload_typed :: "PayloadSummary \<Rightarrow> bool" where
  "payload_typed p \<longleftrightarrow>
     identifier_typed (ps_metadata_id p) \<and> identifier_typed (ps_forked_from_id p) \<and>
     response_typed (ps_response p) \<and> response_typed (ps_snapshot p) \<and>
     text_typed (ps_event_type p) \<and> model_typed (ps_model p) \<and> model_typed (ps_thread_settings_model p) \<and>
     identifier_typed (ns_thread_id (ps_noop p)) \<and> identifier_typed (gs_thread_id (ns_goal (ps_noop p)))"

definition summary_typed :: "SessionRecordSummary \<Rightarrow> bool" where
  "summary_typed s \<longleftrightarrow> text_typed (sr_outer_type s) \<and> text_typed (sr_timestamp s) \<and> model_typed (sr_root_model s) \<and>
     payload_typed (sr_payload s)"

lemma typed_default [simp]:
  "response_typed ResponsePayloadSummary_default" "payload_typed PayloadSummary_default"
  "summary_typed SessionRecordSummary_default"
  by (simp_all add: response_typed_def payload_typed_def summary_typed_def ResponsePayloadSummary_default_def
      PayloadSummary_default_def SessionRecordSummary_default_def NoOpShape_default_def GoalShape_default_def)

text \<open>The updates of a summary, by the part they touch.\<close>

lemma typed_map_payload:
  "summary_typed s \<Longrightarrow> (payload_typed (sr_payload s) \<Longrightarrow> payload_typed (f (sr_payload s))) \<Longrightarrow>
     summary_typed (map_payload f s)"
  by (simp add: summary_typed_def map_payload_def)

lemma typed_map_response:
  "summary_typed s \<Longrightarrow> (\<And>r. response_typed r \<Longrightarrow> response_typed (f r)) \<Longrightarrow> summary_typed (map_response snapshot f s)"
  unfolding map_response_def by (rule typed_map_payload) (auto simp: payload_typed_def)

lemma typed_map_noop:
  "summary_typed s \<Longrightarrow> (\<And>n. identifier_typed (ns_thread_id n) \<Longrightarrow> identifier_typed (gs_thread_id (ns_goal n)) \<Longrightarrow>
       identifier_typed (ns_thread_id (f n)) \<and> identifier_typed (gs_thread_id (ns_goal (f n)))) \<Longrightarrow>
     summary_typed (map_noop f s)"
  unfolding map_noop_def by (rule typed_map_payload) (auto simp: payload_typed_def)

lemma typed_map_goal:
  "summary_typed s \<Longrightarrow> (\<And>g. identifier_typed (gs_thread_id g) \<Longrightarrow> identifier_typed (gs_thread_id (f g))) \<Longrightarrow>
     summary_typed (map_goal f s)"
  unfolding map_goal_def by (rule typed_map_noop) auto

lemma typed_set_identifier: "response_typed r \<Longrightarrow> identifier_typed v \<Longrightarrow> response_typed (set_identifier k v r)"
  by (cases k) (auto simp: response_typed_def)

lemma typed_map_usage_of: "response_typed r \<Longrightarrow> response_typed (map_usage_of k f r)"
  by (cases k) (auto simp: response_typed_def)

lemma typed_map_usage: "summary_typed s \<Longrightarrow> summary_typed (map_usage object f s)"
  by (cases object) (auto intro!: typed_map_payload typed_map_response typed_map_usage_of simp: payload_typed_def)

lemma typed_observe_duplicate: "summary_typed s \<Longrightarrow> summary_typed (observe_duplicate object k s)"
  by (cases object)
     (auto simp: observe_response_duplicate_def Let_def map_payload_def summary_typed_def payload_typed_def)

section \<open>Typed objects\<close>

lemma gives_object_or_skip:
  assumes "\<And>s. summary_typed s \<Longrightarrow> gives (obj object s) summary_typed" "\<And>b. summary_typed (s b)"
  shows "gives (object_or_skip n obj object s) (\<lambda>(_, s'). summary_typed s')"
  unfolding object_or_skip_def
  by (intro gives_then[where p = "peek_is P" for P] gives_if gives_pbind[OF assms(1)] gives_then[where p = "skip_value n"]
        gives_yields) (simp_all add: assms(2))

lemmas gives_ident = gives_pbind[OF gives_parse_identifier_value]
lemmas gives_text = gives_pbind[OF gives_parse_text_value]
lemmas gives_model = gives_pbind[OF gives_parse_model_value]
lemmas gives_object = gives_pbind[OF gives_object_or_skip]
lemmas gives_other = gives_then[where p = "skip_value n" for n] gives_then[where p = "parse_u64_value n" for n]
  gives_then[where p = peek_byte] gives_then[where p = "peek_is P" for P] gives_then[where p = "string_shape n P" for n P]
  gives_then[where p = "parse_signed_shape n b" for n b] gives_then[where p = "parse_object_array_shape n" for n]
  gives_then[where p = "parse_string_scalar_shape n a b" for n a b]
lemmas gives_field = gives_ident gives_text gives_model gives_object gives_other gives_if gives_prod gives_yields

lemma gives_parse_response_field:
  assumes "\<And>object s. summary_typed s \<Longrightarrow> gives (obj object s) summary_typed" "summary_typed s"
  shows "gives (parse_response_field n obj k snapshot s) summary_typed"
  unfolding parse_response_field_def
  by (intro gives_field)
     (auto intro!: assms typed_map_response typed_set_identifier typed_map_usage_of simp: response_typed_def)

lemma gives_parse_noop_field:
  assumes "\<And>object s. summary_typed s \<Longrightarrow> gives (obj object s) summary_typed" "summary_typed s"
  shows "gives (parse_noop_field n obj k s) summary_typed"
proof -
  have v: "gives (parse_noop_value n obj k s) (\<lambda>(_, s'). summary_typed s')"
    unfolding parse_noop_value_def
    by (intro gives_field gives_object_or_skip)
       (auto intro!: assms typed_map_noop typed_map_goal simp: GoalShape_default_def)
  show ?thesis
    unfolding parse_noop_field_def
    by (intro gives_if gives_pbind[OF v] gives_prod gives_yields gives_then[where p = "skip_value n"])
       (auto intro!: assms typed_map_noop simp: NoOpShape_field_def Let_def)
qed

lemma gives_parse_goal_field:
  assumes "summary_typed s"
  shows "gives (parse_goal_field n k s) summary_typed"
proof -
  have v: "gives (parse_goal_value n k s) (\<lambda>(_, s'). summary_typed s')"
    unfolding parse_goal_value_def by (intro gives_field) (auto intro!: assms typed_map_goal)
  show ?thesis
    unfolding parse_goal_field_def
    by (intro gives_if gives_pbind[OF v] gives_prod gives_yields gives_then[where p = "skip_value n"])
       (auto intro!: assms typed_map_goal)
qed

lemma gives_parse_root_value:
  assumes "\<And>object s. summary_typed s \<Longrightarrow> gives (obj object s) summary_typed" "summary_typed s"
  shows "gives (parse_root_value n obj k s) summary_typed"
  using assms(2) unfolding parse_root_value_def
  by (intro gives_field) (auto intro!: assms(1) simp: summary_typed_def)

lemma gives_parse_payload_text: "payload_typed p \<Longrightarrow> gives (parse_payload_text sha256 n k p) payload_typed"
  unfolding parse_payload_text_def by (intro gives_field) (auto simp: payload_typed_def)

lemma gives_parse_payload_object:
  assumes "\<And>object s. summary_typed s \<Longrightarrow> gives (obj object s) summary_typed" "summary_typed s"
  shows "gives (parse_payload_object n obj k s) summary_typed"
  unfolding parse_payload_object_def
  by (intro gives_field) (auto intro!: assms typed_map_payload simp: payload_typed_def)

lemma gives_parse_payload_value:
  assumes "\<And>object s. summary_typed s \<Longrightarrow> gives (obj object s) summary_typed" "summary_typed s"
  shows "gives (parse_payload_value sha256 n obj k s) summary_typed"
proof -
  have p: "gives (parse_payload_text sha256 n k (sr_payload s)) payload_typed"
    using assms(2) by (intro gives_parse_payload_text) (simp add: summary_typed_def)
  show ?thesis
    using assms(2) unfolding parse_payload_value_def
    by (intro gives_if gives_parse_noop_field gives_parse_response_field gives_pbind[OF p] gives_yields
          gives_parse_payload_object gives_then[where p = "skip_value n"] assms) (auto simp: summary_typed_def)
qed

lemma gives_parse_thread_settings_value:
  "summary_typed s \<Longrightarrow> gives (parse_thread_settings_value n k s) summary_typed"
  unfolding parse_thread_settings_value_def
  by (intro gives_field) (auto intro!: typed_map_payload simp: payload_typed_def)

lemma gives_parse_info_value:
  assumes "\<And>object s. summary_typed s \<Longrightarrow> gives (obj object s) summary_typed" "summary_typed s"
  shows "gives (parse_info_value n obj k s) summary_typed"
  unfolding parse_info_value_def
  by (intro gives_field) (auto intro!: assms typed_map_payload simp: payload_typed_def)

lemma gives_parse_usage_value: "summary_typed s \<Longrightarrow> gives (parse_usage_value n object k s) summary_typed"
  unfolding parse_usage_value_def by (intro gives_field) (auto intro!: typed_map_usage)

lemma gives_parse_object_value:
  assumes "\<And>object s. summary_typed s \<Longrightarrow> gives (obj object s) summary_typed" "summary_typed s"
  shows "gives (parse_object_value sha256 n obj object k s) summary_typed"
  unfolding parse_object_value_def
  by (cases object)
     (simp_all add: assms gives_parse_root_value gives_parse_payload_value gives_parse_thread_settings_value
        gives_parse_info_value gives_parse_usage_value gives_parse_goal_field gives_parse_response_field)

lemma gives_parse_entry:
  assumes "\<And>object s. summary_typed s \<Longrightarrow> gives (obj object s) summary_typed" "summary_typed (snd st)"
  shows "gives (parse_entry sha256 n obj object st) (\<lambda>st'. summary_typed (snd st'))"
  unfolding parse_entry_def Let_def
  by (intro gives_then[where p = "parse_key n"] gives_prod gives_then[where p = "skip_whitespace n"]
        gives_then[where p = "expect_byte 58"] gives_pbind[OF gives_parse_object_value[where obj = obj]] gives_yields assms(1))
     (use assms(2) in \<open>auto simp: typed_observe_duplicate\<close>)

lemma gives_parse_object: "summary_typed s \<Longrightarrow> gives (parse_object sha256 n object s) summary_typed"
proof (induction n arbitrary: object s)
  case 0
  show ?case by (simp add: gives_def)
next
  case (Suc n)
  have v: "gives (parse_items (Suc n) 123 125 (parse_entry sha256 (Suc n) (parse_object sha256 n) object) (0, s))
      (\<lambda>st. summary_typed (snd st))"
    by (rule gives_parse_items) (auto intro!: gives_parse_entry Suc)
  show ?case
    unfolding parse_object.simps by (intro gives_pbind[OF v] gives_prod gives_yields) simp
qed

lemma typed_finish_summary: "summary_typed s \<Longrightarrow> summary_typed (finish_summary s)"
  by (auto simp: finish_summary_def summary_typed_def Let_def)

lemma gives_parse_record: "gives (parse_record sha256 n) summary_typed"
proof -
  have "gives (case b of None \<Rightarrow> fails Syntax
      | Some byte \<Rightarrow>
          if byte = 123 then parse_object sha256 n ObjRoot SessionRecordSummary_default
          else if byte = 91 then pbind (skip_array n (skip_value n)) (\<lambda>_. yields SessionRecordSummary_default)
          else pbind (skip_value n) (\<lambda>_. yields SessionRecordSummary_default)) summary_typed" for b
    by (intro gives_option gives_if gives_fails gives_parse_object gives_then[where p = "skip_array n p" for p]
          gives_then[where p = "skip_value n"] gives_yields) simp_all
  note v = gives_pbind[OF this]
  show ?thesis
    unfolding parse_record_def
    by (intro gives_then[where p = "skip_whitespace n"] gives_then[where p = peek_byte] v gives_if gives_fails
          gives_yields typed_finish_summary)
qed

lemma read_present_typed:
  "read_streaming_record sha256 n bytes io_fails = (ReadDone (RecordPresent s consumed), rest) \<Longrightarrow> summary_typed s"
  by (auto simp: read_streaming_record_def split: if_splits prod.splits outcome.splits SessionRecordParseError.splits
        bool.splits dest: givesD[OF gives_parse_record])

end
