(* ===== verification/Response_Classification.thy ===== *)
theory Response_Classification
  imports Source_Admission Interfaces
begin

text \<open>
  Facts about the pending responses of \<open>Source_Admission\<close>: what one observed record does to a
  response, that a decided response never changes again, and that the validity of a response
  survives every record that starts after the bytes read so far. The model classification and
  the association with a raw counter are two machines over the same records; both stop at a
  decision, which is stated once for the interface \<open>absorbing_machine\<close>.
\<close>

section \<open>Machines that stop\<close>

locale absorbing_machine =
  fixes step :: "'i \<Rightarrow> 's \<Rightarrow> 's"
    and decided :: "'s \<Rightarrow> bool"
  assumes decided_step: "decided s \<Longrightarrow> step i s = s"
begin

lemma decided_fold: "decided s \<Longrightarrow> fold step inputs s = s"
  by (induction inputs) (simp_all add: decided_step)

lemma decided_forever: "decided (fold step before s) \<Longrightarrow> fold step (before @ after) s = fold step before s"
  by (simp add: decided_fold)

end

lemma decided_classification: "\<not> is_open (pr_classification r) \<Longrightarrow> observe_classification i p r = r"
  by (cases "pr_classification r") (auto simp: observe_classification_def)

interpretation classification_machine: absorbing_machine
  "\<lambda>(i, p). observe_classification i p" "\<lambda>r. \<not> is_open (pr_classification r)"
  by unfold_locales (auto simp: decided_classification)

interpretation association_machine: absorbing_machine
  "\<lambda>(i, p, q, u). observe_counter_association i p q u" "\<lambda>r. pr_counter_association r \<noteq> Awaiting"
  by unfold_locales (auto simp: observe_counter_association_def)

section \<open>What an observation leaves alone\<close>

lemma observe_classification_frame [simp]:
  "pr_key (observe_classification i p r) = pr_key r"
  "pr_record (observe_classification i p r) = pr_record r"
  "pr_pointer (observe_classification i p r) = pr_pointer r"
  "pr_session_scope_qualified (observe_classification i p r) = pr_session_scope_qualified r"
  "pr_root_context (observe_classification i p r) = pr_root_context r"
  "pr_counter_association (observe_classification i p r) = pr_counter_association r"
  by (simp_all add: observe_classification_def unassigned_at_def
      split: ResponseModelClassification.split ResponseClassificationInput.split)

lemma observe_association_frame [simp]:
  "pr_key (observe_counter_association i p q u r) = pr_key r"
  "pr_record (observe_counter_association i p q u r) = pr_record r"
  "pr_pointer (observe_counter_association i p q u r) = pr_pointer r"
  "pr_session_scope_qualified (observe_counter_association i p q u r) = pr_session_scope_qualified r"
  "pr_root_context (observe_counter_association i p q u r) = pr_root_context r"
  "pr_classification (observe_counter_association i p q u r) = pr_classification r"
  by (simp_all add: observe_counter_association_def unmatched_at_def Let_def
      split: ResponseClassificationInput.split option.split)

section \<open>Longer prefixes\<close>

lemma RecordPointer_valid_mono: "RecordPointer_valid p a \<Longrightarrow> a \<le> b \<Longrightarrow> RecordPointer_valid p b"
  by (auto simp: RecordPointer_valid_def)

lemma ClassificationPointer_valid_after_mono:
  "ClassificationPointer_valid_after p s a \<Longrightarrow> t \<le> s \<Longrightarrow> a \<le> b \<Longrightarrow> ClassificationPointer_valid_after p t b"
  by (auto simp: ClassificationPointer_valid_after_def)

lemma ClassificationProof_valid_after_mono:
  "ClassificationProof_valid_after q s a \<Longrightarrow> t \<le> s \<Longrightarrow> a \<le> b \<Longrightarrow> ClassificationProof_valid_after q t b"
  by (cases q) (auto intro: ClassificationPointer_valid_after_mono)

lemma context_valid_mono: "context_valid a c \<Longrightarrow> a \<le> b \<Longrightarrow> context_valid b c"
  by (auto simp: context_valid_def intro: RecordPointer_valid_mono)

lemma SourceAccountBinding_valid_mono:
  "SourceAccountBinding_valid d a \<Longrightarrow> a \<le> b \<Longrightarrow> SourceAccountBinding_valid d b"
  by (auto simp: SourceAccountBinding_valid_def)

lemma classification_valid_mono: "classification_valid r a \<Longrightarrow> a \<le> b \<Longrightarrow> classification_valid r b"
  by (cases "pr_classification r")
    (auto simp: classification_valid_def Let_def intro: ClassificationPointer_valid_after_mono
      ClassificationProof_valid_after_mono RecordPointer_valid_mono)

lemma counter_association_valid_mono:
  "counter_association_valid r a \<Longrightarrow> a \<le> b \<Longrightarrow> counter_association_valid r b"
  by (cases "pr_counter_association r")
    (auto simp: counter_association_valid_def intro: ClassificationProof_valid_after_mono RecordPointer_valid_mono)

lemma root_context_valid_mono: "root_context_valid a r c \<Longrightarrow> a \<le> b \<Longrightarrow> root_context_valid b r c"
  by (auto simp: root_context_valid_def intro: context_valid_mono)

lemmas prefix_mono = RecordPointer_valid_mono ClassificationPointer_valid_after_mono
  ClassificationProof_valid_after_mono context_valid_mono SourceAccountBinding_valid_mono
  classification_valid_mono counter_association_valid_mono root_context_valid_mono

section \<open>One record\<close>

text \<open>
  A record read at \<open>a .. b\<close>: its byte evidence lies in the new bytes, and so does the context a
  strong input carries.
\<close>

definition input_within :: "u64 \<Rightarrow> u64 \<Rightarrow> ResponseClassificationInput \<Rightarrow> bool" where
  "input_within a b input =
     (case input of
        Strong context _ \<Rightarrow>
          RecordPointer_valid (sc_pointer (rc_context context)) b \<and> a \<le> rp_start (sc_pointer (rc_context context))
      | _ \<Rightarrow> True)"

lemma new_record_after:
  "RecordPointer_valid q a \<Longrightarrow> ClassificationPointer_valid_after p a b \<Longrightarrow>
   ClassificationPointer_valid_after p (rp_end q) b"
  by (rule ClassificationPointer_valid_after_mono) (auto simp: RecordPointer_valid_def)

lemma observe_classification_valid:
  assumes "classification_valid r a" "RecordPointer_valid (pr_pointer r) a" "a \<le> b"
    and p: "ClassificationPointer_valid_after p a b" and i: "input_within a b i"
  shows "classification_valid (observe_classification i p r) b"
proof -
  have old: "classification_valid r b" using assms(1,3) by (rule classification_valid_mono)
  have new: "ClassificationPointer_valid_after p (rp_end (pr_pointer r)) b"
    using assms(2) p by (rule new_record_after)
  show ?thesis
  proof (cases "pr_classification r")
    case AwaitingBoundary
    then show ?thesis using old new
      by (cases i) (auto simp: classification_valid_def observe_classification_def unassigned_at_def)
  next
    case (AwaitingReplacement snapshot)
    then have "cp_end snapshot \<le> a"
      using assms(1) by (auto simp: classification_valid_def ClassificationPointer_valid_after_def)
    then show ?thesis using AwaitingReplacement old new i
      by (cases i) (auto simp: classification_valid_def observe_classification_def unassigned_at_def
          matches_root_def input_within_def)
  qed (use old in \<open>simp_all add: decided_classification\<close>)
qed

lemma observe_classification_keeps_association:
  assumes "counter_association_valid r a"
  shows "counter_association_valid (observe_classification i p r) a"
proof (cases "is_open (pr_classification r)")
  case True
  then have "compaction_snapshot r = None"
    by (cases "pr_classification r") (auto simp: compaction_snapshot_def)
  then show ?thesis using assms
    by (auto simp: counter_association_valid_def
        split: ResponseCounterAssociation.splits option.splits)
qed (use assms in \<open>simp add: decided_classification\<close>)

text \<open>The pointer of a counter record and the evidence of the record are the same bytes.\<close>

lemma observe_association_valid:
  assumes "counter_association_valid r a" "classification_valid r b" "RecordPointer_valid (pr_pointer r) a" "a \<le> b"
    and p: "ClassificationPointer_valid_after p a b"
    and q: "pred_option (\<lambda>q. RecordPointer_valid q b \<and> a \<le> rp_start q) pointer"
    and snap: "\<And>snapshot. compaction_snapshot r = Some snapshot \<Longrightarrow> i = Counter \<Longrightarrow> cp_end snapshot \<le> a"
  shows "counter_association_valid (observe_counter_association i p pointer u r) b"
proof (cases "pr_counter_association r = Awaiting")
  case True
  have new: "ClassificationPointer_valid_after p (rp_end (pr_pointer r)) b"
    using assms(3) p by (rule new_record_after)
  then have unm: "counter_association_valid (unmatched_at r p) b"
    by (simp add: counter_association_valid_def unmatched_at_def)
  have keep: "counter_association_valid r b" using True by (simp add: counter_association_valid_def)
  have after: "rp_end (pr_pointer r) \<le> a" using assms(3) by (simp add: RecordPointer_valid_def)
  show ?thesis
  proof (cases i)
    case Counter
    show ?thesis
    proof (cases pointer)
      case None
      then show ?thesis using Counter True unm by (simp add: observe_counter_association_def)
    next
      case (Some at_pointer)
      have "rp_end (pr_pointer r) \<le> rp_start at_pointer" "RecordPointer_valid at_pointer b"
        using q Some after by auto
      moreover have "compaction_snapshot r = Some s \<Longrightarrow> cp_end s \<le> rp_start at_pointer" for s
        using snap[OF _ Counter] q Some by force
      ultimately show ?thesis using Counter True Some unm
        by (auto simp: observe_counter_association_def Let_def counter_association_valid_def compaction_snapshot_def
            split: option.splits)
    qed
  qed (use True unm keep in \<open>auto simp: observe_counter_association_def\<close>)
next
  case False
  then show ?thesis
    using counter_association_valid_mono[OF assms(1,4)] by (simp add: observe_counter_association_def)
qed

text \<open>The records that decide whatever is still open: a counter, a task, the next response, and anything unknown.\<close>

fun closes :: "ResponseClassificationInput \<Rightarrow> bool" where
  "closes NoOp = False"
| "closes (Strong _ _) = False"
| "closes (Snapshot _) = False"
| "closes _ = True"

lemma observe_classification_closes:
  "closes i \<Longrightarrow> \<not> is_open (pr_classification (observe_classification i p r))"
  by (cases "pr_classification r"; cases i)
    (simp_all add: observe_classification_def unassigned_at_def)

lemma close_source_fields [simp]:
  "pr_classification (close_source_classification offset r) =
     (if is_open (pr_classification r) then Unassigned SourceBoundary (SourceEnd offset) else pr_classification r)"
  "pr_counter_association (close_source_classification offset r) =
     (if pr_counter_association r = Awaiting then Unmatched (SourceEnd offset) else pr_counter_association r)"
  "pr_record (close_source_classification offset r) = pr_record r"
  "pr_pointer (close_source_classification offset r) = pr_pointer r"
  "pr_session_scope_qualified (close_source_classification offset r) = pr_session_scope_qualified r"
  "pr_root_context (close_source_classification offset r) = pr_root_context r"
  by (simp_all add: close_source_classification_def Let_def)

lemma close_source_decides:
  "\<not> is_open (pr_classification (close_source_classification offset r)) \<and>
   pr_counter_association (close_source_classification offset r) \<noteq> Awaiting"
  by simp

lemma close_source_classification_valid:
  assumes "classification_valid r a" "RecordPointer_valid (pr_pointer r) a"
  shows "classification_valid (close_source_classification a r) a"
proof (cases "is_open (pr_classification r)")
  case True
  then show ?thesis using assms(2) by (simp add: classification_valid_def RecordPointer_valid_def)
next
  case False
  then show ?thesis using assms(1)
    by (cases "pr_classification r") (simp_all add: classification_valid_def)
qed

lemma close_source_association_valid:
  assumes "counter_association_valid r a" "RecordPointer_valid (pr_pointer r) a"
  shows "counter_association_valid (close_source_classification a r) a"
proof (cases "pr_counter_association r")
  case (Matched pointer last_usage snapshot)
  have "compaction_snapshot r = Some s \<Longrightarrow> compaction_snapshot (close_source_classification a r) = Some s" for s
    by (cases "pr_classification r") (simp_all add: compaction_snapshot_def)
  then show ?thesis using Matched assms(1)
    by (auto simp: counter_association_valid_def split: option.splits)
qed (use assms in \<open>auto simp: counter_association_valid_def RecordPointer_valid_def\<close>)

section \<open>The model of a response\<close>

lemma qualified_model_decided: "qualified_model r = Some m \<Longrightarrow> \<not> is_open (pr_classification r)"
  by (cases "pr_classification r") (auto simp: qualified_model_def split: if_splits option.splits)

lemma qualified_model_source:
  assumes "qualified_model r = Some m"
  obtains ctx where "pr_root_context r = Some ctx" "m = rc_model ctx" "pr_session_scope_qualified r"
  using assms by (auto simp: qualified_model_def Let_def split: if_splits option.splits ResponseModelClassification.splits)

end
