(* ===== verification/Event_Admission.thy ===== *)
theory Event_Admission
  imports Response_Classification Token_Facts
begin

text \<open>
  \<open>codex-info-db-writer/src/event_admission.rs\<close>: the evidence stored beside a usage event and the
  check that decides whether it carries the event. The event's source is the
  \<open>SessionEventSource\<close> of \<open>source_events.rs\<close>; the family of an exact model name comes from
  \<open>codex-info-pricing\<close>.
\<close>

section \<open>Model families\<close>

definition family :: "rstr \<Rightarrow> rstr option" where
  "family model =
     (let name = to_ascii_lowercase (trim model) in
      if name \<in> {lit ''sol'', lit ''gpt-6.1-sol'', lit ''gpt-6-sol'', lit ''gpt-5.6-sol''} then Some (lit ''SOL'')
      else if name \<in> {lit ''terra'', lit ''gpt-5.6-terra''} then Some (lit ''TERRA'')
      else if name \<in> {lit ''luna'', lit ''gpt-6-luna'', lit ''gpt-5.6-luna''} then Some (lit ''LUNA'')
      else if name \<in> {lit ''astra'', lit ''gpt-6-astra''} then Some (lit ''ASTRA'')
      else None)"

section \<open>Evidence\<close>

record SessionEventPeriod =
  ep_reset_at :: i64
  ep_window_seconds :: i64

definition valid_time :: "i64 \<Rightarrow> bool" where
  "valid_time value \<longleftrightarrow> 1 \<le> value \<and> value \<le> MAX_PUBLIC_UNIX_SECONDS"

record EventOwnership =
  eo_start_at :: i64
  eo_end_at :: "i64 option"

definition EventOwnership_valid :: "EventOwnership \<Rightarrow> bool" where
  "EventOwnership_valid o' \<longleftrightarrow> valid_time (eo_start_at o') \<and>
     pred_option (\<lambda>end_at. valid_time end_at \<and> eo_start_at o' \<le> end_at) (eo_end_at o')"

definition EventOwnership_contains :: "EventOwnership \<Rightarrow> i64 \<Rightarrow> bool" where
  "EventOwnership_contains o' timestamp \<longleftrightarrow> timestamp \<ge> eo_start_at o' \<and>
     pred_option (\<lambda>end_at. timestamp < end_at) (eo_end_at o')"

record CounterWitness =
  cw_pointer :: RecordPointer
  cw_total :: u64
  cw_input :: "u64 option"
  cw_cached_input :: "u64 option"
  cw_cache_write_input :: "u64 option"
  cw_output :: "u64 option"

definition CounterWitness_facts :: "CounterWitness \<Rightarrow> TokenFacts" where
  "CounterWitness_facts w =
     \<lparr>tf_total = cw_total w, tf_input = cw_input w, tf_cached_input = cw_cached_input w,
      tf_cache_write_input = cw_cache_write_input w, tf_output = cw_output w\<rparr>"

record LegacyModelProof =
  lm_pointer :: ClassificationPointer
  lm_kind :: rstr
  lm_interval :: rstr

record LegacyCounterProof =
  lc_before :: CounterWitness
  lc_after :: CounterWitness
  lc_model_context :: "LegacyModelProof option"

datatype NumericEventProof =
    LegacyCounter LegacyCounterProof
  | LegacyFamilyCounter LegacyCounterProof rstr
  | ResponseEvent PendingResponse "rstr option"

record PeriodAttributionProof =
  pp_rule_version :: u8
  pp_lower_at :: i64
  pp_upper_at :: i64
  pp_evidence_generation :: rstr
  pp_evidence_sha256 :: rstr

record EventAdmission =
  ea_version :: u8
  ea_source_binding :: SourceAccountBinding
  ea_verified_prefix_end :: u64
  ea_ownership :: EventOwnership
  ea_numeric :: NumericEventProof
  ea_period :: "PeriodAttributionProof option"

record SessionEventSource =
  es_root_identity :: rstr
  es_relative_path :: rstr
  es_file_device :: u64
  es_file_inode :: u64
  es_prefix_generation :: u128
  es_range_start :: u64
  es_range_end :: u64
  es_record_sha256 :: rstr
  es_event_index :: u64

record LosslessSessionEvent =
  ev_source :: SessionEventSource
  ev_timestamp :: i64
  ev_model :: rstr
  ev_tokens :: TokenFacts
  ev_period :: "SessionEventPeriod option"
  ev_admission :: "EventAdmission option"

section \<open>The admission check\<close>

definition LEGACY_FAMILIES :: "rstr list" where
  "LEGACY_FAMILIES = [lit ''SOL'', lit ''TERRA'', lit ''LUNA'']"

definition envelope_admitted :: "EventAdmission \<Rightarrow> LosslessSessionEvent \<Rightarrow> bool" where
  "envelope_admitted a event \<longleftrightarrow>
     (let source = ev_source event; binding = ea_source_binding a in
      ea_version a = 1 \<and>
      SourceAccountBinding_valid binding (ea_verified_prefix_end a) \<and>
      unat (ea_verified_prefix_end a) \<le> 2 ^ 63 - 1 \<and>
      es_range_end source \<le> ea_verified_prefix_end a \<and>
      es_root_identity source = ab_root_identity binding \<and>
      es_relative_path source = ab_relative_path binding \<and>
      es_file_device source = ab_file_device binding \<and>
      es_file_inode source = ab_file_inode binding \<and>
      format_032x (es_prefix_generation source) = ab_prefix_generation binding \<and>
      EventOwnership_valid (ea_ownership a) \<and>
      EventOwnership_contains (ea_ownership a) (ev_timestamp event))"

definition owns :: "EventAdmission \<Rightarrow> i64 \<Rightarrow> bool" where
  "owns a timestamp \<longleftrightarrow>
     EventOwnership_contains (ea_ownership a) timestamp \<and>
     (case ab_proof (ea_source_binding a) of
        Rpc began_at ended_at _ \<Rightarrow>
          timestamp \<ge> began_at \<or>
          (case ab_creator_origin (ea_source_binding a) of
             None \<Rightarrow> False
           | Some origin \<Rightarrow>
               timestamp \<ge> rp_timestamp (co_pointer origin) \<and>
               eo_start_at (ea_ownership a) = co_ownership_start_at origin \<and>
               EventOwnership_contains (ea_ownership a) ended_at)
      | AcceptedPrefix _ \<Rightarrow> True)"

text \<open>An old family name may stand for the exact model that the bytes name.\<close>

definition family_stands_for :: "rstr \<Rightarrow> rstr \<Rightarrow> bool" where
  "family_stands_for model exact \<longleftrightarrow> model \<in> set LEGACY_FAMILIES \<and>
     normalize_model_name exact = Some exact \<and>
     exact \<notin> set (LEGACY_FAMILIES @ [lit ''ASTRA'']) \<and>
     family exact = Some model"

definition model_context_invalid :: "LegacyCounterProof \<Rightarrow> bool" where
  "model_context_invalid legacy =
     (case lc_model_context legacy of
        None \<Rightarrow> False
      | Some ctx \<Rightarrow>
          \<not> (lm_kind ctx \<in> {lit ''initial-settings'', lit ''turn''} \<and>
             cp_start (lm_pointer ctx) < cp_end (lm_pointer ctx) \<and>
             cp_end (lm_pointer ctx) \<le> rp_start (cw_pointer (lc_after legacy)) \<and>
             is_ok (validate_sha256 (cp_sha256 (lm_pointer ctx)) (lit ''model context'')) \<and>
             SessionModelInterval_parse (lm_interval ctx) \<noteq> None))"

definition model_context_proves :: "rstr \<Rightarrow> LegacyCounterProof \<Rightarrow> bool" where
  "model_context_proves model legacy =
     (case lc_model_context legacy of
        None \<Rightarrow> False
      | Some ctx \<Rightarrow>
          SessionModelInterval_parse (lm_interval ctx) = Some IntervalNone \<or>
          SessionModelInterval_parse (lm_interval ctx) = Some (IntervalModel model))"

definition legacy_admitted ::
  "EventAdmission \<Rightarrow> LosslessSessionEvent \<Rightarrow> LegacyCounterProof \<Rightarrow> rstr \<Rightarrow> bool" where
  "legacy_admitted a event legacy proof_model \<longleftrightarrow>
     (let before = lc_before legacy; after = lc_after legacy in
      RecordPointer_valid (cw_pointer before) (ea_verified_prefix_end a) \<and>
      RecordPointer_valid (cw_pointer after) (ea_verified_prefix_end a) \<and>
      rp_end (cw_pointer before) \<le> rp_start (cw_pointer after) \<and>
      owns a (rp_timestamp (cw_pointer before)) \<and>
      owns a (rp_timestamp (cw_pointer after)) \<and>
      rp_timestamp (cw_pointer after) = ev_timestamp event \<and>
      checked_delta (CounterWitness_facts after) (CounterWitness_facts before) = Inr (ev_tokens event) \<and>
      \<not> model_context_invalid legacy \<and>
      (ev_model event = lit ''UNATTRIBUTED'' \<or> model_context_proves proof_model legacy))"

definition response_tokens :: "ResponseUsage \<Rightarrow> TokenFacts" where
  "response_tokens usage =
     \<lparr>tf_total = ru_total usage, tf_input = Some (ru_input usage), tf_cached_input = Some (ru_cached_input usage),
      tf_cache_write_input = Some (ru_cache_write_input usage), tf_output = Some (ru_output usage)\<rparr>"

fun unconfirmed_state :: "ResponseModelClassification \<Rightarrow> bool" where
  "unconfirmed_state LegacyUnknown = True"
| "unconfirmed_state AwaitingBoundary = True"
| "unconfirmed_state (AwaitingReplacement _) = True"
| "unconfirmed_state (Unassigned _ _) = True"
| "unconfirmed_state _ = False"

definition candidate_admission :: "EventAdmission \<Rightarrow> PendingResponse \<Rightarrow> SourceAdmission" where
  "candidate_admission a candidate =
     push_response candidate
       (from_response_boundary\<lparr>sa_metadata := Some (ab_metadata (ea_source_binding a)), sa_metadata_qualified := True\<rparr>)"

definition response_admitted ::
  "(u8 list \<Rightarrow> u8 list) \<Rightarrow> bool \<Rightarrow> EventAdmission \<Rightarrow> LosslessSessionEvent \<Rightarrow> PendingResponse \<Rightarrow> rstr \<Rightarrow> bool" where
  "response_admitted sha256 allow_unconfirmed_model a event candidate proof_model \<longleftrightarrow>
     (let unconfirmed_model = allow_unconfirmed_model \<and> qualified_model candidate = None \<and>
            unconfirmed_state (pr_classification candidate)
      in pr_session_scope_qualified candidate \<and>
         SourceAdmission_valid sha256 (candidate_admission a candidate) (ea_verified_prefix_end a) \<and>
         (qualified_model candidate = Some proof_model \<or> unconfirmed_model) \<and>
         rp_timestamp (pr_pointer candidate) = ev_timestamp event \<and>
         owns a (rp_timestamp (pr_pointer candidate)) \<and>
         ev_tokens event = response_tokens (rr_usage (pr_record candidate)))"

text \<open>The pointer of the record that carries the event, when the numeric evidence is accepted.\<close>

definition primary_pointer ::
  "(u8 list \<Rightarrow> u8 list) \<Rightarrow> bool \<Rightarrow> EventAdmission \<Rightarrow> LosslessSessionEvent \<Rightarrow> RecordPointer option" where
  "primary_pointer sha256 allow_unconfirmed_model a event =
     (case ea_numeric a of
        LegacyCounter legacy \<Rightarrow>
          if legacy_admitted a event legacy (ev_model event) then Some (cw_pointer (lc_after legacy)) else None
      | LegacyFamilyCounter legacy exact_model \<Rightarrow>
          if family_stands_for (ev_model event) exact_model \<and> legacy_admitted a event legacy exact_model
          then Some (cw_pointer (lc_after legacy)) else None
      | ResponseEvent candidate exact_model \<Rightarrow>
          (case exact_model of
             Some exact \<Rightarrow>
               if family_stands_for (ev_model event) exact \<and>
                  response_admitted sha256 allow_unconfirmed_model a event candidate exact
               then Some (pr_pointer candidate) else None
           | None \<Rightarrow>
               if response_admitted sha256 allow_unconfirmed_model a event candidate (ev_model event)
               then Some (pr_pointer candidate) else None))"

definition period_admitted ::
  "EventAdmission \<Rightarrow> LosslessSessionEvent \<Rightarrow> PeriodAttributionProof \<Rightarrow> SessionEventPeriod \<Rightarrow> bool" where
  "period_admitted a event evidence period =
     (case i64_checked_sub (ep_reset_at period) (ep_window_seconds period) of
        None \<Rightarrow> False
      | Some origin \<Rightarrow>
          pp_rule_version evidence = 1 \<and>
          ep_window_seconds period > 0 \<and>
          valid_time (ep_reset_at period) \<and>
          valid_time origin \<and>
          pp_lower_at evidence \<ge> origin \<and>
          pp_upper_at evidence < ep_reset_at period \<and>
          pp_lower_at evidence \<le> ev_timestamp event \<and>
          ev_timestamp event \<le> pp_upper_at evidence \<and>
          EventOwnership_contains (ea_ownership a) (pp_lower_at evidence) \<and>
          EventOwnership_contains (ea_ownership a) (pp_upper_at evidence) \<and>
          (case canonical_u64_text (pp_evidence_generation evidence) (lit ''period evidence'') of
             Inl _ \<Rightarrow> False | Inr generation \<Rightarrow> generation > 0) \<and>
          is_ok (validate_sha256 (pp_evidence_sha256 evidence) (lit ''period evidence'')))"

definition valid_for_model_role ::
  "(u8 list \<Rightarrow> u8 list) \<Rightarrow> EventAdmission \<Rightarrow> LosslessSessionEvent \<Rightarrow> SessionEventPeriod option \<Rightarrow> bool \<Rightarrow> bool" where
  "valid_for_model_role sha256 a event period allow_unconfirmed_model =
     (if \<not> envelope_admitted a event then False
      else (case primary_pointer sha256 allow_unconfirmed_model a event of
          None \<Rightarrow> False
        | Some primary \<Rightarrow>
            if rp_start primary < es_range_start (ev_source event) \<or> rp_end primary > es_range_end (ev_source event)
            then False
            else (case (ea_period a, period) of
                (None, None) \<Rightarrow> True
              | (Some evidence, Some p) \<Rightarrow> period_admitted a event evidence p
              | _ \<Rightarrow> False)))"

definition valid_for ::
  "(u8 list \<Rightarrow> u8 list) \<Rightarrow> EventAdmission \<Rightarrow> LosslessSessionEvent \<Rightarrow> SessionEventPeriod option \<Rightarrow> bool" where
  "valid_for sha256 a event period = valid_for_model_role sha256 a event period False"

definition valid_for_requalification ::
  "(u8 list \<Rightarrow> u8 list) \<Rightarrow> EventAdmission \<Rightarrow> LosslessSessionEvent \<Rightarrow> SessionEventPeriod option \<Rightarrow> bool" where
  "valid_for_requalification sha256 a event period = valid_for_model_role sha256 a event period True"

end
