(* ===== verification/Model_Totals.thy ===== *)
theory Model_Totals
  imports Store_Values Event_Admission
begin

text \<open>
  The per-model totals of a collection cycle: \<open>SessionModelTotal\<close> and its canonical lists, sums and
  dominance tests of \<open>codex-info-db-writer/src/lib.rs\<close>, the account lifecycle intervals stored
  beside them, and \<open>ModelCounter\<close> / \<open>ModelTotals\<close> of the recorder, which fold usage deltas into a
  map from model to counter. A \<open>BTreeMap\<close> is the list of its entries in order.
\<close>

section \<open>Totals of the store\<close>

record SessionModelTotal =
  mt_model :: rstr
  mt_total_tokens :: u64
  mt_input_tokens :: "u64 option"
  mt_cached_input_tokens :: "u64 option"
  mt_output_tokens :: "u64 option"
  mt_cache_write_input_tokens :: "u64 option"

definition SessionModelTotal_tokens :: "SessionModelTotal \<Rightarrow> TokenFacts" where
  "SessionModelTotal_tokens t =
     \<lparr>tf_total = mt_total_tokens t, tf_input = mt_input_tokens t, tf_cached_input = mt_cached_input_tokens t,
      tf_cache_write_input = mt_cache_write_input_tokens t, tf_output = mt_output_tokens t\<rparr>"

definition replace_tokens :: "TokenFacts \<Rightarrow> SessionModelTotal \<Rightarrow> SessionModelTotal" where
  "replace_tokens tokens t =
     t\<lparr>mt_total_tokens := tf_total tokens, mt_input_tokens := tf_input tokens,
       mt_cached_input_tokens := tf_cached_input tokens,
       mt_cache_write_input_tokens := tf_cache_write_input tokens, mt_output_tokens := tf_output tokens\<rparr>"

definition canonicalize_step ::
  "(rstr \<times> SessionModelTotal) list \<Rightarrow> SessionModelTotal \<Rightarrow> UsageStoreError + (rstr \<times> SessionModelTotal) list" where
  "canonicalize_step canonical total_row =
     (if \<not> valid_session_model (mt_model total_row) \<or> \<not> is_ok (validate_fact (SessionModelTotal_tokens total_row))
      then Inl (InvalidImport (lit ''session model total is invalid''))
      else if map_of canonical (mt_model total_row) \<noteq> None
      then Inl (InvalidImport (lit ''duplicate session model total''))
      else Inr (btree_insert (mt_model total_row) total_row canonical))"

definition canonicalize_model_totals :: "SessionModelTotal list \<Rightarrow> UsageStoreError + SessionModelTotal list" where
  "canonicalize_model_totals totals =
     try_res (fold_res canonicalize_step [] totals) (\<lambda>canonical. Inr (map snd canonical))"

definition checked_add_model_total ::
  "SessionModelTotal \<Rightarrow> SessionModelTotal \<Rightarrow> UsageStoreError + SessionModelTotal" where
  "checked_add_model_total target source =
     (case checked_sum (SessionModelTotal_tokens target) (SessionModelTotal_tokens source) of
        Inl _ \<Rightarrow> Inl (InvalidImport (lit ''session model total sum is invalid''))
      | Inr tokens \<Rightarrow> Inr (replace_tokens tokens target))"

definition optional_counter_dominates :: "u64 option \<Rightarrow> u64 option \<Rightarrow> bool \<Rightarrow> bool" where
  "optional_counter_dominates left right may_lose_knowledge =
     (case (left, right) of
        (Some l, Some r) \<Rightarrow> l \<ge> r
      | (None, None) \<Rightarrow> True
      | (None, Some _) \<Rightarrow> may_lose_knowledge
      | (Some _, None) \<Rightarrow> False)"

definition model_total_dominates :: "SessionModelTotal \<Rightarrow> SessionModelTotal \<Rightarrow> bool" where
  "model_total_dominates left right \<longleftrightarrow>
     mt_model left = mt_model right \<and>
     mt_total_tokens left \<ge> mt_total_tokens right \<and>
     optional_counter_dominates (mt_input_tokens left) (mt_input_tokens right) False \<and>
     optional_counter_dominates (mt_cached_input_tokens left) (mt_cached_input_tokens right) False \<and>
     optional_counter_dominates (mt_output_tokens left) (mt_output_tokens right) False \<and>
     (case (mt_cache_write_input_tokens left, mt_cache_write_input_tokens right) of
        (Some l, Some r) \<Rightarrow> l \<ge> r
      | (None, None) \<Rightarrow> True
      | _ \<Rightarrow> False)"

definition model_total_reset_is_proven :: "SessionModelTotal \<Rightarrow> SessionModelTotal \<Rightarrow> bool" where
  "model_total_reset_is_proven baseline observed =
     (if mt_model baseline \<noteq> mt_model observed then False
      else if list_ex (\<lambda>(before, after). (case (before, after) of
             (Some b, Some a) \<Rightarrow> b > 0 \<and> a \<ge> b
           | (None, None) \<Rightarrow> False
           | _ \<Rightarrow> True))
         [(Some (mt_total_tokens baseline), Some (mt_total_tokens observed)),
          (mt_input_tokens baseline, mt_input_tokens observed),
          (mt_cached_input_tokens baseline, mt_cached_input_tokens observed),
          (mt_output_tokens baseline, mt_output_tokens observed)]
      then False
      else (case (mt_cache_write_input_tokens baseline, mt_cache_write_input_tokens observed) of
          (Some b, Some a) \<Rightarrow> \<not> (b > 0 \<and> a \<ge> b)
        | (None, None) \<Rightarrow> True
        | _ \<Rightarrow> False))"

definition cumulative_model_totals_are_complete :: "SessionModelTotal list \<Rightarrow> bool" where
  "cumulative_model_totals_are_complete totals =
     list_all (\<lambda>t. mt_input_tokens t \<noteq> None \<and> mt_cached_input_tokens t \<noteq> None \<and>
       mt_output_tokens t \<noteq> None \<and> mt_cache_write_input_tokens t \<noteq> None) totals"

text \<open>Collecting into a map: the last row of a model wins.\<close>

definition totals_by_model :: "SessionModelTotal list \<Rightarrow> (rstr \<times> SessionModelTotal) list" where
  "totals_by_model totals = foldl (\<lambda>m t. btree_insert (mt_model t) t m) [] totals"

definition model_totals_dominate :: "SessionModelTotal list \<Rightarrow> SessionModelTotal list \<Rightarrow> bool" where
  "model_totals_dominate left right =
     list_all (\<lambda>required.
       (case map_of (totals_by_model left) (mt_model required) of
          None \<Rightarrow> False
        | Some candidate \<Rightarrow> model_total_dominates candidate required)) right"

definition timeline_row_dominates :: "SessionModelTotal \<Rightarrow> SessionModelTotal \<Rightarrow> bool" where
  "timeline_row_dominates candidate required \<longleftrightarrow>
     mt_total_tokens candidate \<ge> mt_total_tokens required \<and>
     optional_counter_dominates (mt_input_tokens candidate) (mt_input_tokens required) True \<and>
     optional_counter_dominates (mt_cached_input_tokens candidate) (mt_cached_input_tokens required) True \<and>
     optional_counter_dominates (mt_output_tokens candidate) (mt_output_tokens required) True \<and>
     (case (mt_cache_write_input_tokens candidate, mt_cache_write_input_tokens required) of
        (Some c, Some r) \<Rightarrow> c \<ge> r
      | (None, _) \<Rightarrow> True
      | (Some _, None) \<Rightarrow> False)"

definition timeline_model_totals_dominate :: "SessionModelTotal list \<Rightarrow> SessionModelTotal list \<Rightarrow> bool" where
  "timeline_model_totals_dominate left right =
     list_all (\<lambda>required.
       (case map_of (totals_by_model left) (mt_model required) of
          None \<Rightarrow> False
        | Some candidate \<Rightarrow> timeline_row_dominates candidate required)) right"

definition zero_total :: "rstr \<Rightarrow> SessionModelTotal" where
  "zero_total model = \<lparr>mt_model = model, mt_total_tokens = 0, mt_input_tokens = Some 0,
     mt_cached_input_tokens = Some 0, mt_output_tokens = Some 0, mt_cache_write_input_tokens = Some 0\<rparr>"

definition add_offset ::
  "(rstr \<times> SessionModelTotal) list \<Rightarrow> SessionModelTotal \<Rightarrow> unit + (rstr \<times> SessionModelTotal) list" where
  "add_offset combined offset =
     (let row = (case map_of combined (mt_model offset) of None \<Rightarrow> zero_total (mt_model offset) | Some t \<Rightarrow> t)
      in (case checked_sum (SessionModelTotal_tokens row) (SessionModelTotal_tokens offset) of
            Inl _ \<Rightarrow> Inl ()
          | Inr tokens \<Rightarrow> Inr (btree_insert (mt_model offset) (replace_tokens tokens row) combined)))"

definition checked_add_model_totals ::
  "SessionModelTotal list \<Rightarrow> SessionModelTotal list \<Rightarrow> SessionModelTotal list option" where
  "checked_add_model_totals left right =
     (case fold_res add_offset (totals_by_model left) right of
        Inl _ \<Rightarrow> None
      | Inr combined \<Rightarrow>
          (case canonicalize_model_totals (map snd combined) of Inl _ \<Rightarrow> None | Inr totals \<Rightarrow> Some totals))"

record SessionEvent =
  se_root_identity :: rstr
  se_relative_path :: rstr
  se_file_device :: u64
  se_file_inode :: u64
  se_prefix_generation :: u128
  se_range_start :: u64
  se_range_end :: u64
  se_record_sha256 :: rstr
  se_event_index :: u64
  se_timestamp :: i64
  se_model :: rstr
  se_total_tokens :: u64
  se_input_tokens :: "u64 option"
  se_cached_input_tokens :: "u64 option"
  se_output_tokens :: "u64 option"
  se_cache_write_input_tokens :: "u64 option"

definition SessionEvent_tokens :: "SessionEvent \<Rightarrow> TokenFacts" where
  "SessionEvent_tokens e =
     \<lparr>tf_total = se_total_tokens e, tf_input = se_input_tokens e, tf_cached_input = se_cached_input_tokens e,
      tf_cache_write_input = se_cache_write_input_tokens e, tf_output = se_output_tokens e\<rparr>"

definition LosslessSessionEvent_from :: "SessionEvent \<Rightarrow> LosslessSessionEvent" where
  "LosslessSessionEvent_from e =
     \<lparr>ev_source = \<lparr>es_root_identity = se_root_identity e, es_relative_path = se_relative_path e,
        es_file_device = se_file_device e, es_file_inode = se_file_inode e,
        es_prefix_generation = se_prefix_generation e, es_range_start = se_range_start e,
        es_range_end = se_range_end e, es_record_sha256 = se_record_sha256 e, es_event_index = se_event_index e\<rparr>,
      ev_timestamp = se_timestamp e, ev_model = se_model e, ev_tokens = SessionEvent_tokens e,
      ev_period = None, ev_admission = None\<rparr>"

definition validate_session_event :: "SessionEvent \<Rightarrow> UsageStoreError + unit" where
  "validate_session_event e =
     try_res (validate_session_key (se_root_identity e) (se_relative_path e)) (\<lambda>_.
       if se_range_start e \<ge> se_range_end e
          \<or> unat (se_range_start e) > 2 ^ 63 - 1
          \<or> unat (se_range_end e) > 2 ^ 63 - 1
          \<or> unat (se_event_index e) > 2 ^ 63 - 1
          \<or> se_prefix_generation e = 0
          \<or> se_timestamp e \<le> 0
          \<or> se_timestamp e > MAX_PUBLIC_UNIX_SECONDS
          \<or> \<not> valid_session_model (se_model e)
          \<or> \<not> is_ok (validate_fact (SessionEvent_tokens e))
       then Inl (InvalidImport (lit ''session event is invalid''))
       else validate_sha256 (se_record_sha256 e) (lit ''session event record''))"

definition event_model_total :: "SessionEvent \<Rightarrow> SessionModelTotal" where
  "event_model_total e = \<lparr>mt_model = se_model e, mt_total_tokens = se_total_tokens e,
     mt_input_tokens = se_input_tokens e, mt_cached_input_tokens = se_cached_input_tokens e,
     mt_output_tokens = se_output_tokens e, mt_cache_write_input_tokens = se_cache_write_input_tokens e\<rparr>"

section \<open>Account lifecycle intervals\<close>

record SessionLifecycleInterval =
  li_start_at :: "i64 option"
  li_end_at :: "i64 option"

definition SessionLifecycleInterval_contains :: "SessionLifecycleInterval \<Rightarrow> i64 \<Rightarrow> bool" where
  "SessionLifecycleInterval_contains i timestamp \<longleftrightarrow>
     pred_option (\<lambda>start_at. timestamp \<ge> start_at) (li_start_at i) \<and>
     pred_option (\<lambda>end_at. timestamp < end_at) (li_end_at i)"

definition interval_start :: "SessionLifecycleInterval \<Rightarrow> i64" where
  "interval_start i = (case li_start_at i of None \<Rightarrow> i64_min | Some s \<Rightarrow> s)"

definition interval_end :: "SessionLifecycleInterval \<Rightarrow> i64" where
  "interval_end i = (case li_end_at i of None \<Rightarrow> i64_max | Some e \<Rightarrow> e)"

definition lifecycle_invalid :: "SessionLifecycleInterval \<Rightarrow> bool" where
  "lifecycle_invalid i \<longleftrightarrow>
     \<not> pred_option valid_timestamp (li_start_at i) \<or>
     \<not> pred_option valid_timestamp (li_end_at i) \<or>
     (case (li_start_at i, li_end_at i) of (Some s, Some e) \<Rightarrow> s > e | _ \<Rightarrow> False)"

definition interval_empty :: "SessionLifecycleInterval \<Rightarrow> bool" where
  "interval_empty i = (case (li_start_at i, li_end_at i) of (Some s, Some e) \<Rightarrow> s = e | _ \<Rightarrow> False)"

fun intervals_overlap :: "i64 option \<Rightarrow> SessionLifecycleInterval list \<Rightarrow> bool" where
  "intervals_overlap previous_end [] = False"
| "intervals_overlap previous_end (i # rest) =
     (if interval_empty i then intervals_overlap previous_end rest
      else if (case previous_end of None \<Rightarrow> False | Some e \<Rightarrow> interval_start i < e) then True
      else intervals_overlap (Some (interval_end i)) rest)"

definition canonical_lifecycle_intervals ::
  "SessionLifecycleInterval list \<Rightarrow> UsageStoreError + SessionLifecycleInterval list" where
  "canonical_lifecycle_intervals intervals =
     (if intervals = [] then Inl (InvalidImport (lit ''account lifecycle intervals are missing''))
      else (let canonical = sort_key (\<lambda>i. (interval_start i, interval_end i)) intervals in
        if list_ex lifecycle_invalid canonical
        then Inl (InvalidImport (lit ''account lifecycle interval is invalid''))
        else if intervals_overlap None canonical
        then Inl (InvalidImport (lit ''account lifecycle intervals overlap''))
        else Inr canonical))"

definition lifecycle_contains :: "SessionLifecycleInterval list \<Rightarrow> i64 \<Rightarrow> bool" where
  "lifecycle_contains intervals timestamp =
     list_ex (\<lambda>i. SessionLifecycleInterval_contains i timestamp) intervals"

end
