(* ===== verification/Recorder_Totals.thy ===== *)
theory Recorder_Totals
  imports Model_Totals Session_Record
begin

text \<open>
  The running totals of the recorder (\<open>ModelCounter\<close>, \<open>ModelTotals\<close> in
  \<open>codex-info-recorder/src/lib.rs\<close>) and the ownership test a counter observation must pass
  (\<open>SourceOwnership\<close>).
\<close>

datatype RecorderError =
    RecorderIo
  | RecorderWriter UsageStoreError
  | RecorderInvalid rstr
  | StaleHistoricalRepair rstr
  | AccountBoundaryChanged

definition UNATTRIBUTED_MODEL :: rstr where
  "UNATTRIBUTED_MODEL = lit ''UNATTRIBUTED''"

section \<open>Counters\<close>

record ModelCounter =
  mc_total :: u64
  mc_input :: "u64 option"
  mc_cached_input :: "u64 option"
  mc_output :: "u64 option"
  mc_cache_write_input :: "u64 option"

definition ModelCounter_default :: ModelCounter where
  "ModelCounter_default = \<lparr>mc_total = 0, mc_input = Some 0, mc_cached_input = Some 0, mc_output = Some 0,
     mc_cache_write_input = Some 0\<rparr>"

definition ModelCounter_from_total :: "SessionModelTotal \<Rightarrow> ModelCounter" where
  "ModelCounter_from_total t = \<lparr>mc_total = mt_total_tokens t, mc_input = mt_input_tokens t,
     mc_cached_input = mt_cached_input_tokens t, mc_output = mt_output_tokens t,
     mc_cache_write_input = mt_cache_write_input_tokens t\<rparr>"

definition ModelCounter_snapshot :: "ModelCounter \<Rightarrow> TokenSnapshot" where
  "ModelCounter_snapshot c = \<lparr>ts_total = mc_total c, ts_input = mc_input c, ts_cached_input = mc_cached_input c,
     ts_output = mc_output c, ts_cache_write_input = mc_cache_write_input c\<rparr>"

definition ModelCounter_of_facts :: "TokenFacts \<Rightarrow> ModelCounter" where
  "ModelCounter_of_facts f = \<lparr>mc_total = tf_total f, mc_input = tf_input f, mc_cached_input = tf_cached_input f,
     mc_output = tf_output f, mc_cache_write_input = tf_cache_write_input f\<rparr>"

definition ModelCounter_add :: "ModelCounter \<Rightarrow> TokenSnapshot \<Rightarrow> RecorderError + ModelCounter" where
  "ModelCounter_add c delta =
     (case checked_sum (TokenSnapshot_facts (ModelCounter_snapshot c)) (TokenSnapshot_facts delta) of
        Inl _ \<Rightarrow> Inl (RecorderInvalid (lit ''session token total arithmetic is invalid''))
      | Inr sum_facts \<Rightarrow> Inr (ModelCounter_of_facts sum_facts))"

definition ModelCounter_to_total :: "rstr \<Rightarrow> ModelCounter \<Rightarrow> SessionModelTotal" where
  "ModelCounter_to_total model c = \<lparr>mt_model = model, mt_total_tokens = mc_total c, mt_input_tokens = mc_input c,
     mt_cached_input_tokens = mc_cached_input c, mt_output_tokens = mc_output c,
     mt_cache_write_input_tokens = mc_cache_write_input c\<rparr>"

section \<open>Totals\<close>

type_synonym ModelTotals = "(rstr \<times> ModelCounter) list"

definition ModelTotals_from_state :: "SessionModelTotal list \<Rightarrow> ModelTotals" where
  "ModelTotals_from_state state =
     foldl (\<lambda>values t. btree_insert (mt_model t) (ModelCounter_from_total t) values) [] state"

definition canonical_model :: "rstr \<Rightarrow> rstr option" where
  "canonical_model model = normalize_model_name model"

definition usage_model :: "rstr option \<Rightarrow> rstr" where
  "usage_model model =
     (case Option.bind model canonical_model of None \<Rightarrow> UNATTRIBUTED_MODEL | Some m \<Rightarrow> m)"

definition ModelTotals_add :: "ModelTotals \<Rightarrow> rstr \<Rightarrow> TokenSnapshot \<Rightarrow> RecorderError + ModelTotals" where
  "ModelTotals_add totals model delta =
     (if \<not> TokenSnapshot_has_usage delta then Inr totals
      else (let model = (case canonical_model model of None \<Rightarrow> UNATTRIBUTED_MODEL | Some m \<Rightarrow> m);
                counter = (case map_of totals model of None \<Rightarrow> ModelCounter_default | Some c \<Rightarrow> c)
            in try_res (ModelCounter_add counter delta) (\<lambda>c. Inr (btree_insert model c totals))))"

definition ModelTotals_subtract :: "ModelTotals \<Rightarrow> rstr \<Rightarrow> TokenSnapshot \<Rightarrow> RecorderError + ModelTotals" where
  "ModelTotals_subtract totals model delta =
     (if \<not> TokenSnapshot_has_usage delta then Inr totals
      else (let model = (case canonical_model model of None \<Rightarrow> UNATTRIBUTED_MODEL | Some m \<Rightarrow> m)
            in (case map_of totals model of
                  None \<Rightarrow> Inl (RecorderInvalid (lit ''replayed session event is absent from totals''))
                | Some counter \<Rightarrow>
                    (case checked_delta (TokenSnapshot_facts (ModelCounter_snapshot counter)) (TokenSnapshot_facts delta) of
                       Inl _ \<Rightarrow> Inl (RecorderInvalid (lit ''replayed session arithmetic is invalid''))
                     | Inr difference \<Rightarrow>
                         Inr (btree_insert model (ModelCounter_of_facts difference) totals)))))"

definition ModelTotals_to_totals :: "ModelTotals \<Rightarrow> SessionModelTotal list" where
  "ModelTotals_to_totals totals = map (\<lambda>(model, c). ModelCounter_to_total model c) totals"

definition ModelTotals_positive_totals :: "ModelTotals \<Rightarrow> SessionModelTotal list" where
  "ModelTotals_positive_totals totals =
     map (\<lambda>(model, c). ModelCounter_to_total model c)
       (filter (\<lambda>(_, c). TokenSnapshot_has_usage (ModelCounter_snapshot c)) totals)"

definition add_family_tokens :: "u64 \<times> u64 \<times> u64 \<Rightarrow> rstr \<times> ModelCounter \<Rightarrow> u64 \<times> u64 \<times> u64" where
  "add_family_tokens result entry =
     (let (sol, terra, luna) = result; (model, counter) = entry in
      if family model = Some (lit ''SOL'') then (saturating_add sol (mc_total counter), terra, luna)
      else if family model = Some (lit ''TERRA'') then (sol, saturating_add terra (mc_total counter), luna)
      else if family model = Some (lit ''LUNA'') then (sol, terra, saturating_add luna (mc_total counter))
      else result)"

definition ModelTotals_token_totals :: "ModelTotals \<Rightarrow> u64 \<times> u64 \<times> u64" where
  "ModelTotals_token_totals totals = foldl add_family_tokens (0, 0, 0) totals"

record TimedModelUsage =
  tm_timestamp :: i64
  tm_model :: rstr
  tm_delta :: TokenSnapshot

definition session_event_to_timed_usage :: "SessionEvent \<Rightarrow> RecorderError + TimedModelUsage" where
  "session_event_to_timed_usage event =
     (let delta = \<lparr>ts_total = se_total_tokens event, ts_input = se_input_tokens event,
            ts_cached_input = se_cached_input_tokens event, ts_output = se_output_tokens event,
            ts_cache_write_input = se_cache_write_input_tokens event\<rparr>
      in if \<not> TokenSnapshot_valid delta
         then Inl (RecorderInvalid (lit ''durable session event has invalid token components''))
         else Inr \<lparr>tm_timestamp = se_timestamp event, tm_model = se_model event, tm_delta = delta\<rparr>)"

section \<open>Ownership\<close>

record SourceOwnership =
  so_intervals :: "SessionLifecycleInterval list"
  so_eligible_from :: "i64 option"

definition same_interval :: "SourceOwnership \<Rightarrow> i64 \<Rightarrow> i64 \<Rightarrow> bool" where
  "same_interval ow before after \<longleftrightarrow>
     valid_timestamp before \<and> valid_timestamp after \<and>
     pred_option (\<lambda>start_at. before \<ge> start_at \<and> after \<ge> start_at) (so_eligible_from ow) \<and>
     list_ex (\<lambda>i. (case li_start_at i of
         None \<Rightarrow> False
       | Some start_at \<Rightarrow> before \<ge> start_at \<and> after \<ge> start_at \<and>
           pred_option (\<lambda>end_at. before < end_at \<and> after < end_at) (li_end_at i))) (so_intervals ow)"

definition SourceOwnership_contains :: "SourceOwnership \<Rightarrow> i64 \<Rightarrow> bool" where
  "SourceOwnership_contains ow timestamp = same_interval ow timestamp timestamp"

end
