(* ===== verification/Session_Scan.thy ===== *)
theory Session_Scan
  imports Recorder_Totals
begin

text \<open>
  The scan of one session file by the recorder: the record loop of \<open>scan_source_with_reader\<close> in
  \<open>codex-info-recorder/src/lib.rs\<close>, with \<open>observe_response_classification\<close> and
  \<open>SessionPendingEvidence\<close>. The state is that of the loop's mutable variables; one function models
  one stretch of the loop body, in the order of the source, and \<open>scan_record\<close> composes them. The
  records come from the parser, each with the digest of its bytes. The file checks around the
  loop, the running hash of the accepted bytes and the JSON copies of the counters
  (\<open>numeric_records\<close>), which nothing in the loop reads back, are not part of the state.
\<close>

section \<open>Pending evidence\<close>

type_synonym evidence = "u64 \<times> u64 \<times> rstr \<times> bool"

definition join_plus :: "rstr list \<Rightarrow> rstr" where
  "join_plus reasons = (case reasons of [] \<Rightarrow> [] | r # rs \<Rightarrow> r @ concat (map (\<lambda>s. 43 # s) rs))"

definition merge_reasons :: "rstr \<Rightarrow> rstr \<Rightarrow> rstr" where
  "merge_reasons previous reason =
     (let reasons = remdups (sort (reason # split_on 43 previous));
          kept = (if lit ''response-snapshot-invalid'' \<in> set reasons
                  then filter (\<lambda>r. r \<noteq> lit ''invalid-noop-record'') reasons else reasons)
      in join_plus kept)"

definition evidence_range :: "evidence \<Rightarrow> evidence list \<Rightarrow> evidence list" where
  "evidence_range entry entries = entries @ [entry]"

definition evidence_record :: "evidence \<Rightarrow> evidence list \<Rightarrow> evidence list" where
  "evidence_record entry entries =
     (let (start, end_offset, reason, complete) = entry in
      if entries \<noteq> [] \<and>
         (let (s, e, _, c) = last entries in (s, e, c) = (start, end_offset, complete))
      then update_last (\<lambda>(s, e, r, c). (s, e, merge_reasons r reason, c)) entries
      else evidence_range entry entries)"

section \<open>The classification input of a record\<close>

definition response_classification_name :: "SessionRecordSummary \<Rightarrow> rstr option" where
  "response_classification_name s =
     (if and (sr_root_duplicates s) (or (key_bit KType) (key_bit KPayload)) \<noteq> 0
         \<or> has_key (sr_payload_duplicates s) KType then None
      else if sr_outer_type s = Some (lit ''event_msg'') then
        (if \<not> sr_payload_object s \<or> \<not> ps_event_type_seen (sr_payload s) \<or> ps_event_type_malformed (sr_payload s)
         then None else event_type s)
      else if event_type s \<noteq> None \<and> sr_payload_object s \<and> ps_event_type_seen (sr_payload s) \<and>
        (ps_event_type_malformed (sr_payload s) \<or> ps_event_type (sr_payload s) \<noteq> sr_outer_type s)
      then None
      else event_type s)"

definition strong_context_of ::
  "(rstr \<Rightarrow> i64 option) \<Rightarrow> SessionRecordSummary \<Rightarrow> RecordPointer option \<Rightarrow> ResponseContext option" where
  "strong_context_of rfc3339 s pointer =
     (if is_one_of (response_classification_name s) turn_names
      then (case (Option.bind (qualified_context_model rfc3339 s) canonical_model, pointer) of
          (Some model, Some at_pointer) \<Rightarrow>
            Some \<lparr>rc_model = model,
                  rc_context = \<lparr>sc_turn_id = rps_turn_id (ps_response (sr_payload s)),
                    sc_root_turn_id = rps_root_turn_id (ps_response (sr_payload s)), sc_pointer = at_pointer\<rparr>\<rparr>
        | _ \<Rightarrow> None)
      else None)"

definition classification_input ::
  "(rstr \<Rightarrow> i64 option) \<Rightarrow> SourceAdmission \<Rightarrow> SessionRecordSummary \<Rightarrow> RecordPointer option \<Rightarrow>
   ResponseClassificationInput" where
  "classification_input rfc3339 admission s pointer =
     (let name = response_classification_name s; payload = sr_payload s in
      if sr_outer_type s = Some (lit ''session_meta'') then
        (if \<not> sa_metadata_qualified admission \<or> \<not> metadata_shape_valid s then UnknownInput
         else if history_base_continuation s then HistoryInput
         else NoOp)
      else if sr_outer_type s = Some (lit ''token_usage_record'') then
        (if \<not> sr_duplicate_fields s \<and> sr_payload_object s \<and> pointer \<noteq> None \<and> sa_metadata_qualified admission \<and>
            (case response_record (ps_response payload) of
               None \<Rightarrow> False | Some r \<Rightarrow> scope_matches (sa_metadata admission) (rr_ids r))
         then NextRoot else UnknownInput)
      else if sr_outer_type s = Some (lit ''compacted'') then
        (if noop_valid rfc3339 s \<noteq> Some True then UnknownInput
         else if ps_snapshot_non_null payload
         then (case response_record (ps_snapshot payload) of None \<Rightarrow> UnknownInput | Some r \<Rightarrow> Snapshot r)
         else NoOp)
      else if name = Some (lit ''token_count'') then Counter
      else if is_one_of name task_names then Task
      else if is_one_of name turn_names then
        (case strong_context_of rfc3339 s pointer of
           None \<Rightarrow> UnknownInput
         | Some ctx \<Rightarrow> Strong ctx (name = Some (lit ''turn_context'')))
      else if name = Some (lit ''thread_settings_applied'') then
        (if context_envelope_valid rfc3339 s \<and> Option.bind (event_model s) canonical_model \<noteq> None
         then NoOp else UnknownInput)
      else if noop_valid rfc3339 s = Some True then NoOp
      else UnknownInput)"

definition observe_input ::
  "ResponseClassificationInput \<Rightarrow> ClassificationPointer \<Rightarrow> RecordPointer option \<Rightarrow> ResponseUsage option \<Rightarrow>
   SourceAdmission \<Rightarrow> SourceAdmission" where
  "observe_input input evidence pointer last_usage admission =
     (let admission = observe_response_classification input evidence admission
      in admission\<lparr>sa_responses :=
           update_last (observe_counter_association input evidence pointer last_usage) (sa_responses admission)\<rparr>)"

definition observe_record ::
  "(rstr \<Rightarrow> i64 option) \<Rightarrow> SessionRecordSummary \<Rightarrow> ClassificationPointer \<Rightarrow> RecordPointer option \<Rightarrow>
   SourceAdmission \<Rightarrow> SourceAdmission" where
  "observe_record rfc3339 s evidence pointer admission =
     observe_input (classification_input rfc3339 admission s pointer) evidence pointer
       (if \<not> sr_duplicate_fields s \<and> last_token_snapshot s \<noteq> None
        then response_usage (ps_last_token_usage (sr_payload s)) else None)
       admission"

section \<open>Metadata and forks\<close>

definition next_metadata :: "SessionRecordSummary \<Rightarrow> SessionMetadata option" where
  "next_metadata s =
     map_option (\<lambda>thread_id. \<lparr>sm_thread_id = thread_id,
       sm_session_id = rps_session_id (ps_response (sr_payload s))\<rparr>) (ps_metadata_id (sr_payload s))"

definition inherited_parent :: "SourceAdmission \<Rightarrow> SessionRecordSummary \<Rightarrow> bool" where
  "inherited_parent admission s \<longleftrightarrow> metadata_shape_valid s \<and> sa_metadata_qualified admission \<and>
     (case (sa_fork_history admission, next_metadata s) of
        (Some fork, Some meta) \<Rightarrow> sm_thread_id meta = fh_parent_thread_id fork
      | _ \<Rightarrow> False)"

definition enter_inherited :: "ClassificationPointer \<Rightarrow> SourceAdmission \<Rightarrow> SourceAdmission" where
  "enter_inherited evidence admission =
     (observe_response_classification HistoryInput evidence
        (admission\<lparr>sa_fork_history := map_option (\<lambda>f. f\<lparr>fh_reading_inherited := True\<rparr>) (sa_fork_history admission)\<rparr>))
     \<lparr>sa_strong_context := None, sa_adopted_context := None, sa_previous_raw := None,
      sa_response_waiting_for_counter := False\<rparr>"

definition metadata_compatible :: "SessionMetadata option \<Rightarrow> SessionMetadata \<Rightarrow> bool" where
  "metadata_compatible old next_meta =
     pred_option (\<lambda>o'. sm_thread_id o' = sm_thread_id next_meta \<and>
       (sm_session_id o' = None \<or> sm_session_id next_meta = None \<or> sm_session_id o' = sm_session_id next_meta)) old"

definition adopt_metadata :: "SessionRecordSummary \<Rightarrow> SessionMetadata \<Rightarrow> SourceAdmission \<Rightarrow> SourceAdmission" where
  "adopt_metadata s next_meta admission =
     (let fork = (if sa_metadata admission = None
                  then map_option (\<lambda>parent. \<lparr>fh_parent_thread_id = parent, fh_reading_inherited = False\<rparr>)
                         (ps_forked_from_id (sr_payload s))
                  else sa_fork_history admission);
          next_meta = (if sm_session_id next_meta = None
                  then next_meta\<lparr>sm_session_id := Option.bind (sa_metadata admission) sm_session_id\<rparr> else next_meta)
      in admission\<lparr>sa_metadata := Some next_meta, sa_metadata_qualified := True,
           sa_fork_history := map_option (\<lambda>f. f\<lparr>fh_reading_inherited := False\<rparr>) fork\<rparr>)"

definition metadata_record :: "SessionRecordSummary \<Rightarrow> SourceAdmission \<Rightarrow> bool \<times> SourceAdmission" where
  "metadata_record s admission =
     (case next_metadata s of
        Some next_meta \<Rightarrow>
          if metadata_shape_valid s \<and> metadata_compatible (sa_metadata admission) next_meta
          then (True, adopt_metadata s next_meta admission)
          else (False, admission\<lparr>sa_metadata_qualified := False\<rparr>)
      | None \<Rightarrow> (False, admission\<lparr>sa_metadata_qualified := False\<rparr>))"

definition reading_inherited :: "SourceAdmission \<Rightarrow> bool" where
  "reading_inherited admission =
     (case sa_fork_history admission of None \<Rightarrow> False | Some fork \<Rightarrow> fh_reading_inherited fork)"

definition current_record :: "(rstr \<Rightarrow> i64 option) \<Rightarrow> SourceAdmission \<Rightarrow> SessionRecordSummary \<Rightarrow> bool" where
  "current_record rfc3339 admission s \<longleftrightarrow>
     context_envelope_valid rfc3339 s \<and>
     and (sr_payload_duplicates s) (or (key_bit KThreadId) (key_bit KSessionId)) = 0 \<and>
     \<not> has_key (rps_malformed_identifiers (ps_response (sr_payload s))) KThreadId \<and>
     sa_metadata_qualified admission \<and>
     (case sa_metadata admission of
        None \<Rightarrow> False
      | Some meta \<Rightarrow>
          rps_thread_id (ps_response (sr_payload s)) = Some (sm_thread_id meta) \<and>
          ((event_type s = Some (lit ''thread_settings_applied'') \<and> qualified_context_model rfc3339 s \<noteq> None) \<or>
           (sr_outer_type s = Some (lit ''token_usage_record'') \<and>
            (case response_record (ps_response (sr_payload s)) of
               None \<Rightarrow> False | Some r \<Rightarrow> sm_session_id meta = Some (ri_session_id (rr_ids r))))))"

definition leave_inherited :: "SourceAdmission \<Rightarrow> SourceAdmission" where
  "leave_inherited admission =
     admission\<lparr>sa_fork_history := map_option (\<lambda>f. f\<lparr>fh_reading_inherited := False\<rparr>) (sa_fork_history admission)\<rparr>"

section \<open>State\<close>

record scan_params =
  sp_rfc3339 :: "rstr \<Rightarrow> i64 option"
  sp_sha256 :: "u8 list \<Rightarrow> u8 list"
  sp_reset_at :: i64
  sp_window_start :: i64
  sp_max_bytes :: u64
  sp_recovery_anchor :: "TokenSnapshot option"
  sp_anchor_fully_attributed :: bool
  sp_first_scan :: bool
  sp_ownership :: "SourceOwnership option"

record TaskObservation =
  to_event_index :: u64
  to_timestamp :: i64
  to_running :: bool

record scan_state =
  sn_fully_attributed :: bool
  sn_baseline_known :: bool
  sn_history_base_pending :: bool
  sn_last_task_running :: "bool option"
  sn_context_usage_tokens :: "u64 option"
  sn_context_window_tokens :: "u64 option"
  sn_previous :: TokenSnapshot
  sn_model_context :: ModelAttributionState
  sn_admission :: "SourceAdmission option"
  sn_recovery_anchor_found :: bool
  sn_recovery_match :: "(TokenSnapshot \<times> u64 \<times> u64) option"
  sn_discard_until_lf :: bool
  sn_physical_offset :: u64
  sn_consumed_bytes :: u64
  sn_unresolved :: bool
  sn_unresolved_start :: "u64 option"
  sn_evidence :: "evidence list"
  sn_totals :: ModelTotals
  sn_events :: "TimedModelUsage list"
  sn_token_observed_at :: "i64 list"
  sn_task_events :: "TaskObservation list"
  sn_all_events :: "TimedModelUsage list"
  sn_event_proofs :: "LegacyCounterProof list"
  sn_counter_proofs :: "LegacyCounterProof list"
  sn_token_count_seen :: bool
  sn_read_any :: bool
  sn_record_index :: u64

text \<open>What the loop knows of the record at hand.\<close>

record scan_rec =
  sr_index :: u64
  sr_evidence :: ClassificationPointer
  sr_pointer :: "RecordPointer option"
  sr_summary :: SessionRecordSummary

datatype flow = Go scan_state | NextRecord scan_state

definition flow_bind :: "flow \<Rightarrow> (scan_state \<Rightarrow> RecorderError + flow) \<Rightarrow> RecorderError + flow" where
  "flow_bind fl f = (case fl of NextRecord st \<Rightarrow> Inr (NextRecord st) | Go st \<Rightarrow> f st)"

definition flow_state :: "flow \<Rightarrow> scan_state" where
  "flow_state fl = (case fl of Go st \<Rightarrow> st | NextRecord st \<Rightarrow> st)"

definition reject :: "scan_rec \<Rightarrow> rstr \<Rightarrow> scan_state \<Rightarrow> scan_state" where
  "reject r reason st =
     st\<lparr>sn_unresolved := True,
        sn_evidence := evidence_record (cp_start (sr_evidence r), cp_end (sr_evidence r), reason, True) (sn_evidence st)\<rparr>"

definition map_admission :: "(SourceAdmission \<Rightarrow> SourceAdmission) \<Rightarrow> scan_state \<Rightarrow> scan_state" where
  "map_admission f st = st\<lparr>sn_admission := map_option f (sn_admission st)\<rparr>"

section \<open>The admission lane\<close>

definition step_metadata :: "scan_rec \<Rightarrow> scan_state \<Rightarrow> flow" where
  "step_metadata r st =
     (case sn_admission st of
        None \<Rightarrow> Go st
      | Some admission \<Rightarrow>
          if sr_outer_type (sr_summary r) \<noteq> Some (lit ''session_meta'') then Go st
          else if inherited_parent admission (sr_summary r) then
            NextRecord (st\<lparr>sn_admission := Some (enter_inherited (sr_evidence r) admission),
              sn_baseline_known := False, sn_fully_attributed := False,
              sn_previous := TokenSnapshot_default, sn_model_context := ModelAttributionState_new\<rparr>)
          else (case metadata_record (sr_summary r) admission of
              (valid, admission') \<Rightarrow>
                let st = st\<lparr>sn_admission := Some admission'\<rparr>
                in Go (if valid then st else reject r (lit ''session-metadata-unqualified'') st)))"

definition step_fork :: "scan_params \<Rightarrow> scan_rec \<Rightarrow> scan_state \<Rightarrow> flow" where
  "step_fork p r st =
     (case sn_admission st of
        None \<Rightarrow> Go st
      | Some admission \<Rightarrow>
          if \<not> reading_inherited admission then Go st
          else if \<not> current_record (sp_rfc3339 p) admission (sr_summary r) then NextRecord st
          else Go (map_admission leave_inherited st))"

definition response_candidate ::
  "scan_params \<Rightarrow> ModelAttributionState \<Rightarrow> SourceAdmission \<Rightarrow> ResponseRecord \<Rightarrow> RecordPointer \<Rightarrow> PendingResponse" where
  "response_candidate p model_context admission rec pointer =
     \<lparr>pr_key = ResponseIds_key (sp_sha256 p) (rr_ids rec), pr_record = rec, pr_pointer = pointer,
      pr_session_scope_qualified =
        (sa_metadata_qualified admission \<and> scope_matches (sa_metadata admission) (rr_ids rec)),
      pr_root_context =
        (case sa_strong_context admission of
           None \<Rightarrow> None
         | Some ctx \<Rightarrow>
             if ma_kind model_context = Turn \<and> sc_turn_id ctx \<noteq> None \<and> sc_root_turn_id ctx \<noteq> None
             then map_option (\<lambda>model. \<lparr>rc_model = model, rc_context = ctx\<rparr>) (ma_model model_context)
             else None),
      pr_classification = AwaitingBoundary, pr_counter_association = Awaiting\<rparr>"

definition step_push :: "scan_params \<Rightarrow> scan_rec \<Rightarrow> SourceAdmission \<Rightarrow> scan_state \<Rightarrow> scan_state" where
  "step_push p r admission st =
     (let s = sr_summary r;
          rec = (if \<not> sr_duplicate_fields s \<and> sr_payload_object s
                 then response_record (ps_response (sr_payload s)) else None)
      in (case (rec, sr_pointer r) of
            (Some response, Some pointer) \<Rightarrow>
              reject r (lit ''response-qualification-pending'')
                (st\<lparr>sn_admission := Some ((push_response
                       (response_candidate p (sn_model_context st) admission response pointer) admission)
                     \<lparr>sa_response_waiting_for_counter := True\<rparr>)\<rparr>)
          | _ \<Rightarrow> reject r (lit ''response-record-invalid'') (st\<lparr>sn_admission := Some admission\<rparr>)))"

definition snapshot_rejected :: "scan_rec \<Rightarrow> bool" where
  "snapshot_rejected r \<longleftrightarrow>
     (let s = sr_summary r in
      sr_outer_type s = Some (lit ''compacted'') \<and> ps_snapshot_non_null (sr_payload s) \<and>
      (sr_duplicate_fields s \<or> \<not> sr_payload_object s \<or> sr_pointer r = None \<or>
       response_record (ps_snapshot (sr_payload s)) = None))"

definition step_responses :: "scan_params \<Rightarrow> scan_rec \<Rightarrow> scan_state \<Rightarrow> scan_state" where
  "step_responses p r st =
     (let s = sr_summary r;
          marked = (if response_stream_marker s
            then Some ((case sn_admission st of None \<Rightarrow> from_response_boundary | Some a \<Rightarrow> a)
                       \<lparr>sa_stream := ResponseRecordStream\<rparr>)
            else sn_admission st)
      in (case marked of
            None \<Rightarrow> st
          | Some admission \<Rightarrow>
              (let admission = observe_record (sp_rfc3339 p) s (sr_evidence r) (sr_pointer r) admission in
               if sr_outer_type s = Some (lit ''token_usage_record'') then step_push p r admission st
               else (let st = st\<lparr>sn_admission := Some admission\<rparr>
                     in if snapshot_rejected r then reject r (lit ''response-snapshot-invalid'') st else st))))"

text \<open>Whether a response was waiting for this counter; the flag is taken.\<close>

definition step_waiting :: "scan_params \<Rightarrow> scan_rec \<Rightarrow> scan_state \<Rightarrow> bool \<times> scan_state" where
  "step_waiting p r st =
     (case sn_admission st of
        None \<Rightarrow> (False, st)
      | Some admission \<Rightarrow>
          if event_type (sr_summary r) = Some (lit ''token_count'') \<and>
             context_envelope_valid (sp_rfc3339 p) (sr_summary r)
          then (sa_response_waiting_for_counter admission,
                map_admission (\<lambda>a. a\<lparr>sa_response_waiting_for_counter := False\<rparr>) st)
          else (False, st))"

definition step_noop :: "scan_params \<Rightarrow> scan_rec \<Rightarrow> scan_state \<Rightarrow> flow" where
  "step_noop p r st =
     (let s = sr_summary r; valid = noop_valid (sp_rfc3339 p) s in
      if valid = Some False \<or> (valid = None \<and> \<not> known_state_input s)
      then NextRecord (reject r (if valid \<noteq> None then lit ''invalid-noop-record''
                                 else lit ''unrecognized-usage-control-record'')
             (map_admission (\<lambda>a. a\<lparr>sa_strong_context := None, sa_adopted_context := None\<rparr>)
               (st\<lparr>sn_model_context := invalidate (sn_model_context st)\<rparr>)))
      else if valid = Some True then NextRecord st
      else Go st)"

section \<open>Contexts and tasks\<close>

definition step_history_base :: "scan_params \<Rightarrow> scan_rec \<Rightarrow> scan_state \<Rightarrow> scan_state" where
  "step_history_base p r st =
     (let s = sr_summary r;
          st = (if history_base_continuation s \<and> \<not> sn_token_count_seen st \<and> sp_first_scan p \<and>
                   sp_recovery_anchor p = None
                then st\<lparr>sn_history_base_pending := True\<rparr> else st)
      in if event_type s = Some (lit ''token_count'') then st\<lparr>sn_token_count_seen := True\<rparr> else st)"

definition adopt_context :: "scan_rec \<Rightarrow> SessionModelContextKind \<Rightarrow> bool \<Rightarrow> SessionModelContextKind \<Rightarrow>
    SourceAdmission \<Rightarrow> SourceAdmission" where
  "adopt_context r prior_kind invalid_context kind admission =
     (let event = event_type (sr_summary r) in
      if kind = CtxUnknown then admission\<lparr>sa_adopted_context := None\<rparr>
      else if \<not> invalid_context \<and>
        (is_one_of event turn_names \<or>
         (event = Some (lit ''thread_settings_applied'') \<and> prior_kind = CtxNone))
      then admission\<lparr>sa_adopted_context := Some (sr_evidence r)\<rparr>
      else admission)"

definition strengthen_context :: "scan_rec \<Rightarrow> bool \<Rightarrow> SourceAdmission \<Rightarrow> SourceAdmission" where
  "strengthen_context r invalid_context admission =
     (if is_one_of (event_type (sr_summary r)) turn_names
      then admission\<lparr>sa_strong_context :=
        (if invalid_context then None
         else map_option (\<lambda>pointer.
           \<lparr>sc_turn_id = rps_turn_id (ps_response (sr_payload (sr_summary r))),
            sc_root_turn_id = rps_root_turn_id (ps_response (sr_payload (sr_summary r))),
            sc_pointer = pointer\<rparr>) (sr_pointer r))\<rparr>
      else admission)"

definition step_context :: "scan_params \<Rightarrow> scan_rec \<Rightarrow> scan_state \<Rightarrow> flow" where
  "step_context p r st =
     (let s = sr_summary r; prior_kind = ma_kind (sn_model_context st) in
      case observe_context (sp_rfc3339 p) s (sn_model_context st) of
        (invalid_context, model_context) \<Rightarrow>
          let st = map_admission (strengthen_context r invalid_context)
                     (map_admission (adopt_context r prior_kind invalid_context (ma_kind model_context))
                       (st\<lparr>sn_model_context := model_context\<rparr>));
              unparsed = usage_unparsed (sp_rfc3339 p) s
          in if invalid_context \<or> unparsed
             then let st = reject r (if invalid_context then lit ''model-context-unqualified''
                                     else lit ''usage-payload-unparsed'')
                           (st\<lparr>sn_discard_until_lf := False\<rparr>)
                  in if invalid_context then NextRecord st else Go st
             else Go st)"

definition step_task :: "scan_params \<Rightarrow> scan_rec \<Rightarrow> scan_state \<Rightarrow> scan_state" where
  "step_task p r st =
     (case task_running (sr_summary r) of
        None \<Rightarrow> st
      | Some running \<Rightarrow>
          if \<not> task_shape_valid (sp_rfc3339 p) (sr_summary r) then reject r (lit ''task-event-invalid'') st
          else st\<lparr>sn_last_task_running := Some running,
                  sn_task_events := sn_task_events st @ [\<lparr>to_event_index = sr_index r,
                    to_timestamp = event_timestamp (sp_rfc3339 p) (sr_summary r), to_running = running\<rparr>]\<rparr>)"

definition step_context_pair :: "scan_params \<Rightarrow> scan_rec \<Rightarrow> scan_state \<Rightarrow> scan_state" where
  "step_context_pair p r st =
     (let s = sr_summary r;
          st = (if context_unparsed (sp_rfc3339 p) s then reject r (lit ''context-pair-invalid'') st else st)
      in (case context_pair (sp_rfc3339 p) s of
            None \<Rightarrow> st
          | Some (usage, window) \<Rightarrow>
              st\<lparr>sn_context_usage_tokens := Some usage, sn_context_window_tokens := Some window\<rparr>))"

section \<open>Counters\<close>

text \<open>The observation becomes the value the next one is compared with.\<close>

definition set_raw :: "scan_rec \<Rightarrow> TokenSnapshot \<Rightarrow> scan_state \<Rightarrow> scan_state" where
  "set_raw r current st =
     (map_admission (\<lambda>a. a\<lparr>sa_previous_raw := sr_pointer r\<rparr>) st)\<lparr>sn_previous := current\<rparr>"

definition begin_interval :: "scan_state \<Rightarrow> scan_state" where
  "begin_interval st = st\<lparr>sn_model_context := start_interval (sn_model_context st)\<rparr>"

definition rebase :: "scan_rec \<Rightarrow> TokenSnapshot \<Rightarrow> scan_state \<Rightarrow> scan_state" where
  "rebase r current st = begin_interval ((set_raw r current st)\<lparr>sn_baseline_known := True\<rparr>)"

definition step_anchor :: "scan_params \<Rightarrow> scan_rec \<Rightarrow> TokenSnapshot \<Rightarrow> scan_state \<Rightarrow> flow" where
  "step_anchor p r current st =
     (if sn_recovery_anchor_found st then Go st
      else (case sp_recovery_anchor p of
          None \<Rightarrow> Go st
        | Some anchor \<Rightarrow>
            let st = st\<lparr>sn_baseline_known := True, sn_previous := current\<rparr>
            in if current \<noteq> anchor then NextRecord st
               else NextRecord (begin_interval (map_admission (\<lambda>a. a\<lparr>sa_previous_raw := sr_pointer r\<rparr>)
                 (st\<lparr>sn_recovery_anchor_found := True, sn_fully_attributed := sp_anchor_fully_attributed p,
                     sn_recovery_match := Some (current, cp_start (sr_evidence r), cp_end (sr_evidence r))\<rparr>)))))"

definition optional_zero :: "u64 option \<Rightarrow> bool" where
  "optional_zero value = pred_option (\<lambda>v. v = 0) value"

definition step_adjustment :: "scan_rec \<Rightarrow> TokenSnapshot \<Rightarrow> scan_state \<Rightarrow> flow" where
  "step_adjustment r current st =
     (if context_window_tokens (sr_summary r) = Some (ts_total current)
      then (let zeros = [ts_input current, ts_cached_input current, ts_output current] in
            if list_all (\<lambda>v. v = Some 0) zeros \<and> optional_zero (ts_cache_write_input current)
            then NextRecord ((rebase r current st)\<lparr>sn_history_base_pending := False\<rparr>)
            else if list_all optional_zero zeros \<and> optional_zero (ts_cache_write_input current)
            then NextRecord (reject r (lit ''ambiguous-context-adjustment'') st)
            else Go st)
      else Go st)"

definition previous_owned :: "SourceOwnership \<Rightarrow> i64 \<Rightarrow> scan_state \<Rightarrow> bool" where
  "previous_owned ow timestamp st \<longleftrightarrow> sn_baseline_known st \<and>
     (case Option.bind (sn_admission st) sa_previous_raw of
        None \<Rightarrow> False | Some before \<Rightarrow> same_interval ow (rp_timestamp before) timestamp)"

definition step_ownership :: "scan_params \<Rightarrow> scan_rec \<Rightarrow> TokenSnapshot \<Rightarrow> scan_state \<Rightarrow> flow" where
  "step_ownership p r current st =
     (case sp_ownership p of
        None \<Rightarrow> Go st
      | Some ow \<Rightarrow>
          let timestamp = event_timestamp (sp_rfc3339 p) (sr_summary r);
              owned = SourceOwnership_contains ow timestamp
          in if \<not> owned \<or> \<not> previous_owned ow timestamp st
             then let st = rebase r current st
                  in NextRecord (if \<not> owned \<or> ts_total current > 0
                       then reject r (if owned then lit ''account-counter-prefix-unknown''
                                      else lit ''counter-outside-account-ownership'') st
                       else st)
             else Go st)"

definition step_baseline :: "scan_rec \<Rightarrow> TokenSnapshot \<Rightarrow> scan_state \<Rightarrow> flow" where
  "step_baseline r current st =
     (if sn_baseline_known st then Go st
      else (let st = rebase r current st
            in NextRecord (if ts_total current > 0 then reject r (lit ''initial-counter-prefix-unknown'') st else st)))"

definition witness_of :: "RecordPointer \<Rightarrow> TokenFacts \<Rightarrow> CounterWitness" where
  "witness_of pointer facts =
     \<lparr>cw_pointer = pointer, cw_total = tf_total facts, cw_input = tf_input facts, cw_cached_input = tf_cached_input facts,
      cw_cache_write_input = tf_cache_write_input facts, cw_output = tf_output facts\<rparr>"

definition legacy_model_proof :: "scan_state \<Rightarrow> LegacyModelProof option" where
  "legacy_model_proof st =
     (let model_context = sn_model_context st in
      if ma_kind model_context = InitialSettings \<or> ma_kind model_context = Turn
      then map_option (\<lambda>pointer. \<lparr>lm_pointer = pointer,
             lm_kind = SessionModelContextKind_as_str (ma_kind model_context),
             lm_interval = SessionModelInterval_to_storage (ma_interval model_context)\<rparr>)
           (Option.bind (sn_admission st) sa_adopted_context)
      else None)"

text \<open>A stream of response records carries its own usage; its counters only advance the comparison.\<close>

definition counter_is_secondary :: "scan_state \<Rightarrow> bool" where
  "counter_is_secondary st =
     (case sn_admission st of
        None \<Rightarrow> True
      | Some a \<Rightarrow> sa_stream a = ResponseRecordStream \<or> sa_responses a \<noteq> [])"

definition step_secondary :: "scan_rec \<Rightarrow> bool \<Rightarrow> TokenSnapshot \<Rightarrow> scan_state \<Rightarrow> scan_state" where
  "step_secondary r had_response delta st =
     (let st = begin_interval st in
      if TokenSnapshot_has_usage delta \<and> \<not> had_response
      then reject r (if sn_admission st \<noteq> None then lit ''response-record-missing''
                     else lit ''source-admission-unknown'') st
      else st)"

text \<open>
  An accepted delta of a counter stream: \<open>before_facts\<close>, \<open>before_pointer\<close> and \<open>model_proof\<close> were read
  before the comparison value moved.
\<close>

definition emit_event ::
  "scan_rec \<Rightarrow> TokenFacts \<Rightarrow> RecordPointer option \<Rightarrow> LegacyModelProof option \<Rightarrow> TokenSnapshot \<Rightarrow>
   TimedModelUsage option \<Rightarrow> scan_state \<Rightarrow> RecorderError + scan_state" where
  "emit_event r before_facts before_pointer model_proof current timed st =
     (case timed of
        None \<Rightarrow> Inr st
      | Some event \<Rightarrow>
          try_res (ok_or (RecorderInvalid (lit ''accepted delta has no original baseline pointer'')) before_pointer) (\<lambda>before.
          try_res (ok_or (RecorderInvalid (lit ''accepted delta has no original endpoint pointer'')) (sr_pointer r)) (\<lambda>after.
          Inr (st\<lparr>sn_event_proofs := sn_event_proofs st @
                   [\<lparr>lc_before = witness_of before before_facts,
                     lc_after = witness_of after (TokenSnapshot_facts current),
                     lc_model_context = model_proof\<rparr>],
                 sn_all_events := sn_all_events st @ [event]\<rparr>))))"

definition push_timed :: "TimedModelUsage option \<Rightarrow> scan_state \<Rightarrow> scan_state" where
  "push_timed timed st = (case timed of None \<Rightarrow> st | Some event \<Rightarrow> st\<lparr>sn_events := sn_events st @ [event]\<rparr>)"

definition count_event ::
  "scan_params \<Rightarrow> scan_rec \<Rightarrow> rstr option \<Rightarrow> TokenSnapshot \<Rightarrow> TimedModelUsage option \<Rightarrow> scan_state \<Rightarrow>
   RecorderError + flow" where
  "count_event p r qualified delta timed st =
     (let timestamp = event_timestamp (sp_rfc3339 p) (sr_summary r) in
      if qualified = None
      then Inr (NextRecord (if TokenSnapshot_has_usage delta
             then reject r (lit ''model-interval-unqualified'') st else st))
      else if sp_reset_at p = 0 then Inr (NextRecord (push_timed timed st))
      else if timestamp < sp_window_start p \<or> timestamp > sp_reset_at p then Inr (NextRecord st)
      else (let st = (if timestamp > 0
                      then st\<lparr>sn_token_observed_at := sn_token_observed_at st @ [timestamp]\<rparr> else st)
            in try_res (ModelTotals_add (sn_totals st) (usage_model qualified) delta) (\<lambda>totals.
                 Inr (NextRecord (push_timed timed (st\<lparr>sn_totals := totals\<rparr>))))))"

definition step_event ::
  "scan_params \<Rightarrow> scan_rec \<Rightarrow> TokenFacts \<Rightarrow> RecordPointer option \<Rightarrow> LegacyModelProof option \<Rightarrow>
   TokenSnapshot \<Rightarrow> TokenSnapshot \<Rightarrow> scan_state \<Rightarrow> RecorderError + flow" where
  "step_event p r before_facts before_pointer model_proof current delta st =
     (let timestamp = event_timestamp (sp_rfc3339 p) (sr_summary r);
          qualified = interval_model (sn_model_context st);
          st = (if qualified = None \<and> TokenSnapshot_has_usage delta then st\<lparr>sn_fully_attributed := False\<rparr> else st);
          st = begin_interval st;
          timed = (if timestamp > 0 \<and> TokenSnapshot_has_usage delta
                   then Some \<lparr>tm_timestamp = timestamp, tm_model = usage_model qualified, tm_delta = delta\<rparr> else None)
      in try_res (emit_event r before_facts before_pointer (if qualified = None then None else model_proof) current timed st)
           (count_event p r qualified delta timed))"

definition step_delta ::
  "scan_params \<Rightarrow> scan_rec \<Rightarrow> bool \<Rightarrow> TokenSnapshot \<Rightarrow> scan_state \<Rightarrow> RecorderError + flow" where
  "step_delta p r had_response current st =
     (let before_facts = TokenSnapshot_facts (sn_previous st);
          before_pointer = Option.bind (sn_admission st) sa_previous_raw;
          model_proof = legacy_model_proof st
      in (case checked_delta (TokenSnapshot_facts current) before_facts of
            Inl _ \<Rightarrow> Inr (NextRecord (reject r (lit ''raw-counter-regression-or-invalid-delta'') st))
          | Inr delta_facts \<Rightarrow>
              (let delta = TokenSnapshot_from_facts delta_facts;
                   st = set_raw r current st;
                   st = (case (before_pointer, sr_pointer r) of
                       (Some before, Some after) \<Rightarrow>
                         st\<lparr>sn_counter_proofs := sn_counter_proofs st @
                             [\<lparr>lc_before = witness_of before before_facts,
                               lc_after = witness_of after (TokenSnapshot_facts current),
                               lc_model_context = model_proof\<rparr>]\<rparr>
                     | _ \<Rightarrow> st)
               in if counter_is_secondary st then Inr (NextRecord (step_secondary r had_response delta st))
                  else step_event p r before_facts before_pointer model_proof current delta st)))"

definition step_counter ::
  "scan_params \<Rightarrow> scan_rec \<Rightarrow> bool \<Rightarrow> scan_state \<Rightarrow> RecorderError + flow" where
  "step_counter p r had_response st =
     (case token_snapshot (sr_summary r) of
        None \<Rightarrow> Inr (NextRecord st)
      | Some current \<Rightarrow>
          if \<not> TokenSnapshot_valid_raw current
          then Inr (NextRecord (reject r (lit ''invalid-token-components'') st))
          else flow_bind (step_anchor p r current st) (\<lambda>st.
               flow_bind (step_adjustment r current st) (\<lambda>st.
               let st = (if sn_history_base_pending st
                         then st\<lparr>sn_history_base_pending := False, sn_baseline_known := False\<rparr> else st)
               in flow_bind (step_ownership p r current st) (\<lambda>st.
                  flow_bind (step_baseline r current st) (step_delta p r had_response current)))))"

section \<open>The loop\<close>

text \<open>A complete record, after its bytes were counted.\<close>

definition scan_present :: "scan_params \<Rightarrow> scan_rec \<Rightarrow> scan_state \<Rightarrow> RecorderError + flow" where
  "scan_present p r st =
     (let s = sr_summary r;
          st = (if \<not> envelope_metadata_shape_valid s
                then reject r (if \<not> ordinal_shape_valid s then lit ''ordinal-envelope-invalid''
                               else lit ''response-metadata-envelope-invalid'') st
                else st)
      in flow_bind (step_metadata r st) (\<lambda>st.
         flow_bind (step_fork p r st) (\<lambda>st.
         case step_waiting p r (step_responses p r st) of
           (had_response, st) \<Rightarrow>
             flow_bind (step_noop p r st) (\<lambda>st.
             flow_bind (step_context p r (step_history_base p r st)) (\<lambda>st.
             let st = step_context_pair p r (step_task p r st)
             in if usage_unparsed (sp_rfc3339 p) s then Inr (NextRecord st)
                else step_counter p r had_response st)))))"

datatype record_read =
    ReadPresent SessionRecordSummary u64 rstr
  | ReadInvalid u64 bool rstr
  | ReadUnterminated u64

definition record_pointer :: "scan_params \<Rightarrow> ClassificationPointer \<Rightarrow> SessionRecordSummary \<Rightarrow> RecordPointer option" where
  "record_pointer p evidence s =
     (let timestamp = event_timestamp (sp_rfc3339 p) s in
      if valid_timestamp timestamp
      then Some \<lparr>rp_start = cp_start evidence, rp_end = cp_end evidence, rp_sha256 = cp_sha256 evidence,
                 rp_timestamp = timestamp\<rparr>
      else None)"

definition scan_malformed :: "u64 \<Rightarrow> rstr \<Rightarrow> scan_state \<Rightarrow> scan_state" where
  "scan_malformed bytes sha st =
     (let start = sn_physical_offset st;
          evidence = \<lparr>cp_start = start, cp_end = saturating_add start bytes, cp_sha256 = sha\<rparr>;
          st = st\<lparr>sn_physical_offset := saturating_add start bytes, sn_read_any := True, sn_discard_until_lf := False\<rparr>;
          st = map_admission (observe_input UnknownInput evidence None None) st
      in st\<lparr>sn_evidence := evidence_record (start, saturating_add start bytes, lit ''malformed-json-record'', True)
              (sn_evidence st)\<rparr>)"

text \<open>The loop ends (second component) at an unterminated record.\<close>

definition scan_record :: "scan_params \<Rightarrow> record_read \<Rightarrow> scan_state \<Rightarrow> RecorderError + scan_state \<times> bool" where
  "scan_record p read st =
     (case read of
        ReadInvalid bytes terminated sha \<Rightarrow>
          (let start = sn_physical_offset st;
               st = map_admission (\<lambda>a. a\<lparr>sa_adopted_context := None\<rparr>)
                 (st\<lparr>sn_record_index := saturating_add (sn_record_index st) 1,
                     sn_consumed_bytes := saturating_add (sn_consumed_bytes st) bytes, sn_unresolved := True,
                     sn_model_context := invalidate (sn_model_context st)\<rparr>)
           in if terminated then Inr (scan_malformed bytes sha st, False)
              else Inr (st\<lparr>sn_evidence := evidence_record (start, saturating_add start bytes,
                             lit ''unterminated-malformed-json-record'', False) (sn_evidence st),
                           sn_unresolved_start := Some start, sn_discard_until_lf := True\<rparr>, True))
      | ReadUnterminated bytes \<Rightarrow>
          (let start = sn_physical_offset st
           in Inr (st\<lparr>sn_consumed_bytes := saturating_add (sn_consumed_bytes st) bytes, sn_unresolved := True,
                      sn_evidence := evidence_record (start, saturating_add start bytes,
                        lit ''partial-json-record'', False) (sn_evidence st),
                      sn_unresolved_start := Some start, sn_discard_until_lf := True\<rparr>, True))
      | ReadPresent summary bytes sha \<Rightarrow>
          (let start = sn_physical_offset st;
               evidence = \<lparr>cp_start = start, cp_end = saturating_add start bytes, cp_sha256 = sha\<rparr>;
               r = \<lparr>sr_index = sn_record_index st, sr_evidence = evidence,
                    sr_pointer = record_pointer p evidence summary, sr_summary = summary\<rparr>
           in try_res (scan_present p r
                (st\<lparr>sn_record_index := saturating_add (sn_record_index st) 1, sn_read_any := True,
                    sn_consumed_bytes := saturating_add (sn_consumed_bytes st) bytes,
                    sn_physical_offset := saturating_add start bytes\<rparr>))
                (\<lambda>fl. Inr (flow_state fl, False))))"

fun scan_loop :: "scan_params \<Rightarrow> record_read list \<Rightarrow> scan_state \<Rightarrow> RecorderError + scan_state" where
  "scan_loop p [] st = Inr st"
| "scan_loop p (read # reads) st =
     (if sn_consumed_bytes st \<ge> sp_max_bytes p \<and> sn_read_any st then Inr st
      else try_res (scan_record p read st) (\<lambda>(st, stop). if stop then Inr st else scan_loop p reads st))"

end
