(* ===== verification/Scan_Admission.thy ===== *)
theory Scan_Admission
  imports Session_Scan
begin

text \<open>
  The admission lane of the scan keeps the stored facts valid. \<open>lane_ok\<close> says so for a state whose
  bytes end at an offset: everything \<open>SourceAdmission_valid\<close> asks for, except that a bound source
  may have lost the qualification of its metadata to a contradicting record. One lemma for each stretch of the loop.
\<close>

section \<open>Validity in parts\<close>

definition response_ok :: "(u8 list \<Rightarrow> u8 list) \<Rightarrow> SessionMetadata option \<Rightarrow> u64 \<Rightarrow> PendingResponse \<Rightarrow> bool" where
  "response_ok sha256 meta e r \<longleftrightarrow>
     ResponseRecord_valid (pr_record r) \<and> classification_valid r e \<and> counter_association_valid r e \<and>
     pr_key r = ResponseIds_key sha256 (rr_ids (pr_record r)) \<and> RecordPointer_valid (pr_pointer r) e \<and>
     (pr_session_scope_qualified r \<longrightarrow> scope_matches meta (rr_ids (pr_record r))) \<and>
     pred_option (root_context_valid e r) (pr_root_context r)"

definition fork_ok :: "SessionMetadata option \<Rightarrow> ForkHistory \<Rightarrow> bool" where
  "fork_ok meta fork \<longleftrightarrow> valid_identifier (fh_parent_thread_id fork) \<and>
     (case meta of None \<Rightarrow> False | Some m \<Rightarrow> sm_thread_id m \<noteq> fh_parent_thread_id fork)"

definition binding_ok :: "SessionMetadata option \<Rightarrow> u64 \<Rightarrow> SourceAccountBinding \<Rightarrow> bool" where
  "binding_ok meta e binding \<longleftrightarrow>
     (case meta of
        None \<Rightarrow> False
      | Some current \<Rightarrow>
          sm_thread_id current = sm_thread_id (ab_metadata binding) \<and>
          pred_option (\<lambda>saved. sm_session_id current = Some saved) (sm_session_id (ab_metadata binding))) \<and>
     SourceAccountBinding_valid binding e"

definition responses_ok :: "(u8 list \<Rightarrow> u8 list) \<Rightarrow> SessionMetadata option \<Rightarrow> u64 \<Rightarrow> PendingResponse list \<Rightarrow> bool" where
  "responses_ok sha256 meta e rs \<longleftrightarrow>
     list_all (\<lambda>r. \<not> is_open (pr_classification r)) (butlast rs) \<and> list_all (response_ok sha256 meta e) rs"

definition metadata_ok :: "u64 \<Rightarrow> SourceAdmission \<Rightarrow> bool" where
  "metadata_ok e a \<longleftrightarrow>
     pred_option SessionMetadata_valid (sa_metadata a) \<and>
     (sa_metadata_qualified a \<longrightarrow> sa_metadata a \<noteq> None) \<and>
     pred_option (fork_ok (sa_metadata a)) (sa_fork_history a) \<and>
     pred_option (binding_ok (sa_metadata a) e) (sa_account_binding a)"

text \<open>The comparison value and the adopted context of the counter lane.\<close>

definition counter_ok :: "u64 \<Rightarrow> SourceAdmission \<Rightarrow> bool" where
  "counter_ok e a \<longleftrightarrow>
     pred_option (\<lambda>c. ClassificationPointer_valid_after c 0 e) (sa_adopted_context a) \<and>
     pred_option (\<lambda>p. RecordPointer_valid p e) (sa_previous_raw a)"

definition lane_ok :: "(u8 list \<Rightarrow> u8 list) \<Rightarrow> u64 \<Rightarrow> SourceAdmission \<Rightarrow> bool" where
  "lane_ok sha256 e a \<longleftrightarrow> sa_version a = 2 \<and> metadata_ok e a \<and> counter_ok e a \<and>
     pred_option (context_valid e) (sa_strong_context a) \<and>
     (sa_stream a = ResponseRecordStream \<or> \<not> sa_response_waiting_for_counter a \<and> sa_responses a = []) \<and>
     responses_ok sha256 (sa_metadata a) e (sa_responses a)"

lemma drop_1_rev: "drop 1 (rev xs) = rev (butlast xs)"
  by (cases xs rule: rev_cases) simp_all

lemma response_valid_ok:
  "sa_version a = 2 \<Longrightarrow> response_valid sha256 a e r \<longleftrightarrow> response_ok sha256 (sa_metadata a) e r"
  by (auto simp: response_valid_def response_ok_def)

lemma lane_ok_valid:
  assumes "sa_version a = 2" "sa_metadata_qualified a \<or> sa_account_binding a = None"
  shows "SourceAdmission_valid sha256 a e \<longleftrightarrow> lane_ok sha256 e a"
proof -
  have "response_valid sha256 a e = response_ok sha256 (sa_metadata a) e"
    by (rule ext) (rule response_valid_ok[OF assms(1)])
  moreover have "fork_valid a = fork_ok (sa_metadata a)"
    using assms(1) by (auto simp: fork_valid_def fork_ok_def fun_eq_iff)
  moreover have "pred_option (binding_admitted a e) (sa_account_binding a) \<longleftrightarrow>
      pred_option (binding_ok (sa_metadata a) e) (sa_account_binding a)"
    using assms by (cases "sa_account_binding a") (auto simp: binding_admitted_def binding_ok_def)
  ultimately show ?thesis
    unfolding SourceAdmission_valid_def lane_ok_def metadata_ok_def counter_ok_def responses_ok_def drop_1_rev
      list_all_rev
    using assms(1) by (simp only: simp_thms insert_iff) blast
qed

lemma lane_ok_unbound: "lane_ok sha256 e a \<Longrightarrow> lane_ok sha256 e (a\<lparr>sa_account_binding := None\<rparr>)"
  by (simp add: lane_ok_def metadata_ok_def counter_ok_def)

lemma lane_ok_admits:
  assumes "lane_ok sha256 e a"
  shows "SourceAdmission_valid sha256 (a\<lparr>sa_account_binding := None\<rparr>) e \<and>
    (sa_metadata_qualified a \<longrightarrow> SourceAdmission_valid sha256 a e)"
proof -
  have "sa_version a = 2" using assms by (simp add: lane_ok_def)
  then show ?thesis using lane_ok_valid[of a] lane_ok_valid[of "a\<lparr>sa_account_binding := None\<rparr>"]
      lane_ok_unbound[OF assms] assms by simp
qed

lemma response_ok_mono: "response_ok sha256 m a r \<Longrightarrow> a \<le> b \<Longrightarrow> response_ok sha256 m b r"
  by (cases "pr_root_context r") (auto simp: response_ok_def intro: prefix_mono)

lemma responses_ok_mono: "responses_ok sha256 m a rs \<Longrightarrow> a \<le> b \<Longrightarrow> responses_ok sha256 m b rs"
  by (auto simp: responses_ok_def list_all_iff intro: response_ok_mono)

lemma metadata_ok_mono: "metadata_ok a s \<Longrightarrow> a \<le> b \<Longrightarrow> metadata_ok b s"
  by (cases "sa_account_binding s") (auto simp: metadata_ok_def binding_ok_def intro: prefix_mono)

lemma counter_ok_mono: "counter_ok a s \<Longrightarrow> a \<le> b \<Longrightarrow> counter_ok b s"
  by (cases "sa_adopted_context s"; cases "sa_previous_raw s") (auto simp: counter_ok_def intro: prefix_mono)

lemma lane_ok_mono: "lane_ok sha256 a s \<Longrightarrow> a \<le> b \<Longrightarrow> lane_ok sha256 b s"
  by (cases "sa_strong_context s")
    (auto simp: lane_ok_def intro: metadata_ok_mono counter_ok_mono responses_ok_mono prefix_mono)

lemma lane_ok_start: "lane_ok sha256 e from_prefix_start"
  by (simp add: lane_ok_def from_prefix_start_def metadata_ok_def counter_ok_def responses_ok_def)

lemma lane_ok_boundary: "lane_ok sha256 e from_response_boundary"
  by (simp add: lane_ok_def from_response_boundary_def from_prefix_start_def metadata_ok_def counter_ok_def
      responses_ok_def)

section \<open>The record at hand\<close>

text \<open>
  A record read at \<open>a .. b\<close>: its evidence and its pointer are its bytes, and its identifiers are
  what the parser lets through.
\<close>

definition summary_ids_valid :: "SessionRecordSummary \<Rightarrow> bool" where
  "summary_ids_valid s \<longleftrightarrow>
     pred_option valid_identifier (ps_metadata_id (sr_payload s)) \<and>
     pred_option valid_identifier (ps_forked_from_id (sr_payload s)) \<and>
     pred_option valid_identifier (rps_session_id (ps_response (sr_payload s))) \<and>
     pred_option valid_identifier (rps_turn_id (ps_response (sr_payload s))) \<and>
     pred_option valid_identifier (rps_root_turn_id (ps_response (sr_payload s)))"

definition rec_ok :: "scan_params \<Rightarrow> u64 \<Rightarrow> u64 \<Rightarrow> scan_rec \<Rightarrow> bool" where
  "rec_ok p a b r \<longleftrightarrow> ClassificationPointer_valid_after (sr_evidence r) a b \<and> summary_ids_valid (sr_summary r) \<and>
     sr_pointer r = record_pointer p (sr_evidence r) (sr_summary r)"

lemma validate_sha256_label: "is_ok (validate_sha256 s f) \<longleftrightarrow> is_ok (validate_sha256 s g)"
  by (simp add: validate_sha256_def is_ok_def)

lemma record_pointer_ok:
  assumes "ClassificationPointer_valid_after c a b" "record_pointer p c s = Some q"
  shows "RecordPointer_valid q b \<and> rp_start q = cp_start c \<and> rp_end q = cp_end c"
  using assms validate_sha256_label[of "cp_sha256 c" "lit ''source record''" "lit ''classification record''"]
  by (auto simp: record_pointer_def Let_def RecordPointer_valid_def ClassificationPointer_valid_after_def
      split: if_splits)

lemma rec_okD:
  assumes "rec_ok p a b r"
  shows "a \<le> b" "ClassificationPointer_valid_after (sr_evidence r) a b" "summary_ids_valid (sr_summary r)"
    "pred_option (\<lambda>q. RecordPointer_valid q b \<and> a \<le> rp_start q) (sr_pointer r)"
    "sr_pointer r = Some q \<Longrightarrow> rp_timestamp q = event_timestamp (sp_rfc3339 p) (sr_summary r)"
    "sr_pointer r = None \<longleftrightarrow> \<not> valid_timestamp (event_timestamp (sp_rfc3339 p) (sr_summary r))"
  using assms record_pointer_ok[of "sr_evidence r" a b p "sr_summary r"]
  by (auto simp: rec_ok_def ClassificationPointer_valid_after_def record_pointer_def Let_def option.pred_set
      split: if_splits)

section \<open>Observing\<close>

lemma update_last_Nil [simp]: "update_last f [] = []"
  by (simp add: update_last_def)

lemma update_last_snoc [simp]: "update_last f (xs @ [x]) = xs @ [f x]"
  by (simp add: update_last_def)

text \<open>What one observed input does to the last response.\<close>

definition observe_pending ::
  "ResponseClassificationInput \<Rightarrow> ClassificationPointer \<Rightarrow> RecordPointer option \<Rightarrow> ResponseUsage option \<Rightarrow>
   PendingResponse \<Rightarrow> PendingResponse" where
  "observe_pending i p q u r = observe_counter_association i p q u (observe_classification i p r)"

lemma observe_input_responses:
  "sa_responses (observe_input i p q u a) = update_last (observe_pending i p q u) (sa_responses a)"
  by (cases "sa_responses a" rule: rev_cases)
    (simp_all add: observe_input_def observe_response_classification_def observe_pending_def)

lemma observe_input_frame [simp]:
  "sa_version (observe_input i p q u a) = sa_version a"
  "sa_stream (observe_input i p q u a) = sa_stream a"
  "sa_metadata (observe_input i p q u a) = sa_metadata a"
  "sa_metadata_qualified (observe_input i p q u a) = sa_metadata_qualified a"
  "sa_fork_history (observe_input i p q u a) = sa_fork_history a"
  "sa_strong_context (observe_input i p q u a) = sa_strong_context a"
  "sa_adopted_context (observe_input i p q u a) = sa_adopted_context a"
  "sa_previous_raw (observe_input i p q u a) = sa_previous_raw a"
  "sa_response_waiting_for_counter (observe_input i p q u a) = sa_response_waiting_for_counter a"
  "sa_account_binding (observe_input i p q u a) = sa_account_binding a"
  by (simp_all add: observe_input_def observe_response_classification_def)

lemma compaction_snapshot_within:
  assumes "classification_valid r a" "compaction_snapshot (observe_classification i p r) = Some c" "i = Counter"
  shows "cp_end c \<le> a"
  using assms
  by (cases "pr_classification r")
    (auto simp: compaction_snapshot_def observe_classification_def unassigned_at_def classification_valid_def
      ClassificationPointer_valid_after_def)

lemma root_context_valid_cong:
  "pr_pointer r = pr_pointer s \<Longrightarrow> root_context_valid e r c \<longleftrightarrow> root_context_valid e s c"
  by (simp add: root_context_valid_def)

lemma observe_pending_ok:
  assumes "response_ok sha256 m a r" and within: "a \<le> b" "ClassificationPointer_valid_after p a b" "input_within a b i"
    and q: "pred_option (\<lambda>q. RecordPointer_valid q b \<and> a \<le> rp_start q) q"
  shows "response_ok sha256 m b (observe_pending i p q u r)"
proof -
  let ?r = "observe_classification i p r"
  have r: "classification_valid r a" "counter_association_valid r a" "RecordPointer_valid (pr_pointer r) a"
    using assms(1) by (auto simp: response_ok_def)
  have c: "classification_valid ?r b" using r(1,3) within by (rule observe_classification_valid)
  have k: "counter_association_valid ?r a" using r(2) by (rule observe_classification_keeps_association)
  have "counter_association_valid (observe_pending i p q u r) b"
    unfolding observe_pending_def
    by (rule observe_association_valid[OF k c]) (use r within q compaction_snapshot_within[OF r(1)] in auto)
  moreover have "classification_valid (observe_pending i p q u r) b"
    using c unfolding observe_pending_def
    by (cases "pr_classification ?r") (auto simp: classification_valid_def)
  moreover have "response_ok sha256 m b r" using assms(1) within(1) by (rule response_ok_mono)
  ultimately show ?thesis
    by (auto simp: response_ok_def observe_pending_def root_context_valid_def option.pred_set)
qed

lemma observe_input_ok:
  assumes "responses_ok sha256 m a (sa_responses s)" "a \<le> b" "ClassificationPointer_valid_after p a b"
    "input_within a b i" "pred_option (\<lambda>q. RecordPointer_valid q b \<and> a \<le> rp_start q) q"
  shows "responses_ok sha256 m b (sa_responses (observe_input i p q u s))"
proof (cases "sa_responses s" rule: rev_cases)
  case (snoc rs r)
  then have "list_all (response_ok sha256 m b) rs" "response_ok sha256 m a r"
    using assms(1,2) by (auto simp: responses_ok_def list_all_iff intro: response_ok_mono)
  then show ?thesis
    using snoc assms(1) observe_pending_ok[OF _ assms(2-5)]
    by (simp add: observe_input_responses responses_ok_def)
qed (simp add: observe_input_responses responses_ok_def)

lemma observe_input_lane:
  assumes "lane_ok sha256 a s" "a \<le> b" "ClassificationPointer_valid_after p a b"
    "input_within a b i" "pred_option (\<lambda>q. RecordPointer_valid q b \<and> a \<le> rp_start q) q"
  shows "lane_ok sha256 b (observe_input i p q u s)"
proof -
  have "responses_ok sha256 (sa_metadata s) b (sa_responses (observe_input i p q u s))"
    using assms by (intro observe_input_ok) (auto simp: lane_ok_def)
  moreover have "sa_responses (observe_input i p q u s) = [] \<longleftrightarrow> sa_responses s = []"
    by (auto simp: observe_input_responses update_last_def)
  ultimately show ?thesis
    using lane_ok_mono[OF assms(1,2)] by (auto simp: lane_ok_def metadata_ok_def counter_ok_def)
qed

section \<open>The steps of the lane\<close>

lemma observe_response_classification_lane:
  assumes "lane_ok sha256 a s" "a \<le> b" "ClassificationPointer_valid_after p a b" "input_within a b i"
  shows "lane_ok sha256 b (observe_response_classification i p s)"
proof (cases "sa_responses s" rule: rev_cases)
  case Nil
  then show ?thesis using lane_ok_mono[OF assms(1,2)]
    by (simp add: observe_response_classification_def lane_ok_def metadata_ok_def counter_ok_def)
next
  case (snoc rs r)
  have ok: "lane_ok sha256 b s" using assms(1,2) by (rule lane_ok_mono)
  have "response_ok sha256 (sa_metadata s) a r" using assms(1) snoc by (simp add: lane_ok_def responses_ok_def)
  then have r: "response_ok sha256 (sa_metadata s) b r" "classification_valid r a" "counter_association_valid r a"
    "RecordPointer_valid (pr_pointer r) a"
    using response_ok_mono[OF _ assms(2)] by (blast, simp_all add: response_ok_def)
  have "classification_valid (observe_classification i p r) b"
    using r(2,4) assms(2-4) by (rule observe_classification_valid)
  moreover have "counter_association_valid (observe_classification i p r) b"
    using observe_classification_keeps_association[OF r(3)] assms(2) by (rule counter_association_valid_mono)
  ultimately have "response_ok sha256 (sa_metadata s) b (observe_classification i p r)"
    using r(1) by (auto simp: response_ok_def root_context_valid_def option.pred_set)
  with ok snoc show ?thesis
    by (auto simp: observe_response_classification_def lane_ok_def metadata_ok_def counter_ok_def responses_ok_def)
qed

lemma fork_ok_flag [simp]: "fork_ok m (f\<lparr>fh_reading_inherited := x\<rparr>) = fork_ok m f"
  by (cases m) (simp_all add: fork_ok_def)

lemma fork_flag_lane:
  "lane_ok sha256 a s \<Longrightarrow>
   lane_ok sha256 a (s\<lparr>sa_fork_history := map_option (\<lambda>f. f\<lparr>fh_reading_inherited := x\<rparr>) (sa_fork_history s)\<rparr>)"
  by (cases "sa_fork_history s") (simp_all add: lane_ok_def metadata_ok_def counter_ok_def)

lemma enter_inherited_lane:
  assumes "lane_ok sha256 a s" "a \<le> b" "ClassificationPointer_valid_after p a b"
  shows "lane_ok sha256 b (enter_inherited p s)"
proof -
  let ?s = "observe_response_classification HistoryInput p
    (s\<lparr>sa_fork_history := map_option (\<lambda>f. f\<lparr>fh_reading_inherited := True\<rparr>) (sa_fork_history s)\<rparr>)"
  have "lane_ok sha256 b ?s"
    by (rule observe_response_classification_lane[OF fork_flag_lane[OF assms(1)] assms(2,3)])
      (simp add: input_within_def)
  then show ?thesis
    by (auto simp: enter_inherited_def lane_ok_def metadata_ok_def counter_ok_def)
qed

lemma leave_inherited_lane: "lane_ok sha256 a s \<Longrightarrow> lane_ok sha256 a (leave_inherited s)"
  unfolding leave_inherited_def by (rule fork_flag_lane)

lemma scope_matches_adopt:
  assumes "scope_matches (Some old) ids" "metadata_compatible (Some old) new"
  shows "scope_matches (Some (if sm_session_id new = None then new\<lparr>sm_session_id := sm_session_id old\<rparr> else new)) ids"
  using assms by (auto simp: scope_matches_def metadata_compatible_def)

lemma response_ok_adopt:
  assumes "response_ok sha256 m a r" "\<And>ids. scope_matches m ids \<Longrightarrow> scope_matches m' ids"
  shows "response_ok sha256 m' a r"
  using assms by (auto simp: response_ok_def)

lemma lane_ok_new_metadata:
  assumes "lane_ok sha256 a s" "SessionMetadata_valid m" "pred_option (fork_ok (Some m)) fork"
    "pred_option (binding_ok (Some m) a) (sa_account_binding s)" "responses_ok sha256 (Some m) a (sa_responses s)"
  shows "lane_ok sha256 a (s\<lparr>sa_metadata := Some m, sa_metadata_qualified := q,
    sa_fork_history := map_option (\<lambda>f. f\<lparr>fh_reading_inherited := x\<rparr>) fork\<rparr>)"
  using assms by (cases fork) (simp_all add: lane_ok_def metadata_ok_def counter_ok_def)

lemma adopt_first_metadata_lane:
  assumes "lane_ok sha256 a s" "summary_ids_valid sm" "metadata_shape_valid sm" "next_metadata sm = Some new"
    "sa_metadata s = None"
  shows "lane_ok sha256 a (adopt_metadata sm new s)"
proof -
  have new: "SessionMetadata_valid new" "ps_metadata_id (sr_payload sm) = Some (sm_thread_id new)"
    using assms(2,4) by (auto simp: next_metadata_def summary_ids_valid_def SessionMetadata_valid_def)
  have eq: "(if sm_session_id new = None then new\<lparr>sm_session_id := None\<rparr> else new) = new"
    by (cases "sm_session_id new") simp_all
  have "sa_account_binding s = None"
    using assms(1,5) by (cases "sa_account_binding s") (auto simp: lane_ok_def metadata_ok_def binding_ok_def)
  moreover have "pred_option (fork_ok (Some new)) (map_option (\<lambda>parent.
      \<lparr>fh_parent_thread_id = parent, fh_reading_inherited = False\<rparr>) (ps_forked_from_id (sr_payload sm)))"
    using assms(2,3) new(2)
    by (auto simp: summary_ids_valid_def metadata_shape_valid_def fork_ok_def option.pred_set)
  moreover have "responses_ok sha256 (Some new) a (sa_responses s)"
    using assms(1,5) response_ok_adopt[of sha256 None a _ "Some new"]
    by (auto simp: lane_ok_def responses_ok_def list_all_iff scope_matches_def)
  ultimately show ?thesis
    using lane_ok_new_metadata[OF assms(1) new(1), of "map_option (\<lambda>parent.
      \<lparr>fh_parent_thread_id = parent, fh_reading_inherited = False\<rparr>) (ps_forked_from_id (sr_payload sm))" False True]
      assms(5) by (simp only: adopt_metadata_def Let_def eq Option.bind.simps if_True option.pred_inject simp_thms)
qed

lemma adopt_next_metadata_lane:
  assumes "lane_ok sha256 a s" "summary_ids_valid sm" "next_metadata sm = Some new"
    "metadata_compatible (Some old) new" "sa_metadata s = Some old"
  shows "lane_ok sha256 a (adopt_metadata sm new s)"
proof -
  let ?m = "if sm_session_id new = None then new\<lparr>sm_session_id := sm_session_id old\<rparr> else new"
  have lane: "metadata_ok a s" "responses_ok sha256 (Some old) a (sa_responses s)"
    using assms(1,5) by (auto simp: lane_ok_def)
  have "SessionMetadata_valid new" "SessionMetadata_valid old"
    using assms(2,3,5) lane(1)
    by (auto simp: next_metadata_def summary_ids_valid_def SessionMetadata_valid_def metadata_ok_def)
  then have "SessionMetadata_valid ?m" by (simp add: SessionMetadata_valid_def)
  moreover have compat: "sm_thread_id ?m = sm_thread_id old"
    "sm_session_id old = None \<or> sm_session_id ?m = sm_session_id old"
    using assms(4) by (auto simp: metadata_compatible_def)
  moreover have "pred_option (fork_ok (Some ?m)) (sa_fork_history s)"
    using lane(1) assms(5) compat(1) by (cases "sa_fork_history s") (auto simp: metadata_ok_def fork_ok_def)
  moreover have "pred_option (binding_ok (Some ?m) a) (sa_account_binding s)"
    using lane(1) assms(5) compat by (cases "sa_account_binding s") (auto simp: metadata_ok_def binding_ok_def option.pred_set)
  moreover have "responses_ok sha256 (Some ?m) a (sa_responses s)"
    using lane(2) scope_matches_adopt[OF _ assms(4)] response_ok_adopt[of sha256 "Some old" a _ "Some ?m"]
    unfolding responses_ok_def list_all_iff by blast
  ultimately have "lane_ok sha256 a (s\<lparr>sa_metadata := Some ?m, sa_metadata_qualified := True,
      sa_fork_history := map_option (\<lambda>f. f\<lparr>fh_reading_inherited := False\<rparr>) (sa_fork_history s)\<rparr>)"
    using lane_ok_new_metadata[OF assms(1)] by blast
  then show ?thesis using assms(5) by (simp only: adopt_metadata_def Let_def Option.bind.simps option.simps if_False)
qed

lemma adopt_metadata_lane:
  assumes "lane_ok sha256 a s" "summary_ids_valid sm" "metadata_shape_valid sm" "next_metadata sm = Some new"
    "metadata_compatible (sa_metadata s) new"
  shows "lane_ok sha256 a (adopt_metadata sm new s)"
  using assms adopt_first_metadata_lane adopt_next_metadata_lane by (cases "sa_metadata s") auto

lemma metadata_record_lane:
  assumes "lane_ok sha256 a s" "summary_ids_valid sm"
  shows "lane_ok sha256 a (snd (metadata_record sm s))"
proof -
  have "lane_ok sha256 a (s\<lparr>sa_metadata_qualified := False\<rparr>)"
    using assms(1) by (simp add: lane_ok_def metadata_ok_def counter_ok_def)
  then show ?thesis using adopt_metadata_lane[OF assms]
    by (auto simp: metadata_record_def split: option.split)
qed

lemma strong_context_of_pointer:
  "strong_context_of rfc3339 s q = Some c \<Longrightarrow> q = Some (sc_pointer (rc_context c))"
  by (auto simp: strong_context_of_def split: if_splits option.splits)

lemma classification_input_Strong:
  "classification_input rfc3339 adm s q = Strong c t \<Longrightarrow> strong_context_of rfc3339 s q = Some c"
  by (simp add: classification_input_def Let_def split: if_splits option.splits)

lemma classification_input_within:
  assumes "rec_ok p a b r"
  shows "input_within a b (classification_input rfc3339 adm (sr_summary r) (sr_pointer r))"
proof (cases "classification_input rfc3339 adm (sr_summary r) (sr_pointer r)")
  case (Strong c t)
  then have "sr_pointer r = Some (sc_pointer (rc_context c))"
    by (intro strong_context_of_pointer classification_input_Strong)
  then show ?thesis using Strong rec_okD(4)[OF assms] by (simp add: input_within_def)
qed (simp_all add: input_within_def)

lemma observe_record_lane:
  assumes "lane_ok sha256 a s" "rec_ok p a b r"
  shows "lane_ok sha256 b (observe_record rfc3339 (sr_summary r) (sr_evidence r) (sr_pointer r) s)"
  unfolding observe_record_def
  by (rule observe_input_lane[OF assms(1) rec_okD(1,2)[OF assms(2)] classification_input_within[OF assms(2)]
        rec_okD(4)[OF assms(2)]])

lemma observe_record_frame [simp]:
  "sa_version (observe_record f sm e q a) = sa_version a"
  "sa_stream (observe_record f sm e q a) = sa_stream a"
  "sa_metadata (observe_record f sm e q a) = sa_metadata a"
  "sa_metadata_qualified (observe_record f sm e q a) = sa_metadata_qualified a"
  "sa_strong_context (observe_record f sm e q a) = sa_strong_context a"
  "sa_adopted_context (observe_record f sm e q a) = sa_adopted_context a"
  "sa_previous_raw (observe_record f sm e q a) = sa_previous_raw a"
  by (simp_all add: observe_record_def)

text \<open>A response record decides the response before it, so at most the last one is ever open.\<close>

lemma token_usage_closes:
  "sr_outer_type s = Some (lit ''token_usage_record'') \<Longrightarrow> closes (classification_input rfc3339 adm s q)"
  by (simp add: classification_input_def Let_def lit_def)

lemma observe_record_closes:
  assumes "responses_ok sha256 m a (sa_responses adm)" "sr_outer_type s = Some (lit ''token_usage_record'')"
  shows "list_all (\<lambda>r. \<not> is_open (pr_classification r)) (sa_responses (observe_record rfc3339 s e q adm))"
proof (cases "sa_responses adm" rule: rev_cases)
  case (snoc rs r)
  then show ?thesis
    using assms observe_classification_closes[OF token_usage_closes[OF assms(2)]]
    by (simp add: observe_record_def observe_input_responses observe_pending_def responses_ok_def)
qed (simp add: observe_record_def observe_input_responses)

lemma response_record_valid: "response_record s = Some rec \<Longrightarrow> ResponseRecord_valid rec"
  by (auto simp: response_record_def Let_def split: if_splits option.splits)

lemma response_candidate_ok:
  assumes "pred_option (context_valid a) (sa_strong_context s)" "a \<le> b"
    and "pred_option (\<lambda>m. normalize_model_name m = Some m) (ma_model ctx)"
    and "ResponseRecord_valid rec" "RecordPointer_valid q b" "a \<le> rp_start q"
  shows "response_ok (sp_sha256 p) (sa_metadata s) b (response_candidate p ctx s rec q)"
proof -
  let ?r = "response_candidate p ctx s rec q"
  have "pred_option (root_context_valid b ?r) (pr_root_context ?r)"
  proof (cases "pr_root_context ?r")
    case (Some c)
    then have c: "sa_strong_context s = Some (rc_context c)" "ma_model ctx = Some (rc_model c)"
      "sc_turn_id (rc_context c) \<noteq> None" "sc_root_turn_id (rc_context c) \<noteq> None"
      by (auto simp: response_candidate_def split: option.splits if_splits)
    then have "context_valid a (rc_context c)" using assms(1) by simp
    then have "context_valid b (rc_context c)" "rp_end (sc_pointer (rc_context c)) \<le> rp_start q"
      using assms(2,6) context_valid_mono by (auto simp: context_valid_def RecordPointer_valid_def)
    then show ?thesis using Some c assms(3)
      by (auto simp: root_context_valid_def context_valid_def response_candidate_def)
  qed simp
  then show ?thesis using assms(4,5)
    by (simp add: response_ok_def response_candidate_def classification_valid_def counter_association_valid_def)
qed

lemma push_lane:
  assumes "lane_ok sha256 b s" "sa_stream s = ResponseRecordStream"
    "list_all (\<lambda>r. \<not> is_open (pr_classification r)) (sa_responses s)" "response_ok sha256 (sa_metadata s) b r"
  shows "lane_ok sha256 b ((push_response r s)\<lparr>sa_response_waiting_for_counter := True\<rparr>)"
  using assms by (simp add: push_response_def lane_ok_def metadata_ok_def counter_ok_def responses_ok_def)

lemma mark_stream_lane: "lane_ok sha256 a s \<Longrightarrow> lane_ok sha256 a (s\<lparr>sa_stream := ResponseRecordStream\<rparr>)"
  by (simp add: lane_ok_def metadata_ok_def counter_ok_def)

lemma adopt_context_lane:
  assumes "lane_ok sha256 b s" "rec_ok p a b r"
  shows "lane_ok sha256 b (adopt_context r k i k' s)"
proof -
  have "ClassificationPointer_valid_after (sr_evidence r) 0 b"
    using rec_okD(2)[OF assms(2)] by (rule ClassificationPointer_valid_after_mono) simp_all
  then show ?thesis using assms(1)
    by (simp add: adopt_context_def Let_def lane_ok_def metadata_ok_def counter_ok_def)
qed

lemma strengthen_context_lane:
  assumes "lane_ok sha256 b s" "rec_ok p a b r"
  shows "lane_ok sha256 b (strengthen_context r i s)"
  using assms(1) rec_okD(3,4)[OF assms(2)]
  by (cases "sr_pointer r")
    (simp_all add: strengthen_context_def lane_ok_def metadata_ok_def counter_ok_def context_valid_def
      summary_ids_valid_def)

lemma previous_raw_lane:
  assumes "lane_ok sha256 b s" "rec_ok p a b r"
  shows "lane_ok sha256 b (s\<lparr>sa_previous_raw := sr_pointer r\<rparr>)"
  using assms(1) rec_okD(4)[OF assms(2)]
  by (simp add: lane_ok_def metadata_ok_def counter_ok_def option.pred_set)

lemma drop_contexts_lane:
  assumes "lane_ok sha256 b s"
  shows "lane_ok sha256 b (s\<lparr>sa_strong_context := None, sa_adopted_context := None\<rparr>)"
    "lane_ok sha256 b (s\<lparr>sa_adopted_context := None\<rparr>)"
    "lane_ok sha256 b (s\<lparr>sa_response_waiting_for_counter := False\<rparr>)"
  using assms by (auto simp: lane_ok_def metadata_ok_def counter_ok_def)

end
