(* ===== verification/Scan_Invariant.thy ===== *)
theory Scan_Invariant
  imports Scan_Admission
begin

text \<open>
  The invariant of the record loop of \<open>scan_source_with_reader\<close>, one lemma for each stretch of
  the loop body: the admission lane is valid for the bytes read, the model attribution holds
  normalised names, and the emitted counter events are proved by records of the prefix in the
  order they were read. The loop can only fail on the arithmetic of the totals.
\<close>

section \<open>The invariant\<close>

definition qualifying :: "SessionModelContextKind \<Rightarrow> bool" where
  "qualifying k \<longleftrightarrow> k = InitialSettings \<or> k = Turn"

definition attribution_ok :: "ModelAttributionState \<Rightarrow> bool" where
  "attribution_ok c \<longleftrightarrow>
     pred_option (\<lambda>m. normalize_model_name m = Some m) (ma_model c) \<and>
     (ma_kind c = CtxNone \<longrightarrow> ma_model c = None) \<and> (qualifying (ma_kind c) \<longrightarrow> ma_model c \<noteq> None) \<and>
     (case ma_interval c of
        IntervalModel m \<Rightarrow> ma_model c = Some m \<and> qualifying (ma_kind c)
      | _ \<Rightarrow> True)"

definition previous_ok :: "scan_state \<Rightarrow> bool" where
  "previous_ok st \<longleftrightarrow> (sn_baseline_known st \<longrightarrow> TokenSnapshot_valid_raw (sn_previous st))"

definition adopted :: "scan_state \<Rightarrow> ClassificationPointer option" where
  "adopted st = Option.bind (sn_admission st) sa_adopted_context"

definition raw_pointer :: "scan_state \<Rightarrow> RecordPointer option" where
  "raw_pointer st = Option.bind (sn_admission st) sa_previous_raw"

definition anchored :: "scan_params \<Rightarrow> scan_state \<Rightarrow> bool" where
  "anchored p st \<longleftrightarrow> sp_recovery_anchor p = None \<or> sn_recovery_anchor_found st"

text \<open>A stream of counters keeps the record of its model context and of its comparison value.\<close>

definition held_ok :: "scan_params \<Rightarrow> scan_state \<Rightarrow> bool" where
  "held_ok p st \<longleftrightarrow> counter_is_secondary st \<or>
     (qualifying (ma_kind (sn_model_context st)) \<longrightarrow> adopted st \<noteq> None) \<and>
     (anchored p st \<and> sn_baseline_known st \<longrightarrow> raw_pointer st \<noteq> None)"

definition proof_ok :: "u64 \<Rightarrow> TimedModelUsage \<Rightarrow> LegacyCounterProof \<Rightarrow> bool" where
  "proof_ok e event legacy \<longleftrightarrow>
     (let before = lc_before legacy; after = lc_after legacy in
      RecordPointer_valid (cw_pointer before) e \<and> RecordPointer_valid (cw_pointer after) e \<and>
      rp_end (cw_pointer before) \<le> rp_start (cw_pointer after) \<and>
      rp_timestamp (cw_pointer after) = tm_timestamp event \<and>
      checked_delta (CounterWitness_facts after) (CounterWitness_facts before) =
        Inr (TokenSnapshot_facts (tm_delta event)) \<and>
      \<not> model_context_invalid legacy \<and> normalize_model_name (tm_model event) = Some (tm_model event) \<and>
      (tm_model event = UNATTRIBUTED_MODEL \<or> model_context_proves (tm_model event) legacy))"

definition proof_end :: "LegacyCounterProof \<Rightarrow> u64" where
  "proof_end legacy = rp_end (cw_pointer (lc_after legacy))"

definition chained :: "LegacyCounterProof list \<Rightarrow> bool" where
  "chained proofs = sorted_wrt (\<lambda>p q. proof_end p \<le> rp_end (cw_pointer (lc_before q))) proofs"

definition events_ok :: "u64 \<Rightarrow> scan_state \<Rightarrow> bool" where
  "events_ok e st \<longleftrightarrow> list_all2 (proof_ok e) (sn_all_events st) (sn_event_proofs st) \<and>
     chained (sn_event_proofs st) \<and>
     pred_option (\<lambda>raw. list_all (\<lambda>q. proof_end q \<le> rp_end raw) (sn_event_proofs st)) (raw_pointer st)"

definition scan_ok :: "scan_params \<Rightarrow> u64 \<Rightarrow> scan_state \<Rightarrow> bool" where
  "scan_ok p e st \<longleftrightarrow> pred_option (lane_ok (sp_sha256 p) e) (sn_admission st) \<and>
     attribution_ok (sn_model_context st) \<and> previous_ok st \<and> held_ok p st \<and> events_ok e st"

text \<open>
  Inside the body for the record at \<open>a .. b\<close>: the record is part of the lane, and when it is a
  counter, what it will be compared with still lies before it.
\<close>

definition mid_ok :: "scan_params \<Rightarrow> u64 \<Rightarrow> u64 \<Rightarrow> scan_rec \<Rightarrow> scan_state \<Rightarrow> bool" where
  "mid_ok p a b r st \<longleftrightarrow> pred_option (lane_ok (sp_sha256 p) b) (sn_admission st) \<and>
     (event_type (sr_summary r) = Some (lit ''token_count'') \<longrightarrow> pred_option (counter_ok a) (sn_admission st)) \<and>
     attribution_ok (sn_model_context st) \<and> previous_ok st \<and> held_ok p st \<and> events_ok a st"

text \<open>The part of the state the invariant reads.\<close>

definition core where
  "core st = (sn_admission st, sn_model_context st, sn_baseline_known st, sn_recovery_anchor_found st,
     sn_previous st, sn_all_events st, sn_event_proofs st)"

lemma held_ok_core: "core st = core st' \<Longrightarrow> held_ok p st = held_ok p st'"
  by (simp add: core_def held_ok_def counter_is_secondary_def adopted_def raw_pointer_def anchored_def)

lemma events_ok_core: "core st = core st' \<Longrightarrow> events_ok e st = events_ok e st'"
  by (simp add: core_def events_ok_def raw_pointer_def)

lemma scan_ok_core: "scan_ok p e st \<Longrightarrow> core st = core st' \<Longrightarrow> scan_ok p e st'"
  using held_ok_core[of st st' p] events_ok_core[of st st' e] by (simp add: core_def scan_ok_def previous_ok_def)

lemma mid_ok_core: "mid_ok p a b r st \<Longrightarrow> core st = core st' \<Longrightarrow> mid_ok p a b r st'"
  using held_ok_core[of st st' p] events_ok_core[of st st' a] by (simp add: core_def mid_ok_def previous_ok_def)

lemma core_reject [simp]: "core (reject r reason st) = core st"
  by (simp add: core_def reject_def)

lemma reject_ok [simp]:
  "scan_ok p e (reject r reason st) = scan_ok p e st" "mid_ok p a b q (reject r reason st) = mid_ok p a b q st"
  by (auto elim: scan_ok_core mid_ok_core)

lemma proof_ok_mono: "proof_ok a e l \<Longrightarrow> a \<le> b \<Longrightarrow> proof_ok b e l"
  by (auto simp: proof_ok_def Let_def intro: RecordPointer_valid_mono)

lemma proof_ok_end: "proof_ok a e l \<Longrightarrow> proof_end l \<le> a"
  by (auto simp: proof_ok_def Let_def proof_end_def RecordPointer_valid_def)

lemma events_ok_mono: "events_ok a st \<Longrightarrow> a \<le> b \<Longrightarrow> events_ok b st"
  by (auto simp: events_ok_def intro: list_all2_mono proof_ok_mono)

lemma mid_ok_scan_ok: "mid_ok p a b r st \<Longrightarrow> a \<le> b \<Longrightarrow> scan_ok p b st"
  using events_ok_mono[of a st b] by (simp add: mid_ok_def scan_ok_def)

lemma proofs_before:
  "list_all2 (proof_ok a) es ls \<Longrightarrow> a \<le> n \<Longrightarrow> list_all (\<lambda>q. proof_end q \<le> n) ls"
  by (induction rule: list_all2_induct) (auto dest: proof_ok_end)

section \<open>Outcomes\<close>

definition arithmetic_error :: RecorderError where
  "arithmetic_error = RecorderInvalid (lit ''session token total arithmetic is invalid'')"

definition flow_ok :: "(scan_state \<Rightarrow> bool) \<Rightarrow> (scan_state \<Rightarrow> bool) \<Rightarrow> flow \<Rightarrow> bool" where
  "flow_ok P Q fl = (case fl of Go st \<Rightarrow> P st | NextRecord st \<Rightarrow> Q st)"

definition ends_ok :: "(scan_state \<Rightarrow> bool) \<Rightarrow> RecorderError + flow \<Rightarrow> bool" where
  "ends_ok Q x = (case x of Inl e \<Rightarrow> e = arithmetic_error | Inr fl \<Rightarrow> Q (flow_state fl))"

lemma flow_ok_simps [simp]: "flow_ok P Q (Go st) = P st" "flow_ok P Q (NextRecord st) = Q st"
  by (simp_all add: flow_ok_def)

lemma ends_ok_simps [simp]:
  "ends_ok Q (Inr (Go st)) = Q st" "ends_ok Q (Inr (NextRecord st)) = Q st"
  "ends_ok Q (Inl e) = (e = arithmetic_error)"
  by (simp_all add: ends_ok_def flow_state_def)

lemma ends_ok_bind:
  assumes "flow_ok P Q fl" "\<And>st. P st \<Longrightarrow> ends_ok Q (f st)"
  shows "ends_ok Q (flow_bind fl f)"
  using assms by (cases fl) (simp_all add: flow_bind_def)

section \<open>Before the response lane\<close>

lemma metadata_record_frame:
  "sa_adopted_context (snd (metadata_record s a)) = sa_adopted_context a"
  "sa_previous_raw (snd (metadata_record s a)) = sa_previous_raw a"
  "sa_stream (snd (metadata_record s a)) = sa_stream a"
  "sa_responses (snd (metadata_record s a)) = sa_responses a"
  by (simp_all add: metadata_record_def adopt_metadata_def Let_def split: option.split)

lemma attribution_ok_new: "attribution_ok ModelAttributionState_new" "\<not> qualifying (ma_kind ModelAttributionState_new)"
  by (simp_all add: attribution_ok_def qualifying_def ModelAttributionState_new_def)

lemma step_metadata_ok:
  assumes "scan_ok p a st" "rec_ok p a b r"
  shows "flow_ok (scan_ok p a) (scan_ok p b) (step_metadata r st)"
proof (cases "sn_admission st")
  case (Some s)
  note r = rec_okD[OF assms(2)]
  have lane: "lane_ok (sp_sha256 p) a s" using assms(1) Some by (simp add: scan_ok_def)
  have inherited: "scan_ok p b (st\<lparr>sn_admission := Some (enter_inherited (sr_evidence r) s), sn_baseline_known := False,
      sn_fully_attributed := False, sn_previous := TokenSnapshot_default,
      sn_model_context := ModelAttributionState_new\<rparr>)"
    using enter_inherited_lane[OF lane r(1,2)] events_ok_mono[of a st b] assms(1) r(1)
    by (simp add: scan_ok_def attribution_ok_new previous_ok_def held_ok_def events_ok_def raw_pointer_def
        enter_inherited_def)
  have "scan_ok p a (st\<lparr>sn_admission := Some (snd (metadata_record (sr_summary r) s))\<rparr>)"
    using assms(1) Some metadata_record_lane[OF lane r(3)]
    by (simp add: scan_ok_def previous_ok_def held_ok_def events_ok_def raw_pointer_def adopted_def
        counter_is_secondary_def anchored_def metadata_record_frame)
  then show ?thesis using Some inherited assms(1)
    by (auto simp: step_metadata_def Let_def split: prod.split elim: scan_ok_core)
qed (use assms(1) in \<open>simp add: step_metadata_def\<close>)

lemma map_admission_simps [simp]:
  "sn_admission (map_admission f st) = map_option f (sn_admission st)"
  "sn_model_context (map_admission f st) = sn_model_context st"
  "sn_baseline_known (map_admission f st) = sn_baseline_known st"
  "sn_recovery_anchor_found (map_admission f st) = sn_recovery_anchor_found st"
  "sn_all_events (map_admission f st) = sn_all_events st"
  "sn_event_proofs (map_admission f st) = sn_event_proofs st"
  "sn_history_base_pending (map_admission f st) = sn_history_base_pending st"
  "sn_previous (map_admission f st) = sn_previous st"
  by (simp_all add: map_admission_def)

text \<open>A change of the admission that keeps the lane and the counter's records.\<close>

lemma map_admission_held:
  assumes "\<And>s. sa_adopted_context (f s) = sa_adopted_context s" "\<And>s. sa_previous_raw (f s) = sa_previous_raw s"
    "\<And>s. sa_stream (f s) = sa_stream s" "\<And>s. sa_responses (f s) = sa_responses s"
  shows "held_ok p (map_admission f st) = held_ok p st" "events_ok a (map_admission f st) = events_ok a st"
    "pred_option (counter_ok a) (map_option f (sn_admission st)) = pred_option (counter_ok a) (sn_admission st)"
  using assms
  by (cases "sn_admission st"; simp add: held_ok_def events_ok_def raw_pointer_def adopted_def
      counter_is_secondary_def anchored_def counter_ok_def)+

lemma step_fork_ok:
  assumes "scan_ok p a st" "a \<le> b"
  shows "flow_ok (scan_ok p a) (scan_ok p b) (step_fork p r st)"
proof -
  have "pred_option (lane_ok (sp_sha256 p) b) (sn_admission st)"
    using assms lane_ok_mono[of _ a _ b] by (auto simp: scan_ok_def option.pred_set)
  then have b: "scan_ok p b st" using assms events_ok_mono by (auto simp: scan_ok_def)
  have f: "sa_adopted_context (leave_inherited s) = sa_adopted_context s"
    "sa_previous_raw (leave_inherited s) = sa_previous_raw s"
    "sa_stream (leave_inherited s) = sa_stream s" "sa_responses (leave_inherited s) = sa_responses s" for s
    by (simp_all add: leave_inherited_def)
  have "pred_option (lane_ok (sp_sha256 p) a) (map_option leave_inherited (sn_admission st))"
    using assms leave_inherited_lane by (auto simp: scan_ok_def option.pred_set)
  then have "scan_ok p a (map_admission leave_inherited st)"
    using assms(1) map_admission_held[of leave_inherited, OF f] by (simp add: scan_ok_def previous_ok_def)
  then show ?thesis using assms(1) b by (auto simp: step_fork_def split: option.split)
qed

section \<open>The response lane\<close>

definition marked :: "scan_rec \<Rightarrow> scan_state \<Rightarrow> SourceAdmission option" where
  "marked r st = (if response_stream_marker (sr_summary r)
     then Some ((case sn_admission st of None \<Rightarrow> from_response_boundary | Some a \<Rightarrow> a)\<lparr>sa_stream := ResponseRecordStream\<rparr>)
     else sn_admission st)"

lemma marked_lane:
  "pred_option (lane_ok sha256 a) (sn_admission st) \<Longrightarrow> marked r st = Some s \<Longrightarrow> lane_ok sha256 a s"
  by (cases "sn_admission st") (auto simp: marked_def mark_stream_lane lane_ok_boundary split: if_splits)

lemma marked_primary:
  assumes "marked r st = Some s" "sa_stream s \<noteq> ResponseRecordStream"
  shows "sn_admission st = Some s"
  using assms by (auto simp: marked_def split: if_splits)

lemma marked_raw:
  assumes "marked r st = Some s"
  shows "sa_previous_raw s = raw_pointer st" "sa_adopted_context s = adopted st"
  using assms
  by (auto simp: marked_def raw_pointer_def adopted_def from_response_boundary_def from_prefix_start_def
      split: if_splits option.splits)

text \<open>Any admission with the old counter records and a stream of response records once one was marked.\<close>

lemma mid_ok_admission:
  assumes "scan_ok p a st" "marked r st = Some s" "lane_ok (sp_sha256 p) b s'"
    and "sa_previous_raw s' = sa_previous_raw s" "sa_adopted_context s' = sa_adopted_context s"
    and "sa_stream s' = sa_stream s" "sa_stream s' = ResponseRecordStream \<or> sa_responses s' = sa_responses s"
  shows "mid_ok p a b r (st\<lparr>sn_admission := Some s'\<rparr>)"
proof -
  have raw: "raw_pointer (st\<lparr>sn_admission := Some s'\<rparr>) = raw_pointer st"
    "adopted (st\<lparr>sn_admission := Some s'\<rparr>) = adopted st"
    using assms(4,5) marked_raw[OF assms(2)] by (simp_all add: raw_pointer_def adopted_def)
  have "lane_ok (sp_sha256 p) a s" using assms(1,2) by (intro marked_lane) (simp_all add: scan_ok_def)
  then have "counter_ok a s'" using assms(4,5) by (simp add: lane_ok_def counter_ok_def)
  moreover have "counter_is_secondary st \<Longrightarrow> counter_is_secondary (st\<lparr>sn_admission := Some s'\<rparr>)"
    using assms(6,7) marked_primary[OF assms(2)] by (auto simp: counter_is_secondary_def)
  then have "held_ok p (st\<lparr>sn_admission := Some s'\<rparr>)"
    using assms(1) raw by (auto simp: scan_ok_def held_ok_def anchored_def)
  ultimately show ?thesis using assms(1,3) raw by (simp add: mid_ok_def scan_ok_def previous_ok_def events_ok_def)
qed

lemma step_push_ok:
  assumes "scan_ok p a st" "rec_ok p a b r" "marked r st = Some s"
    and tr: "sr_outer_type (sr_summary r) = Some (lit ''token_usage_record'')"
  shows "mid_ok p a b r (step_push p r (observe_record f (sr_summary r) (sr_evidence r) (sr_pointer r) s) st)"
    (is "mid_ok p a b r (step_push p r ?s st)")
proof -
  have lane: "lane_ok (sp_sha256 p) a s" using assms(1,3) by (intro marked_lane) (simp_all add: scan_ok_def)
  then have lane': "lane_ok (sp_sha256 p) b ?s" using assms(2) by (rule observe_record_lane)
  have stream: "sa_stream s = ResponseRecordStream"
    using assms(3) tr by (auto simp: marked_def response_stream_marker_def)
  have closed: "list_all (\<lambda>r. \<not> is_open (pr_classification r)) (sa_responses ?s)"
    using lane tr by (intro observe_record_closes) (auto simp: lane_ok_def)
  have kept: "mid_ok p a b r (st\<lparr>sn_admission := Some ?s\<rparr>)"
    by (rule mid_ok_admission[OF assms(1,3) lane']) (simp_all add: stream)
  have pushed: "mid_ok p a b r (st\<lparr>sn_admission := Some ((push_response
      (response_candidate p (sn_model_context st) ?s rec q) ?s)\<lparr>sa_response_waiting_for_counter := True\<rparr>)\<rparr>)"
    if q: "sr_pointer r = Some q" and rec: "ResponseRecord_valid rec" for q rec
  proof -
    have "response_ok (sp_sha256 p) (sa_metadata ?s) b (response_candidate p (sn_model_context st) ?s rec q)"
      using lane rec_okD(1,4)[OF assms(2)] q rec assms(1)
      by (intro response_candidate_ok[of a]) (simp_all add: lane_ok_def scan_ok_def attribution_ok_def)
    then have "lane_ok (sp_sha256 p) b ((push_response
        (response_candidate p (sn_model_context st) ?s rec q) ?s)\<lparr>sa_response_waiting_for_counter := True\<rparr>)"
      using stream by (intro push_lane[OF lane' _ closed]) simp_all
    then show ?thesis by (rule mid_ok_admission[OF assms(1,3)]) (simp_all add: push_response_def stream)
  qed
  show ?thesis
    using kept pushed response_record_valid
    by (cases "sr_pointer r") (simp_all add: step_push_def Let_def split: option.split)
qed

lemma observe_record_stays_empty: "sa_responses s = [] \<Longrightarrow> sa_responses (observe_record f sm e q s) = []"
  by (simp add: observe_record_def observe_input_responses)

lemma step_responses_ok:
  assumes "scan_ok p a st" "rec_ok p a b r"
  shows "mid_ok p a b r (step_responses p r st)"
proof (cases "marked r st")
  case None
  then have "sn_admission st = None" by (auto simp: marked_def split: if_splits)
  then show ?thesis using assms(1) None
    by (auto simp: step_responses_def Let_def marked_def mid_ok_def scan_ok_def split: if_splits)
next
  case (Some s)
  let ?s = "observe_record (sp_rfc3339 p) (sr_summary r) (sr_evidence r) (sr_pointer r) s"
  have lane: "lane_ok (sp_sha256 p) a s" using assms(1) Some by (intro marked_lane) (simp_all add: scan_ok_def)
  then have "sa_stream s = ResponseRecordStream \<or> sa_responses s = []" by (auto simp: lane_ok_def)
  then have "mid_ok p a b r (st\<lparr>sn_admission := Some ?s\<rparr>)"
    using assms(1) Some observe_record_lane[OF lane assms(2)] observe_record_stays_empty
    by (intro mid_ok_admission) auto
  moreover have "step_responses p r st =
      (if sr_outer_type (sr_summary r) = Some (lit ''token_usage_record'') then step_push p r ?s st
       else if snapshot_rejected r then reject r (lit ''response-snapshot-invalid'') (st\<lparr>sn_admission := Some ?s\<rparr>)
       else st\<lparr>sn_admission := Some ?s\<rparr>)"
    using Some by (simp add: step_responses_def marked_def Let_def split: if_splits)
  ultimately show ?thesis using step_push_ok[OF assms Some] by (auto elim: mid_ok_core)
qed

section \<open>Contexts\<close>

lemma step_waiting_ok:
  assumes "mid_ok p a b r st"
  shows "mid_ok p a b r (snd (step_waiting p r st))"
proof -
  let ?f = "\<lambda>s. s\<lparr>sa_response_waiting_for_counter := False\<rparr>"
  have "pred_option (lane_ok (sp_sha256 p) b) (map_option ?f (sn_admission st))"
    using assms drop_contexts_lane(3) by (auto simp: mid_ok_def option.pred_set)
  then have "mid_ok p a b r (map_admission ?f st)"
    using assms map_admission_held[of ?f] by (simp add: mid_ok_def previous_ok_def)
  then show ?thesis using assms by (simp add: step_waiting_def split: option.split)
qed

lemma attribution_ok_invalidate: "attribution_ok c \<Longrightarrow> attribution_ok (invalidate c)"
  by (simp add: attribution_ok_def invalidate_def qualifying_def)

lemma attribution_ok_start: "attribution_ok c \<Longrightarrow> attribution_ok (start_interval c)"
  by (simp add: attribution_ok_def start_interval_def)

text \<open>Forgetting the adopted context with the model.\<close>

lemma invalidated_held:
  assumes "\<And>s. sa_previous_raw (f s) = sa_previous_raw s" "\<And>s. sa_stream (f s) = sa_stream s"
    "\<And>s. sa_responses (f s) = sa_responses s" "held_ok p st"
  shows "held_ok p (map_admission f (st\<lparr>sn_model_context := invalidate (sn_model_context st)\<rparr>))"
  using assms
  by (cases "sn_admission st") (auto simp: held_ok_def raw_pointer_def adopted_def counter_is_secondary_def anchored_def
      invalidate_def qualifying_def)

lemma step_noop_ok:
  assumes "mid_ok p a b r st"
  shows "flow_ok (mid_ok p a b r) (mid_ok p a b r) (step_noop p r st)"
proof -
  let ?f = "\<lambda>s. s\<lparr>sa_strong_context := None, sa_adopted_context := None\<rparr>"
  let ?st = "map_admission ?f (st\<lparr>sn_model_context := invalidate (sn_model_context st)\<rparr>)"
  have "pred_option (lane_ok (sp_sha256 p) b) (map_option ?f (sn_admission st))"
    using assms drop_contexts_lane(1) by (auto simp: mid_ok_def option.pred_set)
  moreover have "held_ok p ?st" using assms by (intro invalidated_held) (simp_all add: mid_ok_def)
  moreover have "pred_option (counter_ok a) (sn_admission st) \<Longrightarrow> pred_option (counter_ok a) (map_option ?f (sn_admission st))"
    by (cases "sn_admission st") (simp_all add: counter_ok_def)
  moreover have "events_ok a ?st = events_ok a st"
    by (cases "sn_admission st") (simp_all add: events_ok_def raw_pointer_def)
  ultimately have "mid_ok p a b r ?st"
    using assms attribution_ok_invalidate by (simp add: mid_ok_def previous_ok_def)
  then show ?thesis using assms by (auto simp: step_noop_def Let_def elim: mid_ok_core)
qed

lemma checkpoint_model_normal: "checkpoint_model m = Some n \<Longrightarrow> normalize_model_name n = Some n"
  by (auto simp: checkpoint_model_def intro: normalize_model_name_idem split: option.splits if_splits)

lemma attribution_ok_widen:
  assumes "attribution_ok c" "normalize_model_name m = Some m" "qualifying k"
  shows "attribution_ok \<lparr>ma_model = Some m, ma_kind = k, ma_interval = widen_interval m (ma_interval c)\<rparr>"
  using assms by (cases "ma_interval c") (auto simp: attribution_ok_def qualifying_def)

lemma observe_context_cases:
  assumes "observe_context f s c = (bad, c')"
  obtains (keep) "c' = c" "bad \<or> \<not> is_one_of (event_type s) turn_names"
      "bad \<or> event_type s \<noteq> Some (lit ''thread_settings_applied'') \<or> ma_kind c \<noteq> CtxNone"
    | (invalid) "c' = invalidate c" "bad"
    | (adopt) m k where "c' = \<lparr>ma_model = Some m, ma_kind = k, ma_interval = widen_interval m (ma_interval c)\<rparr>"
      "normalize_model_name m = Some m" "qualifying k" "\<not> bad"
      "is_one_of (event_type s) turn_names \<or>
       event_type s = Some (lit ''thread_settings_applied'') \<and> ma_kind c = CtxNone"
proof (cases "Option.bind (qualified_context_model f s) checkpoint_model")
  case None
  then show ?thesis using assms keep invalid
    by (auto simp: observe_context_def Let_def split: if_splits)
next
  case (Some m)
  then have "normalize_model_name m = Some m"
    by (auto intro: checkpoint_model_normal simp: Option.bind_eq_Some_conv)
  then show ?thesis using assms Some keep adopt
    by (auto simp: observe_context_def Let_def qualifying_def is_one_of_def turn_names_def lit_def
        split: if_splits)
qed

lemma observe_context_attribution:
  "observe_context f s c = (bad, c') \<Longrightarrow> attribution_ok c \<Longrightarrow> attribution_ok c'"
  by (erule observe_context_cases) (simp_all add: attribution_ok_invalidate attribution_ok_widen)

lemma observe_context_adopted:
  assumes "observe_context f (sr_summary r) c = (bad, c')" "qualifying (ma_kind c')"
    "qualifying (ma_kind c) \<Longrightarrow> sa_adopted_context s \<noteq> None"
  shows "sa_adopted_context (adopt_context r (ma_kind c) bad (ma_kind c') s) \<noteq> None"
  using assms(1)
proof (cases rule: observe_context_cases)
  case keep
  then show ?thesis using assms(2,3)
    by (auto simp: adopt_context_def Let_def qualifying_def)
next
  case invalid
  then show ?thesis using assms(2) by (simp add: invalidate_def qualifying_def)
next
  case (adopt m k)
  then show ?thesis by (auto simp: adopt_context_def Let_def qualifying_def)
qed

lemma context_admission_frame [simp]:
  "sa_previous_raw (adopt_context r k i k' s) = sa_previous_raw s"
  "sa_stream (adopt_context r k i k' s) = sa_stream s"
  "sa_responses (adopt_context r k i k' s) = sa_responses s"
  "sa_previous_raw (strengthen_context r i s) = sa_previous_raw s"
  "sa_stream (strengthen_context r i s) = sa_stream s"
  "sa_responses (strengthen_context r i s) = sa_responses s"
  "sa_adopted_context (strengthen_context r i s) = sa_adopted_context s"
  by (simp_all add: adopt_context_def strengthen_context_def Let_def)

lemma adopt_context_counter:
  "event_type (sr_summary r) = Some (lit ''token_count'') \<Longrightarrow> counter_ok a s \<Longrightarrow>
   counter_ok a (adopt_context r k i k' s)"
  by (auto simp: adopt_context_def Let_def counter_ok_def is_one_of_def turn_names_def lit_def)

lemma step_context_ok:
  assumes "mid_ok p a b r st" "rec_ok p a b r"
  shows "flow_ok (mid_ok p a b r) (mid_ok p a b r) (step_context p r st)"
proof -
  let ?c = "sn_model_context st"
  obtain bad c' where o: "observe_context (sp_rfc3339 p) (sr_summary r) ?c = (bad, c')" by fastforce
  let ?f = "\<lambda>s. strengthen_context r bad (adopt_context r (ma_kind ?c) bad (ma_kind c') s)"
  let ?st = "map_admission (strengthen_context r bad) (map_admission (adopt_context r (ma_kind ?c) bad (ma_kind c'))
    (st\<lparr>sn_model_context := c'\<rparr>))"
  have adm: "sn_admission ?st = map_option ?f (sn_admission st)" by (cases "sn_admission st") simp_all
  have "pred_option (lane_ok (sp_sha256 p) b) (sn_admission ?st)"
    using assms strengthen_context_lane[OF adopt_context_lane[OF _ assms(2)] assms(2)]
    unfolding adm by (auto simp: mid_ok_def option.pred_set)
  moreover have "event_type (sr_summary r) = Some (lit ''token_count'') \<Longrightarrow> pred_option (counter_ok a) (sn_admission ?st)"
    using assms(1) adopt_context_counter[of r a] unfolding adm
    by (auto simp: mid_ok_def option.pred_set counter_ok_def)
  moreover have "held_ok p ?st"
    using assms(1) observe_context_adopted[OF o]
    by (cases "sn_admission st")
      (auto simp: mid_ok_def held_ok_def counter_is_secondary_def adopted_def raw_pointer_def anchored_def)
  moreover have "events_ok a ?st"
    using assms(1) by (cases "sn_admission st") (simp_all add: mid_ok_def events_ok_def raw_pointer_def)
  moreover have "attribution_ok (sn_model_context ?st)"
    using observe_context_attribution[OF o] assms(1) by (simp add: mid_ok_def)
  moreover have "previous_ok ?st" using assms(1) by (simp add: mid_ok_def previous_ok_def)
  ultimately have "mid_ok p a b r ?st" by (simp add: mid_ok_def)
  moreover from this have "mid_ok p a b r (?st\<lparr>sn_discard_until_lf := False\<rparr>)"
    by (rule mid_ok_core) (simp add: core_def)
  ultimately show ?thesis by (cases bad) (simp_all add: step_context_def Let_def o)
qed

lemma step_history_base_ok: "mid_ok p a b r st \<Longrightarrow> mid_ok p a b r (step_history_base p r st)"
  by (erule mid_ok_core) (simp add: core_def step_history_base_def Let_def)

lemma step_task_ok: "mid_ok p a b r st \<Longrightarrow> mid_ok p a b r (step_task p r st)"
  by (erule mid_ok_core) (simp add: core_def step_task_def reject_def split: option.split)

lemma step_context_pair_ok: "mid_ok p a b r st \<Longrightarrow> mid_ok p a b r (step_context_pair p r st)"
  by (erule mid_ok_core) (simp add: core_def step_context_pair_def reject_def Let_def split: option.split)

section \<open>Counters\<close>

text \<open>The record at hand has become the comparison value.\<close>

lemma raw_moved_ok:
  assumes "mid_ok p a b r st" "rec_ok p a b r" "sr_pointer r = Some q"
    and adm: "sn_admission st' = map_option (\<lambda>s. s\<lparr>sa_previous_raw := sr_pointer r\<rparr>) (sn_admission st)"
    and ctx: "sn_model_context st' = sn_model_context st \<or> sn_model_context st' = start_interval (sn_model_context st)"
    and ev: "sn_all_events st' = sn_all_events st" "sn_event_proofs st' = sn_event_proofs st"
    and prev: "TokenSnapshot_valid_raw (sn_previous st')"
  shows "scan_ok p b st'"
proof -
  have q: "RecordPointer_valid q b" "a \<le> rp_start q" using rec_okD(4)[OF assms(2)] assms(3) by simp_all
  then have "a \<le> rp_end q" by (auto simp: RecordPointer_valid_def)
  then have "pred_option (\<lambda>raw. list_all (\<lambda>q. proof_end q \<le> rp_end raw) (sn_event_proofs st')) (raw_pointer st')"
    using assms(1,3) adm ev proofs_before[of a "sn_all_events st" "sn_event_proofs st" "rp_end q"]
    by (cases "sn_admission st") (simp_all add: raw_pointer_def mid_ok_def events_ok_def)
  moreover have "events_ok b st" using assms(1) rec_okD(1)[OF assms(2)] events_ok_mono by (auto simp: mid_ok_def)
  ultimately have "events_ok b st'" using ev by (simp add: events_ok_def)
  moreover have "held_ok p st'"
    using assms(1,3) adm ctx
    by (cases "sn_admission st")
      (auto simp: mid_ok_def held_ok_def counter_is_secondary_def adopted_def raw_pointer_def start_interval_def)
  moreover have "attribution_ok (sn_model_context st')"
    using assms(1) ctx attribution_ok_start by (auto simp: mid_ok_def)
  moreover have "pred_option (lane_ok (sp_sha256 p) b) (sn_admission st')"
    using assms(1) previous_raw_lane[OF _ assms(2)] adm
    by (cases "sn_admission st") (simp_all add: mid_ok_def)
  ultimately show ?thesis using prev by (simp add: scan_ok_def previous_ok_def)
qed

lemma rebase_ok:
  "mid_ok p a b r st \<Longrightarrow> rec_ok p a b r \<Longrightarrow> sr_pointer r = Some q \<Longrightarrow> TokenSnapshot_valid_raw current \<Longrightarrow>
   scan_ok p b (rebase r current st)"
  by (erule (2) raw_moved_ok) (simp_all add: rebase_def begin_interval_def set_raw_def map_admission_def)

lemma step_anchor_ok:
  assumes "mid_ok p a b r st" "rec_ok p a b r" "sr_pointer r = Some q"
    and current: "TokenSnapshot_valid_raw current"
  shows "flow_ok (\<lambda>st. mid_ok p a b r st \<and> anchored p st) (scan_ok p b) (step_anchor p r current st)"
proof (cases "anchored p st")
  case True
  then show ?thesis using assms(1) by (cases "sp_recovery_anchor p") (auto simp: step_anchor_def anchored_def)
next
  case False
  let ?st = "st\<lparr>sn_baseline_known := True, sn_previous := current\<rparr>"
  have "held_ok p ?st"
    using assms(1) False
    by (auto simp: mid_ok_def held_ok_def counter_is_secondary_def adopted_def raw_pointer_def anchored_def)
  then have "mid_ok p a b r ?st" using assms(1) using current by (simp add: mid_ok_def events_ok_def previous_ok_def raw_pointer_def)
  then have "scan_ok p b ?st" using rec_okD(1)[OF assms(2)] by (rule mid_ok_scan_ok)
  moreover have "scan_ok p b (begin_interval (map_admission (\<lambda>a. a\<lparr>sa_previous_raw := sr_pointer r\<rparr>)
      (?st\<lparr>sn_recovery_anchor_found := True, sn_fully_attributed := x, sn_recovery_match := y\<rparr>)))" for x y
    by (rule raw_moved_ok[OF assms(1-3)]) (simp_all add: begin_interval_def current)
  ultimately show ?thesis using False by (auto simp: step_anchor_def anchored_def Let_def)
qed

lemma step_adjustment_ok:
  assumes "mid_ok p a b r st" "rec_ok p a b r" "sr_pointer r = Some q" "anchored p st"
    and current: "TokenSnapshot_valid_raw current"
  shows "flow_ok (\<lambda>st. mid_ok p a b r st \<and> anchored p st) (scan_ok p b) (step_adjustment r current st)"
proof -
  have "scan_ok p b ((rebase r current st)\<lparr>sn_history_base_pending := False\<rparr>)"
    by (rule scan_ok_core[OF rebase_ok[OF assms(1-3) current]]) (simp add: core_def)
  moreover have "scan_ok p b st" using assms(1) rec_okD(1)[OF assms(2)] by (rule mid_ok_scan_ok)
  ultimately show ?thesis using assms(1,4) by (simp add: step_adjustment_def Let_def)
qed

lemma history_base_ok:
  assumes "mid_ok p a b r st" "anchored p st"
  shows "mid_ok p a b r (st\<lparr>sn_history_base_pending := False, sn_baseline_known := False\<rparr>)"
    "anchored p (st\<lparr>sn_history_base_pending := False, sn_baseline_known := False\<rparr>)"
  using assms
  by (auto simp: mid_ok_def held_ok_def events_ok_def counter_is_secondary_def adopted_def raw_pointer_def anchored_def
      previous_ok_def)

lemma step_ownership_ok:
  assumes "mid_ok p a b r st" "rec_ok p a b r" "sr_pointer r = Some q" "anchored p st"
    and current: "TokenSnapshot_valid_raw current"
  shows "flow_ok (\<lambda>st. mid_ok p a b r st \<and> anchored p st) (scan_ok p b) (step_ownership p r current st)"
  using assms(1,4) rebase_ok[OF assms(1-3) current] by (simp add: step_ownership_def Let_def split: option.split)

lemma step_baseline_ok:
  assumes "mid_ok p a b r st" "rec_ok p a b r" "sr_pointer r = Some q" "anchored p st"
    and current: "TokenSnapshot_valid_raw current"
  shows "flow_ok (\<lambda>st. mid_ok p a b r st \<and> anchored p st \<and> sn_baseline_known st) (scan_ok p b)
    (step_baseline r current st)"
  using assms(1,4) rebase_ok[OF assms(1-3) current] by (simp add: step_baseline_def Let_def)

lemma witness_facts [simp]: "CounterWitness_facts (witness_of q f) = f" "cw_pointer (witness_of q f) = q"
  by (simp_all add: CounterWitness_facts_def witness_of_def)

lemma snapshot_facts [simp]: "TokenSnapshot_facts (TokenSnapshot_from_facts f) = f"
  by (simp add: TokenSnapshot_facts_def TokenSnapshot_from_facts_def)

lemma interval_model_cases:
  assumes "interval_model c = Some m" "attribution_ok c"
  shows "normalize_model_name m = Some m" "qualifying (ma_kind c)"
    "ma_interval c = IntervalNone \<or> ma_interval c = IntervalModel m"
  using assms
  by (auto simp: interval_model_def attribution_ok_def qualifying_def split: SessionModelInterval.splits if_splits)

text \<open>The context a counter's event is attributed to stands before the counter and names the model.\<close>

lemma model_proof_ok:
  fixes before :: CounterWitness
  assumes "attribution_ok (sn_model_context st)" "qualifying (ma_kind (sn_model_context st))"
    and "adopted st = Some c" "ClassificationPointer_valid_after c 0 a" "a \<le> rp_start (cw_pointer after)"
    and "interval_model (sn_model_context st) = Some m"
  defines "l \<equiv> \<lparr>lc_before = before, lc_after = after, lc_model_context = legacy_model_proof st\<rparr>"
  shows "\<not> model_context_invalid l" "model_context_proves m l"
proof -
  let ?c = "sn_model_context st"
  have "ma_interval ?c = IntervalModel n \<Longrightarrow> normalize_model_name n = Some n" for n
    using assms(1) by (auto simp: attribution_ok_def)
  then have i: "SessionModelInterval_parse (SessionModelInterval_to_storage (ma_interval ?c)) = Some (ma_interval ?c)"
    by (rule interval_storage_roundtrip)
  have l: "legacy_model_proof st = Some \<lparr>lm_pointer = c, lm_kind = SessionModelContextKind_as_str (ma_kind ?c),
      lm_interval = SessionModelInterval_to_storage (ma_interval ?c)\<rparr>"
    using assms(2,3) by (auto simp: legacy_model_proof_def Let_def adopted_def qualifying_def)
  have "is_ok (validate_sha256 (cp_sha256 c) (lit ''model context''))"
    using assms(4) validate_sha256_label[of "cp_sha256 c" "lit ''model context''" "lit ''classification record''"]
    by (simp add: ClassificationPointer_valid_after_def)
  then show "\<not> model_context_invalid l"
    using assms(2,4,5) i
    by (auto simp: model_context_invalid_def l_def l ClassificationPointer_valid_after_def qualifying_def)
  show "model_context_proves m l"
    using interval_model_cases(3)[OF assms(6,1)] i by (auto simp: model_context_proves_def l_def l)
qed

lemma unattributed_normal: "normalize_model_name UNATTRIBUTED_MODEL = Some UNATTRIBUTED_MODEL"
  by (simp add: normalize_model_name_def UNATTRIBUTED_MODEL_def lit_def forbidden_def is_bidi_formatting_def
      trim_matches_def white_space_def MAX_PUBLIC_MODEL_SCALARS_def)

lemma event_proof_ok:
  assumes "mid_ok p a b r st" "rec_ok p a b r" "event_type (sr_summary r) = Some (lit ''token_count'')"
    and q: "sr_pointer r = Some q" and before: "raw_pointer st = Some before" and "\<not> counter_is_secondary st"
    and d: "checked_delta (TokenSnapshot_facts current) facts = Inr d"
  defines "m \<equiv> interval_model (sn_model_context st)"
  shows "proof_ok b \<lparr>tm_timestamp = event_timestamp (sp_rfc3339 p) (sr_summary r), tm_model = usage_model m,
      tm_delta = TokenSnapshot_from_facts d\<rparr>
    \<lparr>lc_before = witness_of before facts, lc_after = witness_of q (TokenSnapshot_facts current),
      lc_model_context = (if m = None then None else legacy_model_proof st)\<rparr>" (is "proof_ok b ?e ?l")
proof -
  note r = rec_okD[OF assms(2)]
  obtain s where s: "sn_admission st = Some s" "counter_ok a s" "sa_previous_raw s = Some before"
    using assms(1,3) before by (cases "sn_admission st") (auto simp: mid_ok_def raw_pointer_def)
  have valid: "RecordPointer_valid before a" using s by (simp add: counter_ok_def)
  have ctx: "\<not> model_context_invalid ?l \<and> normalize_model_name (usage_model m) = Some (usage_model m) \<and>
      (usage_model m = UNATTRIBUTED_MODEL \<or> model_context_proves (usage_model m) ?l)"
  proof (cases m)
    case None
    then show ?thesis by (simp add: model_context_invalid_def usage_model_def unattributed_normal)
  next
    case (Some n)
    have ok: "attribution_ok (sn_model_context st)" using assms(1) by (simp add: mid_ok_def)
    note i = interval_model_cases[OF Some[unfolded m_def] ok]
    obtain c where c: "adopted st = Some c"
      using assms(1,6) i(2) by (auto simp: mid_ok_def held_ok_def)
    then have "ClassificationPointer_valid_after c 0 a" using s by (simp add: adopted_def counter_ok_def)
    then have "\<not> model_context_invalid ?l" "model_context_proves n ?l"
      using model_proof_ok[OF ok i(2) c _ _ Some[unfolded m_def]] r(4) q Some by auto
    moreover have "usage_model m = n" using Some i(1) by (simp add: usage_model_def canonical_model_def)
    ultimately show ?thesis using i(1) by simp
  qed
  have "RecordPointer_valid before b" using valid r(1) by (rule RecordPointer_valid_mono)
  moreover have "rp_end before \<le> rp_start q" using valid r(4) q by (auto simp: RecordPointer_valid_def)
  ultimately show ?thesis using r(4) r(5)[OF q] q d ctx by (simp add: proof_ok_def)
qed

lemma ModelTotals_add_error: "ModelTotals_add t m d = Inl e \<Longrightarrow> e = arithmetic_error"
  by (auto simp: ModelTotals_add_def ModelCounter_add_def arithmetic_error_def Let_def split: if_splits sum.splits)

lemma begin_interval_ok:
  assumes "scan_ok p e st"
  shows "scan_ok p e (begin_interval st)"
proof -
  have "attribution_ok (start_interval (sn_model_context st))"
    using assms by (intro attribution_ok_start) (simp add: scan_ok_def)
  moreover have "ma_kind (start_interval (sn_model_context st)) = ma_kind (sn_model_context st)"
    by (simp add: start_interval_def)
  ultimately show ?thesis using assms
    by (simp add: begin_interval_def scan_ok_def held_ok_def events_ok_def counter_is_secondary_def
        adopted_def raw_pointer_def anchored_def previous_ok_def)
qed

lemma emit_ok:
  assumes "scan_ok p e st" "proof_ok e event l" "raw_pointer st = Some (cw_pointer (lc_after l))"
    "list_all (\<lambda>q. proof_end q \<le> rp_end (cw_pointer (lc_before l))) (sn_event_proofs st)"
  shows "scan_ok p e (st\<lparr>sn_event_proofs := sn_event_proofs st @ [l], sn_all_events := sn_all_events st @ [event]\<rparr>)"
proof -
  have "list_all2 (proof_ok e) (sn_all_events st @ [event]) (sn_event_proofs st @ [l])"
    using assms(1,2) by (intro list_all2_appendI) (simp_all add: scan_ok_def events_ok_def)
  then show ?thesis using assms
    by (simp add: scan_ok_def held_ok_def events_ok_def counter_is_secondary_def adopted_def raw_pointer_def anchored_def
        chained_def sorted_wrt_append list_all_iff proof_end_def previous_ok_def)
qed

lemma count_event_ends:
  assumes "scan_ok p b st"
  shows "ends_ok (scan_ok p b) (count_event p r m delta timed st)"
proof -
  have push: "scan_ok p b s \<Longrightarrow> scan_ok p b (push_timed timed s)" for s
    by (erule scan_ok_core) (simp add: core_def push_timed_def split: option.split)
  have seen: "scan_ok p b (if c then st\<lparr>sn_token_observed_at := xs\<rparr> else st)" for c xs
    by (rule scan_ok_core[OF assms]) (simp add: core_def)
  have counted: "scan_ok p b s \<Longrightarrow> ends_ok (scan_ok p b)
      (try_res (ModelTotals_add (sn_totals s) n delta) (\<lambda>totals. Inr (NextRecord (push_timed timed (s\<lparr>sn_totals := totals\<rparr>)))))" for s n
    using push[OF scan_ok_core[of p b s "s\<lparr>sn_totals := t\<rparr>" for t]]
    by (cases "ModelTotals_add (sn_totals s) n delta") (auto simp: try_res_def core_def dest: ModelTotals_add_error)
  show ?thesis using assms push counted[OF seen] by (simp add: count_event_def Let_def)
qed

lemma step_event_ends:
  fixes current delta :: TokenSnapshot
  assumes ok: "scan_ok p b st" and q: "sr_pointer r = Some q" "raw_pointer st = Some q"
  defines "m \<equiv> interval_model (sn_model_context st)"
  assumes new: "proof_ok b \<lparr>tm_timestamp = event_timestamp (sp_rfc3339 p) (sr_summary r), tm_model = usage_model m,
      tm_delta = delta\<rparr>
      \<lparr>lc_before = witness_of before facts, lc_after = witness_of q (TokenSnapshot_facts current),
        lc_model_context = (if m = None then None else mp)\<rparr>"
    and old: "list_all (\<lambda>q. proof_end q \<le> rp_end before) (sn_event_proofs st)"
  shows "ends_ok (scan_ok p b) (step_event p r facts (Some before) mp current delta st)"
proof -
  let ?st = "begin_interval (if m = None \<and> TokenSnapshot_has_usage delta then st\<lparr>sn_fully_attributed := False\<rparr> else st)"
  have fields: "raw_pointer ?st = raw_pointer st" "sn_event_proofs ?st = sn_event_proofs st"
    by (simp_all add: begin_interval_def raw_pointer_def)
  have ok': "scan_ok p b ?st" by (rule begin_interval_ok, rule scan_ok_core[OF ok]) (simp add: core_def)
  let ?event = "\<lparr>tm_timestamp = event_timestamp (sp_rfc3339 p) (sr_summary r), tm_model = usage_model m, tm_delta = delta\<rparr>"
  have "\<exists>s. emit_event r facts (Some before) (if m = None then None else mp) current timed ?st = Inr s \<and> scan_ok p b s"
    if "timed = None \<or> timed = Some ?event" for timed
    using emit_ok[OF ok' new] that ok' fields q old
    by (cases timed) (simp_all add: emit_event_def try_res_def ok_or_def)
  then have "ends_ok (scan_ok p b) (try_res
      (emit_event r facts (Some before) (if m = None then None else mp) current timed ?st) (count_event p r m delta timed))"
    if "timed = None \<or> timed = Some ?event" for timed
    using that count_event_ends by (fastforce simp: try_res_def)
  then show ?thesis unfolding step_event_def Let_def m_def[symmetric] by simp
qed

end
