(* ===== verification/Scan_Loop.thy ===== *)
theory Scan_Loop
  imports Scan_Invariant
begin

text \<open>
  The whole record loop of \<open>scan_source_with_reader\<close>: the invariant of \<open>Scan_Invariant\<close> holds
  after every record, and what follows for the stored admission, the emitted events and the
  errors of a scan.
\<close>

section \<open>One record\<close>

lemma step_delta_ends:
  assumes mid: "mid_ok p a b r st" and r: "rec_ok p a b r"
    and "event_type (sr_summary r) = Some (lit ''token_count'')" "sr_pointer r = Some q" "anchored p st" "sn_baseline_known st"
    and current: "TokenSnapshot_valid_raw current"
  shows "ends_ok (scan_ok p b) (step_delta p r had current st)"
proof (cases "checked_delta (TokenSnapshot_facts current) (TokenSnapshot_facts (sn_previous st))")
  case (Inl e)
  then show ?thesis using mid_ok_scan_ok[OF mid rec_okD(1)[OF r]] by (simp add: step_delta_def Let_def)
next
  case (Inr d)
  have moved: "scan_ok p b ((set_raw r current st)\<lparr>sn_counter_proofs := xs\<rparr>)" for xs
    by (rule raw_moved_ok[OF mid r assms(4)]) (simp_all add: set_raw_def current)
  have moved': "scan_ok p b (set_raw r current st)"
    by (rule raw_moved_ok[OF mid r assms(4)]) (simp_all add: set_raw_def current)
  have secondary: "counter_is_secondary ((set_raw r current st)\<lparr>sn_counter_proofs := xs\<rparr>) = counter_is_secondary st"
      "counter_is_secondary (set_raw r current st) = counter_is_secondary st" for xs
    by (cases "sn_admission st"; simp add: set_raw_def counter_is_secondary_def)+
  have quiet: "scan_ok p b (step_secondary r had delta s)" if "scan_ok p b s" for s delta
    using begin_interval_ok[OF that] by (simp add: step_secondary_def Let_def)
  show ?thesis
  proof (cases "counter_is_secondary st")
    case True
    then show ?thesis using Inr secondary quiet[OF moved] quiet[OF moved']
      by (auto simp: step_delta_def Let_def split: option.split)
  next
    case False
    then obtain s where s: "sn_admission st = Some s" by (cases "sn_admission st") (auto simp: counter_is_secondary_def)
    obtain before where before: "raw_pointer st = Some before"
      using mid False assms(5,6) by (auto simp: mid_ok_def held_ok_def)
    have fields: "raw_pointer ((set_raw r current st)\<lparr>sn_counter_proofs := xs\<rparr>) = Some q"
      "sn_model_context ((set_raw r current st)\<lparr>sn_counter_proofs := xs\<rparr>) = sn_model_context st"
      "sn_event_proofs ((set_raw r current st)\<lparr>sn_counter_proofs := xs\<rparr>) = sn_event_proofs st" for xs
      using s assms(4) by (simp_all add: set_raw_def raw_pointer_def)
    have old: "list_all (\<lambda>q. proof_end q \<le> rp_end before) (sn_event_proofs st)"
      using mid before by (simp add: mid_ok_def events_ok_def)
    note new = event_proof_ok[OF mid r assms(3,4) before False Inr]
    have "ends_ok (scan_ok p b) (step_event p r (TokenSnapshot_facts (sn_previous st)) (Some before)
        (legacy_model_proof st) current (TokenSnapshot_from_facts d) ((set_raw r current st)\<lparr>sn_counter_proofs := xs\<rparr>))" for xs
      by (rule step_event_ends[OF moved assms(4)]) (simp_all add: fields new old)
    then show ?thesis using Inr secondary False before s assms(4)
      by (simp add: step_delta_def Let_def raw_pointer_def set_raw_def)
  qed
qed

lemma counter_has_pointer:
  assumes "rec_ok p a b r" "\<not> usage_unparsed (sp_rfc3339 p) (sr_summary r)" "token_snapshot (sr_summary r) = Some t"
  shows "event_type (sr_summary r) = Some (lit ''token_count'')" "\<exists>q. sr_pointer r = Some q"
proof -
  show e: "event_type (sr_summary r) = Some (lit ''token_count'')"
    using assms(3) by (simp add: token_snapshot_def split: if_splits)
  then have "valid_timestamp (event_timestamp (sp_rfc3339 p) (sr_summary r))"
    using assms(2) by (auto simp: usage_unparsed_def Let_def context_envelope_valid_def timestamp_accepted_def split: if_splits)
  then show "\<exists>q. sr_pointer r = Some q" using rec_okD(6)[OF assms(1)] by (cases "sr_pointer r") auto
qed

lemma step_counter_ends:
  assumes "mid_ok p a b r st" "rec_ok p a b r" "\<not> usage_unparsed (sp_rfc3339 p) (sr_summary r)"
  shows "ends_ok (scan_ok p b) (step_counter p r had st)"
proof (cases "token_snapshot (sr_summary r)")
  case None
  then show ?thesis using mid_ok_scan_ok[OF assms(1) rec_okD(1)[OF assms(2)]] by (simp add: step_counter_def)
next
  case (Some current)
  from counter_has_pointer[OF assms(2,3) Some] obtain q
    where e: "event_type (sr_summary r) = Some (lit ''token_count'')" and q: "sr_pointer r = Some q" by auto
  have chain: "ends_ok (scan_ok p b) (flow_bind (step_ownership p r current s) (\<lambda>s.
      flow_bind (step_baseline r current s) (step_delta p r had current)))"
    if "mid_ok p a b r s" "anchored p s" "TokenSnapshot_valid_raw current" for s
    by (rule ends_ok_bind[OF step_ownership_ok[OF that(1) assms(2) q that(2,3)]], elim conjE,
        rule ends_ok_bind[OF step_baseline_ok[OF _ assms(2) q _ that(3)]], assumption+,
        elim conjE, rule step_delta_ends[OF _ assms(2) e q _ _ that(3)])
  have "ends_ok (scan_ok p b) (flow_bind (step_anchor p r current st) (\<lambda>st.
      flow_bind (step_adjustment r current st) (\<lambda>st.
      let st = (if sn_history_base_pending st
                then st\<lparr>sn_history_base_pending := False, sn_baseline_known := False\<rparr> else st)
      in flow_bind (step_ownership p r current st) (\<lambda>st.
         flow_bind (step_baseline r current st) (step_delta p r had current)))))"
    if c: "TokenSnapshot_valid_raw current"
    by (rule ends_ok_bind[OF step_anchor_ok[OF assms(1,2) q c]], elim conjE,
        rule ends_ok_bind[OF step_adjustment_ok[OF _ assms(2) q _ c]], assumption+, elim conjE)
      (simp add: Let_def chain history_base_ok c)
  then show ?thesis using Some mid_ok_scan_ok[OF assms(1) rec_okD(1)[OF assms(2)]]
    by (simp add: step_counter_def)
qed

lemma flow_ok_weaken: "flow_ok P Q fl \<Longrightarrow> (\<And>s. Q s \<Longrightarrow> Q' s) \<Longrightarrow> flow_ok P Q' fl"
  by (cases fl) simp_all

lemma scan_present_ends:
  assumes "scan_ok p a st" "rec_ok p a b r"
  shows "ends_ok (scan_ok p b) (scan_present p r st)"
proof -
  note fin = mid_ok_scan_ok[where p = p and r = r, OF _ rec_okD(1)[OF assms(2)]]
  have later: "ends_ok (scan_ok p b) (flow_bind (step_noop p r s) (\<lambda>st.
      flow_bind (step_context p r (step_history_base p r st)) (\<lambda>st.
      let st = step_context_pair p r (step_task p r st)
      in if usage_unparsed (sp_rfc3339 p) (sr_summary r) then Inr (NextRecord st) else step_counter p r had st)))"
    if "mid_ok p a b r s" for s had
    by (rule ends_ok_bind[OF flow_ok_weaken[OF step_noop_ok[OF that]]], erule fin,
        rule ends_ok_bind[OF flow_ok_weaken[OF step_context_ok[OF step_history_base_ok assms(2)]]], assumption, erule fin)
      (simp add: Let_def fin step_task_ok step_context_pair_ok step_counter_ends[OF _ assms(2)])
  have lane: "ends_ok (scan_ok p b) (case step_waiting p r (step_responses p r s) of (had, st) \<Rightarrow>
      flow_bind (step_noop p r st) (\<lambda>st.
      flow_bind (step_context p r (step_history_base p r st)) (\<lambda>st.
      let st = step_context_pair p r (step_task p r st)
      in if usage_unparsed (sp_rfc3339 p) (sr_summary r) then Inr (NextRecord st) else step_counter p r had st)))"
    if "scan_ok p a s" for s
    using later[OF step_waiting_ok[OF step_responses_ok[OF that assms(2)]]] by (simp add: case_prod_beta)
  have "ends_ok (scan_ok p b) (flow_bind (step_metadata r s) (\<lambda>st. flow_bind (step_fork p r st) (\<lambda>st.
      case step_waiting p r (step_responses p r st) of (had, st) \<Rightarrow>
      flow_bind (step_noop p r st) (\<lambda>st.
      flow_bind (step_context p r (step_history_base p r st)) (\<lambda>st.
      let st = step_context_pair p r (step_task p r st)
      in if usage_unparsed (sp_rfc3339 p) (sr_summary r) then Inr (NextRecord st) else step_counter p r had st)))))"
    if "scan_ok p a s" for s
    by (rule ends_ok_bind[OF step_metadata_ok[OF that assms(2)]],
        rule ends_ok_bind[OF step_fork_ok[OF _ rec_okD(1)[OF assms(2)]]], assumption) (rule lane)
  then show ?thesis using assms(1) by (simp add: scan_present_def Let_def)
qed

section \<open>The cursor\<close>

text \<open>The body never moves the cursor, which was moved over the record before, nor the account binding.\<close>

definition bound_to :: "scan_state \<Rightarrow> SourceAccountBinding option" where
  "bound_to st = Option.bind (sn_admission st) sa_account_binding"

type_synonym scan_cursor = "u64 \<times> u64 option \<times> SourceAccountBinding option"

abbreviation cursor :: "scan_state \<Rightarrow> scan_cursor" where
  "cursor st \<equiv> (sn_physical_offset st, sn_unresolved_start st, bound_to st)"

definition stays :: "scan_cursor \<Rightarrow> flow \<Rightarrow> bool" where
  "stays n fl = flow_ok (\<lambda>st. cursor st = n) (\<lambda>st. cursor st = n) fl"

definition result_stays :: "scan_cursor \<Rightarrow> RecorderError + flow \<Rightarrow> bool" where
  "result_stays n x = (case x of Inl _ \<Rightarrow> True | Inr fl \<Rightarrow> stays n fl)"

lemma stays_simps [simp]:
  "stays n (Go st) = (cursor st = n)" "stays n (NextRecord st) = (cursor st = n)"
  "result_stays n (Inl e)" "result_stays n (Inr fl) = stays n fl"
  by (simp_all add: stays_def result_stays_def)

lemma result_stays_bind:
  "stays n fl \<Longrightarrow> (\<And>st. cursor st = n \<Longrightarrow> result_stays n (f st)) \<Longrightarrow> result_stays n (flow_bind fl f)"
  by (cases fl) (simp_all add: flow_bind_def)

lemma binding_frame [simp]:
  "sa_account_binding (enter_inherited e s) = sa_account_binding s"
  "sa_account_binding (leave_inherited s) = sa_account_binding s"
  "sa_account_binding (snd (metadata_record sm s)) = sa_account_binding s"
  "sa_account_binding (observe_record f sm e q s) = sa_account_binding s"
  "sa_account_binding (push_response x s) = sa_account_binding s"
  "sa_account_binding (adopt_context r k i k' s) = sa_account_binding s"
  "sa_account_binding (strengthen_context r i s) = sa_account_binding s"
  by (simp_all add: enter_inherited_def leave_inherited_def metadata_record_def adopt_metadata_def observe_record_def
      push_response_def adopt_context_def strengthen_context_def observe_response_classification_def Let_def
      split: option.split)

lemma bound_to_admission [simp]:
  "bound_to (st\<lparr>sn_admission := Some s\<rparr>) = sa_account_binding s"
  by (simp add: bound_to_def)

lemma bound_to_map [simp]:
  "(\<And>s. sa_account_binding (f s) = sa_account_binding s) \<Longrightarrow> bound_to (map_admission f st) = bound_to st"
  by (cases "sn_admission st") (simp_all add: bound_to_def)

lemma bound_to_frame [simp]:
  "bound_to (reject r x st) = bound_to st" "bound_to (begin_interval st) = bound_to st"
  "bound_to (set_raw r current st) = bound_to st" "bound_to (rebase r current st) = bound_to st"
  "bound_to (push_timed t st) = bound_to st" "bound_to (step_secondary r had d st) = bound_to st"
  "bound_to (step_history_base p r st) = bound_to st" "bound_to (step_task p r st) = bound_to st"
  "bound_to (step_context_pair p r st) = bound_to st"
  by (cases "sn_admission st"; simp add: bound_to_def reject_def begin_interval_def set_raw_def rebase_def push_timed_def
      step_secondary_def step_history_base_def step_task_def step_context_pair_def Let_def split: option.split)+

lemma bound_to_responses [simp]: "bound_to (step_responses p r st) = bound_to st"
  by (cases "sn_admission st")
    (auto simp: step_responses_def step_push_def Let_def bound_to_def reject_def from_response_boundary_def
      from_prefix_start_def split: option.split)

lemma bound_to_waiting [simp]: "bound_to (snd (step_waiting p r st)) = bound_to st"
  by (simp add: step_waiting_def split: option.split)

lemma bound_to_updates [simp]:
  "bound_to (st\<lparr>sn_model_context := c\<rparr>) = bound_to st" "bound_to (st\<lparr>sn_baseline_known := k\<rparr>) = bound_to st"
  "bound_to (st\<lparr>sn_previous := t\<rparr>) = bound_to st" "bound_to (st\<lparr>sn_fully_attributed := k\<rparr>) = bound_to st"
  "bound_to (st\<lparr>sn_discard_until_lf := k\<rparr>) = bound_to st" "bound_to (st\<lparr>sn_history_base_pending := k\<rparr>) = bound_to st"
  "bound_to (st\<lparr>sn_recovery_anchor_found := k\<rparr>) = bound_to st" "bound_to (st\<lparr>sn_recovery_match := mm\<rparr>) = bound_to st"
  "bound_to (st\<lparr>sn_all_events := es\<rparr>) = bound_to st" "bound_to (st\<lparr>sn_event_proofs := ls\<rparr>) = bound_to st"
  "bound_to (st\<lparr>sn_counter_proofs := ls\<rparr>) = bound_to st" "bound_to (st\<lparr>sn_totals := tot\<rparr>) = bound_to st"
  "bound_to (st\<lparr>sn_events := es\<rparr>) = bound_to st" "bound_to (st\<lparr>sn_token_observed_at := ts\<rparr>) = bound_to st"
  by (simp_all add: bound_to_def)

lemma offset_basic [simp]:
  "sn_physical_offset (reject r x st) = sn_physical_offset st"
  "sn_unresolved_start (reject r x st) = sn_unresolved_start st"
  "sn_physical_offset (map_admission f st) = sn_physical_offset st"
  "sn_unresolved_start (map_admission f st) = sn_unresolved_start st"
  "sn_physical_offset (begin_interval st) = sn_physical_offset st"
  "sn_unresolved_start (begin_interval st) = sn_unresolved_start st"
  by (simp_all add: reject_def map_admission_def begin_interval_def)

lemma offset_raw [simp]:
  "sn_physical_offset (set_raw r current st) = sn_physical_offset st"
  "sn_unresolved_start (set_raw r current st) = sn_unresolved_start st"
  "sn_physical_offset (rebase r current st) = sn_physical_offset st"
  "sn_unresolved_start (rebase r current st) = sn_unresolved_start st"
  by (simp_all add: set_raw_def rebase_def)

lemma offset_steps [simp]:
  "sn_physical_offset (push_timed t st) = sn_physical_offset st"
  "sn_unresolved_start (push_timed t st) = sn_unresolved_start st"
  "sn_physical_offset (step_secondary r had d st) = sn_physical_offset st"
  "sn_unresolved_start (step_secondary r had d st) = sn_unresolved_start st"
  "sn_physical_offset (step_history_base p r st) = sn_physical_offset st"
  "sn_unresolved_start (step_history_base p r st) = sn_unresolved_start st"
  "sn_physical_offset (step_task p r st) = sn_physical_offset st"
  "sn_unresolved_start (step_task p r st) = sn_unresolved_start st"
  "sn_physical_offset (step_context_pair p r st) = sn_physical_offset st"
  "sn_unresolved_start (step_context_pair p r st) = sn_unresolved_start st"
  "sn_physical_offset (step_push p r s st) = sn_physical_offset st"
  "sn_unresolved_start (step_push p r s st) = sn_unresolved_start st"
  "sn_physical_offset (snd (step_waiting p r st)) = sn_physical_offset st"
  "sn_unresolved_start (snd (step_waiting p r st)) = sn_unresolved_start st"
  by (simp_all add: push_timed_def step_secondary_def step_history_base_def step_task_def
      step_context_pair_def step_push_def step_waiting_def Let_def split: option.split)

lemma offset_responses [simp]:
  "sn_physical_offset (step_responses p r st) = sn_physical_offset st"
  "sn_unresolved_start (step_responses p r st) = sn_unresolved_start st"
  by (simp_all add: step_responses_def Let_def split: option.split)

lemma step_metadata_stays: "stays (cursor st) (step_metadata r st)"
proof (cases "sn_admission st")
  case (Some s)
  obtain valid s' where m: "metadata_record (sr_summary r) s = (valid, s')" by fastforce
  then have "sa_account_binding s' = sa_account_binding s" by (metis binding_frame(3) snd_conv)
  then show ?thesis using Some m by (simp add: step_metadata_def Let_def bound_to_def reject_def)
qed (simp add: step_metadata_def)

lemma step_fork_stays: "stays (cursor st) (step_fork p r st)"
  by (simp add: step_fork_def split: option.split)

lemma step_noop_stays: "stays (cursor st) (step_noop p r st)"
  by (simp add: step_noop_def Let_def)

lemma step_context_stays: "stays (cursor st) (step_context p r st)"
  by (simp add: step_context_def Let_def split: prod.split)

lemma step_anchor_stays: "stays (cursor st) (step_anchor p r current st)"
  by (simp add: step_anchor_def Let_def split: option.split)

lemma step_adjustment_stays: "stays (cursor st) (step_adjustment r current st)"
  by (simp add: step_adjustment_def Let_def)

lemma step_ownership_stays: "stays (cursor st) (step_ownership p r current st)"
  by (simp add: step_ownership_def Let_def split: option.split)

lemma step_baseline_stays: "stays (cursor st) (step_baseline r current st)"
  by (simp add: step_baseline_def Let_def)

lemma emit_event_stays: "emit_event r f b m c t st = Inr st' \<Longrightarrow> cursor st' = cursor st"
  by (auto simp: emit_event_def try_res_def ok_or_def split: option.splits)

lemma count_event_stays: "result_stays (cursor st) (count_event p r m d t st)"
proof -
  have "result_stays n (try_res (ModelTotals_add tot u d) (\<lambda>totals. Inr (NextRecord (push_timed t (s\<lparr>sn_totals := totals\<rparr>)))))"
    if "cursor s = n" for s n tot u
    using that by (cases "ModelTotals_add tot u d") (simp_all add: try_res_def)
  then show ?thesis by (simp add: count_event_def Let_def)
qed

lemma step_event_stays: "result_stays (cursor st) (step_event p r f b m c d st)"
proof -
  have "result_stays n (try_res (emit_event r f b m' c t s) (count_event p r u d t))"
    if "cursor s = n" for m' u t s n
  proof (cases "emit_event r f b m' c t s")
    case (Inr s')
    then have "cursor s' = n" using that emit_event_stays by simp
    then show ?thesis using Inr count_event_stays[of s' p r u d t] by (simp add: try_res_def)
  qed (simp add: try_res_def)
  then show ?thesis by (simp add: step_event_def Let_def)
qed

lemma step_delta_stays: "result_stays (cursor st) (step_delta p r had c st)"
proof -
  have "result_stays n (step_event p r f b m c d s)" if "cursor s = n" for f b m d s n
    using that step_event_stays[of s] by simp
  then show ?thesis by (simp add: step_delta_def Let_def split: sum.split option.split)
qed

lemmas stays_at = step_metadata_stays step_fork_stays step_noop_stays step_context_stays step_anchor_stays
  step_adjustment_stays step_ownership_stays step_baseline_stays

lemma step_counter_stays: "result_stays (cursor st) (step_counter p r had st)"
proof -
  have tail: "result_stays n (flow_bind (step_ownership p r c s) (\<lambda>s. flow_bind (step_baseline r c s) (step_delta p r had c)))"
    if "cursor s = n" for n c s
    unfolding that[symmetric]
    by (rule result_stays_bind[OF step_ownership_stays])
      (metis result_stays_bind step_baseline_stays step_delta_stays)
  have "result_stays (cursor st) (flow_bind (step_anchor p r c st) (\<lambda>st.
      flow_bind (step_adjustment r c st) (\<lambda>st.
      let st = (if sn_history_base_pending st
                then st\<lparr>sn_history_base_pending := False, sn_baseline_known := False\<rparr> else st)
      in flow_bind (step_ownership p r c st) (\<lambda>st. flow_bind (step_baseline r c st) (step_delta p r had c)))))" for c
    by (rule result_stays_bind[OF step_anchor_stays], erule subst, rule result_stays_bind[OF step_adjustment_stays])
      (simp add: Let_def tail)
  then show ?thesis by (simp add: step_counter_def split: option.split)
qed

lemma scan_present_stays: "result_stays (cursor st) (scan_present p r st)"
proof -
  have later: "result_stays n (flow_bind (step_noop p r s) (\<lambda>st.
      flow_bind (step_context p r (step_history_base p r st)) (\<lambda>st.
      let st = step_context_pair p r (step_task p r st)
      in if u then Inr (NextRecord st) else step_counter p r had st)))"
    if "cursor s = n" for s n u had
  proof (rule result_stays_bind)
    show "stays n (step_noop p r s)" using step_noop_stays[of s] that by simp
    fix st :: scan_state assume "cursor st = n"
    then have "stays n (step_context p r (step_history_base p r st))"
      using step_context_stays[of "step_history_base p r st"] by simp
    then show "result_stays n (flow_bind (step_context p r (step_history_base p r st)) (\<lambda>st.
        let st = step_context_pair p r (step_task p r st)
        in if u then Inr (NextRecord st) else step_counter p r had st))"
    proof (rule result_stays_bind)
      fix st :: scan_state assume "cursor st = n"
      then show "result_stays n (let st = step_context_pair p r (step_task p r st)
          in if u then Inr (NextRecord st) else step_counter p r had st)"
        using step_counter_stays[of "step_context_pair p r (step_task p r st)"] by (simp add: Let_def)
    qed
  qed
  have "result_stays n (flow_bind (step_metadata r s) (\<lambda>st. flow_bind (step_fork p r st) (\<lambda>st.
      case step_waiting p r (step_responses p r st) of (had, st) \<Rightarrow>
      flow_bind (step_noop p r st) (\<lambda>st.
      flow_bind (step_context p r (step_history_base p r st)) (\<lambda>st.
      let st = step_context_pair p r (step_task p r st)
      in if u then Inr (NextRecord st) else step_counter p r had st)))))"
    if "cursor s = n" for s n u
    unfolding that[symmetric]
    by (rule result_stays_bind[OF step_metadata_stays], erule subst, rule result_stays_bind[OF step_fork_stays])
      (simp add: case_prod_beta later)
  then show ?thesis by (simp add: scan_present_def Let_def)
qed

section \<open>The loop\<close>

text \<open>What the reader delivers: the records of one file, with their digests.\<close>

fun read_ok :: "record_read \<Rightarrow> bool" where
  "read_ok (ReadPresent summary bytes sha) \<longleftrightarrow>
     bytes > 0 \<and> is_ok (validate_sha256 sha (lit ''classification record'')) \<and> summary_ids_valid summary"
| "read_ok (ReadInvalid bytes terminated sha) \<longleftrightarrow>
     \<not> terminated \<or> bytes > 0 \<and> is_ok (validate_sha256 sha (lit ''classification record''))"
| "read_ok (ReadUnterminated bytes) = True"

fun read_bytes :: "record_read \<Rightarrow> nat" where
  "read_bytes (ReadPresent summary bytes sha) = unat bytes"
| "read_bytes (ReadInvalid bytes terminated sha) = unat bytes"
| "read_bytes (ReadUnterminated bytes) = unat bytes"

lemma saturating_add_exact:
  fixes a n :: u64
  assumes "unat a + unat n < 2 ^ 64" "n > 0"
  shows "unat (saturating_add a n) = unat a + unat n" "a < saturating_add a n"
proof -
  show u: "unat (saturating_add a n) = unat a + unat n"
    using assms(1) by (simp add: saturating_add_def unat_word_ariths)
  then show "a < saturating_add a n" using assms(2) by (simp add: word_less_nat_alt)
qed

lemma new_evidence:
  assumes "unat a + unat n < 2 ^ 64" "n > 0" "is_ok (validate_sha256 sha (lit ''classification record''))"
  shows "ClassificationPointer_valid_after \<lparr>cp_start = a, cp_end = saturating_add a n, cp_sha256 = sha\<rparr> a (saturating_add a n)"
  using saturating_add_exact[OF assms(1,2)] assms(3) by (simp add: ClassificationPointer_valid_after_def)

text \<open>
  The state after one read: the error of the totals, or the invariant at the new offset. Only a
  record that ends the loop leaves the offset where it was, and it changes nothing that counts.
\<close>

definition cursor_ok :: "scan_state \<Rightarrow> bool" where
  "cursor_ok st \<longleftrightarrow> (sn_unresolved_start st = None \<or> sn_unresolved_start st = Some (sn_physical_offset st)) \<and>
     (sn_physical_offset st = 0 \<longrightarrow> \<not> sn_baseline_known st)"

definition advanced :: "scan_state \<Rightarrow> scan_state \<Rightarrow> bool" where
  "advanced st st' \<longleftrightarrow> sn_physical_offset st < sn_physical_offset st' \<or>
     sn_physical_offset st' = sn_physical_offset st \<and> sn_events st' = sn_events st"

definition record_ends :: "scan_params \<Rightarrow> scan_state \<Rightarrow> nat \<Rightarrow> RecorderError + scan_state \<times> bool \<Rightarrow> bool" where
  "record_ends p st n x =
     (case x of
        Inl e \<Rightarrow> e = arithmetic_error
      | Inr (st', stop) \<Rightarrow> scan_ok p (sn_physical_offset st') st' \<and> cursor_ok st' \<and> advanced st st' \<and>
          bound_to st' = bound_to st \<and>
          (stop \<or> unat (sn_physical_offset st') = n \<and> sn_unresolved_start st' = None))"

lemma advanced_trans: "advanced a b \<Longrightarrow> advanced b c \<Longrightarrow> advanced a c"
  by (auto simp: advanced_def)

lemma advanced_le: "advanced a b \<Longrightarrow> sn_physical_offset a \<le> sn_physical_offset b"
  by (auto simp: advanced_def)

lemma present_ends:
  assumes "scan_ok p (sn_physical_offset st) st" "read_ok (ReadPresent summary bytes sha)"
    "unat (sn_physical_offset st) + unat bytes < 2 ^ 64" "sn_unresolved_start st = None"
  shows "record_ends p st (unat (sn_physical_offset st) + unat bytes) (scan_record p (ReadPresent summary bytes sha) st)"
proof -
  let ?a = "sn_physical_offset st" let ?b = "saturating_add ?a bytes"
  let ?e = "\<lparr>cp_start = ?a, cp_end = ?b, cp_sha256 = sha\<rparr>"
  let ?r = "\<lparr>sr_index = sn_record_index st, sr_evidence = ?e, sr_pointer = record_pointer p ?e summary, sr_summary = summary\<rparr>"
  let ?st = "st\<lparr>sn_record_index := saturating_add (sn_record_index st) 1, sn_read_any := True,
    sn_consumed_bytes := saturating_add (sn_consumed_bytes st) bytes, sn_physical_offset := ?b\<rparr>"
  have r: "rec_ok p ?a ?b ?r" using assms(2) new_evidence[OF assms(3)] by (simp add: rec_ok_def)
  have "scan_ok p ?a ?st" by (rule scan_ok_core[OF assms(1)]) (simp add: core_def)
  from scan_present_ends[OF this r] scan_present_stays[of ?st p ?r]
    saturating_add_exact[OF assms(3)] assms(2,4)
  show ?thesis
    by (cases "scan_present p ?r ?st")
      (auto simp: scan_record_def Let_def try_res_def record_ends_def ends_ok_def stays_def flow_ok_def flow_state_def
        cursor_ok_def advanced_def bound_to_def split: flow.splits)
qed

lemma invalidated_ok:
  assumes "scan_ok p a st"
  shows "scan_ok p a (map_admission (\<lambda>s. s\<lparr>sa_adopted_context := None\<rparr>)
    (st\<lparr>sn_model_context := invalidate (sn_model_context st)\<rparr>))" (is "scan_ok p a ?st")
proof -
  have "held_ok p ?st" using assms by (intro invalidated_held) (simp_all add: scan_ok_def)
  moreover have "pred_option (lane_ok (sp_sha256 p) a) (sn_admission ?st)"
    using assms drop_contexts_lane(2) by (cases "sn_admission st") (simp_all add: scan_ok_def)
  moreover have "raw_pointer ?st = raw_pointer st" by (cases "sn_admission st") (simp_all add: raw_pointer_def)
  ultimately show ?thesis using assms attribution_ok_invalidate
    by (simp add: scan_ok_def events_ok_def previous_ok_def)
qed

lemma malformed_ok:
  assumes "scan_ok p (sn_physical_offset st) st" "unat (sn_physical_offset st) + unat bytes < 2 ^ 64" "bytes > 0"
    "is_ok (validate_sha256 sha (lit ''classification record''))"
  shows "scan_ok p (sn_physical_offset (scan_malformed bytes sha st)) (scan_malformed bytes sha st)"
    "unat (sn_physical_offset (scan_malformed bytes sha st)) = unat (sn_physical_offset st) + unat bytes"
    "sn_physical_offset st < sn_physical_offset (scan_malformed bytes sha st)"
    "sn_unresolved_start (scan_malformed bytes sha st) = sn_unresolved_start st"
    "bound_to (scan_malformed bytes sha st) = bound_to st"
proof -
  let ?a = "sn_physical_offset st" let ?b = "saturating_add ?a bytes"
  let ?e = "\<lparr>cp_start = ?a, cp_end = ?b, cp_sha256 = sha\<rparr>"
  let ?st = "map_admission (observe_input UnknownInput ?e None None) st"
  have off: "sn_physical_offset (scan_malformed bytes sha st) = ?b"
    by (simp add: scan_malformed_def Let_def)
  show "unat (sn_physical_offset (scan_malformed bytes sha st)) = unat ?a + unat bytes"
    using off saturating_add_exact(1)[OF assms(2,3)] by simp
  show "sn_physical_offset st < sn_physical_offset (scan_malformed bytes sha st)"
    "sn_unresolved_start (scan_malformed bytes sha st) = sn_unresolved_start st"
    using off saturating_add_exact(2)[OF assms(2,3)] by (simp_all add: scan_malformed_def Let_def)
  show "bound_to (scan_malformed bytes sha st) = bound_to st"
    by (cases "sn_admission st") (simp_all add: scan_malformed_def Let_def bound_to_def map_admission_def)
  have le: "?a \<le> ?b" using saturating_add_exact(2)[OF assms(2,3)] by simp
  have "pred_option (lane_ok (sp_sha256 p) ?b) (sn_admission ?st)"
    using assms(1) observe_input_lane[OF _ le new_evidence[OF assms(2-4)]]
    by (cases "sn_admission st") (simp_all add: scan_ok_def input_within_def)
  moreover have "sa_responses (observe_input i e q u s) = [] \<longleftrightarrow> sa_responses s = []" for i e q u s
    by (auto simp: observe_input_responses update_last_def)
  then have "held_ok p ?st = held_ok p st"
    by (cases "sn_admission st") (simp_all add: held_ok_def counter_is_secondary_def adopted_def raw_pointer_def anchored_def)
  moreover have "raw_pointer ?st = raw_pointer st" by (cases "sn_admission st") (simp_all add: raw_pointer_def)
  ultimately have "scan_ok p ?b ?st" using assms(1) events_ok_mono[OF _ le, of st]
    by (simp add: scan_ok_def events_ok_def previous_ok_def)
  then show "scan_ok p (sn_physical_offset (scan_malformed bytes sha st)) (scan_malformed bytes sha st)"
    unfolding off by (rule scan_ok_core) (simp add: core_def scan_malformed_def Let_def map_admission_def)
qed

lemma scan_record_ends:
  assumes "scan_ok p (sn_physical_offset st) st" "read_ok read"
    "unat (sn_physical_offset st) + read_bytes read < 2 ^ 64" "sn_unresolved_start st = None" "cursor_ok st"
  shows "record_ends p st (unat (sn_physical_offset st) + read_bytes read) (scan_record p read st)"
proof (cases read)
  case (ReadPresent summary bytes sha)
  then show ?thesis using present_ends assms by simp
next
  case (ReadInvalid bytes terminated sha)
  let ?st = "map_admission (\<lambda>a. a\<lparr>sa_adopted_context := None\<rparr>)
    (st\<lparr>sn_record_index := saturating_add (sn_record_index st) 1,
       sn_consumed_bytes := saturating_add (sn_consumed_bytes st) bytes, sn_unresolved := True,
       sn_model_context := invalidate (sn_model_context st)\<rparr>)"
  have ok: "scan_ok p (sn_physical_offset st) ?st"
    by (rule scan_ok_core[OF invalidated_ok[OF assms(1)]]) (simp add: core_def)
  then have stop: "scan_ok p (sn_physical_offset st) (?st\<lparr>sn_evidence := x, sn_unresolved_start := y, sn_discard_until_lf := True\<rparr>)" for x y
    by (rule scan_ok_core) (simp add: core_def)
  show ?thesis
  proof (cases terminated)
    case True
    have "bound_to ?st = bound_to st" by (cases "sn_admission st") (simp_all add: bound_to_def map_admission_def)
    with True show ?thesis using ReadInvalid assms(2-4) ok malformed_ok[of p ?st bytes sha]
      by (auto simp: scan_record_def Let_def record_ends_def cursor_ok_def advanced_def)
  next
    case False
    then show ?thesis using ReadInvalid assms(5) stop
      by (cases "sn_admission st")
        (simp_all add: scan_record_def Let_def record_ends_def cursor_ok_def advanced_def map_admission_def bound_to_def)
  qed
next
  case (ReadUnterminated bytes)
  have "scan_ok p (sn_physical_offset st) (st\<lparr>sn_consumed_bytes := w, sn_unresolved := True, sn_evidence := x,
      sn_unresolved_start := y, sn_discard_until_lf := True\<rparr>)" for w x y
    by (rule scan_ok_core[OF assms(1)]) (simp add: core_def)
  then show ?thesis using ReadUnterminated assms(5)
    by (simp add: scan_record_def Let_def record_ends_def cursor_ok_def advanced_def bound_to_def)
qed

definition loop_ends :: "scan_params \<Rightarrow> scan_state \<Rightarrow> nat \<Rightarrow> RecorderError + scan_state \<Rightarrow> bool" where
  "loop_ends p st n x =
     (case x of
        Inl e \<Rightarrow> e = arithmetic_error
      | Inr st' \<Rightarrow> scan_ok p (sn_physical_offset st') st' \<and> cursor_ok st' \<and> advanced st st' \<and>
          bound_to st' = bound_to st \<and> unat (sn_physical_offset st') \<le> n)"

lemma scan_record_bound:
  "scan_record p read st = Inr (st', True) \<Longrightarrow> sn_physical_offset st' = sn_physical_offset st"
  by (cases read) (auto simp: scan_record_def Let_def result_simps split: if_splits)

lemma scan_loop_ends:
  assumes "scan_ok p (sn_physical_offset st) st" "list_all read_ok reads"
    "unat (sn_physical_offset st) + sum_list (map read_bytes reads) < 2 ^ 64" "sn_unresolved_start st = None" "cursor_ok st"
  shows "loop_ends p st (unat (sn_physical_offset st) + sum_list (map read_bytes reads)) (scan_loop p reads st)"
  using assms
proof (induction reads arbitrary: st)
  case Nil
  then show ?case by (simp add: loop_ends_def advanced_def)
next
  case (Cons read reads)
  have r: "record_ends p st (unat (sn_physical_offset st) + read_bytes read) (scan_record p read st)"
    using Cons.prems by (intro scan_record_ends) simp_all
  show ?case
  proof (cases "sn_consumed_bytes st \<ge> sp_max_bytes p \<and> sn_read_any st")
    case True
    then show ?thesis using Cons.prems by (simp add: loop_ends_def advanced_def)
  next
    case False
    show ?thesis
    proof (cases "scan_record p read st")
      case (Inl e)
      then show ?thesis using r False by (auto simp: record_ends_def loop_ends_def try_res_def)
    next
      case (Inr x)
      obtain st' stop where x: "x = (st', stop)" by (cases x)
      have step: "scan_ok p (sn_physical_offset st') st'" "cursor_ok st'" "advanced st st'" "bound_to st' = bound_to st"
        "stop \<or> unat (sn_physical_offset st') = unat (sn_physical_offset st) + read_bytes read \<and> sn_unresolved_start st' = None"
        using r Inr x by (auto simp: record_ends_def)
      show ?thesis
      proof (cases stop)
        case True
        then show ?thesis using Inr x step False scan_record_bound[of p read st st']
          by (auto simp: loop_ends_def try_res_def)
      next
        case no: False
        have "loop_ends p st' (unat (sn_physical_offset st') + sum_list (map read_bytes reads)) (scan_loop p reads st')"
          using Cons.prems step no by (intro Cons.IH) auto
        then show ?thesis using Inr x step no False advanced_trans[OF step(3)]
          by (auto simp: loop_ends_def try_res_def add.assoc split: sum.splits)
      qed
    qed
  qed
qed

end
