(* ===== verification/Session_Checkpoint.thy ===== *)
theory Session_Checkpoint
  imports Source_Admission Token_Facts
begin

text \<open>
  What the writer accepts of a scanned source: the checks of the checkpoint, the ranges, the
  task events, the pending ranges and the token anchors in
  \<open>codex-info-db-writer/src/lib.rs\<close>, and the digests that name an anchor recovery and a source
  prefix.
\<close>

definition fits_i64 :: "u64 \<Rightarrow> bool" where
  "fits_i64 v \<longleftrightarrow> unat v \<le> 2 ^ 63 - 1"

section \<open>Checkpoints\<close>

definition previous_facts :: "SessionCheckpoint \<Rightarrow> u64 \<Rightarrow> TokenFacts" where
  "previous_facts ck total_n =
     \<lparr>tf_total = total_n, tf_input = ck_previous_input ck, tf_cached_input = ck_previous_cached_input ck,
      tf_cache_write_input = ck_previous_cache_write_input ck, tf_output = ck_previous_output ck\<rparr>"

definition context_kind_invalid :: "SessionCheckpoint \<Rightarrow> bool" where
  "context_kind_invalid ck =
     (case ck_last_model_context_kind ck of
        None \<Rightarrow> False
      | Some CtxNone \<Rightarrow> ck_last_model ck \<noteq> None
      | Some CtxUnknown \<Rightarrow> False
      | Some _ \<Rightarrow>
          (case ck_last_model ck of None \<Rightarrow> True | Some model \<Rightarrow> normalize_model_name model \<noteq> Some model))"

definition interval_invalid :: "SessionCheckpoint \<Rightarrow> bool" where
  "interval_invalid ck =
     (case ck_last_model_interval ck of
        Some (IntervalModel model) \<Rightarrow>
          normalize_model_name model \<noteq> Some model \<or>
          ck_last_model ck \<noteq> Some model \<or>
          \<not> (ck_last_model_context_kind ck = Some InitialSettings \<or> ck_last_model_context_kind ck = Some Turn)
      | _ \<Rightarrow> False)"

definition validate_session_checkpoint :: "(u8 list \<Rightarrow> u8 list) \<Rightarrow> SessionCheckpoint \<Rightarrow> UsageStoreError + unit" where
  "validate_session_checkpoint sha256 ck =
     try_res (validate_session_key (ck_root_identity ck) (ck_relative_path ck)) (\<lambda>_.
       if \<not> fits_i64 (ck_committed_offset ck)
          \<or> ck_collector_epoch ck = 0
          \<or> ck_cycle_seq ck = 0
          \<or> ck_prefix_generation ck = 0
          \<or> \<not> pred_option valid_session_model (ck_last_model ck)
          \<or> context_kind_invalid ck
          \<or> interval_invalid ck
          \<or> (ck_token_baseline_known ck \<and> ck_previous_total ck = None)
          \<or> \<not> pred_option (\<lambda>state. SourceAdmission_valid sha256 state (ck_committed_offset ck)) (ck_source_admission ck)
          \<or> \<not> pred_option (\<lambda>binding. matches_checkpoint binding ck)
               (Option.bind (ck_source_admission ck) sa_account_binding)
          \<or> \<not> pred_option (\<lambda>total_n. is_ok (validate_raw_counter (previous_facts ck total_n))) (ck_previous_total ck)
       then Inl (InvalidImport (lit ''session checkpoint is invalid''))
       else validate_sha256 (ck_prefix_sha256 ck) (lit ''session checkpoint prefix''))"

section \<open>Ranges and task events\<close>

record SessionRange =
  sg_root_identity :: rstr
  sg_relative_path :: rstr
  sg_file_device :: u64
  sg_file_inode :: u64
  sg_start_offset :: u64
  sg_end_offset :: u64
  sg_collector_epoch :: u128
  sg_cycle_seq :: u64
  sg_prefix_generation :: u128
  sg_record_sha256 :: rstr

type_synonym SessionTaskIndexedRange = SessionRange

definition range_invalid :: "SessionRange \<Rightarrow> bool" where
  "range_invalid g \<longleftrightarrow> sg_start_offset g \<ge> sg_end_offset g \<or> \<not> fits_i64 (sg_end_offset g) \<or>
     sg_collector_epoch g = 0 \<or> sg_cycle_seq g = 0 \<or> sg_prefix_generation g = 0"

definition validate_session_range :: "SessionRange \<Rightarrow> UsageStoreError + unit" where
  "validate_session_range g =
     try_res (validate_session_key (sg_root_identity g) (sg_relative_path g)) (\<lambda>_.
       if range_invalid g then Inl (InvalidImport (lit ''session range is invalid''))
       else validate_sha256 (sg_record_sha256 g) (lit ''session range record''))"

definition validate_session_task_indexed_range :: "SessionTaskIndexedRange \<Rightarrow> UsageStoreError + unit" where
  "validate_session_task_indexed_range g =
     try_res (validate_session_key (sg_root_identity g) (sg_relative_path g)) (\<lambda>_.
       if range_invalid g then Inl (InvalidImport (lit ''session task indexed range is invalid''))
       else validate_sha256 (sg_record_sha256 g) (lit ''session task indexed range record''))"

record SessionTaskEvent =
  st_root_identity :: rstr
  st_relative_path :: rstr
  st_file_device :: u64
  st_file_inode :: u64
  st_prefix_generation :: u128
  st_start_offset :: u64
  st_end_offset :: u64
  st_record_sha256 :: rstr
  st_event_index :: u64
  st_timestamp :: i64
  st_running :: bool

definition validate_session_task_event :: "SessionTaskEvent \<Rightarrow> UsageStoreError + unit" where
  "validate_session_task_event e =
     try_res (validate_session_key (st_root_identity e) (st_relative_path e)) (\<lambda>_.
       if st_start_offset e \<ge> st_end_offset e \<or> \<not> fits_i64 (st_end_offset e) \<or> \<not> fits_i64 (st_event_index e) \<or>
          st_prefix_generation e = 0 \<or> st_timestamp e \<le> 0
       then Inl (InvalidImport (lit ''session task event is invalid''))
       else validate_sha256 (st_record_sha256 e) (lit ''session task event record''))"

record SessionPendingRange =
  sq_root_identity :: rstr
  sq_relative_path :: rstr
  sq_file_device :: u64
  sq_file_inode :: u64
  sq_start_offset :: u64
  sq_end_offset :: u64
  sq_collector_epoch :: u128
  sq_cycle_seq :: u64
  sq_prefix_generation :: u128
  sq_record_sha256 :: rstr
  sq_parser_version :: rstr
  sq_reason :: rstr
  sq_complete :: bool

definition label_valid :: "rstr \<Rightarrow> nat \<Rightarrow> bool" where
  "label_valid value limit \<longleftrightarrow> value \<noteq> [] \<and> str_len value \<le> limit \<and> \<not> list_ex is_control value"

definition validate_session_pending_range :: "SessionPendingRange \<Rightarrow> UsageStoreError + unit" where
  "validate_session_pending_range g =
     try_res (validate_session_key (sq_root_identity g) (sq_relative_path g)) (\<lambda>_.
       if \<not> fits_i64 (sq_start_offset g) \<or> \<not> fits_i64 (sq_end_offset g) \<or> sq_end_offset g < sq_start_offset g \<or>
          sq_collector_epoch g = 0 \<or> sq_cycle_seq g = 0 \<or> sq_prefix_generation g = 0 \<or>
          \<not> label_valid (sq_parser_version g) 128 \<or> \<not> label_valid (sq_reason g) 512
       then Inl (InvalidImport (lit ''session pending range is invalid''))
       else validate_sha256 (sq_record_sha256 g) (lit ''session pending range record''))"

section \<open>Token anchors\<close>

record SessionTokenAnchor =
  ta_root_identity :: rstr
  ta_relative_path :: rstr
  ta_file_device :: u64
  ta_file_inode :: u64
  ta_prefix_generation :: u128
  ta_committed_offset :: u64
  ta_prefix_sha256 :: rstr
  ta_collector_epoch :: u128
  ta_cycle_seq :: u64
  ta_fully_attributed_from_zero :: bool
  ta_total_tokens :: u64
  ta_input_tokens :: "u64 option"
  ta_cached_input_tokens :: "u64 option"
  ta_output_tokens :: "u64 option"
  ta_cache_write_input_tokens :: "u64 option"

record SessionTokenAnchorRecovery =
  tr_recovery_id :: rstr
  tr_pending :: SessionPendingRange
  tr_anchor :: SessionTokenAnchor
  tr_current_root_identity :: rstr
  tr_current_relative_path :: rstr
  tr_current_file_device :: u64
  tr_current_file_inode :: u64
  tr_cursor_offset :: u64
  tr_cursor_prefix_generation :: u128
  tr_cursor_collector_epoch :: u128
  tr_cursor_cycle_seq :: u64

text \<open>\<open>u128::to_be_bytes\<close>, and the parts of the digested message.\<close>

definition to_be_bytes_128 :: "u128 \<Rightarrow> u8 list" where
  "to_be_bytes_128 n = map (\<lambda>i. word_of_nat (unat n div 256 ^ i mod 256)) (rev [0..<16])"

definition text_bytes :: "rstr \<Rightarrow> u8 list" where
  "text_bytes value = to_be_bytes (word_of_nat (length (as_bytes value))) @ as_bytes value"

definition optional_bytes :: "u64 option \<Rightarrow> u8 list" where
  "optional_bytes value = (case value of Some v \<Rightarrow> 1 # to_be_bytes v | None \<Rightarrow> [0])"

definition bool_byte :: "bool \<Rightarrow> u8 list" where
  "bool_byte b = [if b then 1 else 0]"

definition anchor_partial :: "SessionTokenAnchor \<Rightarrow> bool" where
  "anchor_partial a \<longleftrightarrow> ta_input_tokens a = None \<or> ta_cached_input_tokens a = None \<or> ta_output_tokens a = None"

definition anchor_component :: "bool \<Rightarrow> u64 option \<Rightarrow> u8 list" where
  "anchor_component partial value = (if partial then optional_bytes value else to_be_bytes (the value))"

definition recovery_message :: "SessionPendingRange \<Rightarrow> SessionTokenAnchor \<Rightarrow> u8 list" where
  "recovery_message p a =
     as_bytes (if anchor_partial a then lit ''codex-info-session-token-anchor-recovery-v2'' @ [0]
               else lit ''codex-info-session-token-anchor-recovery-v1'' @ [0]) @
     concat (map text_bytes [sq_root_identity p, sq_relative_path p, sq_record_sha256 p, sq_parser_version p, sq_reason p]) @
     concat (map to_be_bytes [sq_file_device p, sq_file_inode p, sq_start_offset p, sq_end_offset p, sq_cycle_seq p]) @
     to_be_bytes_128 (sq_collector_epoch p) @ to_be_bytes_128 (sq_prefix_generation p) @ bool_byte (sq_complete p) @
     concat (map text_bytes [ta_root_identity a, ta_relative_path a]) @ text_bytes (ta_prefix_sha256 a) @
     concat (map to_be_bytes [ta_file_device a, ta_file_inode a, ta_committed_offset a, ta_cycle_seq a, ta_total_tokens a]) @
     concat (map (anchor_component (anchor_partial a)) [ta_input_tokens a, ta_cached_input_tokens a, ta_output_tokens a]) @
     to_be_bytes_128 (ta_prefix_generation a) @ to_be_bytes_128 (ta_collector_epoch a) @
     bool_byte (ta_fully_attributed_from_zero a) @ optional_bytes (ta_cache_write_input_tokens a)"

definition session_token_anchor_recovery_id ::
  "(u8 list \<Rightarrow> u8 list) \<Rightarrow> SessionPendingRange \<Rightarrow> SessionTokenAnchor \<Rightarrow> rstr" where
  "session_token_anchor_recovery_id sha256 p a = concat (map format_02x (sha256 (recovery_message p a)))"

definition anchor_facts :: "SessionTokenAnchor \<Rightarrow> TokenFacts" where
  "anchor_facts a = \<lparr>tf_total = ta_total_tokens a, tf_input = ta_input_tokens a, tf_cached_input = ta_cached_input_tokens a,
     tf_cache_write_input = ta_cache_write_input_tokens a, tf_output = ta_output_tokens a\<rparr>"

definition validate_session_token_anchor :: "SessionTokenAnchor \<Rightarrow> UsageStoreError + unit" where
  "validate_session_token_anchor a =
     try_res (validate_session_key (ta_root_identity a) (ta_relative_path a)) (\<lambda>_.
       if \<not> fits_i64 (ta_committed_offset a) \<or> ta_collector_epoch a = 0 \<or> ta_cycle_seq a = 0 \<or>
          ta_prefix_generation a = 0 \<or> \<not> is_ok (validate_raw_counter (anchor_facts a))
       then Inl (InvalidImport (lit ''session token anchor is invalid''))
       else validate_sha256 (ta_prefix_sha256 a) (lit ''session token anchor prefix''))"

definition recovery_invalid :: "(u8 list \<Rightarrow> u8 list) \<Rightarrow> SessionTokenAnchorRecovery \<Rightarrow> bool" where
  "recovery_invalid sha256 v \<longleftrightarrow>
     (let p = tr_pending v; a = tr_anchor v in
      sq_reason p \<noteq> lit ''checkpoint-token-anchor-missing'' \<or> \<not> sq_complete p \<or>
      tr_current_root_identity v \<noteq> sq_root_identity p \<or> tr_current_relative_path v \<noteq> sq_relative_path p \<or>
      tr_current_file_device v \<noteq> sq_file_device p \<or> tr_current_file_inode v \<noteq> sq_file_inode p \<or>
      \<not> fits_i64 (tr_cursor_offset v) \<or> tr_cursor_prefix_generation v = 0 \<or> tr_cursor_collector_epoch v = 0 \<or>
      tr_cursor_cycle_seq v = 0 \<or> tr_cursor_collector_epoch v \<noteq> ta_collector_epoch a \<or>
      sq_collector_epoch p \<noteq> ta_collector_epoch a \<or> ta_root_identity a \<noteq> tr_current_root_identity v \<or>
      ta_relative_path a \<noteq> tr_current_relative_path v \<or>
      tr_recovery_id v \<noteq> session_token_anchor_recovery_id sha256 p a)"

definition validate_session_token_anchor_recovery ::
  "(u8 list \<Rightarrow> u8 list) \<Rightarrow> SessionTokenAnchorRecovery \<Rightarrow> UsageStoreError + unit" where
  "validate_session_token_anchor_recovery sha256 v =
     try_res (validate_session_pending_range (tr_pending v)) (\<lambda>_.
     try_res (validate_session_token_anchor (tr_anchor v)) (\<lambda>_.
       if recovery_invalid sha256 v then Inl (InvalidImport (lit ''session token anchor recovery is invalid''))
       else validate_sha256 (tr_recovery_id v) (lit ''session token anchor recovery'')))"

section \<open>Prefix generations\<close>

text \<open>\<open>u128::from_be_bytes\<close> of the first sixteen bytes of the digest; never zero.\<close>

definition from_be_bytes_128 :: "u8 list \<Rightarrow> u128" where
  "from_be_bytes_128 bs = word_of_nat (foldl (\<lambda>n b. n * 256 + unat b) 0 bs)"

definition prefix_generation :: "(u8 list \<Rightarrow> u8 list) \<Rightarrow> u128 \<Rightarrow> RecordedSessionSource \<Rightarrow> rstr \<Rightarrow> u128" where
  "prefix_generation sha256 collector_epoch source prefix_sha256 =
     max (from_be_bytes_128 (take 16 (sha256
       (as_bytes (lit ''codex-info-session-prefix-v1'' @ [0]) @ to_be_bytes_128 collector_epoch @
        as_bytes (rss_root_identity source) @ [0] @ as_bytes (rss_relative_path source) @
        to_be_bytes (rss_file_device source) @ to_be_bytes (rss_file_inode source) @ as_bytes prefix_sha256)))) 1"

lemma prefix_generation_nonzero: "prefix_generation sha256 e s p \<noteq> 0"
proof -
  have "(1 :: u128) \<le> prefix_generation sha256 e s p" by (simp add: prefix_generation_def)
  then show ?thesis by auto
qed

end
