(* ===== verification/Scan_Cycle.thy ===== *)
theory Scan_Cycle
  imports Scan_Loop Session_Checkpoint
begin

text \<open>
  The code of \<open>scan_source_with_reader\<close> around the record loop: where a scan starts from a stored
  checkpoint, and the checkpoint, range, events and pending ranges it hands to the writer. What
  comes from the file system (the length at open, the digests of byte ranges, the state before
  an account boundary) is an input.
\<close>

definition EMPTY_SHA256 :: rstr where
  "EMPTY_SHA256 = lit ''e3b0c44298fc1c149afbf4c8996fb92427ae41e4649b934ca495991b7852b855''"

definition PARSER_VERSION :: rstr where
  "PARSER_VERSION = lit ''codex-info-session-recorder-v3''"

section \<open>The start of a scan\<close>

record scan_input =
  si_source :: RecordedSessionSource
  si_snapshot_len :: u64
  si_prior :: "SessionCheckpoint option"
  si_baseline_existing :: bool
  si_collector_epoch :: u128
  si_cycle_seq :: u64
  si_saved_recovery :: "SessionTokenAnchorRecovery option"
  si_legacy_generation :: "u128 option"
  si_ownership :: "SourceOwnership option"
  si_reset_at :: i64
  si_window_start :: i64
  si_max_bytes :: u64
  si_totals :: ModelTotals

text \<open>What the file shows at an account boundary: a partial last line, the model context before it, its lineage.\<close>

record boundary_view =
  bv_partial_tail :: bool
  bv_last_model :: "rstr option"
  bv_generation :: u128
  bv_sha256 :: rstr

definition same_file :: "RecordedSessionSource \<Rightarrow> SessionCheckpoint \<Rightarrow> bool" where
  "same_file source ck \<longleftrightarrow> ck_root_identity ck = rss_root_identity source \<and>
     ck_relative_path ck = rss_relative_path source \<and> ck_file_device ck = rss_file_device source \<and>
     ck_file_inode ck = rss_file_inode source"

definition continuous :: "scan_input \<Rightarrow> SessionCheckpoint option" where
  "continuous i =
     (case si_prior i of
        None \<Rightarrow> None
      | Some ck \<Rightarrow>
          if si_legacy_generation i = None \<and> \<not> si_baseline_existing i \<and>
             (ck_collector_epoch ck = si_collector_epoch i \<or> si_ownership i \<noteq> None) \<and>
             same_file (si_source i) ck \<and> ck_committed_offset ck \<le> si_snapshot_len i
          then Some ck else None)"

definition checkpoint_snapshot :: "SessionCheckpoint \<Rightarrow> TokenSnapshot" where
  "checkpoint_snapshot ck =
     \<lparr>ts_total = (case ck_previous_total ck of None \<Rightarrow> 0 | Some n \<Rightarrow> n), ts_input = ck_previous_input ck,
      ts_cached_input = ck_previous_cached_input ck, ts_output = ck_previous_output ck,
      ts_cache_write_input = ck_previous_cache_write_input ck\<rparr>"

definition anchor_snapshot :: "SessionTokenAnchor \<Rightarrow> TokenSnapshot" where
  "anchor_snapshot a =
     \<lparr>ts_total = ta_total_tokens a, ts_input = ta_input_tokens a, ts_cached_input = ta_cached_input_tokens a,
      ts_output = ta_output_tokens a, ts_cache_write_input = ta_cache_write_input_tokens a\<rparr>"

definition recovery_anchor :: "scan_input \<Rightarrow> TokenSnapshot option" where
  "recovery_anchor i =
     (case si_saved_recovery i of
        Some recovery \<Rightarrow> Some (anchor_snapshot (tr_anchor recovery))
      | None \<Rightarrow>
          if si_baseline_existing i then None
          else (case si_prior i of
              None \<Rightarrow> None
            | Some ck \<Rightarrow>
                if ck_token_baseline_known ck \<and> continuous i = None then Some (checkpoint_snapshot ck) else None))"

definition anchor_fully_attributed :: "scan_input \<Rightarrow> bool" where
  "anchor_fully_attributed i =
     (case si_saved_recovery i of
        Some recovery \<Rightarrow> ta_fully_attributed_from_zero (tr_anchor recovery)
      | None \<Rightarrow> (case si_prior i of None \<Rightarrow> False | Some ck \<Rightarrow> ck_fully_attributed_from_zero ck))"

definition zero_anchor_fully_attributed :: "scan_input \<Rightarrow> bool" where
  "zero_anchor_fully_attributed i =
     (case si_saved_recovery i of
        Some recovery \<Rightarrow> ta_fully_attributed_from_zero (tr_anchor recovery)
      | None \<Rightarrow>
          (case si_prior i of
             None \<Rightarrow> False
           | Some ck \<Rightarrow> ck_token_baseline_known ck \<and> ck_fully_attributed_from_zero ck))"

definition scan_params_of :: "(rstr \<Rightarrow> i64 option) \<Rightarrow> (u8 list \<Rightarrow> u8 list) \<Rightarrow> scan_input \<Rightarrow> scan_params" where
  "scan_params_of rfc3339 sha256 i =
     \<lparr>sp_rfc3339 = rfc3339, sp_sha256 = sha256, sp_reset_at = si_reset_at i, sp_window_start = si_window_start i,
      sp_max_bytes = si_max_bytes i, sp_recovery_anchor = recovery_anchor i,
      sp_anchor_fully_attributed = anchor_fully_attributed i, sp_first_scan = (si_prior i = None),
      sp_ownership = si_ownership i\<rparr>"

text \<open>The variables before the loop, from an offset and what a checkpoint carries.\<close>

definition scan_from ::
  "scan_input \<Rightarrow> u64 \<Rightarrow> ModelAttributionState \<Rightarrow> SourceAdmission option \<Rightarrow> scan_state" where
  "scan_from i start ctx adm =
     \<lparr>sn_fully_attributed = False, sn_baseline_known = False, sn_history_base_pending = False,
      sn_last_task_running = None, sn_context_usage_tokens = None, sn_context_window_tokens = None,
      sn_previous = TokenSnapshot_default, sn_model_context = ctx, sn_admission = adm,
      sn_recovery_anchor_found = (recovery_anchor i = None), sn_recovery_match = None,
      sn_discard_until_lf = False, sn_physical_offset = start, sn_consumed_bytes = 0, sn_unresolved = False,
      sn_unresolved_start = None, sn_evidence = [], sn_totals = si_totals i, sn_events = [],
      sn_token_observed_at = [], sn_task_events = [], sn_all_events = [], sn_event_proofs = [],
      sn_counter_proofs = [], sn_token_count_seen = False, sn_read_any = False, sn_record_index = 0\<rparr>"

definition checkpoint_context :: "SessionCheckpoint \<Rightarrow> ModelAttributionState" where
  "checkpoint_context ck =
     \<lparr>ma_model = ck_last_model ck,
      ma_kind = (case ck_last_model_context_kind ck of None \<Rightarrow> CtxUnknown | Some k \<Rightarrow> k),
      ma_interval = (case ck_last_model_interval ck of None \<Rightarrow> IntervalUnknown | Some v \<Rightarrow> v)\<rparr>"

definition scan_resume :: "scan_input \<Rightarrow> SessionCheckpoint \<Rightarrow> scan_state" where
  "scan_resume i ck =
     (let start = ck_committed_offset ck;
          (usage, window) = canonical_context_pair (ck_context_usage_tokens ck) (ck_context_window_tokens ck)
      in (scan_from i start
            (if start = 0 then ModelAttributionState_new else checkpoint_context ck)
            (if start = 0 then Some from_prefix_start else ck_source_admission ck))
         \<lparr>sn_discard_until_lf := ck_discard_until_lf ck, sn_fully_attributed := ck_fully_attributed_from_zero ck,
          sn_baseline_known := ck_token_baseline_known ck, sn_history_base_pending := ck_history_base_pending ck,
          sn_last_task_running := ck_last_task_running ck, sn_context_usage_tokens := usage,
          sn_context_window_tokens := window, sn_previous := checkpoint_snapshot ck\<rparr>)"

definition scan_boundary :: "scan_input \<Rightarrow> boundary_view \<Rightarrow> scan_state" where
  "scan_boundary i v =
     (let start = si_snapshot_len i
      in (scan_from i start
            (if start = 0 then ModelAttributionState_new
             else \<lparr>ma_model = bv_last_model v, ma_kind = CtxUnknown, ma_interval = IntervalUnknown\<rparr>)
            (if start = 0 then Some from_prefix_start else None))
         \<lparr>sn_discard_until_lf := bv_partial_tail v\<rparr>)"

definition scan_fresh :: "scan_input \<Rightarrow> scan_state" where
  "scan_fresh i =
     (scan_from i 0 ModelAttributionState_new (Some from_prefix_start))
     \<lparr>sn_fully_attributed := (si_prior i = None \<and> \<not> si_baseline_existing i)\<rparr>"

text \<open>A zero anchor needs no counter to be found: the source starts at it.\<close>

definition adopt_zero_anchor :: "scan_input \<Rightarrow> scan_state \<Rightarrow> scan_state" where
  "adopt_zero_anchor i st =
     (case recovery_anchor i of
        None \<Rightarrow> st
      | Some anchor \<Rightarrow>
          if TokenSnapshot_is_zero anchor \<and> zero_anchor_fully_attributed i \<and>
             (sn_physical_offset st = 0 \<or> TokenSnapshot_is_zero (sn_previous st))
          then st\<lparr>sn_previous := anchor, sn_baseline_known := True, sn_fully_attributed := True,
                  sn_recovery_anchor_found := True, sn_recovery_match := Some (anchor, 0, 0)\<rparr>
          else st)"

definition scan_begin :: "scan_input \<Rightarrow> boundary_view \<Rightarrow> scan_state" where
  "scan_begin i v =
     adopt_zero_anchor i
       (case continuous i of
          Some ck \<Rightarrow> scan_resume i ck
        | None \<Rightarrow> if si_baseline_existing i then scan_boundary i v else scan_fresh i)"

section \<open>The end of a scan\<close>

definition end_offset :: "scan_state \<Rightarrow> u64" where
  "end_offset st = (case sn_unresolved_start st of None \<Rightarrow> sn_physical_offset st | Some start \<Rightarrow> start)"

definition scan_close :: "scan_input \<Rightarrow> u64 \<Rightarrow> scan_state \<Rightarrow> scan_state" where
  "scan_close i admitted_start st =
     (let st = (if sn_physical_offset st < si_snapshot_len i \<and> sn_consumed_bytes st \<ge> si_max_bytes i \<and>
                   sn_unresolved_start st = None
                then st\<lparr>sn_unresolved := True,
                        sn_evidence := evidence_range (sn_physical_offset st, si_snapshot_len i,
                          lit ''cycle-budget-backlog'', False) (sn_evidence st)\<rparr>
                else st);
          st = (if recovery_anchor i \<noteq> None \<and> \<not> sn_recovery_anchor_found st
                then (let st = st\<lparr>sn_unresolved := True\<rparr>
                      in if si_saved_recovery i = None
                         then st\<lparr>sn_evidence := evidence_range (admitted_start, end_offset st,
                                lit ''checkpoint-token-anchor-missing'', True) (sn_evidence st)\<rparr>
                         else st)
                else st)
      in if sn_unresolved st then st else st\<lparr>sn_discard_until_lf := False\<rparr>)"

definition scan_checkpoint :: "scan_input \<Rightarrow> u128 \<Rightarrow> rstr \<Rightarrow> scan_state \<Rightarrow> SessionCheckpoint" where
  "scan_checkpoint i generation prefix_sha st =
     \<lparr>ck_root_identity = rss_root_identity (si_source i), ck_relative_path = rss_relative_path (si_source i),
      ck_file_device = rss_file_device (si_source i), ck_file_inode = rss_file_inode (si_source i),
      ck_committed_offset = end_offset st, ck_discard_until_lf = sn_discard_until_lf st,
      ck_collector_epoch = si_collector_epoch i, ck_cycle_seq = si_cycle_seq i,
      ck_prefix_generation = generation, ck_prefix_sha256 = prefix_sha,
      ck_fully_attributed_from_zero = sn_fully_attributed st,
      ck_token_baseline_known = sn_baseline_known st, ck_history_base_pending = sn_history_base_pending st,
      ck_last_model = ma_model (sn_model_context st),
      ck_last_model_context_kind = Some (ma_kind (sn_model_context st)),
      ck_last_model_interval = Some (ma_interval (sn_model_context st)),
      ck_source_admission = sn_admission st, ck_last_task_running = sn_last_task_running st,
      ck_context_usage_tokens = sn_context_usage_tokens st, ck_context_window_tokens = sn_context_window_tokens st,
      ck_previous_total = (if sn_baseline_known st then Some (ts_total (sn_previous st)) else None),
      ck_previous_input = ts_input (sn_previous st), ck_previous_cached_input = ts_cached_input (sn_previous st),
      ck_previous_output = ts_output (sn_previous st),
      ck_previous_cache_write_input = ts_cache_write_input (sn_previous st)\<rparr>"

text \<open>The generation and digest of the prefix: unchanged on a resumed file, renewed on one read from its start.\<close>

definition scan_lineage ::
  "(u8 list \<Rightarrow> u8 list) \<Rightarrow> scan_input \<Rightarrow> boundary_view \<Rightarrow> u64 \<Rightarrow> rstr option \<Rightarrow> u128 \<times> rstr" where
  "scan_lineage sha256 i v admitted_start accepted_digest =
     (let (generation, prefix_sha) =
            (case continuous i of
               Some ck \<Rightarrow> (ck_prefix_generation ck, ck_prefix_sha256 ck)
             | None \<Rightarrow>
                 if si_baseline_existing i then (bv_generation v, bv_sha256 v)
                 else (case si_legacy_generation i of
                       Some g \<Rightarrow> g
                     | None \<Rightarrow> prefix_generation sha256 (si_collector_epoch i) (si_source i) EMPTY_SHA256,
                     EMPTY_SHA256))
      in if admitted_start = 0
         then (let prefix_sha = (case accepted_digest of None \<Rightarrow> EMPTY_SHA256 | Some d \<Rightarrow> d)
               in (if si_legacy_generation i = None
                   then prefix_generation sha256 (si_collector_epoch i) (si_source i) prefix_sha else generation,
                   prefix_sha))
         else (generation, prefix_sha))"

definition scan_range :: "scan_input \<Rightarrow> (u64 \<Rightarrow> u64 \<Rightarrow> rstr) \<Rightarrow> u64 \<Rightarrow> SessionCheckpoint \<Rightarrow> SessionRange option" where
  "scan_range i digest admitted_start ck =
     (let ends = ck_committed_offset ck; at_boundary = si_baseline_existing i \<and> admitted_start > 0 in
      if ends > admitted_start \<or> at_boundary
      then Some \<lparr>sg_root_identity = ck_root_identity ck, sg_relative_path = ck_relative_path ck,
             sg_file_device = ck_file_device ck, sg_file_inode = ck_file_inode ck,
             sg_start_offset = (if at_boundary then 0 else admitted_start), sg_end_offset = ends,
             sg_collector_epoch = si_collector_epoch i, sg_cycle_seq = si_cycle_seq i,
             sg_prefix_generation = ck_prefix_generation ck,
             sg_record_sha256 = (if at_boundary then digest 0 admitted_start else digest admitted_start ends)\<rparr>
      else None)"

definition durable_event :: "SessionRange \<Rightarrow> nat \<times> TimedModelUsage \<Rightarrow> RecorderError + SessionEvent" where
  "durable_event g indexed =
     (let (event_index, event) = indexed in
      if event_index < 2 ^ 64
      then Inr \<lparr>se_root_identity = sg_root_identity g, se_relative_path = sg_relative_path g,
             se_file_device = sg_file_device g, se_file_inode = sg_file_inode g,
             se_prefix_generation = sg_prefix_generation g, se_range_start = sg_start_offset g,
             se_range_end = sg_end_offset g, se_record_sha256 = sg_record_sha256 g,
             se_event_index = word_of_nat event_index, se_timestamp = tm_timestamp event, se_model = tm_model event,
             se_total_tokens = ts_total (tm_delta event), se_input_tokens = ts_input (tm_delta event),
             se_cached_input_tokens = ts_cached_input (tm_delta event), se_output_tokens = ts_output (tm_delta event),
             se_cache_write_input_tokens = ts_cache_write_input (tm_delta event)\<rparr>
      else Inl (RecorderInvalid (lit ''session event index overflow'')))"

definition durable_events :: "SessionRange option \<Rightarrow> scan_state \<Rightarrow> RecorderError + SessionEvent list" where
  "durable_events g st =
     (case g of
        Some g \<Rightarrow> map_res (durable_event g) (List.enumerate 0 (sn_all_events st))
      | None \<Rightarrow>
          if sn_events st = [] then Inr []
          else Inl (RecorderInvalid (lit ''session events have no accepted source range'')))"

definition task_event :: "SessionRange \<Rightarrow> TaskObservation \<Rightarrow> SessionTaskEvent" where
  "task_event g t =
     \<lparr>st_root_identity = sg_root_identity g, st_relative_path = sg_relative_path g, st_file_device = sg_file_device g,
      st_file_inode = sg_file_inode g, st_prefix_generation = sg_prefix_generation g,
      st_start_offset = sg_start_offset g, st_end_offset = sg_end_offset g, st_record_sha256 = sg_record_sha256 g,
      st_event_index = to_event_index t, st_timestamp = to_timestamp t, st_running = to_running t\<rparr>"

definition pending_range :: "scan_input \<Rightarrow> (u64 \<Rightarrow> u64 \<Rightarrow> rstr) \<Rightarrow> SessionCheckpoint \<Rightarrow> evidence \<Rightarrow> SessionPendingRange" where
  "pending_range i digest ck entry =
     (let (start, ends, reason, complete) = entry in
      \<lparr>sq_root_identity = ck_root_identity ck, sq_relative_path = ck_relative_path ck, sq_file_device = ck_file_device ck,
       sq_file_inode = ck_file_inode ck, sq_start_offset = start, sq_end_offset = ends,
       sq_collector_epoch = si_collector_epoch i, sq_cycle_seq = si_cycle_seq i,
       sq_prefix_generation = ck_prefix_generation ck,
       sq_record_sha256 = (if start = ends then EMPTY_SHA256 else digest start ends),
       sq_parser_version = PARSER_VERSION, sq_reason = reason, sq_complete = complete\<rparr>)"

definition same_checkpoint_content :: "SessionCheckpoint \<Rightarrow> SessionCheckpoint \<Rightarrow> bool" where
  "same_checkpoint_content left right \<longleftrightarrow>
     ck_root_identity left = ck_root_identity right \<and> ck_relative_path left = ck_relative_path right \<and>
     ck_file_device left = ck_file_device right \<and> ck_file_inode left = ck_file_inode right \<and>
     ck_committed_offset left = ck_committed_offset right \<and> ck_discard_until_lf left = ck_discard_until_lf right \<and>
     ck_prefix_generation left = ck_prefix_generation right \<and> ck_prefix_sha256 left = ck_prefix_sha256 right \<and>
     ck_fully_attributed_from_zero left = ck_fully_attributed_from_zero right \<and>
     ck_token_baseline_known left = ck_token_baseline_known right \<and> ck_last_model left = ck_last_model right \<and>
     ck_last_model_context_kind left = ck_last_model_context_kind right \<and>
     ck_last_model_interval left = ck_last_model_interval right \<and>
     ck_source_admission left = ck_source_admission right \<and> ck_last_task_running left = ck_last_task_running right \<and>
     ck_previous_total left = ck_previous_total right \<and> ck_previous_input left = ck_previous_input right \<and>
     ck_previous_cached_input left = ck_previous_cached_input right \<and>
     ck_previous_output left = ck_previous_output right \<and>
     ck_previous_cache_write_input left = ck_previous_cache_write_input right"

record SourceOutcome =
  oc_checkpoint :: SessionCheckpoint
  oc_range :: "SessionRange option"
  oc_events :: "SessionEvent list"
  oc_event_proofs :: "LegacyCounterProof list"
  oc_counter_proofs :: "LegacyCounterProof list"
  oc_token_observed_at :: "i64 list"
  oc_task_events :: "SessionTaskEvent list"
  oc_task_indexed_range :: "SessionTaskIndexedRange option"
  oc_pending :: "SessionPendingRange list"
  oc_unresolved :: bool
  oc_changed :: bool
  oc_consumed_bytes :: u64
  oc_totals :: ModelTotals
  oc_new_events :: "TimedModelUsage list"

definition finalize_prefix_qualification :: "bool \<Rightarrow> SourceOutcome \<Rightarrow> SourceOutcome" where
  "finalize_prefix_qualification candidate oc =
     (let ck = oc_checkpoint oc;
          unresolved_response =
            (case ck_source_admission ck of None \<Rightarrow> False | Some state \<Rightarrow> sa_responses state \<noteq> []);
          independent_prefix_gap =
            list_ex (\<lambda>pending. sq_complete pending \<and> sq_start_offset pending < ck_committed_offset ck) (oc_pending oc)
      in oc\<lparr>oc_checkpoint := ck\<lparr>ck_fully_attributed_from_zero :=
                candidate \<and> \<not> independent_prefix_gap \<and> \<not> unresolved_response\<rparr>,
            oc_unresolved := (oc_pending oc \<noteq> [] \<or> unresolved_response)\<rparr>)"

definition scan_outcome ::
  "(u8 list \<Rightarrow> u8 list) \<Rightarrow> scan_input \<Rightarrow> boundary_view \<Rightarrow> (u64 \<Rightarrow> u64 \<Rightarrow> rstr) \<Rightarrow> u64 \<Rightarrow> scan_state \<Rightarrow>
   RecorderError + SourceOutcome" where
  "scan_outcome sha256 i v digest admitted_start st =
     (let st = scan_close i admitted_start st;
          accepted = (if end_offset st > admitted_start then Some (digest admitted_start (end_offset st)) else None);
          (generation, prefix_sha) = scan_lineage sha256 i v admitted_start accepted;
          ck = scan_checkpoint i generation prefix_sha st;
          g = scan_range i digest admitted_start ck;
          indexed = (if sn_unresolved st \<or> si_baseline_existing i then None else g)
      in try_res (durable_events g st) (\<lambda>events.
           let oc = finalize_prefix_qualification (sn_fully_attributed st \<or> admitted_start = 0)
             \<lparr>oc_checkpoint = ck, oc_range = g, oc_events = events, oc_event_proofs = sn_event_proofs st,
              oc_counter_proofs = sn_counter_proofs st, oc_token_observed_at = sn_token_observed_at st,
              oc_task_events = (case indexed of None \<Rightarrow> [] | Some g \<Rightarrow> map (task_event g) (sn_task_events st)),
              oc_task_indexed_range = indexed, oc_pending = map (pending_range i digest ck) (sn_evidence st),
              oc_unresolved = sn_unresolved st, oc_changed = True, oc_consumed_bytes = sn_consumed_bytes st,
              oc_totals = sn_totals st, oc_new_events = sn_events st\<rparr>
           in Inr (oc\<lparr>oc_changed := (case si_prior i of
                      None \<Rightarrow> True | Some old \<Rightarrow> \<not> same_checkpoint_content old (oc_checkpoint oc))\<rparr>)))"

definition scan_source ::
  "(rstr \<Rightarrow> i64 option) \<Rightarrow> (u8 list \<Rightarrow> u8 list) \<Rightarrow> scan_input \<Rightarrow> boundary_view \<Rightarrow> (u64 \<Rightarrow> u64 \<Rightarrow> rstr) \<Rightarrow>
   record_read list \<Rightarrow> RecorderError + SourceOutcome" where
  "scan_source rfc3339 sha256 i v digest reads =
     (let st = scan_begin i v
      in try_res (scan_loop (scan_params_of rfc3339 sha256 i) reads st)
           (scan_outcome sha256 i v digest (sn_physical_offset st)))"

end
