(* ===== verification/Scan_History.thy ===== *)
theory Scan_History
  imports Scan_Cycle
begin

text \<open>
  The checkpoints a source gets over many scans: the first scan, scans that continue a stored
  checkpoint, and account bindings attached in between. Every such checkpoint can be scanned
  on, fails only on the arithmetic of the totals, and is one the writer accepts.
\<close>

section \<open>Histories\<close>

text \<open>The identity of the scan and the bytes it reads.\<close>

definition scan_env :: "scan_input \<Rightarrow> record_read list \<Rightarrow> u64 \<Rightarrow> bool" where
  "scan_env i reads start \<longleftrightarrow>
     validate_session_key (rss_root_identity (si_source i)) (rss_relative_path (si_source i)) = Inr () \<and>
     si_collector_epoch i \<noteq> 0 \<and> si_cycle_seq i \<noteq> 0 \<and> si_saved_recovery i = None \<and> si_legacy_generation i = None \<and>
     \<not> si_baseline_existing i \<and> list_all read_ok reads \<and>
     unat start + sum_list (map read_bytes reads) \<le> 2 ^ 63 - 1"

definition is_digest :: "rstr \<Rightarrow> bool" where
  "is_digest d = is_ok (validate_sha256 d [])"

inductive scanned ::
  "(rstr \<Rightarrow> i64 option) \<Rightarrow> (u8 list \<Rightarrow> u8 list) \<Rightarrow> (u64 \<Rightarrow> u64 \<Rightarrow> rstr) \<Rightarrow> SessionCheckpoint \<Rightarrow> bool"
  for rfc3339 sha256 digest where
  first: "si_prior i = None \<Longrightarrow> scan_env i reads 0 \<Longrightarrow>
     scan_source rfc3339 sha256 i v digest reads = Inr oc \<Longrightarrow> scanned rfc3339 sha256 digest (oc_checkpoint oc)"
| again: "scanned rfc3339 sha256 digest ck \<Longrightarrow> si_prior i = Some ck \<Longrightarrow> continuous i = Some ck \<Longrightarrow>
     scan_env i reads (ck_committed_offset ck) \<Longrightarrow>
     scan_source rfc3339 sha256 i v digest reads = Inr oc \<Longrightarrow> scanned rfc3339 sha256 digest (oc_checkpoint oc)"
| bound: "scanned rfc3339 sha256 digest ck \<Longrightarrow> ck_source_admission ck = Some a \<Longrightarrow>
     SourceAdmission_valid sha256 (a\<lparr>sa_account_binding := Some b\<rparr>) (ck_committed_offset ck) \<Longrightarrow>
     matches_checkpoint b ck \<Longrightarrow>
     scanned rfc3339 sha256 digest (ck\<lparr>ck_source_admission := Some (a\<lparr>sa_account_binding := Some b\<rparr>)\<rparr>)"

section \<open>What a stored checkpoint carries\<close>

definition identity_ok :: "SessionCheckpoint \<Rightarrow> bool" where
  "identity_ok ck \<longleftrightarrow> validate_session_key (ck_root_identity ck) (ck_relative_path ck) = Inr () \<and>
     fits_i64 (ck_committed_offset ck) \<and> ck_collector_epoch ck \<noteq> 0 \<and> ck_cycle_seq ck \<noteq> 0 \<and>
     ck_prefix_generation ck \<noteq> 0 \<and> is_digest (ck_prefix_sha256 ck)"

definition carried_ok :: "(u8 list \<Rightarrow> u8 list) \<Rightarrow> SessionCheckpoint \<Rightarrow> bool" where
  "carried_ok sha256 ck \<longleftrightarrow>
     pred_option (lane_ok sha256 (ck_committed_offset ck)) (ck_source_admission ck) \<and>
     pred_option (\<lambda>b. matches_checkpoint b ck) (Option.bind (ck_source_admission ck) sa_account_binding) \<and>
     attribution_ok (checkpoint_context ck) \<and> ck_last_model_context_kind ck \<noteq> None \<and> ck_last_model_interval ck \<noteq> None \<and>
     (ck_token_baseline_known ck \<longrightarrow> ck_committed_offset ck \<noteq> 0 \<and> TokenSnapshot_valid_raw (checkpoint_snapshot ck)) \<and>
     (ck_previous_total ck \<noteq> None \<longleftrightarrow> ck_token_baseline_known ck) \<and>
     (case ck_source_admission ck of
        None \<Rightarrow> True
      | Some a \<Rightarrow> sa_stream a = ResponseRecordStream \<or> sa_responses a \<noteq> [] \<or>
          (qualifying (ma_kind (checkpoint_context ck)) \<longrightarrow> sa_adopted_context a \<noteq> None) \<and>
          (ck_token_baseline_known ck \<longrightarrow> sa_previous_raw a \<noteq> None))"

section \<open>Starting\<close>

lemma no_anchor: "scan_env i reads s \<Longrightarrow> si_prior i = None \<or> continuous i \<noteq> None \<Longrightarrow> recovery_anchor i = None"
  by (auto simp: recovery_anchor_def scan_env_def split: option.split)

lemma begin_first:
  assumes "scan_env i reads 0" "si_prior i = None"
  shows "scan_begin i v = scan_fresh i"
  using assms no_anchor[OF assms(1)]
  by (simp add: scan_begin_def continuous_def scan_env_def adopt_zero_anchor_def)

lemma begin_again:
  assumes "scan_env i reads s" "continuous i = Some ck"
  shows "scan_begin i v = scan_resume i ck"
  using assms no_anchor[OF assms(1)] by (simp add: scan_begin_def adopt_zero_anchor_def)

lemma prefix_start_fields [simp]:
  "sa_previous_raw from_prefix_start = None" "sa_adopted_context from_prefix_start = None"
  "sa_account_binding from_prefix_start = None"
  by (simp_all add: from_prefix_start_def)

lemma fresh_ok:
  assumes "recovery_anchor i = None"
  shows "scan_ok (scan_params_of rfc3339 sha256 i) 0 (scan_fresh i)" "cursor_ok (scan_fresh i)"
    "sn_unresolved_start (scan_fresh i) = None" "sn_physical_offset (scan_fresh i) = 0" "sn_events (scan_fresh i) = []"
  by (simp_all add: scan_fresh_def scan_from_def scan_ok_def cursor_ok_def lane_ok_start attribution_ok_new previous_ok_def
      held_ok_def events_ok_def raw_pointer_def chained_def)

lemma resume_fields:
  "sn_physical_offset (scan_resume i ck) = ck_committed_offset ck" "sn_unresolved_start (scan_resume i ck) = None"
  "sn_events (scan_resume i ck) = []" "sn_all_events (scan_resume i ck) = []" "sn_event_proofs (scan_resume i ck) = []"
  "sn_baseline_known (scan_resume i ck) = ck_token_baseline_known ck" "sn_previous (scan_resume i ck) = checkpoint_snapshot ck"
  "sn_admission (scan_resume i ck) = (if ck_committed_offset ck = 0 then Some from_prefix_start else ck_source_admission ck)"
  "sn_model_context (scan_resume i ck) = (if ck_committed_offset ck = 0 then ModelAttributionState_new else checkpoint_context ck)"
  by (simp_all add: scan_resume_def scan_from_def Let_def split: prod.split)

lemma resume_ok:
  assumes "carried_ok sha256 ck"
  shows "scan_ok (scan_params_of rfc3339 sha256 i) (ck_committed_offset ck) (scan_resume i ck)" "cursor_ok (scan_resume i ck)"
proof -
  have "sp_sha256 (scan_params_of rfc3339 sha256 i) = sha256" by (simp add: scan_params_of_def)
  then show "scan_ok (scan_params_of rfc3339 sha256 i) (ck_committed_offset ck) (scan_resume i ck)"
    using assms attribution_ok_new
    by (cases "ck_source_admission ck"; cases "ck_committed_offset ck = 0")
      (auto simp: scan_ok_def resume_fields lane_ok_start previous_ok_def held_ok_def counter_is_secondary_def adopted_def
        raw_pointer_def events_ok_def chained_def carried_ok_def option.pred_True)
  show "cursor_ok (scan_resume i ck)" using assms by (auto simp: cursor_ok_def resume_fields carried_ok_def)
qed

section \<open>Ending\<close>

lemma close_fields [simp]:
  "sn_admission (scan_close i s st) = sn_admission st" "sn_model_context (scan_close i s st) = sn_model_context st"
  "sn_baseline_known (scan_close i s st) = sn_baseline_known st" "sn_previous (scan_close i s st) = sn_previous st"
  "sn_physical_offset (scan_close i s st) = sn_physical_offset st" "sn_unresolved_start (scan_close i s st) = sn_unresolved_start st"
  "sn_all_events (scan_close i s st) = sn_all_events st" "sn_event_proofs (scan_close i s st) = sn_event_proofs st"
  "sn_events (scan_close i s st) = sn_events st" "sn_history_base_pending (scan_close i s st) = sn_history_base_pending st"
  "sn_last_task_running (scan_close i s st) = sn_last_task_running st"
  "sn_context_usage_tokens (scan_close i s st) = sn_context_usage_tokens st"
  "sn_context_window_tokens (scan_close i s st) = sn_context_window_tokens st"
  by (simp_all add: scan_close_def Let_def)

lemma close_end [simp]: "end_offset (scan_close i s st) = end_offset st"
  by (cases "sn_unresolved_start st") (simp_all add: end_offset_def)

lemma cursor_end: "cursor_ok st \<Longrightarrow> end_offset st = sn_physical_offset st"
  by (auto simp: cursor_ok_def end_offset_def)

text \<open>The checkpoint of an outcome, up to the flag that \<open>finalize_prefix_qualification\<close> sets.\<close>

lemma scan_outcomeD:
  assumes "scan_outcome sha256 i v digest start st = Inr oc" "cursor_ok st"
  defines "lineage \<equiv> scan_lineage sha256 i v start
    (if sn_physical_offset st > start then Some (digest start (sn_physical_offset st)) else None)"
  obtains full discard where
    "oc_checkpoint oc = (scan_checkpoint i (fst lineage) (snd lineage) st)
       \<lparr>ck_fully_attributed_from_zero := full, ck_discard_until_lf := discard\<rparr>"
    "oc_event_proofs oc = sn_event_proofs st"
    "oc_range oc = scan_range i digest start (scan_checkpoint i (fst lineage) (snd lineage) (scan_close i start st))"
    "durable_events (oc_range oc) st = Inr (oc_events oc)"
proof -
  let ?st = "scan_close i start st"
  have "oc_event_proofs oc = sn_event_proofs st"
    "oc_range oc = scan_range i digest start (scan_checkpoint i (fst lineage) (snd lineage) ?st)"
    "durable_events (oc_range oc) ?st = Inr (oc_events oc)"
    "\<exists>full. oc_checkpoint oc = (scan_checkpoint i (fst lineage) (snd lineage) ?st)\<lparr>ck_fully_attributed_from_zero := full\<rparr>"
    using assms(1) cursor_end[OF assms(2)]
    by (auto simp: scan_outcome_def Let_def lineage_def result_simps finalize_prefix_qualification_def case_prod_beta)
  moreover have "durable_events g ?st = durable_events g st" for g by (cases g) (simp_all add: durable_events_def)
  moreover have "(scan_checkpoint i g d ?st)\<lparr>ck_fully_attributed_from_zero := full\<rparr> = (scan_checkpoint i g d st)
      \<lparr>ck_fully_attributed_from_zero := full, ck_discard_until_lf := sn_discard_until_lf ?st\<rparr>" for g d full
    by (simp add: scan_checkpoint_def)
  ultimately show ?thesis using that by metis
qed

lemma is_digest_label: "is_digest d \<longleftrightarrow> is_ok (validate_sha256 d label)"
  using validate_sha256_label[of d] by (simp add: is_digest_def)

lemma empty_digest: "is_digest EMPTY_SHA256"
  by (simp add: is_digest_def validate_sha256_def EMPTY_SHA256_def lit_def is_ok_def str_len_def utf8_width_def
      is_lower_hex_digit_def is_ascii_digit_def)

lemma lineage_first:
  assumes "scan_env i reads s" "continuous i = None" "pred_option is_digest d"
  shows "fst (scan_lineage sha256 i v 0 d) \<noteq> 0" "is_digest (snd (scan_lineage sha256 i v 0 d))"
  using assms empty_digest
  by (auto simp: scan_lineage_def scan_env_def prefix_generation_nonzero Let_def split: option.splits)

lemma lineage_again:
  assumes "scan_env i reads s" "continuous i = Some ck" "identity_ok ck" "pred_option is_digest d"
  shows "fst (scan_lineage sha256 i v start d) \<noteq> 0" "is_digest (snd (scan_lineage sha256 i v start d))"
    "start \<noteq> 0 \<Longrightarrow> fst (scan_lineage sha256 i v start d) = ck_prefix_generation ck"
  using assms empty_digest
  by (auto simp: scan_lineage_def scan_env_def prefix_generation_nonzero identity_ok_def Let_def split: option.splits)

lemma checkpoint_identity:
  assumes "scan_env i reads s" "g \<noteq> 0" "is_digest d" "cursor_ok st" "unat (sn_physical_offset st) \<le> 2 ^ 63 - 1"
  shows "identity_ok ((scan_checkpoint i g d st)\<lparr>ck_fully_attributed_from_zero := x, ck_discard_until_lf := y\<rparr>)"
  using assms cursor_end[OF assms(4)] by (simp add: identity_ok_def scan_checkpoint_def scan_env_def fits_i64_def)

lemma checkpoint_carried:
  assumes "scan_ok p (sn_physical_offset st) st" "cursor_ok st" "sp_sha256 p = sha256" "sp_recovery_anchor p = None"
    and ck_def: "ck = (scan_checkpoint i g d st)\<lparr>ck_fully_attributed_from_zero := x, ck_discard_until_lf := y\<rparr>"
    and "pred_option (\<lambda>b. matches_checkpoint b ck) (bound_to st)"
  shows "carried_ok sha256 ck"
proof -
  have ctx: "checkpoint_context ck = sn_model_context st"
    "ck_committed_offset ck = sn_physical_offset st" "ck_source_admission ck = sn_admission st"
    "ck_token_baseline_known ck = sn_baseline_known st"
    "ck_previous_total ck = (if sn_baseline_known st then Some (ts_total (sn_previous st)) else None)"
    using cursor_end[OF assms(2)] by (simp_all add: ck_def checkpoint_context_def scan_checkpoint_def)
  have snap: "sn_baseline_known st \<Longrightarrow> checkpoint_snapshot ck = sn_previous st"
    by (simp add: ck_def checkpoint_snapshot_def scan_checkpoint_def)
  have kinds: "ck_last_model_context_kind ck \<noteq> None" "ck_last_model_interval ck \<noteq> None"
    by (simp_all add: ck_def scan_checkpoint_def)
  have "held_ok p st" "anchored p st" using assms(1,4) by (simp_all add: scan_ok_def anchored_def)
  then have held: "case sn_admission st of None \<Rightarrow> True | Some a \<Rightarrow> sa_stream a = ResponseRecordStream \<or> sa_responses a \<noteq> [] \<or>
      (qualifying (ma_kind (sn_model_context st)) \<longrightarrow> sa_adopted_context a \<noteq> None) \<and>
      (sn_baseline_known st \<longrightarrow> sa_previous_raw a \<noteq> None)"
    by (auto simp: held_ok_def counter_is_secondary_def adopted_def raw_pointer_def split: option.split)
  have "sn_baseline_known st \<longrightarrow> sn_physical_offset st \<noteq> 0 \<and> TokenSnapshot_valid_raw (checkpoint_snapshot ck)"
    using assms(1,2) snap by (auto simp: cursor_ok_def scan_ok_def previous_ok_def)
  then show ?thesis
    using assms(1,3,6) kinds held unfolding carried_ok_def ctx by (simp add: scan_ok_def bound_to_def)
qed

lemma matches_checkpoint_move:
  assumes "matches_checkpoint b ck" "SourceAccountBinding_valid b (ck_committed_offset ck')"
    "ck_root_identity ck' = ck_root_identity ck" "ck_relative_path ck' = ck_relative_path ck"
    "ck_file_device ck' = ck_file_device ck" "ck_file_inode ck' = ck_file_inode ck"
    "ck_prefix_generation ck' = ck_prefix_generation ck"
  shows "matches_checkpoint b ck'"
  using assms by (simp add: matches_checkpoint_def)

section \<open>Every stored checkpoint\<close>

lemma scan_sourceD:
  assumes "scan_source rfc3339 sha256 i v digest reads = Inr oc"
  obtains st where "scan_loop (scan_params_of rfc3339 sha256 i) reads (scan_begin i v) = Inr st"
    "scan_outcome sha256 i v digest (sn_physical_offset (scan_begin i v)) st = Inr oc"
  using assms by (auto simp: scan_source_def Let_def result_simps)

lemma params_fields [simp]:
  "sp_sha256 (scan_params_of f h i) = h" "sp_recovery_anchor (scan_params_of f h i) = recovery_anchor i"
  by (simp_all add: scan_params_of_def)

lemma loop_from:
  assumes "scan_ok (scan_params_of f h i) (sn_physical_offset st) st" "cursor_ok st" "sn_unresolved_start st = None"
    "scan_env i reads (sn_physical_offset st)"
  shows "loop_ends (scan_params_of f h i) st (2 ^ 63 - 1) (scan_loop (scan_params_of f h i) reads st)"
proof -
  have b: "unat (sn_physical_offset st) + sum_list (map read_bytes reads) \<le> 2 ^ 63 - 1" "list_all read_ok reads"
    using assms(4) by (simp_all add: scan_env_def)
  have "loop_ends (scan_params_of f h i) st (unat (sn_physical_offset st) + sum_list (map read_bytes reads))
      (scan_loop (scan_params_of f h i) reads st)"
    by (rule scan_loop_ends) (use assms b in auto)
  then show ?thesis using b by (auto simp: loop_ends_def split: sum.splits)
qed

lemma first_stored:
  assumes "si_prior i = None" "scan_env i reads 0" "scan_source rfc3339 sha256 i v digest reads = Inr oc"
    "\<And>s e. is_digest (digest s e)"
  shows "identity_ok (oc_checkpoint oc) \<and> carried_ok sha256 (oc_checkpoint oc)"
proof -
  let ?p = "scan_params_of rfc3339 sha256 i"
  have anchor: "recovery_anchor i = None" "continuous i = None"
    using no_anchor[OF assms(2)] assms(1) by (simp_all add: continuous_def)
  note b = begin_first[OF assms(2,1), of v] and ok = fresh_ok(1)[OF anchor(1), of rfc3339 sha256]
    and f = fresh_ok(2-)[OF anchor(1)]
  obtain st where l: "scan_loop ?p reads (scan_fresh i) = Inr st" and o: "scan_outcome sha256 i v digest 0 st = Inr oc"
    using scan_sourceD[OF assms(3)] b f by metis
  have ends: "scan_ok ?p (sn_physical_offset st) st" "cursor_ok st" "bound_to st = bound_to (scan_fresh i)"
    "unat (sn_physical_offset st) \<le> 2 ^ 63 - 1"
    using loop_from[of rfc3339 sha256 i "scan_fresh i" reads] ok f assms(2) l by (auto simp: loop_ends_def)
  have unbound: "bound_to st = None" using ends(3) by (simp add: bound_to_def scan_fresh_def scan_from_def)
  let ?d = "if sn_physical_offset st > 0 then Some (digest 0 (sn_physical_offset st)) else None"
  have d: "pred_option is_digest ?d" using assms(4) by simp
  obtain full discard where ck: "oc_checkpoint oc = (scan_checkpoint i (fst (scan_lineage sha256 i v 0 ?d))
      (snd (scan_lineage sha256 i v 0 ?d)) st)\<lparr>ck_fully_attributed_from_zero := full, ck_discard_until_lf := discard\<rparr>"
    using scan_outcomeD[OF o ends(2)] by blast
  have "identity_ok (oc_checkpoint oc)"
    unfolding ck using lineage_first[OF assms(2) anchor(2) d] by (intro checkpoint_identity[OF assms(2) _ _ ends(2,4)])
  moreover have "carried_ok sha256 (oc_checkpoint oc)"
    by (rule checkpoint_carried[OF ends(1,2) _ _ ck]) (simp_all add: anchor(1) unbound)
  ultimately show ?thesis by blast
qed

lemma again_stored:
  assumes old: "identity_ok ck" "carried_ok sha256 ck" and c: "continuous i = Some ck"
    and env: "scan_env i reads (ck_committed_offset ck)" and run: "scan_source rfc3339 sha256 i v digest reads = Inr oc"
    and digest: "\<And>s e. is_digest (digest s e)"
  shows "identity_ok (oc_checkpoint oc) \<and> carried_ok sha256 (oc_checkpoint oc)"
proof -
  let ?p = "scan_params_of rfc3339 sha256 i" and ?start = "ck_committed_offset ck"
  have anchor: "recovery_anchor i = None" using no_anchor[OF env] c by simp
  note b = begin_again[OF env c, of v] and ok = resume_ok(1)[OF old(2), of rfc3339 i] resume_ok(2)[OF old(2), of i]
    and f = resume_fields[of i ck]
  obtain st where l: "scan_loop ?p reads (scan_resume i ck) = Inr st" and o: "scan_outcome sha256 i v digest ?start st = Inr oc"
    using scan_sourceD[OF run] unfolding b f(1) by blast
  have ends: "scan_ok ?p (sn_physical_offset st) st" "cursor_ok st" "bound_to st = bound_to (scan_resume i ck)"
    "unat (sn_physical_offset st) \<le> 2 ^ 63 - 1"
    using loop_from[of rfc3339 sha256 i "scan_resume i ck" reads] ok f env l by (auto simp: loop_ends_def)
  let ?d = "if sn_physical_offset st > ?start then Some (digest ?start (sn_physical_offset st)) else None"
  let ?l = "scan_lineage sha256 i v ?start ?d"
  have d: "pred_option is_digest ?d" using digest by simp
  have line: "fst ?l \<noteq> 0" "is_digest (snd ?l)" "?start \<noteq> 0 \<Longrightarrow> fst ?l = ck_prefix_generation ck"
    by (rule lineage_again[OF env c old(1) d])+
  obtain full discard where ck: "oc_checkpoint oc = (scan_checkpoint i (fst ?l) (snd ?l) st)
      \<lparr>ck_fully_attributed_from_zero := full, ck_discard_until_lf := discard\<rparr>"
    using scan_outcomeD[OF o ends(2)] by blast
  have "matches_checkpoint b (oc_checkpoint oc)" if bd: "bound_to st = Some b" for b
  proof -
    have start: "?start \<noteq> 0" and b: "Option.bind (ck_source_admission ck) sa_account_binding = Some b"
      using ends(3) bd f(8) by (auto simp: bound_to_def split: if_splits)
    have old_match: "matches_checkpoint b ck" using old(2) b by (simp add: carried_ok_def)
    moreover have "SourceAccountBinding_valid b (sn_physical_offset st)"
    proof -
      obtain a where a: "sn_admission st = Some a" "sa_account_binding a = Some b"
        using bd by (cases "sn_admission st") (simp_all add: bound_to_def)
      then have "lane_ok sha256 (sn_physical_offset st) a" using ends(1) by (simp add: scan_ok_def)
      then show ?thesis using a(2) by (simp add: lane_ok_def metadata_ok_def binding_ok_def)
    qed
    moreover have "same_file (si_source i) ck" using c by (auto simp: continuous_def split: option.splits if_splits)
    ultimately show ?thesis unfolding ck using line(3)[OF start] cursor_end[OF ends(2)]
      by (intro matches_checkpoint_move[OF old_match]) (simp_all add: scan_checkpoint_def same_file_def)
  qed
  then have "pred_option (\<lambda>b. matches_checkpoint b (oc_checkpoint oc)) (bound_to st)" by (cases "bound_to st") simp_all
  then have "carried_ok sha256 (oc_checkpoint oc)"
    by (intro checkpoint_carried[OF ends(1,2) _ _ ck]) (simp_all add: anchor)
  moreover have "identity_ok (oc_checkpoint oc)"
    unfolding ck using line(1,2) by (intro checkpoint_identity[OF env _ _ ends(2,4)])
  ultimately show ?thesis by blast
qed

lemma bound_stored:
  assumes "identity_ok ck" "carried_ok sha256 ck" "ck_source_admission ck = Some a" "matches_checkpoint b ck"
    "SourceAdmission_valid sha256 (a\<lparr>sa_account_binding := Some b\<rparr>) (ck_committed_offset ck)"
  shows "identity_ok (ck\<lparr>ck_source_admission := Some (a\<lparr>sa_account_binding := Some b\<rparr>)\<rparr>) \<and>
    carried_ok sha256 (ck\<lparr>ck_source_admission := Some (a\<lparr>sa_account_binding := Some b\<rparr>)\<rparr>)" (is "identity_ok ?ck \<and> _")
proof -
  have v: "sa_version a = 2" using assms(2,3) by (simp add: carried_ok_def lane_ok_def)
  have "sa_metadata_qualified a" using assms(5) by (simp add: SourceAdmission_valid_def binding_admitted_def)
  then have "lane_ok sha256 (ck_committed_offset ck) (a\<lparr>sa_account_binding := Some b\<rparr>)"
    using lane_ok_valid[of "a\<lparr>sa_account_binding := Some b\<rparr>"] v assms(5) by simp
  moreover have "matches_checkpoint b ?ck" using assms(4) by (simp add: matches_checkpoint_def)
  ultimately show ?thesis using assms(1-3)
    by (simp add: identity_ok_def carried_ok_def checkpoint_context_def checkpoint_snapshot_def)
qed

lemma scanned_stored:
  assumes "scanned rfc3339 sha256 digest ck" "\<And>s e. is_digest (digest s e)"
  shows "identity_ok ck \<and> carried_ok sha256 ck"
  using assms(1)
proof induction
  case (first i reads v oc)
  then show ?case using first_stored assms(2) by blast
next
  case (again ck i reads v oc)
  then show ?case using again_stored assms(2) by blast
next
  case (bound ck a b)
  then show ?case using bound_stored by blast
qed

end
