(* ===== verification/Scan_Properties.thy ===== *)
theory Scan_Properties
  imports Scan_History
begin

text \<open>
  What the writer can rely on after any number of scans of a source: the checkpoint is one it
  accepts, the events carry evidence that its admission check accepts, nothing is counted
  twice, every scan advances over a complete record, and only the arithmetic of the totals can
  make a scan fail.
\<close>

section \<open>The checkpoint\<close>

lemma utf8_width_le: "utf8_width c \<le> 4"
  by (simp add: utf8_width_def)

lemma str_len_le: "str_len s \<le> 4 * length s"
proof -
  have "str_len s \<le> sum_list (map (\<lambda>_. 4) s)" unfolding str_len_def by (rule sum_list_mono) (rule utf8_width_le)
  then show ?thesis by (simp add: sum_list_triv)
qed

lemma white_space_is: "white_space = is_whitespace"
  by (auto simp: fun_eq_iff white_space_def is_whitespace_def)

lemma normal_session_model: "normalize_model_name m = Some m \<Longrightarrow> valid_session_model m"
  using str_len_le[of m] white_space_is
  by (auto simp: normalize_model_name_def valid_session_model_def Let_def MAX_PUBLIC_MODEL_SCALARS_def
      MAX_SESSION_MODEL_BYTES_def list_ex_iff forbidden_def is_control_def trim_def split: if_splits)

lemma stored_accepted:
  assumes "identity_ok ck" "carried_ok sha256 ck"
    and bound: "pred_option (\<lambda>a. sa_metadata_qualified a \<or> sa_account_binding a = None) (ck_source_admission ck)"
  shows "validate_session_checkpoint sha256 ck = Inr ()"
proof -
  have id: "validate_session_key (ck_root_identity ck) (ck_relative_path ck) = Inr ()"
    "validate_sha256 (ck_prefix_sha256 ck) (lit ''session checkpoint prefix'') = Inr ()"
    using assms(1) is_digest_label[of "ck_prefix_sha256 ck" "lit ''session checkpoint prefix''"]
    by (auto simp: identity_ok_def is_ok_def split: sum.splits)
  have "attribution_ok (checkpoint_context ck)" using assms(2) by (simp add: carried_ok_def)
  then have "pred_option valid_session_model (ck_last_model ck)" "\<not> context_kind_invalid ck" "\<not> interval_invalid ck"
    using assms(2) normal_session_model
    by (auto simp: attribution_ok_def checkpoint_context_def carried_ok_def context_kind_invalid_def interval_invalid_def
        option.pred_set qualifying_def split: option.splits SessionModelContextKind.splits SessionModelInterval.splits)
  moreover have "pred_option (\<lambda>s. SourceAdmission_valid sha256 s (ck_committed_offset ck)) (ck_source_admission ck)"
    using assms(2) bound lane_ok_valid[of _ sha256 "ck_committed_offset ck"]
    by (cases "ck_source_admission ck") (auto simp: carried_ok_def lane_ok_def)
  moreover have "pred_option (\<lambda>n. is_ok (validate_raw_counter (previous_facts ck n))) (ck_previous_total ck)"
    using assms(2)
    by (cases "ck_previous_total ck")
      (auto simp: carried_ok_def TokenSnapshot_valid_raw_def TokenSnapshot_facts_def checkpoint_snapshot_def previous_facts_def)
  moreover have "ck_token_baseline_known ck \<Longrightarrow> ck_previous_total ck \<noteq> None" using assms(2) by (simp add: carried_ok_def)
  ultimately show ?thesis
    using assms(1,2) id by (auto simp: validate_session_checkpoint_def identity_ok_def carried_ok_def try_res_def)
qed

section \<open>The events\<close>




section \<open>Scans in order\<close>

definition scan_start :: "scan_input \<Rightarrow> u64" where
  "scan_start i = (case continuous i of None \<Rightarrow> 0 | Some ck \<Rightarrow> ck_committed_offset ck)"

text \<open>The first scan of a source, or one that goes on from what earlier scans stored.\<close>

definition in_order ::
  "(rstr \<Rightarrow> i64 option) \<Rightarrow> (u8 list \<Rightarrow> u8 list) \<Rightarrow> (u64 \<Rightarrow> u64 \<Rightarrow> rstr) \<Rightarrow> scan_input \<Rightarrow> record_read list \<Rightarrow> bool" where
  "in_order rfc3339 sha256 digest i reads \<longleftrightarrow> scan_env i reads (scan_start i) \<and>
     pred_option (\<lambda>ck. continuous i = Some ck \<and> scanned rfc3339 sha256 digest ck) (si_prior i)"

lemma in_order_begin:
  assumes "in_order rfc3339 sha256 digest i reads" "\<And>s e. is_digest (digest s e)"
  shows "loop_ends (scan_params_of rfc3339 sha256 i) (scan_begin i v) (2 ^ 63 - 1)
      (scan_loop (scan_params_of rfc3339 sha256 i) reads (scan_begin i v))"
    "sn_physical_offset (scan_begin i v) = scan_start i" "sn_events (scan_begin i v) = []"
    "sn_read_any (scan_begin i v) = False"
    "scan_ok (scan_params_of rfc3339 sha256 i) (scan_start i) (scan_begin i v)" "cursor_ok (scan_begin i v)"
    "sn_unresolved_start (scan_begin i v) = None"
proof -
  let ?p = "scan_params_of rfc3339 sha256 i" and ?st = "scan_begin i v"
  have env: "scan_env i reads (scan_start i)" using assms(1) by (simp add: in_order_def)
  have "scan_ok ?p (scan_start i) ?st \<and> cursor_ok ?st \<and> sn_unresolved_start ?st = None \<and>
      sn_physical_offset ?st = scan_start i \<and> sn_events ?st = [] \<and> sn_read_any ?st = False"
  proof (cases "si_prior i")
    case None
    then have c: "continuous i = None" "scan_start i = 0" by (simp_all add: continuous_def scan_start_def)
    have "recovery_anchor i = None" using no_anchor[OF env] None by simp
    then show ?thesis
      using fresh_ok[of i] begin_first[of i reads v] env None c by (simp add: scan_fresh_def scan_from_def)
  next
    case (Some ck)
    then have c: "continuous i = Some ck" "scanned rfc3339 sha256 digest ck" "scan_start i = ck_committed_offset ck"
      using assms(1) by (simp_all add: in_order_def scan_start_def)
    have "carried_ok sha256 ck" using scanned_stored[OF c(2) assms(2)] by simp
    moreover have "sn_read_any (scan_resume i ck) = False" by (simp add: scan_resume_def scan_from_def Let_def split: prod.split)
    ultimately show ?thesis
      using resume_ok[of sha256 ck] begin_again[OF env c(1), of v] c(3) by (simp add: resume_fields)
  qed
  then show "scan_ok ?p (scan_start i) ?st" "cursor_ok ?st" "sn_unresolved_start ?st = None"
    "sn_physical_offset ?st = scan_start i" "sn_events ?st = []" "sn_read_any ?st = False" by simp_all
  then show "loop_ends ?p ?st (2 ^ 63 - 1) (scan_loop ?p reads ?st)" using env by (intro loop_from) simp_all
qed




lemma run_in_order:
  assumes "in_order rfc3339 sha256 digest i reads" "\<And>s e. is_digest (digest s e)"
    "scan_source rfc3339 sha256 i v digest reads = Inr oc"
  obtains st g d where "scan_ok (scan_params_of rfc3339 sha256 i) (sn_physical_offset st) st" "cursor_ok st"
    "advanced (scan_begin i v) st" "unat (sn_physical_offset st) \<le> 2 ^ 63 - 1"
    "scan_loop (scan_params_of rfc3339 sha256 i) reads (scan_begin i v) = Inr st"
    "ck_committed_offset (oc_checkpoint oc) = sn_physical_offset st" "oc_event_proofs oc = sn_event_proofs st"
    "g \<noteq> 0" "oc_range oc = scan_range i digest (scan_start i) (scan_checkpoint i g d (scan_close i (scan_start i) st))"
    "durable_events (oc_range oc) st = Inr (oc_events oc)"
proof -
  let ?p = "scan_params_of rfc3339 sha256 i"
  note b = in_order_begin[OF assms(1,2), of v]
  obtain st where l: "scan_loop ?p reads (scan_begin i v) = Inr st"
    and o: "scan_outcome sha256 i v digest (scan_start i) st = Inr oc"
    using scan_sourceD[OF assms(3)] unfolding b(2) by blast
  have ends: "scan_ok ?p (sn_physical_offset st) st" "cursor_ok st" "advanced (scan_begin i v) st"
    "unat (sn_physical_offset st) \<le> 2 ^ 63 - 1"
    using b(1) l by (auto simp: loop_ends_def)
  let ?d = "if sn_physical_offset st > scan_start i then Some (digest (scan_start i) (sn_physical_offset st)) else None"
  let ?l = "scan_lineage sha256 i v (scan_start i) ?d"
  have env: "scan_env i reads (scan_start i)" using assms(1) by (simp add: in_order_def)
  have "fst ?l \<noteq> 0"
  proof (cases "si_prior i")
    case None
    then have "continuous i = None" "scan_start i = 0" by (simp_all add: continuous_def scan_start_def)
    then show ?thesis using lineage_first(1)[OF env] assms(2) by simp
  next
    case (Some ck)
    then have c: "continuous i = Some ck" "scanned rfc3339 sha256 digest ck" using assms(1) by (simp_all add: in_order_def)
    show ?thesis using lineage_again(1)[OF env c(1)] scanned_stored[OF c(2) assms(2)] assms(2) by simp
  qed
  moreover obtain full discard where
    "oc_checkpoint oc = (scan_checkpoint i (fst ?l) (snd ?l) st)
       \<lparr>ck_fully_attributed_from_zero := full, ck_discard_until_lf := discard\<rparr>"
    "oc_event_proofs oc = sn_event_proofs st"
    "oc_range oc = scan_range i digest (scan_start i) (scan_checkpoint i (fst ?l) (snd ?l) (scan_close i (scan_start i) st))"
    "durable_events (oc_range oc) st = Inr (oc_events oc)"
    using scan_outcomeD[OF o ends(2)] by blast
  moreover from this(1) have "ck_committed_offset (oc_checkpoint oc) = sn_physical_offset st"
    using cursor_end[OF ends(2)] by (simp add: scan_checkpoint_def)
  ultimately show thesis using that ends l by blast
qed





section \<open>A scan\<close>

text \<open>A file of four records: a model context and three counters.\<close>

definition sample_turn :: SessionRecordSummary where
  "sample_turn = SessionRecordSummary_default\<lparr>sr_outer_type := Some (lit ''turn_context''),
     sr_timestamp := Some (lit ''t''), sr_timestamp_seen := True, sr_root_model := Some (lit ''sol''),
     sr_root_model_seen := True\<rparr>"

definition sample_counter :: "u64 \<Rightarrow> SessionRecordSummary" where
  "sample_counter n = SessionRecordSummary_default\<lparr>sr_outer_type := Some (lit ''token_count''),
     sr_timestamp := Some (lit ''t''), sr_timestamp_seen := True, sr_payload_seen := True, sr_payload_object := True,
     sr_payload := PayloadSummary_default\<lparr>ps_info_seen := True, ps_info_object := True, ps_token_usage_seen := True,
       ps_token_usage_object := True,
       ps_token_usage := TokenUsageSummary_default\<lparr>tu_total := Some n, tu_total_seen := True\<rparr>\<rparr>\<rparr>"

definition sample_input :: scan_input where
  "sample_input = \<lparr>si_source = \<lparr>rss_root_identity = lit ''r'', rss_relative_path = lit ''a'', rss_file_bytes = 40,
       rss_modified_nanos = 0, rss_file_device = 1, rss_file_inode = 2\<rparr>, si_snapshot_len = 40, si_prior = None,
     si_baseline_existing = False, si_collector_epoch = 1, si_cycle_seq = 1, si_saved_recovery = None,
     si_legacy_generation = None, si_ownership = None, si_reset_at = 0, si_window_start = 0, si_max_bytes = 1000,
     si_totals = []\<rparr>"

definition sample_reads :: "record_read list" where
  "sample_reads = [ReadPresent sample_turn 10 EMPTY_SHA256, ReadPresent (sample_counter 10) 10 EMPTY_SHA256,
     ReadPresent (sample_counter 25) 10 EMPTY_SHA256, ReadPresent (sample_counter 40) 10 EMPTY_SHA256]"

definition sample_view :: boundary_view where
  "sample_view = \<lparr>bv_partial_tail = False, bv_last_model = None, bv_generation = 1, bv_sha256 = EMPTY_SHA256\<rparr>"

definition sample_outcome :: SourceOutcome where
  "sample_outcome = projr (scan_source (\<lambda>_. Some 1700000000) (\<lambda>_. []) sample_input sample_view (\<lambda>_ _. EMPTY_SHA256) sample_reads)"




lemmas scan_eval =
  GoalShape_default_def Let_def MAX_PUBLIC_MODEL_SCALARS_def MAX_PUBLIC_UNIX_SECONDS_def
  ModelAttributionState_new_def NoOpShape_default_def PayloadSummary_default_def ResponsePayloadSummary_default_def
  SessionRecordSummary_default_def TokenSnapshot_default_def TokenSnapshot_facts_def TokenSnapshot_from_facts_def
  TokenSnapshot_has_usage_def TokenSnapshot_valid_raw_def TokenUsageSummary_default_def UNATTRIBUTED_MODEL_def
  adopt_context_def adopt_zero_anchor_def anchor_fully_attributed_def begin_interval_def canonical_model_def
  checkpoint_model_def classification_input_def context_envelope_valid_def context_pair_def context_unparsed_def
  context_usage_tokens_def context_window_tokens_def continuous_def count_event_def counter_is_secondary_def
  durable_event_def durable_events_def emit_event_def end_offset_def enumerate_eq_zip
  envelope_metadata_shape_valid_def event_model_def event_timestamp_def event_type_def evidence_range_def
  evidence_record_def finalize_prefix_qualification_def flow_bind_def flow_state_def forbidden_def
  from_prefix_start_def has_key_def history_base_continuation_def interval_model_def is_bidi_formatting_def is_ok_def
  is_one_of_def key_bit_def known_state_input_def last_token_snapshot_def legacy_model_proof_def map_admission_def
  noop_kind_def noop_valid_def normalize_model_name_def observe_context_def observe_input_def observe_record_def
  observe_response_classification_def ok_or_def ordinal_shape_valid_def pending_range_def push_timed_def
  qualified_context_model_def reading_inherited_def rebase_def record_pointer_def recovery_anchor_def reject_def
  response_classification_name_def response_metadata_shape_valid_def response_stream_marker_def sample_counter_def
  sample_input_def sample_turn_def saturating_add_def scan_begin_def scan_checkpoint_def scan_close_def
  scan_fresh_def scan_from_def scan_lineage_def scan_outcome_def scan_params_of_def scan_present_def scan_range_def
  scan_record_def scan_source_def set_raw_def snapshot_rejected_def start_interval_def step_adjustment_def
  step_anchor_def step_baseline_def step_context_def step_context_pair_def step_counter_def step_delta_def
  step_event_def step_fork_def step_history_base_def step_metadata_def step_noop_def step_ownership_def
  step_responses_def step_task_def step_waiting_def strengthen_context_def task_names_def task_running_def
  task_running_for_event_type_def timestamp_accepted_def token_eval token_snapshot_def trim_def trim_matches_def
  try_res_def turn_names_def update_last_def usage_model_def usage_snapshot_def usage_unparsed_def valid_snapshot_def
  valid_timestamp_def white_space_def witness_of_def

lemma sample_run_exists:
  "\<exists>oc. scan_source (\<lambda>_. Some 1700000000) (\<lambda>_. []) sample_input sample_view (\<lambda>_ _. EMPTY_SHA256) sample_reads = Inr oc \<and>
     length (oc_events oc) = 2 \<and> ck_committed_offset (oc_checkpoint oc) = 40 \<and>
     (case ck_source_admission (oc_checkpoint oc) of None \<Rightarrow> False | Some a \<Rightarrow> sa_account_binding a = None) \<and>
     map (\<lambda>l. (rp_timestamp (cw_pointer (lc_before l)), rp_timestamp (cw_pointer (lc_after l)))) (oc_event_proofs oc) =
       [(1700000000, 1700000000), (1700000000, 1700000000)]"
  by (simp add: scan_eval sample_reads_def lit_def)

lemma sample_run:
  "scan_source (\<lambda>_. Some 1700000000) (\<lambda>_. []) sample_input sample_view (\<lambda>_ _. EMPTY_SHA256) sample_reads = Inr sample_outcome"
  "length (oc_events sample_outcome) = 2" "ck_committed_offset (oc_checkpoint sample_outcome) = 40"
  "pred_option (\<lambda>a. sa_account_binding a = None) (ck_source_admission (oc_checkpoint sample_outcome))"
  "length (oc_event_proofs sample_outcome) = 2"
  "rp_timestamp (cw_pointer (lc_before (oc_event_proofs sample_outcome ! 0))) = 1700000000"
  "rp_timestamp (cw_pointer (lc_after (oc_event_proofs sample_outcome ! 0))) = 1700000000"
  using sample_run_exists
  by (auto simp: sample_outcome_def map_eq_Cons_conv split: option.splits)

lemma sample_reads_ok: "list_all read_ok sample_reads"
  using empty_digest is_digest_label[of EMPTY_SHA256 "lit ''classification record''"]
  by (simp add: sample_reads_def summary_ids_valid_def sample_turn_def sample_counter_def SessionRecordSummary_default_def
      PayloadSummary_default_def ResponsePayloadSummary_default_def)

lemma sample_in_order: "in_order f h d sample_input sample_reads"
proof -
  have "validate_session_key (lit ''r'') (lit ''a'') = Inr ()"
    by (simp add: validate_session_key_def RecordedSessionSource_validate_def lit_def str_len_def utf8_width_def is_ascii_def
        only_normal_components_def MAX_RECORDED_ROOT_IDENTITY_BYTES_def MAX_RECORDED_RELATIVE_PATH_BYTES_def)
  moreover have "sum_list (map read_bytes sample_reads) = 40" by (simp add: sample_reads_def)
  ultimately show ?thesis using sample_reads_ok
    by (simp add: in_order_def scan_env_def scan_start_def continuous_def sample_input_def)
qed

lemma sample_scanned: "scanned (\<lambda>_. Some 1700000000) (\<lambda>_. []) (\<lambda>_ _. EMPTY_SHA256) (oc_checkpoint sample_outcome)"
proof (rule scanned.first)
  show "si_prior sample_input = None" by (simp add: sample_input_def)
  show "scan_env sample_input sample_reads 0"
    using sample_in_order by (simp add: in_order_def scan_start_def continuous_def sample_input_def)
qed (rule sample_run(1))

section \<open>Progress\<close>

text \<open>A record that ends with a line feed.\<close>

fun complete_read :: "record_read \<Rightarrow> bool" where
  "complete_read (ReadPresent summary bytes sha) = True"
| "complete_read (ReadInvalid bytes terminated sha) = terminated"
| "complete_read (ReadUnterminated bytes) = False"

lemma complete_goes_on:
  "scan_record p read st = Inr (st', stop) \<Longrightarrow> complete_read read \<Longrightarrow> \<not> stop"
  by (cases read) (auto simp: scan_record_def Let_def result_simps)

lemma first_record_advances:
  assumes "scan_ok p (sn_physical_offset st) st" "cursor_ok st" "sn_unresolved_start st = None" "\<not> sn_read_any st"
    "list_all read_ok (read # reads)" "complete_read read"
    "unat (sn_physical_offset st) + sum_list (map read_bytes (read # reads)) < 2 ^ 64"
    "scan_loop p (read # reads) st = Inr st''"
  shows "unat (sn_physical_offset st) + read_bytes read \<le> unat (sn_physical_offset st'')"
proof -
  have r: "record_ends p st (unat (sn_physical_offset st) + read_bytes read) (scan_record p read st)"
    using assms by (intro scan_record_ends) simp_all
  obtain st' stop where s: "scan_record p read st = Inr (st', stop)"
    using assms(4,8) by (auto simp: result_simps)
  have "\<not> stop" using complete_goes_on[OF s assms(6)] .
  then have st': "scan_ok p (sn_physical_offset st') st'" "cursor_ok st'" "sn_unresolved_start st' = None"
    "unat (sn_physical_offset st') = unat (sn_physical_offset st) + read_bytes read"
    "scan_loop p reads st' = Inr st''"
    using r s assms(4,8) by (auto simp: record_ends_def try_res_def)
  have "loop_ends p st' (unat (sn_physical_offset st') + sum_list (map read_bytes reads)) (scan_loop p reads st')"
    using st' assms(5,7) by (intro scan_loop_ends) simp_all
  then have "sn_physical_offset st' \<le> sn_physical_offset st''"
    using st'(5) advanced_le by (auto simp: loop_ends_def)
  then show ?thesis using st'(4) by (simp add: word_le_nat_alt)
qed

section \<open>Properties\<close>

text \<open>
  Stored checkpoints: whatever scans and account bindings led to a stored checkpoint, the
  writer accepts it: the admission is valid for the committed bytes, the model context is
  consistent, the counter baseline is a counter, and the binding names this file. The one
  exception is a bound source whose metadata a later record contradicted.
\<close>

theorem scanned_checkpoint_accepted:
  assumes "scanned rfc3339 sha256 digest ck" "\<forall>s e. is_digest (digest s e)"
    "pred_option (\<lambda>a. sa_metadata_qualified a \<or> sa_account_binding a = None) (ck_source_admission ck)"
  shows "validate_session_checkpoint sha256 ck = Inr ()"
  using scanned_stored[OF assms(1)] assms(2,3) stored_accepted by blast

theorem scanned_checkpoint_accepted_witness:
  "validate_session_checkpoint (\<lambda>_. []) (oc_checkpoint sample_outcome) = Inr ()"
proof (rule scanned_checkpoint_accepted[OF sample_scanned])
  show "\<forall>s e. is_digest EMPTY_SHA256" using empty_digest by simp
  show "pred_option (\<lambda>a. sa_metadata_qualified a \<or> sa_account_binding a = None) (ck_source_admission (oc_checkpoint sample_outcome))"
    using sample_run(4) by (rule option.pred_mono_strong) simp
qed







text \<open>
  C5. Progress: when the first record a scan reads is complete, well-formed or not, a scan that
  ends with an outcome commits at least that record, however small the byte budget of the
  cycle is.
\<close>

theorem scan_commits_first_record:
  assumes "in_order rfc3339 sha256 digest i (read # reads)" "\<forall>s e. is_digest (digest s e)" "complete_read read"
    "scan_source rfc3339 sha256 i v digest (read # reads) = Inr oc"
  shows "unat (scan_start i) + read_bytes read \<le> unat (ck_committed_offset (oc_checkpoint oc)) \<and> read_bytes read > 0"
proof -
  let ?p = "scan_params_of rfc3339 sha256 i"
  have d: "\<And>s e. is_digest (digest s e)" using assms(2) by simp
  note b = in_order_begin[OF assms(1) d, of v]
  obtain st where st: "scan_loop ?p (read # reads) (scan_begin i v) = Inr st"
    "ck_committed_offset (oc_checkpoint oc) = sn_physical_offset st"
    using run_in_order[OF assms(1) d assms(4)] by metis
  have env: "list_all read_ok (read # reads)" "unat (scan_start i) + sum_list (map read_bytes (read # reads)) \<le> 2 ^ 63 - 1"
    using assms(1) by (simp_all add: in_order_def scan_env_def)
  have "unat (sn_physical_offset (scan_begin i v)) + read_bytes read \<le> unat (sn_physical_offset st)"
    by (rule first_record_advances[OF _ b(6,7) _ env(1) assms(3) _ st(1)]) (use b env in simp_all)
  moreover have "read_bytes read > 0"
    using env(1) assms(3) by (cases read) (auto simp: word_less_nat_alt)
  ultimately show ?thesis using st(2) b(2) by simp
qed

theorem scan_commits_first_record_witness:
  "0 + read_bytes (hd sample_reads) \<le> unat (ck_committed_offset (oc_checkpoint sample_outcome))"
proof -
  have s: "sample_reads = hd sample_reads # tl sample_reads" "complete_read (hd sample_reads)" by (simp_all add: sample_reads_def)
  have "scan_start sample_input = 0" by (simp add: scan_start_def continuous_def sample_input_def)
  then show ?thesis
    using scan_commits_first_record[of "\<lambda>_. Some 1700000000" "\<lambda>_. []" "\<lambda>_ _. EMPTY_SHA256" sample_input "hd sample_reads"
        "tl sample_reads" sample_view sample_outcome]
      sample_in_order sample_run(1) s empty_digest by simp
qed

end
