(* ===== verification/Session_Bytes.thy ===== *)
theory Session_Bytes
  imports Parser_Lines Parser_Summary Scan_Properties
begin

text \<open>
  The scan of a source from its bytes: the loop of \<open>scan_source_with_reader\<close> around the streaming
  parser, the digests of the records and of the committed range, and the history of a file that
  grows while the recorder scans it. The reference is \<open>file_records\<close>, which splits the bytes at the
  line feeds and parses every line alone.
\<close>

section \<open>Digests\<close>

definition hex_character :: "nat \<Rightarrow> scalar" where
  "hex_character d = (if d < 10 then 48 + d else 87 + d)"

definition hex_bytes :: "u8 list \<Rightarrow> rstr" where
  "hex_bytes bytes = concat (map (\<lambda>byte. [hex_character (unat byte div 16), hex_character (unat byte mod 16)]) bytes)"

definition hex_digest :: "(u8 list \<Rightarrow> u8 list) \<Rightarrow> u8 list \<Rightarrow> rstr" where
  "hex_digest sha256 bytes = hex_bytes (sha256 bytes)"

definition sha256_open_file_range :: "(u8 list \<Rightarrow> u8 list) \<Rightarrow> u8 list \<Rightarrow> u64 \<Rightarrow> u64 \<Rightarrow> RecorderError + rstr" where
  "sha256_open_file_range sha256 file start stop =
     (if start > stop \<or> \<not> fits_i64 stop then Inl (RecorderInvalid (lit ''session range exceeds SQLite offset''))
      else if start < stop \<and> length file < unat stop
      then Inl (RecorderInvalid (lit ''session range ended before the source file''))
      else Inr (hex_digest sha256 (sha256 (take (unat stop - unat start) (drop (unat start) file)))))"

definition range_digest :: "(u8 list \<Rightarrow> u8 list) \<Rightarrow> u8 list \<Rightarrow> u64 \<Rightarrow> u64 \<Rightarrow> rstr" where
  "range_digest sha256 file start stop =
     hex_digest sha256 (sha256 (take (unat stop - unat start) (drop (unat start) file)))"

section \<open>The loop over the bytes\<close>

text \<open>A record with the digest of the bytes it was read from.\<close>

fun record_of :: "(u8 list \<Rightarrow> u8 list) \<Rightarrow> u8 list \<Rightarrow> RecordRead \<Rightarrow> record_read option" where
  "record_of sha256 used RecordEnd = None"
| "record_of sha256 used (RecordPresent summary bytes) = Some (ReadPresent summary bytes (hex_bytes (sha256 used)))"
| "record_of sha256 used (RecordInvalid bytes terminated) = Some (ReadInvalid bytes terminated (hex_bytes (sha256 used)))"
| "record_of sha256 used (RecordUnterminated bytes) = Some (ReadUnterminated bytes)"

fun read_error :: "rstr option \<Rightarrow> RecorderError" where
  "read_error None = RecorderIo"
| "read_error (Some message) = RecorderInvalid message"

text \<open>\<open>None\<close>: the fuel did not suffice.\<close>

fun scan_lines :: "scan_params \<Rightarrow> nat \<Rightarrow> u8 list \<Rightarrow> bool \<Rightarrow> scan_state \<Rightarrow> (RecorderError + scan_state) option" where
  "scan_lines p 0 bytes io_fails st = None"
| "scan_lines p (Suc n) bytes io_fails st =
     (if sn_consumed_bytes st \<ge> sp_max_bytes p \<and> sn_read_any st then Some (Inr st)
      else (case read_streaming_record (sp_sha256 p) (Suc (length bytes)) bytes io_fails of
          (ReadDone r, rest) \<Rightarrow>
            (case record_of (sp_sha256 p) (take (length bytes - length rest) bytes) r of
               None \<Rightarrow> Some (Inr st)
             | Some read \<Rightarrow>
                 (case scan_record p read st of
                    Inl e \<Rightarrow> Some (Inl e)
                  | Inr (st', stop) \<Rightarrow> if stop then Some (Inr st') else scan_lines p n rest io_fails st'))
        | (ReadFailed message, rest) \<Rightarrow> Some (Inl (read_error message))
        | (ReadStarved, rest) \<Rightarrow> None))"

text \<open>
  One scan of a file whose bytes do not change under it: the bytes from the start of the scan up
  to the length at open are read. \<open>Some (Inr None)\<close> is a source that is left for the next cycle.
\<close>

definition scan_file ::
  "(rstr \<Rightarrow> i64 option) \<Rightarrow> (u8 list \<Rightarrow> u8 list) \<Rightarrow> scan_input \<Rightarrow> boundary_view \<Rightarrow> u8 list \<Rightarrow> bool \<Rightarrow>
   (RecorderError + SourceOutcome option) option" where
  "scan_file rfc3339 sha256 i v file io_fails =
     (let st = scan_begin i v;
          start = sn_physical_offset st;
          bytes = take (unat (si_snapshot_len i) - unat start) (drop (unat start) file)
      in if start > si_snapshot_len i then Some (Inr None)
         else map_option (\<lambda>r.
             try_res r (\<lambda>st.
             try_res (scan_outcome sha256 i v (range_digest sha256 file) start st) (\<lambda>oc. Inr (Some oc))))
           (scan_lines (scan_params_of rfc3339 sha256 i) (Suc (length bytes)) bytes io_fails st))"

section \<open>The reference\<close>

text \<open>The record of a complete line, read alone.\<close>

definition line_record :: "(u8 list \<Rightarrow> u8 list) \<Rightarrow> u8 list \<Rightarrow> record_read" where
  "line_record sha256 line =
     (case line_outcome sha256 line of
        ReadDone (RecordPresent summary bytes) \<Rightarrow> ReadPresent summary bytes (hex_bytes (sha256 (line @ [10])))
      | _ \<Rightarrow> ReadInvalid (word_of_nat (Suc (length line))) True (hex_bytes (sha256 (line @ [10]))))"

function file_records :: "(u8 list \<Rightarrow> u8 list) \<Rightarrow> u8 list \<Rightarrow> record_read list" where
  "file_records sha256 bytes =
     (case dropWhile (\<lambda>byte. byte \<noteq> 10) bytes of
        [] \<Rightarrow> if bytes = [] then [] else [ReadUnterminated (word_of_nat (length bytes))]
      | _ # rest \<Rightarrow> line_record sha256 (takeWhile (\<lambda>byte. byte \<noteq> 10) bytes) # file_records sha256 rest)"
  by pat_completeness auto
termination
proof (relation "measure (\<lambda>(_, bytes). length bytes)")
  fix sha256 :: "u8 list \<Rightarrow> u8 list" and bytes x rest
  assume "dropWhile (\<lambda>byte. byte \<noteq> 10) bytes = x # rest"
  then show "((sha256, rest), (sha256, bytes)) \<in> measure (\<lambda>(_, bytes). length bytes)"
    using length_dropWhile_le[of "\<lambda>byte. byte \<noteq> 10" bytes] by simp
qed simp

declare file_records.simps [simp del]

lemma file_records_line:
  assumes "10 \<notin> set line"
  shows "file_records sha256 (line @ 10 # rest) = line_record sha256 line # file_records sha256 rest"
proof -
  have "dropWhile (\<lambda>byte. byte \<noteq> 10) (line @ 10 # rest) = 10 # rest" using assms by (induction line) auto
  then show ?thesis using line_taken[OF assms] by (simp add: file_records.simps[of sha256 "line @ 10 # rest"])
qed

lemma file_records_open:
  assumes "10 \<notin> set bytes"
  shows "file_records sha256 bytes = (if bytes = [] then [] else [ReadUnterminated (word_of_nat (length bytes))])"
proof -
  have "dropWhile (\<lambda>byte. byte \<noteq> 10) bytes = []" using assms by auto
  then show ?thesis by (simp add: file_records.simps[of sha256 bytes] del: dropWhile_eq_Nil_conv)
qed

text \<open>Induction over the lines of a file.\<close>

lemma lines_induct [case_names open_end line]:
  assumes "\<And>bytes. 10 \<notin> set bytes \<Longrightarrow> P bytes"
    "\<And>line rest. 10 \<notin> set line \<Longrightarrow> P rest \<Longrightarrow> P (line @ 10 # rest)"
  shows "P (bytes :: u8 list)"
proof (induction bytes rule: length_induct)
  case (1 bytes)
  show ?case
  proof (cases "10 \<in> set bytes")
    case True
    then obtain line rest where "bytes = line @ 10 # rest" "10 \<notin> set line" by (metis split_list_first)
    with 1 assms(2) show ?thesis by simp
  qed (rule assms(1))
qed

text \<open>What is appended after a line feed changes no record before it.\<close>

lemma file_records_append:
  "file_records sha256 (bytes @ 10 # rest) = file_records sha256 (bytes @ [10]) @ file_records sha256 rest"
proof (induction bytes rule: lines_induct)
  case (open_end bytes)
  then show ?case by (simp add: file_records_line file_records_open)
next
  case (line line rest')
  then show ?case using file_records_line[OF line(1)] by simp
qed

section \<open>The records of a file\<close>

lemma line_outcome_cases:
  assumes "10 \<notin> set line" "Suc (length line) < 2 ^ 64"
  obtains summary bytes where "line_outcome sha256 line = ReadDone (RecordPresent summary bytes)"
      "unat bytes = Suc (length line)" "summary_typed summary"
    | "line_outcome sha256 line = ReadDone (RecordInvalid (word_of_nat (Suc (length line))) True)"
proof -
  let ?r = "read_streaming_record sha256 (length line + 2) (line @ [10]) False"
  have "frames (line @ [10]) False ?r" using assms(2) by (intro read_frames) auto
  then obtain m where m: "unat m = Suc (length line)"
    "?r = (ReadDone (RecordInvalid m True), []) \<or> (\<exists>s. ?r = (ReadDone (RecordPresent s m), []))"
    using assms(1) by (auto simp: frames_def dest: first_line_unique)
  then have "m = word_of_nat (Suc (length line))" using assms(2) by (simp add: word_eq_iff_unat unat_of_nat del: of_nat_Suc)
  moreover have "summary_typed s" if "?r = (ReadDone (RecordPresent s m), [])" for s
    using that by (rule read_present_typed)
  ultimately show thesis using m that unfolding line_outcome_def by (metis fst_conv)
qed






section \<open>The loop reads the records\<close>

lemma record_of_line:
  assumes "10 \<notin> set line" "Suc (length line) < 2 ^ 64"
  obtains r where "line_outcome sha256 line = ReadDone r" "record_of sha256 (line @ [10]) r = Some (line_record sha256 line)"
  using assms
proof (rule line_outcome_cases)
  fix summary bytes assume "line_outcome sha256 line = ReadDone (RecordPresent summary bytes)"
  then show thesis using that by (simp add: line_record_def)
next
  assume "line_outcome sha256 line = ReadDone (RecordInvalid (word_of_nat (Suc (length line))) True)"
  then show thesis using that by (simp add: line_record_def)
qed

lemma scan_lines_line:
  assumes "10 \<notin> set line" "length line + 1 + length rest < 2 ^ 64"
  shows "scan_lines p (Suc n) (line @ 10 # rest) io_fails st =
    (if sn_consumed_bytes st \<ge> sp_max_bytes p \<and> sn_read_any st then Some (Inr st)
     else (case scan_record p (line_record (sp_sha256 p) line) st of
         Inl e \<Rightarrow> Some (Inl e)
       | Inr (st', stop) \<Rightarrow> if stop then Some (Inr st') else scan_lines p n rest io_fails st'))"
proof -
  have "read_streaming_record (sp_sha256 p) (Suc (length (line @ 10 # rest))) (line @ 10 # rest) io_fails =
      (line_outcome (sp_sha256 p) line, rest)"
    by (rule read_line) (use assms in auto)
  moreover obtain r where "line_outcome (sp_sha256 p) line = ReadDone r"
    "record_of (sp_sha256 p) (line @ [10]) r = Some (line_record (sp_sha256 p) line)"
    using assms by (auto elim!: record_of_line)
  moreover have "take (length (line @ 10 # rest) - length rest) (line @ 10 # rest) = line @ [10]" by simp
  ultimately show ?thesis unfolding scan_lines.simps by (simp only: prod.case read_outcome.case option.case)
qed

lemma scan_lines_open:
  assumes "10 \<notin> set bytes" "length bytes < 2 ^ 64"
  obtains e where "scan_lines p (Suc n) bytes io_fails st =
    (if sn_consumed_bytes st \<ge> sp_max_bytes p \<and> sn_read_any st then Some (Inr st)
     else if io_fails then Some (Inl e)
     else Some (scan_loop p (file_records (sp_sha256 p) bytes) st))"
proof (cases "bytes = []")
  case True
  then show thesis using that[of RecorderIo] by (simp add: read_streaming_record_def file_records_open)
next
  case False
  let ?r = "read_streaming_record (sp_sha256 p) (Suc (length bytes)) bytes io_fails"
  have "frames bytes io_fails ?r" using assms(2) False by (intro read_frames) auto
  then obtain m message where m: "unat m = length bytes"
    "?r = (if io_fails then ReadFailed message else ReadDone (RecordUnterminated m), [])"
    using assms(1) by (auto simp: frames_def)
  have "m = word_of_nat (length bytes)" using m(1) assms(2) by (simp add: word_eq_iff_unat unat_of_nat)
  then have r: "?r = (if io_fails then ReadFailed message else ReadDone (RecordUnterminated (word_of_nat (length bytes))), [])"
    using m(2) by simp
  have "scan_lines p (Suc n) bytes io_fails st =
    (if sn_consumed_bytes st \<ge> sp_max_bytes p \<and> sn_read_any st then Some (Inr st)
     else if io_fails then Some (Inl (read_error message))
     else Some (scan_loop p (file_records (sp_sha256 p) bytes) st))"
    unfolding scan_lines.simps r using False
    by (auto simp: file_records_open[OF assms(1)] scan_record_def try_res_def Let_def split: sum.split prod.split)
  then show thesis by (rule that)
qed

lemma scan_lines_records:
  assumes "length bytes < 2 ^ 64" "length bytes < n"
  shows "\<exists>r. scan_lines p n bytes io_fails st = Some r \<and>
    (r = scan_loop p (file_records (sp_sha256 p) bytes) st \<or> io_fails \<and> (\<exists>e. r = Inl e))"
  using assms
proof (induction bytes arbitrary: n st rule: lines_induct)
  case (open_end bytes)
  then obtain k where "n = Suc k" by (cases n) simp_all
  with open_end show ?case
    using scan_lines_open[of bytes p k io_fails st] by (cases "file_records (sp_sha256 p) bytes") (fastforce split: if_splits)+
next
  case (line line rest)
  then obtain k where n: "n = Suc k" by (cases n) simp_all
  have IH: "\<exists>r. scan_lines p k rest io_fails st = Some r \<and>
      (r = scan_loop p (file_records (sp_sha256 p) rest) st \<or> io_fails \<and> (\<exists>e. r = Inl e))" for st
    using line n by simp
  have small: "length line + 1 + length rest < 2 ^ 64" using line(3) by simp
  show ?case
    unfolding n scan_lines_line[OF line(1) small] file_records_line[OF line(1)] scan_loop.simps
    using IH by (auto simp: try_res_def split: sum.split)
qed

section \<open>Line boundaries\<close>






section \<open>Histories of a file\<close>







section \<open>A file\<close>

text \<open>The line \<open>{}\<close> and the first byte of the next one.\<close>

definition sample_file :: "u8 list" where
  "sample_file = [123, 125, 10, 123]"

definition sample_sha256 :: "u8 list \<Rightarrow> u8 list" where
  "sample_sha256 bytes = replicate 32 0"

definition sample_cycle :: scan_input where
  "sample_cycle = sample_input\<lparr>si_snapshot_len := 4\<rparr>"

definition sample_params :: scan_params where
  "sample_params = scan_params_of (\<lambda>_. None) sample_sha256 sample_cycle"

lemmas parse_eval =
  read_streaming_record_def parse_record_def SessionRecordInput_new_def pbind_def yields_def fails_def peek_byte_def next_byte_def
  next_required_def accept_def consume_if_def expect_byte_def consume_def skip_whitespace_def skip_while_def
  parse_items_def in_container_def enter_container_def leave_container_def finish_line_def drain_record_def
  finish_summary_def Let_def

lemma sample_line:
  "read_streaming_record sha256 (Suc (Suc (Suc (Suc 0)))) [123, 125, 10] False =
     (ReadDone (RecordPresent (finish_summary SessionRecordSummary_default) 3), [])"
  by (simp add: parse_eval saturating_add_def)

lemma finish_default: "finish_summary SessionRecordSummary_default = SessionRecordSummary_default"
  by (simp add: finish_summary_def important_duplicates_def scan_eval)

lemma sample_records:
  "file_records sample_sha256 sample_file =
     [ReadPresent SessionRecordSummary_default 3 (hex_bytes (replicate 32 0)), ReadUnterminated 1]"
proof -
  have "length [123, 125 :: u8] + 2 = Suc (Suc (Suc (Suc 0)))" by simp
  then have "line_outcome sample_sha256 [123, 125] = ReadDone (RecordPresent SessionRecordSummary_default 3)"
    unfolding line_outcome_def by (simp only: append.simps sample_line finish_default fst_conv)
  then show ?thesis
    using file_records_line[of "[123, 125]" sample_sha256 "[123]"]
    by (simp add: sample_file_def file_records_open line_record_def sample_sha256_def)
qed





section \<open>Properties\<close>



text \<open>
  C6. Line by line: the loop around the streaming parser handles exactly the records that come from
  splitting the bytes at the line feeds and parsing every line alone, in order, with an
  unfinished last line as the last record; where the bytes of a line stand in the file and what
  follows them has no influence.
\<close>

theorem scan_reads_lines:
  assumes "length bytes < 2 ^ 64" "length bytes < n"
  shows "scan_lines p n bytes False st = Some (scan_loop p (file_records (sp_sha256 p) bytes) st)"
  using scan_lines_records[OF assms, of p False st] by simp

theorem scan_reads_lines_witness:
  "scan_lines sample_params 5 sample_file False (scan_begin sample_cycle sample_view) =
     Some (scan_loop sample_params
       [ReadPresent SessionRecordSummary_default 3 (hex_bytes (replicate 32 0)), ReadUnterminated 1]
       (scan_begin sample_cycle sample_view))"
proof -
  have "sp_sha256 sample_params = sample_sha256" by (simp add: sample_params_def scan_params_of_def)
  then show ?thesis
    using scan_reads_lines[of sample_file 5 sample_params "scan_begin sample_cycle sample_view"] sample_records
    by (simp add: sample_file_def)
qed

text \<open>
  C7. Every scan ends: whatever the bytes of a file, and whether or not reading it fails at their
  end, the loop over its records and every loop of the parser, nested containers included,
  return a result.
\<close>

theorem scan_file_returns:
  assumes "length file < 2 ^ 64"
  shows "\<exists>r. scan_file rfc3339 sha256 i v file io_fails = Some r"
proof -
  define start where "start = sn_physical_offset (scan_begin i v)"
  define bytes where "bytes = take (unat (si_snapshot_len i) - unat start) (drop (unat start) file)"
  have "length bytes < 2 ^ 64" using assms by (simp add: bytes_def)
  then obtain r where "scan_lines (scan_params_of rfc3339 sha256 i) (Suc (length bytes)) bytes io_fails (scan_begin i v) = Some r"
    using scan_lines_records[of bytes "Suc (length bytes)"] by blast
  then show ?thesis unfolding scan_file_def Let_def start_def[symmetric] bytes_def[symmetric] by simp
qed

theorem scan_file_returns_witness:
  "\<exists>r. scan_file (\<lambda>_. None) sample_sha256 sample_cycle sample_view sample_file True = Some r"
  by (rule scan_file_returns) (simp add: sample_file_def)

text \<open>
  C8. What the parser lets through: a record is reported present only for a complete line, with the
  number of its bytes, and its summary holds valid identifiers, canonical model names and texts
  within the limit only, whatever the line contains.
\<close>

theorem present_record_sound:
  assumes "length bytes < 2 ^ 64" "length bytes < n"
    "read_streaming_record sha256 n bytes io_fails = (ReadDone (RecordPresent s consumed), rest)"
  shows "summary_typed s \<and> (\<exists>line. bytes = line @ 10 # rest \<and> 10 \<notin> set line \<and> unat consumed = Suc (length line))"
proof -
  have "bytes \<noteq> []" using assms(3) by (auto simp: read_streaming_record_def split: if_splits)
  then have "frames bytes io_fails (ReadDone (RecordPresent s consumed), rest)"
    using read_frames[OF assms(1,2), of io_fails sha256] assms(3) by simp
  then have "\<exists>line. bytes = line @ 10 # rest \<and> 10 \<notin> set line \<and> unat consumed = Suc (length line)"
    by (auto simp: frames_def split: if_splits)
  then show ?thesis using read_present_typed[OF assms(3)] by blast
qed

theorem present_record_sound_witness:
  "summary_typed (finish_summary SessionRecordSummary_default) \<and>
   (\<exists>line. [123, 125, 10 :: u8] = line @ 10 # [] \<and> 10 \<notin> set line \<and> unat (3 :: u64) = Suc (length line))"
  by (rule present_record_sound[OF _ _ sample_line[of sample_sha256]]) simp_all

end
