(* ===== verification/Civil_Date.thy ===== *)
theory Civil_Date
  imports Prelude "HOL-Library.Signed_Division"
begin

text \<open>
  The calendar arithmetic of \<open>src/protocol_contract.rs\<close>: dates of the proleptic Gregorian calendar
  from days since 1970 and back, and the length of the month before a reset. The code computes in
  \<open>i128\<close>, which no value here leaves; its division truncates (\<open>sdiv\<close>, \<open>smod\<close>).
\<close>

section \<open>Definitions\<close>

definition floor_div :: "int \<Rightarrow> int \<Rightarrow> int" where
  "floor_div value divisor =
     (let quotient = value sdiv divisor in if value smod divisor < 0 then quotient - 1 else quotient)"

definition civil_date_from_unix_days :: "int \<Rightarrow> int \<times> int \<times> int" where
  "civil_date_from_unix_days days =
     (let z = days + 719468;
          era = floor_div z 146097;
          day_of_era = z - era * 146097;
          year_of_era = (day_of_era - day_of_era sdiv 1460 + day_of_era sdiv 36524 - day_of_era sdiv 146096) sdiv 365;
          year = year_of_era + era * 400;
          day_of_year = day_of_era - (365 * year_of_era + year_of_era sdiv 4 - year_of_era sdiv 100);
          month_prime = (5 * day_of_year + 2) sdiv 153;
          day = day_of_year - (153 * month_prime + 2) sdiv 5 + 1;
          month = month_prime + (if month_prime < 10 then 3 else -9);
          year = year + (if month \<le> 2 then 1 else 0)
      in (year, month, day))"

definition unix_days_from_civil_date :: "int \<Rightarrow> int \<Rightarrow> int \<Rightarrow> int" where
  "unix_days_from_civil_date year month day =
     (let adjusted_year = year - (if month \<le> 2 then 1 else 0);
          era = floor_div adjusted_year 400;
          year_of_era = adjusted_year - era * 400;
          month_prime = month + (if month > 2 then -3 else 9);
          day_of_year = (153 * month_prime + 2) sdiv 5 + day - 1;
          day_of_era = year_of_era * 365 + year_of_era sdiv 4 - year_of_era sdiv 100 + day_of_year
      in era * 146097 + day_of_era - 719468)"

definition is_leap_year :: "int \<Rightarrow> bool" where
  "is_leap_year year \<longleftrightarrow> year smod 4 = 0 \<and> (year smod 100 \<noteq> 0 \<or> year smod 400 = 0)"

definition days_in_month :: "int \<Rightarrow> int \<Rightarrow> int" where
  "days_in_month year month =
     (if month \<in> {1, 3, 5, 7, 8, 10, 12} then 31
      else if month \<in> {4, 6, 9, 11} then 30
      else if is_leap_year year then 29 else 28)"

text \<open>The month before a reset, from the same day (or the last one) of the previous month.\<close>

definition previous_month :: "int \<Rightarrow> int \<Rightarrow> int \<times> int" where
  "previous_month year month = (if month = 1 then (year - 1, 12) else (year, month - 1))"

definition monthly_window_seconds :: "i64 \<Rightarrow> i64" where
  "monthly_window_seconds reset_at =
     (let unix_days = reset_at div 86400;
          seconds_of_day = reset_at mod 86400;
          (year, month, day) = civil_date_from_unix_days unix_days;
          (previous_year, previous_month) = previous_month year month;
          previous_day = min day (days_in_month previous_year previous_month);
          previous_timestamp = unix_days_from_civil_date previous_year previous_month previous_day * 86400 + seconds_of_day
      in reset_at - previous_timestamp)"

section \<open>Division\<close>

lemma sdiv_nonneg: "0 \<le> v \<Longrightarrow> 0 < d \<Longrightarrow> v sdiv d = v div d" for v d :: int
  by (simp add: signed_divide_int_def sgn_if)

lemma floor_div_eq:
  assumes "0 < d"
  shows "floor_div v d = v div d"
proof (cases "0 \<le> v")
  case True
  moreover have "\<not> v mod d < 0" using pos_mod_sign[OF assms, of v] by linarith
  ultimately show ?thesis using assms by (auto simp: floor_div_def Let_def sdiv_nonneg signed_modulo_int_def sgn_if)
next
  case False
  with assms have "v sdiv d = - (- v div d)" "v smod d = - (- v mod d)"
    by (simp_all add: signed_divide_int_def signed_modulo_int_def sgn_if)
  with assms show ?thesis
    using zdiv_zminus1_eq_if[of d "- v"] order.not_eq_order_implies_strict[OF _ pos_mod_sign[OF assms, of "- v"]]
    by (auto simp: floor_div_def Let_def split: if_splits)
qed

lemma smod_0_iff: "v smod d = 0 \<longleftrightarrow> v mod d = 0" for v d :: int
  by (simp add: signed_modulo_int_def sgn_if mod_eq_0_iff_dvd)

lemma is_leap_year_iff: "is_leap_year y \<longleftrightarrow> 4 dvd y \<and> (\<not> 100 dvd y \<or> 400 dvd y)"
  by (simp add: is_leap_year_def smod_0_iff mod_eq_0_iff_dvd)

section \<open>Days of an era\<close>

text \<open>
  A day of an era of 400 years is a century, an olympiad, a year (counted from March) and a day;
  only a year that ends with a leap day has a day 365.
\<close>

definition era_day :: "int \<Rightarrow> int \<Rightarrow> int \<Rightarrow> int \<Rightarrow> bool" where
  "era_day c q y t \<longleftrightarrow> 0 \<le> c \<and> c \<le> 3 \<and> 0 \<le> q \<and> q \<le> 24 \<and> 0 \<le> y \<and> y \<le> 3 \<and> 0 \<le> t \<and>
     t \<le> (if y = 3 \<and> (q < 24 \<or> c = 3) then 365 else 364)"

lemma era_day_exists:
  assumes "0 \<le> d" "d < 146097"
  obtains c q y t where "era_day c q y t" "d = 36524 * c + 1461 * q + 365 * y + t"
proof -
  define c where "c = min 3 (d div 36524)"
  define r where "r = d - 36524 * c"
  define q where "q = r div 1461"
  define s where "s = r - 1461 * q"
  define y where "y = min 3 (s div 365)"
  define t where "t = s - 365 * y"
  have c: "0 \<le> c" "c \<le> 3" "0 \<le> r" "r \<le> (if c = 3 then 36524 else 36523)"
    using assms unfolding c_def r_def by (auto simp: min_def)
  have q: "0 \<le> q" "q \<le> 24" "0 \<le> s" "s \<le> 1460" "q = 24 \<Longrightarrow> c \<noteq> 3 \<Longrightarrow> s \<le> 1459"
    using c unfolding q_def s_def by (auto split: if_splits)
  have y: "0 \<le> y" "y \<le> 3" "0 \<le> t" "t \<le> 365" "y \<noteq> 3 \<Longrightarrow> t \<le> 364" "t = s - 365 * y"
    using q unfolding y_def t_def by (auto simp: min_def)
  have "era_day c q y t" using c q y by (cases "y = 3") (auto simp: era_day_def)
  moreover have "d = 36524 * c + 1461 * q + 365 * y + t" by (simp add: t_def s_def r_def)
  ultimately show thesis by (rule that)
qed

lemma div_unique: "b * k \<le> a \<Longrightarrow> a < b * k + b \<Longrightarrow> a div b = k" for a b k :: int
  by (rule int_div_pos_eq[of a b k "a - b * k"]) auto

text \<open>The formulas of the code on such a day.\<close>

lemma era_day_year:
  assumes "era_day c q y t" "d = 36524 * c + 1461 * q + 365 * y + t"
  shows "(d - d div 1460 + d div 36524 - d div 146096) div 365 = 100 * c + 4 * q + y"
proof -
  define e :: int where "e = (if 24 * c + q + 365 * y + t \<ge> 1460 then 1 else 0)"
  define f :: int where "f = (if d = 146096 then 1 else 0)"
  have b: "0 \<le> c" "c \<le> 3" "0 \<le> q" "q \<le> 24" "0 \<le> y" "y \<le> 3" "0 \<le> t" "t \<le> 365"
    using assms(1) by (auto simp: era_day_def split: if_splits)
  have "d div 1460 = 25 * c + q + e"
    using b assms(2) by (intro div_unique) (auto simp: e_def)
  moreover have "d div 36524 = c + f"
    using b assms by (intro div_unique) (auto simp: f_def era_day_def split: if_splits)
  moreover have "d div 146096 = f"
    using b assms(2) by (intro div_unique) (auto simp: f_def)
  moreover have "0 \<le> t - e" "t - e \<le> 364" using assms(1) b by (auto simp: e_def era_day_def split: if_splits)
  ultimately show ?thesis using assms(2) by (intro div_unique) auto
qed

lemma era_year_leaps:
  assumes "era_day c q y t"
  shows "(100 * c + 4 * q + y) div 4 = 25 * c + q" "(100 * c + 4 * q + y) div 100 = c"
  using assms by (auto simp: era_day_def intro!: div_unique)

section \<open>Days of a year\<close>

text \<open>The months of a year that starts in March, with their first days.\<close>

definition month_start :: "int \<Rightarrow> int" where
  "month_start m = (153 * m + 2) div 5"

lemma month_start_values [simp]:
  "month_start 0 = 0" "month_start 1 = 31" "month_start 2 = 61" "month_start 3 = 92" "month_start 4 = 122"
  "month_start 5 = 153" "month_start 6 = 184" "month_start 7 = 214" "month_start 8 = 245" "month_start 9 = 275"
  "month_start 10 = 306" "month_start 11 = 337" "month_start 12 = 367"
  by (simp_all add: month_start_def)

definition month_day :: "int \<Rightarrow> int \<Rightarrow> bool" where
  "month_day m t \<longleftrightarrow> 0 \<le> m \<and> m \<le> 11 \<and> month_start m \<le> t \<and> t < month_start (m + 1) \<and> t \<le> 365"

lemma twelve_cases:
  assumes "0 \<le> m" "m \<le> 11"
  shows "m = 0 \<or> m = 1 \<or> m = 2 \<or> m = 3 \<or> m = 4 \<or> m = 5 \<or> m = 6 \<or> m = 7 \<or> m = 8 \<or> m = 9 \<or> m = 10 \<or> m = (11 :: int)"
  using assms by arith

lemma month_day_exists:
  assumes "0 \<le> t" "t \<le> 365"
  shows "month_day ((5 * t + 2) div 153) t"
proof -
  define m where "m = (5 * t + 2) div 153"
  have m: "153 * m \<le> 5 * t + 2" "5 * t + 2 < 153 * m + 153" by (simp_all add: m_def)
  then have r: "0 \<le> m" "m \<le> 11" using assms by simp_all
  from twelve_cases[OF r] m assms have "month_start m \<le> t \<and> t < month_start (m + 1)" by (elim disjE) simp_all
  then show ?thesis using r assms unfolding m_def[symmetric] by (simp add: month_day_def)
qed

lemma month_day_unique: "month_day m t \<Longrightarrow> (5 * t + 2) div 153 = m"
proof -
  assume m: "month_day m t"
  then have "0 \<le> m" "m \<le> 11" by (simp_all add: month_day_def)
  from twelve_cases[OF this] m have "153 * m \<le> 5 * t + 2 \<and> 5 * t + 2 < 153 * m + 153"
    by (elim disjE) (simp_all add: month_day_def)
  then show ?thesis by (intro div_unique) simp_all
qed

section \<open>Dates\<close>

definition valid_date :: "int \<Rightarrow> int \<Rightarrow> int \<Rightarrow> bool" where
  "valid_date year month day \<longleftrightarrow> 1 \<le> month \<and> month \<le> 12 \<and> 1 \<le> day \<and> day \<le> days_in_month year month"

text \<open>The date of a day: the year from March on, the month and the day.\<close>

definition date_at :: "int \<Rightarrow> int \<Rightarrow> int \<Rightarrow> int \<Rightarrow> int \<Rightarrow> int \<Rightarrow> int \<times> int \<times> int" where
  "date_at era c q y m t =
     (400 * era + 100 * c + 4 * q + y + (if m < 10 then 0 else 1), m + (if m < 10 then 3 else -9), t - month_start m + 1)"

definition day_number :: "int \<Rightarrow> int \<Rightarrow> int \<Rightarrow> int \<Rightarrow> int \<Rightarrow> int" where
  "day_number era c q y t = 146097 * era + 36524 * c + 1461 * q + 365 * y + t - 719468"

lemma civil_date_at:
  assumes "era_day c q y t" "month_day m t"
  shows "civil_date_from_unix_days (day_number era c q y t) = date_at era c q y m t"
proof -
  define d where "d = 36524 * c + 1461 * q + 365 * y + t"
  have d: "0 \<le> d" "d < 146097" using assms(1) by (auto simp: era_day_def d_def split: if_splits)
  have z: "day_number era c q y t + 719468 = 146097 * era + d" by (simp add: day_number_def d_def)
  have era: "floor_div (146097 * era + d) 146097 = era" using d by (simp add: floor_div_eq)
  have yoe: "(d - d sdiv 1460 + d sdiv 36524 - d sdiv 146096) sdiv 365 = 100 * c + 4 * q + y"
  proof -
    have "(d - d div 1460 + d div 36524 - d div 146096) div 365 = 100 * c + 4 * q + y"
      using assms(1) by (rule era_day_year) (rule d_def)
    moreover have "0 \<le> d - d div 1460 + d div 36524 - d div 146096" using d by auto
    ultimately show ?thesis using d by (simp add: sdiv_nonneg)
  qed
  have nonneg: "0 \<le> 100 * c + 4 * q + y" "0 \<le> t" "0 \<le> m" using assms by (auto simp: era_day_def month_day_def)
  have leaps: "(100 * c + 4 * q + y) sdiv 4 = 25 * c + q" "(100 * c + 4 * q + y) sdiv 100 = c"
    using era_year_leaps[OF assms(1)] nonneg by (simp_all add: sdiv_nonneg)
  have doy: "d - (365 * (100 * c + 4 * q + y) + (25 * c + q) - c) = t" by (simp add: d_def)
  have mp: "(5 * t + 2) sdiv 153 = m" "(153 * m + 2) sdiv 5 = month_start m"
    using month_day_unique[OF assms(2)] nonneg by (simp_all add: sdiv_nonneg month_start_def)
  have month: "m + (if m < 10 then 3 else -9) \<le> 2 \<longleftrightarrow> \<not> m < 10" using assms(2) by (auto simp: month_day_def)
  show ?thesis
    unfolding civil_date_from_unix_days_def Let_def z era add_diff_cancel_left' mult.commute[of era] yoe leaps doy mp month date_at_def
    by simp
qed

lemma unix_days_at:
  assumes "era_day c q y t" "month_day m t" "date_at era c q y m t = (year, month, day)"
  shows "unix_days_from_civil_date year month day = day_number era c q y t"
proof -
  have m: "0 \<le> m" "m \<le> 11" and b: "0 \<le> 100 * c + 4 * q + y" "100 * c + 4 * q + y < 400"
    using assms(1,2) by (auto simp: month_day_def era_day_def split: if_splits)
  have date: "year - (if month \<le> 2 then 1 else 0) = 400 * era + (100 * c + 4 * q + y)"
    "month + (if month > 2 then -3 else 9) = m" "day = t - month_start m + 1"
    using assms(3) m by (auto simp: date_at_def split: if_splits)
  have era: "floor_div (400 * era + (100 * c + 4 * q + y)) 400 = era" using b by (simp add: floor_div_eq)
  have leaps: "(100 * c + 4 * q + y) sdiv 4 = 25 * c + q" "(100 * c + 4 * q + y) sdiv 100 = c"
    using era_year_leaps[OF assms(1)] b by (simp_all add: sdiv_nonneg)
  have start: "(153 * m + 2) sdiv 5 = month_start m" using m by (simp add: sdiv_nonneg month_start_def)
  show ?thesis
    unfolding unix_days_from_civil_date_def Let_def date era add_diff_cancel_left' mult.commute[of era] leaps start day_number_def
    by simp
qed

lemma dvd_shift:
  fixes b k r :: int
  assumes "1 \<le> r" "r \<le> b"
  shows "b dvd b * k + r \<longleftrightarrow> r = b"
  using assms zdvd_imp_le[of b r] by (auto simp: dvd_add_right_iff)

lemma leap_at:
  assumes "0 \<le> c" "c \<le> 3" "0 \<le> q" "q \<le> 24" "0 \<le> y" "y \<le> 3"
  shows "is_leap_year (400 * era + 100 * c + 4 * q + y + 1) \<longleftrightarrow> y = 3 \<and> (q < 24 \<or> c = 3)"
proof -
  let ?n = "400 * era + 100 * c + 4 * q + y + 1"
  have "4 dvd ?n \<longleftrightarrow> y = 3"
    using dvd_shift[of "y + 1" 4 "100 * era + 25 * c + q"] assms by (simp add: algebra_simps)
  moreover have "100 dvd ?n \<longleftrightarrow> 4 * q + y + 1 = 100"
    using dvd_shift[of "4 * q + y + 1" 100 "4 * era + c"] assms by (simp add: algebra_simps)
  moreover have "400 dvd ?n \<longleftrightarrow> 100 * c + 4 * q + y + 1 = 400"
    using dvd_shift[of "100 * c + 4 * q + y + 1" 400 era] assms by (simp add: algebra_simps)
  ultimately show ?thesis using assms unfolding is_leap_year_iff by auto
qed

lemma month_length:
  assumes "0 \<le> m" "m \<le> 11"
  shows "days_in_month year (m + (if m < 10 then 3 else -9)) =
    (if m = 11 then (if is_leap_year year then 29 else 28) else month_start (m + 1) - month_start m)"
  using twelve_cases[OF assms] by (elim disjE) (simp_all add: days_in_month_def)

lemma date_at_valid:
  assumes "era_day c q y t" "month_day m t" "date_at era c q y m t = (year, month, day)"
  shows "valid_date year month day"
proof -
  have m: "0 \<le> m" "m \<le> 11" "month_start m \<le> t" "t < month_start (m + 1)" using assms(2) by (simp_all add: month_day_def)
  have leap: "m = 11 \<Longrightarrow> is_leap_year year \<longleftrightarrow> y = 3 \<and> (q < 24 \<or> c = 3)"
    using leap_at[of c q y era] assms(1,3) by (auto simp: era_day_def date_at_def add.commute)
  have "t \<le> (if y = 3 \<and> (q < 24 \<or> c = 3) then 365 else 364)" using assms(1) by (simp add: era_day_def)
  with m leap show ?thesis
    using assms(3) month_length[OF m(1,2), of year] by (auto simp: valid_date_def date_at_def split: if_splits)
qed

lemma day_number_exists:
  obtains era c q y t where "era_day c q y t" "n = day_number era c q y t"
proof -
  have "0 \<le> (n + 719468) mod 146097" "(n + 719468) mod 146097 < 146097" by simp_all
  then obtain c q y t where e: "era_day c q y t" "(n + 719468) mod 146097 = 36524 * c + 1461 * q + 365 * y + t"
    by (rule era_day_exists)
  then have "n = day_number ((n + 719468) div 146097) c q y t"
    using mult_div_mod_eq[of 146097 "n + 719468"] by (simp add: day_number_def)
  with e(1) show thesis by (rule that)
qed

lemma valid_date_exists:
  assumes "valid_date year month day"
  obtains era c q y m t where "era_day c q y t" "month_day m t" "date_at era c q y m t = (year, month, day)"
proof -
  define m where "m = month + (if month > 2 then -3 else 9)"
  define adjusted where "adjusted = year - (if month > 2 then 0 else 1)"
  define t where "t = month_start m + day - 1"
  define yoe where "yoe = adjusted mod 400"
  define r where "r = yoe mod 100"
  define c q y where "c = yoe div 100" and "q = r div 4" and "y = r mod 4"
  have yoe: "yoe = 100 * c + 4 * q + y" by (simp add: c_def q_def y_def r_def)
  have "0 \<le> yoe" "yoe < 400" "0 \<le> r" "r < 100" by (simp_all add: yoe_def r_def)
  then have b: "0 \<le> c" "c \<le> 3" "0 \<le> q" "q \<le> 24" "0 \<le> y" "y \<le> 3"
    unfolding c_def q_def y_def by simp_all
  have m: "0 \<le> m" "m \<le> 11" "month = m + (if m < 10 then 3 else -9)" "month > 2 \<longleftrightarrow> m < 10"
    using assms by (auto simp: valid_date_def m_def)
  have year: "year = 400 * (adjusted div 400) + 100 * c + 4 * q + y + (if m < 10 then 0 else 1)"
  proof -
    have "400 * (adjusted div 400) + yoe = adjusted" by (simp add: yoe_def)
    moreover have "year = adjusted + (if m < 10 then 0 else 1)" using m(4) by (simp add: adjusted_def)
    ultimately show ?thesis unfolding yoe by linarith
  qed
  have leap: "m = 11 \<Longrightarrow> is_leap_year year \<longleftrightarrow> y = 3 \<and> (q < 24 \<or> c = 3)"
    using leap_at[OF b, of "adjusted div 400"] year by simp
  have day: "1 \<le> day" "day \<le> days_in_month year month" using assms by (simp_all add: valid_date_def)
  have d: "day \<le> (if m = 11 then (if is_leap_year year then 29 else 28) else month_start (m + 1) - month_start m)"
    using day(2) unfolding m(3) month_length[OF m(1,2)] .
  have "month_start m \<le> t \<and> t < month_start (m + 1) \<and> 0 \<le> t \<and> t \<le> (if y = 3 \<and> (q < 24 \<or> c = 3) then 365 else 364)"
    using twelve_cases[OF m(1,2)] day(1) d leap unfolding t_def by (elim disjE) (auto split: if_splits)
  then have "era_day c q y t" "month_day m t" using b m by (auto simp: era_day_def month_day_def split: if_splits)
  moreover have "date_at (adjusted div 400) c q y m t = (year, month, day)"
    using year m(3) by (simp add: date_at_def t_def)
  ultimately show thesis by (rule that)
qed

section \<open>One month earlier\<close>

lemma civil_date_valid:
  assumes "civil_date_from_unix_days n = (year, month, day)"
  shows "valid_date year month day" "unix_days_from_civil_date year month day = n"
proof -
  obtain era c q y t where n: "era_day c q y t" "n = day_number era c q y t" by (rule day_number_exists)
  have "0 \<le> t" "t \<le> 365" using n(1) by (auto simp: era_day_def split: if_splits)
  then have m: "month_day ((5 * t + 2) div 153) t" by (rule month_day_exists)
  have "date_at era c q y ((5 * t + 2) div 153) t = (year, month, day)"
    using civil_date_at[OF n(1) m, of era] assms n(2) by simp
  from date_at_valid[OF n(1) m this] unix_days_at[OF n(1) m this] n(2)
  show "valid_date year month day" "unix_days_from_civil_date year month day = n" by simp_all
qed

lemma unix_days_inverse:
  assumes "valid_date year month day"
  shows "civil_date_from_unix_days (unix_days_from_civil_date year month day) = (year, month, day)"
proof -
  obtain era c q y m t where d: "era_day c q y t" "month_day m t" "date_at era c q y m t = (year, month, day)"
    using assms by (rule valid_date_exists)
  then show ?thesis using unix_days_at[OF d] civil_date_at[OF d(1,2), of era] by simp
qed

text \<open>Within a month the day number moves with the day.\<close>

lemma unix_days_day: "unix_days_from_civil_date year month (day + k) = unix_days_from_civil_date year month day + k"
  by (simp add: unix_days_from_civil_date_def Let_def)

text \<open>The days before the first of March of a year.\<close>

definition march_days :: "int \<Rightarrow> int" where
  "march_days y = 365 * y + y div 4 - y div 100 + y div 400 - 719468"

lemma unix_days_march:
  assumes "1 \<le> month" "month \<le> 12"
  shows "unix_days_from_civil_date year month day =
    march_days (year - (if month \<le> 2 then 1 else 0)) + month_start (month + (if month > 2 then -3 else 9)) + day - 1"
proof -
  define a where "a = year - (if month \<le> 2 then 1 else 0)"
  define e r where "e = a div 400" and "r = a mod 400"
  have a: "a = 400 * e + r" "0 \<le> r" by (simp_all add: e_def r_def)
  have "a div 4 = 100 * e + r div 4" "a div 100 = 4 * e + r div 100" unfolding a(1) by simp_all
  moreover have "floor_div a 400 = e" by (simp add: floor_div_eq e_def)
  moreover have "0 \<le> 153 * (month + (if month > 2 then -3 else 9)) + 2" using assms by auto
  ultimately show ?thesis
    unfolding unix_days_from_civil_date_def Let_def a_def[symmetric] march_days_def e_def[symmetric] month_start_def
    using a by (simp add: sdiv_nonneg)
qed

lemma div_step:
  fixes y k :: int
  assumes "0 < k"
  shows "y div k = (y - 1) div k + (if k dvd y then 1 else 0)"
proof (cases "k dvd y")
  case True
  then obtain j where "y = k * j" ..
  moreover have "(k * j - 1) div k = j - 1" using assms by (intro div_unique) (simp_all add: algebra_simps)
  ultimately show ?thesis using assms by simp
next
  case False
  then have "1 \<le> y mod k" using pos_mod_sign[OF assms, of y] by (simp add: dvd_eq_mod_eq_0 less_le)
  moreover have "y = k * (y div k) + y mod k" "y mod k < k" using assms by simp_all
  ultimately have "(y - 1) div k = y div k" by (intro div_unique) linarith+
  then show ?thesis using False by simp
qed

lemma march_year: "march_days y = march_days (y - 1) + 365 + (if is_leap_year y then 1 else 0)"
proof -
  have c: "4 dvd y" if "100 dvd y" by (rule dvd_trans[OF _ that]) simp
  have c': "100 dvd y" if "400 dvd y" by (rule dvd_trans[OF _ that]) simp
  have sum: "365 * y + (p + u) - (q + v) + (r + w) - 719468 = 365 * (y - 1) + p - q + r - 719468 + 365 + (u - v + w)"
    for p q r u v w :: int by simp
  have "march_days y = march_days (y - 1) + 365 +
      ((if 4 dvd y then 1 else 0) - (if 100 dvd y then 1 else 0) + (if 400 dvd y then 1 else 0))"
    unfolding march_days_def sum[symmetric]
    by (intro arg_cong2[where f = "(-)"] arg_cong2[where f = "(+)"] refl div_step) simp_all
  moreover have "(if 4 dvd y then 1 else 0) - (if 100 dvd y then 1 else 0) + (if 400 dvd y then 1 else 0) =
      (if is_leap_year y then 1 else (0 :: int))"
    unfolding is_leap_year_iff using c c' by presburger
  ultimately show ?thesis by (simp only:)
qed

text \<open>The first day of a month comes after the days of the month before.\<close>

lemma unix_days_month:
  assumes "1 \<le> month" "month \<le> 12" "previous_month year month = (y, m)"
  shows "unix_days_from_civil_date year month 1 = unix_days_from_civil_date y m 1 + days_in_month y m" "1 \<le> m" "m \<le> 12"
proof -
  from assms(1,2) have c: "month - 1 = 0 \<or> month - 1 = 1 \<or> month - 1 = 2 \<or> month - 1 = 3 \<or> month - 1 = 4 \<or> month - 1 = 5 \<or>
      month - 1 = 6 \<or> month - 1 = 7 \<or> month - 1 = 8 \<or> month - 1 = 9 \<or> month - 1 = 10 \<or> month - 1 = 11"
    by (intro twelve_cases) simp_all
  show m: "1 \<le> m" "m \<le> 12" using assms by (auto simp: previous_month_def split: if_splits)
  show "unix_days_from_civil_date year month 1 = unix_days_from_civil_date y m 1 + days_in_month y m"
    unfolding unix_days_march[OF assms(1,2)] unix_days_march[OF m] using c assms(3) march_year[of year]
    by (elim disjE) (auto simp: previous_month_def days_in_month_def)
qed

text \<open>What \<open>monthly_window_seconds\<close> returns, with the dates it goes through.\<close>

lemma monthly_window_parts:
  assumes "civil_date_from_unix_days (reset_at div 86400) = (year, month, day)" "previous_month year month = (y, m)"
  defines "d \<equiv> min day (days_in_month y m)"
  shows "valid_date y m d"
    "monthly_window_seconds reset_at = 86400 * (reset_at div 86400 - unix_days_from_civil_date y m d)"
    "28 \<le> reset_at div 86400 - unix_days_from_civil_date y m d" "reset_at div 86400 - unix_days_from_civil_date y m d \<le> 31"
proof -
  note date = civil_date_valid[OF assms(1)]
  then have v: "1 \<le> month" "month \<le> 12" "1 \<le> day" "day \<le> days_in_month year month" by (simp_all add: valid_date_def)
  note step = unix_days_month[OF v(1,2) assms(2)]
  have len: "28 \<le> days_in_month y m" "days_in_month y m \<le> 31" "days_in_month year month \<le> 31"
    by (auto simp: days_in_month_def)
  show "valid_date y m d" using step(2,3) v(3) len by (auto simp: valid_date_def d_def)
  show "monthly_window_seconds reset_at = 86400 * (reset_at div 86400 - unix_days_from_civil_date y m d)"
    unfolding monthly_window_seconds_def Let_def assms(1,2) prod.case d_def
    by (simp add: algebra_simps minus_mod_eq_mult_div)
  have "unix_days_from_civil_date y m d = unix_days_from_civil_date y m 1 + (d - 1)"
    using unix_days_day[of y m 1 "d - 1"] by simp
  moreover have "unix_days_from_civil_date year month 1 + (day - 1) = reset_at div 86400"
    using unix_days_day[of year month 1 "day - 1"] date(2) by simp
  ultimately have "reset_at div 86400 - unix_days_from_civil_date y m d = days_in_month y m + day - d" using step(1) by simp
  then show "28 \<le> reset_at div 86400 - unix_days_from_civil_date y m d" "reset_at div 86400 - unix_days_from_civil_date y m d \<le> 31"
    using len v by (auto simp: d_def min_def)
qed

section \<open>The calendar\<close>

text \<open>The day after a date.\<close>

definition next_day :: "int \<times> int \<times> int \<Rightarrow> int \<times> int \<times> int" where
  "next_day date =
     (let (year, month, day) = date in
      if day < days_in_month year month then (year, month, day + 1)
      else if month < 12 then (year, month + 1, 1) else (year + 1, 1, 1))"

lemma next_day_number:
  assumes "valid_date year month day" "next_day (year, month, day) = (y, m, d)"
  shows "valid_date y m d" "unix_days_from_civil_date y m d = unix_days_from_civil_date year month day + 1"
proof -
  have v: "1 \<le> month" "month \<le> 12" "1 \<le> day" "day \<le> days_in_month year month" using assms(1) by (simp_all add: valid_date_def)
  have pos: "1 \<le> days_in_month y m" by (simp add: days_in_month_def)
  show "valid_date y m d" using assms(2) v pos by (auto simp: next_day_def valid_date_def split: if_splits)
  show "unix_days_from_civil_date y m d = unix_days_from_civil_date year month day + 1"
  proof (cases "day < days_in_month year month")
    case True
    with assms(2) show ?thesis using unix_days_day[of year month day 1] by (simp add: next_day_def)
  next
    case False
    with v assms(2) have "day = days_in_month year month" "d = 1" "previous_month y m = (year, month)" "1 \<le> m" "m \<le> 12"
      by (auto simp: next_day_def previous_month_def split: if_splits)
    then show ?thesis using unix_days_month(1)[of m y year month] unix_days_day[of year month 1 "day - 1"] by simp
  qed
qed

text \<open>
  C31. Dates: the conversion counts the days of the Gregorian calendar. Day 0 is the first of
  January 1970, the day after a date is the next date of the calendar (months of the right
  lengths, leap years included, before 1970 and before year 0 as well), and the conversion back
  returns exactly the day of a valid date.
\<close>

theorem civil_date_is_calendar:
  "civil_date_from_unix_days 0 = (1970, 1, 1) \<and>
   (\<forall>n. civil_date_from_unix_days (n + 1) = next_day (civil_date_from_unix_days n)) \<and>
   (\<forall>n y m d. civil_date_from_unix_days n = (y, m, d) \<longleftrightarrow> valid_date y m d \<and> unix_days_from_civil_date y m d = n)"
proof (intro conjI allI)
  show "civil_date_from_unix_days 0 = (1970, 1, 1)"
    by (simp add: civil_date_from_unix_days_def Let_def floor_div_def)
  show "civil_date_from_unix_days (n + 1) = next_day (civil_date_from_unix_days n)" for n
  proof -
    obtain y m d where c: "civil_date_from_unix_days n = (y, m, d)" using prod_cases3 by blast
    obtain y' m' d' where s: "next_day (y, m, d) = (y', m', d')" using prod_cases3 by blast
    note next_date = next_day_number[OF civil_date_valid(1)[OF c] s]
    show ?thesis using unix_days_inverse[OF next_date(1)] next_date(2) civil_date_valid(2)[OF c] c s by simp
  qed
  show "civil_date_from_unix_days n = (y, m, d) \<longleftrightarrow> valid_date y m d \<and> unix_days_from_civil_date y m d = n" for n y m d
    using civil_date_valid unix_days_inverse by blast
qed

text \<open>
  C32. The monthly window: for every reset time the window reaches back to the same time of day on
  the same day of the previous month, or on its last day when it is shorter, and is between 28
  and 31 days long; the conversion to 64 bits never fails.
\<close>

theorem monthly_window_is_calendar_month:
  "let (year, month, day) = civil_date_from_unix_days (reset_at div 86400);
       (y, m) = previous_month year month;
       window = monthly_window_seconds reset_at
   in civil_date_from_unix_days ((reset_at - window) div 86400) = (y, m, min day (days_in_month y m)) \<and>
      (reset_at - window) mod 86400 = reset_at mod 86400 \<and> 28 * 86400 \<le> window \<and> window \<le> 31 * 86400"
proof -
  obtain year month day where c: "civil_date_from_unix_days (reset_at div 86400) = (year, month, day)" using prod_cases3 by blast
  obtain y m where p: "previous_month year month = (y, m)" by fastforce
  define d k where "d = min day (days_in_month y m)" and "k = reset_at div 86400 - unix_days_from_civil_date y m d"
  note w = monthly_window_parts[OF c p, folded d_def, folded k_def]
  have "(reset_at - 86400 * k) div 86400 = unix_days_from_civil_date y m d" by (simp add: k_def)
  moreover have "(reset_at - 86400 * k) mod 86400 = reset_at mod 86400" by (simp add: mod_diff_eq[symmetric])
  ultimately show ?thesis
    unfolding Let_def c p prod.case w(2) using unix_days_inverse[OF w(1)] w(3,4) by (simp add: d_def)
qed

end
