(* ===== verification/Protocol_Contract.thy ===== *)
theory Protocol_Contract
  imports Security Civil_Date F64
begin

text \<open>
  The account and quota messages of the app server (\<open>src/protocol_contract.rs\<close>), and the reading of
  the same quota message by the recorder (\<open>interpret_official_quota\<close>). A JSON value is the type
  \<open>serde_json::Value\<close>, whose objects are maps from keys to values (association lists with different
  keys). Parsing of text into values is code of that library and an argument.
\<close>

section \<open>JSON values\<close>

datatype Number = PosInt u64 | NegInt i64 | FloatNumber f64

datatype Value =
    VNull
  | VBool bool
  | VNumber Number
  | VString rstr
  | VArray "Value list"
  | VObject "(rstr \<times> Value) list"

type_synonym fields = "(rstr \<times> Value) list"

fun as_object :: "Value \<Rightarrow> fields option" where
  "as_object (VObject entries) = Some entries"
| "as_object _ = None"

fun as_array :: "Value \<Rightarrow> Value list option" where
  "as_array (VArray values) = Some values"
| "as_array _ = None"

fun as_str :: "Value \<Rightarrow> rstr option" where
  "as_str (VString s) = Some s"
| "as_str _ = None"

fun as_bool :: "Value \<Rightarrow> bool option" where
  "as_bool (VBool b) = Some b"
| "as_bool _ = None"

fun as_i64 :: "Value \<Rightarrow> i64 option" where
  "as_i64 (VNumber (PosInt n)) = (if uint n \<le> i64_max then Some (uint n) else None)"
| "as_i64 (VNumber (NegInt n)) = Some n"
| "as_i64 _ = None"

definition vget :: "fields \<Rightarrow> rstr \<Rightarrow> Value option" where
  "vget values key = map_of values key"

definition get_str :: "fields \<Rightarrow> rstr \<Rightarrow> rstr option" where
  "get_str values key = Option.bind (vget values key) as_str"

definition get_i64 :: "fields \<Rightarrow> rstr \<Rightarrow> i64 option" where
  "get_i64 values key = Option.bind (vget values key) as_i64"

definition get_object :: "fields \<Rightarrow> rstr \<Rightarrow> fields option" where
  "get_object values key = Option.bind (vget values key) as_object"

section \<open>Errors and plans\<close>

datatype ProtocolError =
    AccountSchema | AccountUpdatedSchema | QuotaSchema | InvalidPlanType | AccountQuotaPlanMismatch

definition ProtocolError_message :: "ProtocolError \<Rightarrow> rstr" where
  "ProtocolError_message e =
     (case e of
        AccountSchema \<Rightarrow> lit ''account response schema contract violation''
      | AccountUpdatedSchema \<Rightarrow> lit ''account updated notification schema contract violation''
      | QuotaSchema \<Rightarrow> lit ''quota response schema contract violation''
      | InvalidPlanType \<Rightarrow> lit ''plan type contract violation''
      | AccountQuotaPlanMismatch \<Rightarrow> lit ''account and quota plan contract mismatch'')"

datatype PlanFamily =
    FamilyFree | FamilyGo | FamilyPlus | FamilyPro | FamilyProLite | FamilyTeam | FamilyBusiness | FamilyEnterprise
  | FamilyEdu | FamilyUnset

definition is_known :: "PlanFamily \<Rightarrow> bool" where
  "is_known family \<longleftrightarrow> family \<noteq> FamilyUnset"

datatype PlanType =
    PlanFree | PlanGo | PlanPlus | PlanPro | PlanProLite | PlanTeam | SelfServeBusinessProLite
  | SelfServeBusinessUsageBased | PlanBusiness | Ent26 | EnterpriseCbpAutomation | EnterpriseCbpUsageBased
  | PlanEnterprise | PlanEdu | PlanUnknown

definition PlanType_VALUES :: "rstr list" where
  "PlanType_VALUES =
     [lit ''free'', lit ''go'', lit ''plus'', lit ''pro'', lit ''prolite'', lit ''team'',
      lit ''self_serve_business_prolite'', lit ''self_serve_business_usage_based'', lit ''business'', lit ''ent26'',
      lit ''enterprise_cbp_automation'', lit ''enterprise_cbp_usage_based'', lit ''enterprise'', lit ''edu'', lit ''unknown'']"

definition PlanType_parse :: "rstr \<Rightarrow> PlanType option" where
  "PlanType_parse value =
     (if value = lit ''free'' then Some PlanFree
      else if value = lit ''go'' then Some PlanGo
      else if value = lit ''plus'' then Some PlanPlus
      else if value = lit ''pro'' then Some PlanPro
      else if value = lit ''prolite'' then Some PlanProLite
      else if value = lit ''team'' then Some PlanTeam
      else if value = lit ''self_serve_business_prolite'' then Some SelfServeBusinessProLite
      else if value = lit ''self_serve_business_usage_based'' then Some SelfServeBusinessUsageBased
      else if value = lit ''business'' then Some PlanBusiness
      else if value = lit ''ent26'' then Some Ent26
      else if value = lit ''enterprise_cbp_automation'' then Some EnterpriseCbpAutomation
      else if value = lit ''enterprise_cbp_usage_based'' then Some EnterpriseCbpUsageBased
      else if value = lit ''enterprise'' then Some PlanEnterprise
      else if value = lit ''edu'' then Some PlanEdu
      else if value = lit ''unknown'' then Some PlanUnknown
      else None)"

fun PlanType_as_str :: "PlanType \<Rightarrow> rstr" where
  "PlanType_as_str PlanFree = lit ''free''"
| "PlanType_as_str PlanGo = lit ''go''"
| "PlanType_as_str PlanPlus = lit ''plus''"
| "PlanType_as_str PlanPro = lit ''pro''"
| "PlanType_as_str PlanProLite = lit ''prolite''"
| "PlanType_as_str PlanTeam = lit ''team''"
| "PlanType_as_str SelfServeBusinessProLite = lit ''self_serve_business_prolite''"
| "PlanType_as_str SelfServeBusinessUsageBased = lit ''self_serve_business_usage_based''"
| "PlanType_as_str PlanBusiness = lit ''business''"
| "PlanType_as_str Ent26 = lit ''ent26''"
| "PlanType_as_str EnterpriseCbpAutomation = lit ''enterprise_cbp_automation''"
| "PlanType_as_str EnterpriseCbpUsageBased = lit ''enterprise_cbp_usage_based''"
| "PlanType_as_str PlanEnterprise = lit ''enterprise''"
| "PlanType_as_str PlanEdu = lit ''edu''"
| "PlanType_as_str PlanUnknown = lit ''unknown''"

fun PlanType_family :: "PlanType \<Rightarrow> PlanFamily" where
  "PlanType_family PlanFree = FamilyFree"
| "PlanType_family PlanGo = FamilyGo"
| "PlanType_family PlanPlus = FamilyPlus"
| "PlanType_family PlanPro = FamilyPro"
| "PlanType_family PlanProLite = FamilyProLite"
| "PlanType_family PlanTeam = FamilyTeam"
| "PlanType_family SelfServeBusinessProLite = FamilyBusiness"
| "PlanType_family SelfServeBusinessUsageBased = FamilyBusiness"
| "PlanType_family PlanBusiness = FamilyBusiness"
| "PlanType_family Ent26 = FamilyEnterprise"
| "PlanType_family EnterpriseCbpAutomation = FamilyEnterprise"
| "PlanType_family EnterpriseCbpUsageBased = FamilyEnterprise"
| "PlanType_family PlanEnterprise = FamilyEnterprise"
| "PlanType_family PlanEdu = FamilyEdu"
| "PlanType_family PlanUnknown = FamilyUnset"

text \<open>The labels in Japanese script are written as their scalars.\<close>

definition UNSET_LABEL :: rstr where
  "UNSET_LABEL = [0x30D7, 0x30E9, 0x30F3, 0x672A, 0x8A2D, 0x5B9A]"

fun PlanType_label :: "PlanType \<Rightarrow> rstr" where
  "PlanType_label PlanFree = [0x7121, 0x6599]"
| "PlanType_label PlanGo = lit ''Go''"
| "PlanType_label PlanPlus = lit ''Plus''"
| "PlanType_label PlanPro = lit ''Pro''"
| "PlanType_label PlanProLite = lit ''Pro Lite''"
| "PlanType_label PlanTeam = lit ''Team''"
| "PlanType_label SelfServeBusinessProLite = lit ''Business''"
| "PlanType_label SelfServeBusinessUsageBased = lit ''Business''"
| "PlanType_label PlanBusiness = lit ''Business''"
| "PlanType_label PlanEdu = [0x6559, 0x80B2]"
| "PlanType_label PlanUnknown = UNSET_LABEL"
| "PlanType_label _ = [0x30A8, 0x30F3, 0x30BF, 0x30FC, 0x30D7, 0x30E9, 0x30A4, 0x30BA]"

definition plan_type_from_wire :: "rstr option \<Rightarrow> PlanType option" where
  "plan_type_from_wire value = Option.bind value PlanType_parse"

definition plan_family_from_wire :: "rstr option \<Rightarrow> PlanFamily option" where
  "plan_family_from_wire value = map_option PlanType_family (plan_type_from_wire value)"

definition plan_label :: "rstr option \<Rightarrow> rstr" where
  "plan_label value = (case Option.bind value PlanType_parse of None \<Rightarrow> UNSET_LABEL | Some plan \<Rightarrow> PlanType_label plan)"

section \<open>Account notifications\<close>

definition AUTH_MODES :: "rstr list" where
  "AUTH_MODES = [lit ''apikey'', lit ''chatgpt'', lit ''chatgptAuthTokens'', lit ''headers'', lit ''agentIdentity'',
     lit ''personalAccessToken'', lit ''bedrockApiKey'']"

definition validate_account_updated_notification :: "Value \<Rightarrow> ProtocolError + unit" where
  "validate_account_updated_notification value =
     try_res (ok_or AccountUpdatedSchema (as_object value)) (\<lambda>message.
     if length message \<noteq> 3 \<or> get_str message (lit ''jsonrpc'') \<noteq> Some (lit ''2.0'') \<or>
        get_str message (lit ''method'') \<noteq> Some (lit ''account/updated'') \<or> vget message (lit ''id'') \<noteq> None
     then Inl AccountUpdatedSchema
     else try_res (ok_or AccountUpdatedSchema (get_object message (lit ''params''))) (\<lambda>params.
       if list_ex (\<lambda>(key, _). key \<noteq> lit ''authMode'' \<and> key \<noteq> lit ''planType'') params then Inl AccountUpdatedSchema
       else if \<not> pred_option (\<lambda>v. v = VNull \<or> (case as_str v of None \<Rightarrow> False | Some mode \<Rightarrow> mode \<in> set AUTH_MODES))
                 (vget params (lit ''authMode''))
       then Inl AccountUpdatedSchema
       else if \<not> pred_option (\<lambda>v. v = VNull \<or> Option.bind (as_str v) PlanType_parse \<noteq> None) (vget params (lit ''planType''))
       then Inl AccountUpdatedSchema
       else Inr ()))"

text \<open>The visitor of the keys of a message, in the order of the text, duplicates included.\<close>

fun visit_map :: "bool \<Rightarrow> bool \<Rightarrow> fields \<Rightarrow> ProtocolError + bool" where
  "visit_map method_seen account_updated [] = Inr account_updated"
| "visit_map method_seen account_updated ((key, value) # entries) =
     (if key = lit ''method'' then
        (let current = (as_str value = Some (lit ''account/updated'')) in
         if method_seen \<and> (account_updated \<or> current) then Inl AccountUpdatedSchema
         else visit_map True (account_updated \<or> current) entries)
      else visit_map method_seen account_updated entries)"

definition is_account_updated_notification_json :: "(rstr \<Rightarrow> fields option) \<Rightarrow> rstr \<Rightarrow> ProtocolError + bool" where
  "is_account_updated_notification_json deserialize_map raw =
     try_res (ok_or AccountUpdatedSchema (deserialize_map raw)) (visit_map False False)"

record StrictAccountUpdatedEnvelope =
  sae_jsonrpc :: rstr
  sae_method :: rstr
  sae_auth_mode :: "rstr option"
  sae_plan_type :: "rstr option"

definition validate_account_updated_notification_json ::
  "(rstr \<Rightarrow> StrictAccountUpdatedEnvelope option) \<Rightarrow> (rstr \<Rightarrow> Value option) \<Rightarrow> rstr \<Rightarrow> ProtocolError + unit" where
  "validate_account_updated_notification_json strict_from_str from_str raw =
     try_res (ok_or AccountUpdatedSchema (strict_from_str raw)) (\<lambda>envelope.
     if sae_jsonrpc envelope \<noteq> lit ''2.0'' \<or> sae_method envelope \<noteq> lit ''account/updated'' then Inl AccountUpdatedSchema
     else try_res (ok_or AccountUpdatedSchema (from_str raw)) validate_account_updated_notification)"

section \<open>Account responses\<close>

datatype AccountOutcome = AuthRequired | Supported rstr PlanType | UnsupportedNoData

fun AccountOutcome_plan_family :: "AccountOutcome \<Rightarrow> PlanFamily option" where
  "AccountOutcome_plan_family (Supported email plan_type) = Some (PlanType_family plan_type)"
| "AccountOutcome_plan_family _ = None"

datatype Endpoint = EndpointAccount | EndpointQuota

fun Endpoint_error :: "Endpoint \<Rightarrow> ProtocolError" where
  "Endpoint_error EndpointAccount = AccountSchema"
| "Endpoint_error EndpointQuota = QuotaSchema"

definition object_of :: "Value \<Rightarrow> Endpoint \<Rightarrow> ProtocolError + fields" where
  "object_of value endpoint = ok_or (Endpoint_error endpoint) (as_object value)"

definition required :: "fields \<Rightarrow> rstr \<Rightarrow> Endpoint \<Rightarrow> ProtocolError + Value" where
  "required values key endpoint = ok_or (Endpoint_error endpoint) (vget values key)"

definition is_boolean :: "Value \<Rightarrow> bool" where
  "is_boolean value \<longleftrightarrow> as_bool value \<noteq> None"

definition is_string :: "Value \<Rightarrow> bool" where
  "is_string value \<longleftrightarrow> as_str value \<noteq> None"

definition is_integer :: "Value \<Rightarrow> bool" where
  "is_integer value \<longleftrightarrow> as_i64 value \<noteq> None"

definition i32_of :: "i64 \<Rightarrow> int option" where
  "i32_of n = (if - (2 ^ 31) \<le> n \<and> n \<le> 2 ^ 31 - 1 then Some n else None)"

definition is_i32 :: "Value \<Rightarrow> bool" where
  "is_i32 value \<longleftrightarrow> Option.bind (as_i64 value) i32_of \<noteq> None"

definition is_nullable_string :: "Value \<Rightarrow> bool" where
  "is_nullable_string value \<longleftrightarrow> value = VNull \<or> is_string value"

definition is_nullable_i64 :: "Value \<Rightarrow> bool" where
  "is_nullable_i64 value \<longleftrightarrow> value = VNull \<or> is_integer value"

definition is_nullable_bool :: "Value \<Rightarrow> bool" where
  "is_nullable_bool value \<longleftrightarrow> value = VNull \<or> is_boolean value"

definition validate_plan :: "Value \<Rightarrow> Endpoint \<Rightarrow> ProtocolError + unit" where
  "validate_plan value endpoint =
     (if Option.bind (as_str value) PlanType_parse \<noteq> None then Inr () else Inl (Endpoint_error endpoint))"

definition validate_account_variant :: "Value \<Rightarrow> ProtocolError + unit" where
  "validate_account_variant value =
     try_res (object_of value EndpointAccount) (\<lambda>values.
     try_res (required values (lit ''type'') EndpointAccount) (\<lambda>v.
     try_res (ok_or AccountSchema (as_str v)) (\<lambda>account_type.
       if account_type = lit ''apiKey'' then Inr ()
       else if account_type = lit ''chatgpt'' then
         try_res (required values (lit ''email'') EndpointAccount) (\<lambda>email.
         if \<not> is_nullable_string email then Inl AccountSchema
         else try_res (required values (lit ''planType'') EndpointAccount) (\<lambda>plan. validate_plan plan EndpointAccount))
       else if account_type = lit ''amazonBedrock'' then
         (if \<not> pred_option is_boolean (vget values (lit ''usesCodexManagedCredentials'')) then Inl AccountSchema else Inr ())
       else Inl AccountSchema)))"

definition validate_account_response :: "Value \<Rightarrow> ProtocolError + unit" where
  "validate_account_response value =
     try_res (object_of value EndpointAccount) (\<lambda>values.
     try_res (required values (lit ''requiresOpenaiAuth'') EndpointAccount) (\<lambda>flag.
       if \<not> is_boolean flag then Inl AccountSchema
       else (case vget values (lit ''account'') of
           None \<Rightarrow> Inr ()
         | Some account \<Rightarrow> if account = VNull then Inr () else validate_account_variant account)))"

definition account_email :: "fields \<Rightarrow> rstr option" where
  "account_email account =
     (case get_str account (lit ''email'') of
        None \<Rightarrow> None
      | Some email \<Rightarrow>
          (case bounded_email email of
             Inl _ \<Rightarrow> None
           | Inr email \<Rightarrow> if trim email \<noteq> [] then Some email else None))"

definition decode_account :: "Value \<Rightarrow> ProtocolError + AccountOutcome" where
  "decode_account value =
     try_res (validate_account_response value) (\<lambda>_.
     try_res (object_of value EndpointAccount) (\<lambda>values.
     try_res (required values (lit ''requiresOpenaiAuth'') EndpointAccount) (\<lambda>flag.
       let otherwise = (if as_bool flag = Some True then Inr AuthRequired else Inr UnsupportedNoData) in
       case get_object values (lit ''account'') of
         None \<Rightarrow> otherwise
       | Some account \<Rightarrow>
           if get_str account (lit ''type'') = Some (lit ''chatgpt'') then
             try_res (ok_or AccountSchema (Option.bind (get_str account (lit ''planType'')) PlanType_parse)) (\<lambda>plan_type.
               case account_email account of
                 Some email \<Rightarrow> Inr (Supported email plan_type)
               | None \<Rightarrow> otherwise)
           else otherwise)))"

section \<open>Quota responses\<close>

definition validate_credits :: "Value \<Rightarrow> ProtocolError + unit" where
  "validate_credits value =
     (if value = VNull then Inr ()
      else try_res (object_of value EndpointQuota) (\<lambda>values.
        try_res (required values (lit ''hasCredits'') EndpointQuota) (\<lambda>has_credits.
        if \<not> is_boolean has_credits then Inl QuotaSchema
        else try_res (required values (lit ''unlimited'') EndpointQuota) (\<lambda>unlimited.
        if \<not> is_boolean unlimited then Inl QuotaSchema
        else if \<not> pred_option is_nullable_string (vget values (lit ''balance'')) then Inl QuotaSchema
        else Inr ()))))"

definition validate_spend_control :: "Value \<Rightarrow> ProtocolError + unit" where
  "validate_spend_control value =
     (if value = VNull then Inr ()
      else try_res (object_of value EndpointQuota) (\<lambda>values.
        try_res (required values (lit ''limit'') EndpointQuota) (\<lambda>limit.
        if \<not> is_string limit then Inl QuotaSchema
        else try_res (required values (lit ''remainingPercent'') EndpointQuota) (\<lambda>remaining.
        if \<not> is_i32 remaining then Inl QuotaSchema
        else try_res (required values (lit ''resetsAt'') EndpointQuota) (\<lambda>resets_at.
        if \<not> is_integer resets_at then Inl QuotaSchema
        else try_res (required values (lit ''used'') EndpointQuota) (\<lambda>used.
        if \<not> is_string used then Inl QuotaSchema else Inr ()))))))"

definition validate_window :: "Value \<Rightarrow> ProtocolError + unit" where
  "validate_window value =
     (if value = VNull then Inr ()
      else try_res (object_of value EndpointQuota) (\<lambda>values.
        try_res (required values (lit ''usedPercent'') EndpointQuota) (\<lambda>used.
        if \<not> is_i32 used then Inl QuotaSchema
        else if \<not> pred_option is_nullable_i64 (vget values (lit ''resetsAt'')) then Inl QuotaSchema
        else if \<not> pred_option is_nullable_i64 (vget values (lit ''windowDurationMins'')) then Inl QuotaSchema
        else Inr ())))"

definition REACHED_TYPES :: "rstr list" where
  "REACHED_TYPES = [lit ''rate_limit_reached'', lit ''workspace_owner_credits_depleted'',
     lit ''workspace_member_credits_depleted'', lit ''workspace_owner_usage_limit_reached'',
     lit ''workspace_member_usage_limit_reached'']"

definition is_text_of :: "rstr list \<Rightarrow> Value \<Rightarrow> bool" where
  "is_text_of texts value \<longleftrightarrow> (case as_str value of None \<Rightarrow> False | Some s \<Rightarrow> s \<in> set texts)"

text \<open>A field that may be absent is checked when it is there.\<close>

definition when_present :: "fields \<Rightarrow> rstr \<Rightarrow> (Value \<Rightarrow> ProtocolError + unit) \<Rightarrow> ProtocolError + unit" where
  "when_present values key check = (case vget values key of None \<Rightarrow> Inr () | Some v \<Rightarrow> check v)"

definition allow :: "(Value \<Rightarrow> bool) \<Rightarrow> Value \<Rightarrow> ProtocolError + unit" where
  "allow P value = (if P value then Inr () else Inl QuotaSchema)"

definition validate_rate_limit_snapshot :: "Value \<Rightarrow> ProtocolError + unit" where
  "validate_rate_limit_snapshot value =
     try_res (object_of value EndpointQuota) (\<lambda>values.
     try_res (when_present values (lit ''credits'') validate_credits) (\<lambda>_.
     try_res (when_present values (lit ''individualLimit'') validate_spend_control) (\<lambda>_.
     try_res (when_present values (lit ''limitId'') (allow is_nullable_string)) (\<lambda>_.
     try_res (when_present values (lit ''limitName'') (allow is_nullable_string)) (\<lambda>_.
     try_res (when_present values (lit ''planType'')
       (\<lambda>plan. if plan = VNull then Inr () else validate_plan plan EndpointQuota)) (\<lambda>_.
     try_res (when_present values (lit ''primary'') validate_window) (\<lambda>_.
     try_res (when_present values (lit ''secondary'') validate_window) (\<lambda>_.
     try_res (when_present values (lit ''rateLimitReachedType'') (allow (\<lambda>v. v = VNull \<or> is_text_of REACHED_TYPES v))) (\<lambda>_.
     when_present values (lit ''spendControlReached'') (allow is_nullable_bool))))))))))"

definition validate_reset_credit :: "Value \<Rightarrow> ProtocolError + unit" where
  "validate_reset_credit value =
     try_res (object_of value EndpointQuota) (\<lambda>values.
     try_res (required values (lit ''grantedAt'') EndpointQuota) (\<lambda>granted_at.
     if \<not> is_integer granted_at then Inl QuotaSchema
     else try_res (required values (lit ''id'') EndpointQuota) (\<lambda>credit_id.
     if \<not> is_string credit_id then Inl QuotaSchema
     else try_res (required values (lit ''resetType'') EndpointQuota) (\<lambda>reset_type.
     if \<not> is_text_of [lit ''codexRateLimits'', lit ''unknown''] reset_type then Inl QuotaSchema
     else try_res (required values (lit ''status'') EndpointQuota) (\<lambda>status.
     if \<not> is_text_of [lit ''available'', lit ''redeeming'', lit ''redeemed'', lit ''unknown''] status then Inl QuotaSchema
     else try_res (when_present values (lit ''description'') (allow is_nullable_string)) (\<lambda>_.
     try_res (when_present values (lit ''title'') (allow is_nullable_string)) (\<lambda>_.
     when_present values (lit ''expiresAt'') (allow is_nullable_i64))))))))"

fun validate_all :: "(Value \<Rightarrow> ProtocolError + unit) \<Rightarrow> Value list \<Rightarrow> ProtocolError + unit" where
  "validate_all check [] = Inr ()"
| "validate_all check (value # values) = try_res (check value) (\<lambda>_. validate_all check values)"

definition validate_reset_credits :: "Value \<Rightarrow> ProtocolError + unit" where
  "validate_reset_credits value =
     (if value = VNull then Inr ()
      else try_res (object_of value EndpointQuota) (\<lambda>values.
        try_res (required values (lit ''availableCount'') EndpointQuota) (\<lambda>available.
        if \<not> is_integer available then Inl QuotaSchema
        else (case vget values (lit ''credits'') of
            None \<Rightarrow> Inr ()
          | Some credits \<Rightarrow>
              if credits = VNull then Inr ()
              else try_res (ok_or QuotaSchema (as_array credits)) (validate_all validate_reset_credit)))))"

definition validate_rate_limits_response :: "Value \<Rightarrow> ProtocolError + unit" where
  "validate_rate_limits_response value =
     try_res (object_of value EndpointQuota) (\<lambda>values.
     try_res (required values (lit ''rateLimits'') EndpointQuota) (\<lambda>limits.
     try_res (validate_rate_limit_snapshot limits) (\<lambda>_.
     try_res (case vget values (lit ''rateLimitsByLimitId'') of
         None \<Rightarrow> Inr ()
       | Some by_id \<Rightarrow>
           if by_id = VNull then Inr ()
           else try_res (ok_or QuotaSchema (as_object by_id)) (\<lambda>by_id. validate_all validate_rate_limit_snapshot (map snd by_id)))
       (\<lambda>_. when_present values (lit ''rateLimitResetCredits'') validate_reset_credits))))"

section \<open>The quota of the client\<close>

definition DEFAULT_LIMIT_NAME :: rstr where "DEFAULT_LIMIT_NAME = lit ''Codex''"
definition WEEK_SECONDS :: i64 where "WEEK_SECONDS = 7 * 86400"
definition MAX_WINDOW_DURATION_MINS :: i64 where "MAX_WINDOW_DURATION_MINS = 527040"

record QuotaSnapshot =
  qs_fixed_used_percent :: "int option"
  qs_remaining_percent :: "int option"
  qs_reset_at :: i64
  qs_window_seconds :: i64
  qs_limit_name :: rstr
  qs_monthly :: bool
  qs_unlimited :: bool

definition contract_limit_name :: "Value option \<Rightarrow> ProtocolError + rstr" where
  "contract_limit_name value =
     (case value of
        None \<Rightarrow> Inr DEFAULT_LIMIT_NAME
      | Some v \<Rightarrow>
          if v = VNull then Inr DEFAULT_LIMIT_NAME
          else try_res (ok_or QuotaSchema (as_str v)) (\<lambda>text.
            try_res (map_err QuotaSchema (bounded_limit_name text)) (\<lambda>name.
              if trim name = [] then Inr DEFAULT_LIMIT_NAME else Inr name)))"

definition percent :: "int \<Rightarrow> int option" where
  "percent n = (if 0 \<le> n \<and> n \<le> 100 then Some n else None)"

definition at_least_one :: "i64 \<Rightarrow> i64 option" where
  "at_least_one n = (if n \<ge> 1 then Some n else None)"

definition valid_individual :: "fields \<Rightarrow> (int \<times> i64) option" where
  "valid_individual values =
     Option.bind (get_object values (lit ''individualLimit'')) (\<lambda>individual.
     Option.bind (Option.bind (Option.bind (get_i64 individual (lit ''remainingPercent'')) i32_of) percent) (\<lambda>remaining.
     Option.bind (Option.bind (get_i64 individual (lit ''resetsAt'')) at_least_one) (\<lambda>reset_at.
     Some (remaining, reset_at))))"

record FixedCandidate =
  fc_used :: int
  fc_remaining :: int
  fc_reset_at :: i64
  fc_window_seconds :: i64
  fc_priority :: nat

definition i64_checked_mul :: "i64 \<Rightarrow> i64 \<Rightarrow> i64 option" where
  "i64_checked_mul a b = (if is_i64 (a * b) then Some (a * b) else None)"

definition valid_fixed :: "fields \<Rightarrow> rstr \<Rightarrow> nat \<Rightarrow> FixedCandidate option" where
  "valid_fixed values key priority =
     Option.bind (get_object values key) (\<lambda>window.
     Option.bind (Option.bind (Option.bind (get_i64 window (lit ''usedPercent'')) i32_of) percent) (\<lambda>used.
     Option.bind (Option.bind (get_i64 window (lit ''resetsAt'')) at_least_one) (\<lambda>reset_at.
     Option.bind (Option.bind (get_i64 window (lit ''windowDurationMins''))
         (\<lambda>n. if 1 \<le> n \<and> n \<le> MAX_WINDOW_DURATION_MINS then Some n else None)) (\<lambda>duration_mins.
     Option.bind (i64_checked_mul duration_mins 60) (\<lambda>window_seconds.
     Some \<lparr>fc_used = used, fc_remaining = 100 - used, fc_reset_at = reset_at, fc_window_seconds = window_seconds,
           fc_priority = priority\<rparr>)))))"

definition fixed_is_better :: "FixedCandidate \<Rightarrow> FixedCandidate \<Rightarrow> bool" where
  "fixed_is_better candidate current \<longleftrightarrow>
     (if fc_window_seconds candidate \<noteq> fc_window_seconds current
      then fc_window_seconds candidate > fc_window_seconds current
      else if fc_reset_at candidate \<noteq> fc_reset_at current then fc_reset_at candidate > fc_reset_at current
      else fc_priority current > fc_priority candidate)"

definition canonical_plan_family :: "fields \<Rightarrow> PlanFamily option" where
  "canonical_plan_family values =
     (case vget values (lit ''planType'') of
        None \<Rightarrow> None
      | Some plan_type \<Rightarrow>
          if plan_type = VNull then None
          else map_option PlanType_family (Option.bind (as_str plan_type) PlanType_parse))"

definition select_fixed :: "fields \<Rightarrow> FixedCandidate option" where
  "select_fixed canonical =
     fold (\<lambda>(key, priority) selected.
         case valid_fixed canonical key priority of
           None \<Rightarrow> selected
         | Some candidate \<Rightarrow>
             (case selected of
                None \<Rightarrow> Some candidate
              | Some current \<Rightarrow> if fixed_is_better candidate current then Some candidate else selected))
       [(lit ''primary'', 0), (lit ''secondary'', 1)] None"

definition plans_differ :: "PlanFamily option \<Rightarrow> PlanFamily option \<Rightarrow> bool" where
  "plans_differ account quota =
     (case (account, quota) of
        (Some a, Some q) \<Rightarrow> is_known a \<and> is_known q \<and> a \<noteq> q
      | _ \<Rightarrow> False)"

definition effective_family :: "PlanFamily option \<Rightarrow> PlanFamily option \<Rightarrow> PlanFamily" where
  "effective_family account quota =
     (case account of
        Some a \<Rightarrow> if is_known a then a else (case quota of Some q \<Rightarrow> if is_known q then q else FamilyUnset | None \<Rightarrow> FamilyUnset)
      | None \<Rightarrow> (case quota of Some q \<Rightarrow> if is_known q then q else FamilyUnset | None \<Rightarrow> FamilyUnset))"

definition quota_snapshot :: "PlanFamily \<Rightarrow> rstr \<Rightarrow> fields \<Rightarrow> QuotaSnapshot option" where
  "quota_snapshot family limit_name canonical =
     (case (if family = FamilyEnterprise then valid_individual canonical else None) of
        Some (remaining, reset_at) \<Rightarrow>
          Some \<lparr>qs_fixed_used_percent = None, qs_remaining_percent = Some remaining, qs_reset_at = reset_at,
                qs_window_seconds = monthly_window_seconds reset_at, qs_limit_name = limit_name, qs_monthly = True,
                qs_unlimited = False\<rparr>
      | None \<Rightarrow>
          (case select_fixed canonical of
             Some candidate \<Rightarrow>
               Some \<lparr>qs_fixed_used_percent = Some (fc_used candidate), qs_remaining_percent = Some (fc_remaining candidate),
                     qs_reset_at = fc_reset_at candidate, qs_window_seconds = fc_window_seconds candidate,
                     qs_limit_name = limit_name, qs_monthly = False, qs_unlimited = False\<rparr>
           | None \<Rightarrow>
               if Option.bind (Option.bind (get_object canonical (lit ''credits'')) (\<lambda>c. vget c (lit ''unlimited''))) as_bool = Some True
               then Some \<lparr>qs_fixed_used_percent = None, qs_remaining_percent = None, qs_reset_at = 0,
                     qs_window_seconds = WEEK_SECONDS, qs_limit_name = limit_name, qs_monthly = False, qs_unlimited = True\<rparr>
               else None))"

definition decode_quota :: "Value \<Rightarrow> PlanFamily option \<Rightarrow> ProtocolError + QuotaSnapshot option" where
  "decode_quota value account_family =
     try_res (validate_rate_limits_response value) (\<lambda>_.
     try_res (object_of value EndpointQuota) (\<lambda>values.
     try_res (required values (lit ''rateLimits'') EndpointQuota) (\<lambda>limits.
     try_res (ok_or QuotaSchema (as_object limits)) (\<lambda>canonical.
       let quota_family = canonical_plan_family canonical in
       if plans_differ account_family quota_family then Inl AccountQuotaPlanMismatch
       else try_res (contract_limit_name (vget canonical (lit ''limitName''))) (\<lambda>limit_name.
         Inr (quota_snapshot (effective_family account_family quota_family) limit_name canonical))))))"

definition decode_quota_for_plan :: "Value \<Rightarrow> rstr option \<Rightarrow> ProtocolError + QuotaSnapshot option" where
  "decode_quota_for_plan value account_plan =
     try_res (validate_rate_limits_response value) (\<lambda>_.
     case account_plan of
       None \<Rightarrow> decode_quota value None
     | Some plan \<Rightarrow>
         try_res (ok_or InvalidPlanType (PlanType_parse plan)) (\<lambda>p. decode_quota value (Some (PlanType_family p))))"

section \<open>The quota of the recorder\<close>

record OfficialQuota =
  oq_observed_at :: i64
  oq_reset_at :: i64
  oq_window_seconds :: i64
  oq_remaining_percent :: "f64 option"

definition QUOTA_MAX_UNIX_SECONDS :: i64 where "QUOTA_MAX_UNIX_SECONDS = 253402300799"

definition public_time :: "i64 \<Rightarrow> bool" where
  "public_time t \<longleftrightarrow> 1 \<le> t \<and> t \<le> QUOTA_MAX_UNIX_SECONDS"

text \<open>A window as (seconds, reset, remaining, priority).\<close>

type_synonym official_window = "i64 \<times> i64 \<times> i64 \<times> nat"

definition official_window_of :: "fields \<Rightarrow> rstr \<Rightarrow> nat \<Rightarrow> official_window option" where
  "official_window_of limits key priority =
     Option.bind (get_object limits key) (\<lambda>window.
     Option.bind (Option.bind (get_i64 window (lit ''usedPercent'')) percent) (\<lambda>used.
     Option.bind (Option.bind (get_i64 window (lit ''resetsAt'')) (\<lambda>t. if public_time t then Some t else None)) (\<lambda>reset_at.
     Option.bind (Option.bind (get_i64 window (lit ''windowDurationMins'')) (\<lambda>n. if n > 0 then Some n else None)) (\<lambda>minutes.
     Option.bind (i64_checked_mul minutes 60) (\<lambda>window_seconds.
       if \<not> (case i64_checked_sub reset_at window_seconds of None \<Rightarrow> False | Some origin \<Rightarrow> public_time origin) then None
       else Some (window_seconds, reset_at, 100 - used, priority))))))"

fun official_better :: "official_window \<Rightarrow> official_window \<Rightarrow> bool" where
  "official_better (w, r, _, p) (w', r', _, p') \<longleftrightarrow> w > w' \<or> (w = w' \<and> r > r') \<or> (w = w' \<and> r = r' \<and> p < p')"

definition select_official :: "fields \<Rightarrow> official_window option" where
  "select_official limits =
     fold (\<lambda>(key, priority) selected.
         case official_window_of limits key priority of
           None \<Rightarrow> selected
         | Some candidate \<Rightarrow>
             if (case selected of None \<Rightarrow> True | Some current \<Rightarrow> official_better candidate current)
             then Some candidate else selected)
       [(lit ''primary'', 0), (lit ''secondary'', 1)] None"

definition interpret_official_quota :: "Value \<Rightarrow> rstr \<Rightarrow> i64 \<Rightarrow> rstr + OfficialQuota" where
  "interpret_official_quota value plan_type observed_at =
     (if \<not> public_time observed_at then Inl (lit ''Codex quota observation time is invalid'')
      else try_res (map_err (lit ''Codex quota response is malformed'') (validate_rate_limits_response value)) (\<lambda>_.
        try_res (ok_or (lit ''Codex account plan is invalid'') (plan_family_from_wire (Some plan_type))) (\<lambda>account_family.
        try_res (ok_or (lit ''Codex quota response is unavailable'')
            (Option.bind (as_object value) (\<lambda>values. get_object values (lit ''rateLimits'')))) (\<lambda>limits.
          if plans_differ (Some account_family) (plan_family_from_wire (get_str limits (lit ''planType'')))
          then Inl (lit ''Codex account and quota plans do not match'')
          else (case select_official limits of
              None \<Rightarrow> Inl (lit ''Codex quota has no bounded window'')
            | Some (window_seconds, reset_at, remaining, _) \<Rightarrow>
                Inr \<lparr>oq_observed_at = observed_at, oq_reset_at = reset_at, oq_window_seconds = window_seconds,
                     oq_remaining_percent = Some (F64_Finite (of_int remaining))\<rparr>)))))"

section \<open>Recognised notifications\<close>

text \<open>
  A message counts as an account notification exactly when its only method says so; a message
  that repeats the method is refused as soon as one of the values does.
\<close>

definition methods :: "fields \<Rightarrow> bool list" where
  "methods entries = map (\<lambda>(_, v). as_str v = Some (lit ''account/updated'')) (filter (\<lambda>(k, _). k = lit ''method'') entries)"

lemma methods_simps [simp]:
  "methods [] = []"
  "methods ((key, v) # entries) =
     (if key = lit ''method'' then (as_str v = Some (lit ''account/updated'')) # methods entries else methods entries)"
  by (simp_all add: methods_def)

lemma visit_map_seen:
  "visit_map True updated entries =
     (if methods entries = [] then Inr updated
      else if updated \<or> True \<in> set (methods entries) then Inl AccountUpdatedSchema else Inr False)"
proof (induction entries arbitrary: updated)
  case (Cons entry entries)
  obtain key v where "entry = (key, v)" by fastforce
  then show ?case using Cons by (simp add: Let_def)
qed simp

lemma visit_map_exact:
  "visit_map False False entries =
     (if True \<notin> set (methods entries) then Inr False
      else if methods entries = [True] then Inr True else Inl AccountUpdatedSchema)"
proof (induction entries)
  case (Cons entry entries)
  obtain key v where "entry = (key, v)" by fastforce
  then show ?case using Cons by (simp add: Let_def visit_map_seen)
qed simp

section \<open>Errors\<close>

text \<open>A check that can only fail with one error.\<close>

definition only :: "'e \<Rightarrow> 'e + 'a \<Rightarrow> bool" where
  "only e r = (case r of Inl x \<Rightarrow> x = e | Inr _ \<Rightarrow> True)"

lemma only_simps [simp]: "only e (Inl x) \<longleftrightarrow> x = e" "only e (Inr y)" "only e (ok_or e z)"
  by (simp_all add: only_def ok_or_def split: option.split)



lemma only_access [simp]: "only QuotaSchema (object_of v EndpointQuota)" "only QuotaSchema (required values k EndpointQuota)"
  by (simp_all add: object_of_def required_def)








section \<open>Valid quota responses\<close>

text \<open>The limits of a response.\<close>

definition quota_fields :: "Value \<Rightarrow> fields" where
  "quota_fields value = the (Option.bind (as_object value) (\<lambda>values. get_object values (lit ''rateLimits'')))"

lemma try_res_unit: "try_res r f = Inr () \<longleftrightarrow> (\<exists>x. r = Inr x \<and> f x = Inr ())"
  by (cases r) (simp_all add: try_res_def)

lemma ok_or_Inr: "ok_or e x = Inr y \<longleftrightarrow> x = Some y"
  by (simp add: ok_or_def split: option.split)

lemma valid_response_fields:
  assumes "validate_rate_limits_response v = Inr ()"
  obtains "values" limits where "as_object v = Some values" "vget values (lit ''rateLimits'') = Some limits"
    "as_object limits = Some (quota_fields v)" "validate_rate_limit_snapshot limits = Inr ()"
proof -
  obtain "values" limits where v: "as_object v = Some values" "vget values (lit ''rateLimits'') = Some limits"
    "validate_rate_limit_snapshot limits = Inr ()"
    using assms by (auto simp: validate_rate_limits_response_def try_res_unit object_of_def required_def ok_or_Inr)
  then obtain entries where "as_object limits = Some entries"
    by (auto simp: validate_rate_limit_snapshot_def try_res_unit object_of_def ok_or_Inr)
  with v that show thesis by (simp add: quota_fields_def get_object_def)
qed

lemma valid_limit_name:
  assumes "validate_rate_limit_snapshot limits = Inr ()" "as_object limits = Some entries"
  obtains name where "contract_limit_name (vget entries (lit ''limitName'')) = Inr name" "trim name \<noteq> []"
    "length name \<le> MAX_LIMIT_NAME_SCALARS"
proof -
  have default: "trim DEFAULT_LIMIT_NAME \<noteq> []" "length DEFAULT_LIMIT_NAME \<le> MAX_LIMIT_NAME_SCALARS"
    by (simp_all add: DEFAULT_LIMIT_NAME_def lit_def trim_def trim_matches_def is_whitespace_def MAX_LIMIT_NAME_SCALARS_def)
  have "when_present entries (lit ''limitName'') (allow is_nullable_string) = Inr ()"
    using assms by (auto simp: validate_rate_limit_snapshot_def try_res_unit object_of_def ok_or_Inr)
  then have "pred_option is_nullable_string (vget entries (lit ''limitName''))"
    by (auto simp: when_present_def allow_def split: option.splits if_splits)
  then have "\<exists>name. contract_limit_name (vget entries (lit ''limitName'')) = Inr name \<and> trim name \<noteq> [] \<and>
      length name \<le> MAX_LIMIT_NAME_SCALARS"
    using default shorten_length[of _ MAX_LIMIT_NAME_SCALARS]
    by (cases "vget entries (lit ''limitName'')")
       (auto simp: contract_limit_name_def is_nullable_string_def is_string_def ok_or_def try_res_def map_err_def
          bounded_limit_name_def bounded_ui_text_def)
  then show thesis using that by blast
qed

text \<open>A decoded quota, by its branches.\<close>

lemma decode_quota_valid:
  assumes "validate_rate_limits_response v = Inr ()"
  obtains name where "trim name \<noteq> []" "length name \<le> MAX_LIMIT_NAME_SCALARS"
    "decode_quota v family =
       (if plans_differ family (canonical_plan_family (quota_fields v)) then Inl AccountQuotaPlanMismatch
        else Inr (quota_snapshot (effective_family family (canonical_plan_family (quota_fields v))) name (quota_fields v)))"
proof -
  obtain "values" limits where v: "as_object v = Some values" "vget values (lit ''rateLimits'') = Some limits"
    "as_object limits = Some (quota_fields v)" "validate_rate_limit_snapshot limits = Inr ()"
    using assms by (rule valid_response_fields)
  obtain name where n: "contract_limit_name (vget (quota_fields v) (lit ''limitName'')) = Inr name" "trim name \<noteq> []"
    "length name \<le> MAX_LIMIT_NAME_SCALARS" using v(4,3) by (rule valid_limit_name)
  then show thesis using that v assms
    by (simp add: decode_quota_def object_of_def required_def ok_or_def try_res_def Let_def)
qed

section \<open>Windows\<close>






text \<open>
  A response that gives no reason to read a window differently: it ends and starts at public times
  and is at most a year long.
\<close>

definition common_windows :: "fields \<Rightarrow> bool" where
  "common_windows limits \<longleftrightarrow>
     (\<forall>key p c. valid_fixed limits key p = Some c \<longrightarrow>
        public_time (fc_reset_at c) \<and> public_time (fc_reset_at c - fc_window_seconds c)) \<and>
     (\<forall>key p w r x p'. official_window_of limits key p = Some (w, r, x, p') \<longrightarrow> w \<le> 60 * MAX_WINDOW_DURATION_MINS)"

definition as_official :: "FixedCandidate \<Rightarrow> official_window" where
  "as_official c = (fc_window_seconds c, fc_reset_at c, fc_remaining c, fc_priority c)"

lemma official_window_common:
  assumes "common_windows limits"
  shows "official_window_of limits key p = map_option as_official (valid_fixed limits key p)"
proof (cases "official_window_of limits key p")
  case None
  have "valid_fixed limits key p = None"
  proof (rule ccontr)
    assume "valid_fixed limits key p \<noteq> None"
    then obtain c where c: "valid_fixed limits key p = Some c" by blast
    with assms have t: "public_time (fc_reset_at c)" "public_time (fc_reset_at c - fc_window_seconds c)"
      by (auto simp: common_windows_def)
    then have "is_i64 (fc_reset_at c - fc_window_seconds c)"
      by (simp add: public_time_def is_i64_def i64_min_def i64_max_def QUOTA_MAX_UNIX_SECONDS_def)
    with c t None show False
      by (auto simp: valid_fixed_def official_window_of_def percent_def i32_of_def at_least_one_def i64_checked_sub_def
          split: Option.bind_splits if_splits option.splits)
  qed
  with None show ?thesis by simp
next
  case (Some best)
  obtain w r x p' where best: "best = (w, r, x, p')" by (metis prod_cases4)
  then have w: "w \<le> 60 * MAX_WINDOW_DURATION_MINS" using assms Some unfolding common_windows_def by blast
  obtain window used minutes where "get_object limits key = Some window" "get_i64 window (lit ''usedPercent'') = Some used"
    "0 \<le> used" "used \<le> 100" "get_i64 window (lit ''resetsAt'') = Some r" "1 \<le> r"
    "get_i64 window (lit ''windowDurationMins'') = Some minutes" "0 < minutes" "i64_checked_mul minutes 60 = Some w"
    "x = 100 - used" "p' = p"
    using Some unfolding best
    by (auto simp: official_window_of_def percent_def public_time_def split: Option.bind_splits if_splits)
  moreover from this w have "minutes \<le> MAX_WINDOW_DURATION_MINS" by (simp add: i64_checked_mul_def split: if_splits)
  ultimately show ?thesis
    unfolding Some best by (simp add: valid_fixed_def percent_def i32_of_def at_least_one_def as_official_def)
qed

lemma select_official_common:
  assumes "common_windows limits"
  shows "select_official limits = map_option as_official (select_fixed limits)"
  unfolding select_official_def select_fixed_def
  by (auto simp: official_window_common[OF assms] as_official_def fixed_is_better_def split: option.splits)

section \<open>A response\<close>

text \<open>A weekly window that is used up to a quarter, and a shorter one.\<close>

definition sample_window :: "u64 \<Rightarrow> u64 \<Rightarrow> Value" where
  "sample_window used minutes = VObject [(lit ''usedPercent'', VNumber (PosInt used)), (lit ''resetsAt'', VNumber (PosInt 1700000000)),
     (lit ''windowDurationMins'', VNumber (PosInt minutes))]"

definition sample_response :: Value where
  "sample_response = VObject [(lit ''rateLimits'', VObject [(lit ''planType'', VString (lit ''pro'')),
     (lit ''primary'', sample_window 40 300), (lit ''secondary'', sample_window 25 10080)])]"

lemmas quota_eval = validate_rate_limits_response_def validate_rate_limit_snapshot_def validate_window_def validate_plan_def
  object_of_def required_def when_present_def allow_def is_i32_def i32_of_def is_nullable_i64_def is_integer_def
  vget_def get_i64_def get_str_def get_object_def PlanType_parse_def ok_or_def try_res_def lit_def i64_max_def

lemma sample_valid: "validate_rate_limits_response sample_response = Inr ()"
  by (simp add: sample_response_def sample_window_def quota_eval)

lemma sample_fields: "quota_fields sample_response = [(lit ''planType'', VString (lit ''pro'')),
     (lit ''primary'', sample_window 40 300), (lit ''secondary'', sample_window 25 10080)]"
  by (simp add: quota_fields_def sample_response_def quota_eval)

lemma sample_windows:
  "valid_fixed (quota_fields sample_response) (lit ''primary'') p =
     Some \<lparr>fc_used = 40, fc_remaining = 60, fc_reset_at = 1700000000, fc_window_seconds = 18000, fc_priority = p\<rparr>"
  "valid_fixed (quota_fields sample_response) (lit ''secondary'') p =
     Some \<lparr>fc_used = 25, fc_remaining = 75, fc_reset_at = 1700000000, fc_window_seconds = 604800, fc_priority = p\<rparr>"
  unfolding sample_fields
  by (simp_all add: valid_fixed_def sample_window_def quota_eval percent_def at_least_one_def MAX_WINDOW_DURATION_MINS_def
      i64_checked_mul_def is_i64_def i64_min_def)

lemma sample_window_keys:
  "get_object (quota_fields sample_response) key \<noteq> None \<Longrightarrow> key = lit ''primary'' \<or> key = lit ''secondary''"
  unfolding sample_fields get_object_def vget_def by (auto split: if_splits)

lemma sample_common: "common_windows (quota_fields sample_response)"
  unfolding common_windows_def
proof (intro conjI allI impI)
  fix key p c assume c: "valid_fixed (quota_fields sample_response) key p = Some c"
  then have "key = lit ''primary'' \<or> key = lit ''secondary''"
    by (intro sample_window_keys notI) (simp add: valid_fixed_def)
  then show "public_time (fc_reset_at c)" "public_time (fc_reset_at c - fc_window_seconds c)"
    using c by (auto simp: sample_windows public_time_def QUOTA_MAX_UNIX_SECONDS_def)
next
  fix key p w r x p' assume o': "official_window_of (quota_fields sample_response) key p = Some (w, r, x, p')"
  then have "key = lit ''primary'' \<or> key = lit ''secondary''"
    by (intro sample_window_keys notI) (simp add: official_window_of_def)
  then show "w \<le> 60 * MAX_WINDOW_DURATION_MINS"
    using o' unfolding sample_fields
    by (auto simp: official_window_of_def sample_window_def quota_eval i64_checked_mul_def MAX_WINDOW_DURATION_MINS_def
        split: Option.bind_splits if_splits)
qed

section \<open>Properties\<close>





text \<open>
  C30. One quota for both programs: whatever the recorder reads from a response, the client reads the
  same window, reset time and percentage from it, provided that no individual limit applies and
  the windows of the response end and start at public times and are at most 366 days long.
\<close>

theorem quota_readings_agree:
  assumes "interpret_official_quota v plan observed_at = Inr q" "common_windows (quota_fields v)"
    "valid_individual (quota_fields v) = None"
  shows "\<exists>s. decode_quota_for_plan v (Some plan) = Inr (Some s) \<and> qs_reset_at s = oq_reset_at q \<and>
    qs_window_seconds s = oq_window_seconds q \<and>
    map_option (\<lambda>r. F64_Finite (of_int r)) (qs_remaining_percent s) = oq_remaining_percent q \<and> \<not> qs_monthly s \<and> \<not> qs_unlimited s"
proof -
  have v: "validate_rate_limits_response v = Inr ()"
    using assms(1) by (auto simp: interpret_official_quota_def result_simps map_err_def split: if_splits sum.splits)
  obtain "values" limits where f: "as_object v = Some values" "vget values (lit ''rateLimits'') = Some limits"
    "as_object limits = Some (quota_fields v)" "validate_rate_limit_snapshot limits = Inr ()"
    using v by (rule valid_response_fields)
  have wire: "plan_family_from_wire (get_str (quota_fields v) (lit ''planType'')) = canonical_plan_family (quota_fields v)"
    by (auto simp: plan_family_from_wire_def plan_type_from_wire_def get_str_def canonical_plan_family_def split: option.split)
  have limits: "Option.bind (as_object v) (\<lambda>values. get_object values (lit ''rateLimits'')) = Some (quota_fields v)"
    using f by (simp add: get_object_def)
  obtain p where p: "PlanType_parse plan = Some p"
    using assms(1) by (auto simp: interpret_official_quota_def v map_err_def try_res_def ok_or_def plan_family_from_wire_def
        plan_type_from_wire_def split: if_splits option.splits)
  have family: "plan_family_from_wire (Some plan) = Some (PlanType_family p)"
    by (simp add: plan_family_from_wire_def plan_type_from_wire_def p)
  have same: "\<not> plans_differ (Some (PlanType_family p)) (canonical_plan_family (quota_fields v))"
    and best: "select_official (quota_fields v) \<noteq> None"
    using assms(1) by (auto simp: interpret_official_quota_def v map_err_def try_res_def ok_or_def family limits wire
        split: if_splits option.splits)
  obtain c where c: "select_fixed (quota_fields v) = Some c" "select_official (quota_fields v) = Some (as_official c)"
    using best select_official_common[OF assms(2)] by auto
  have q: "oq_reset_at q = fc_reset_at c" "oq_window_seconds q = fc_window_seconds c"
    "oq_remaining_percent q = Some (F64_Finite (of_int (fc_remaining c)))"
    using assms(1) same by (auto simp: interpret_official_quota_def v map_err_def try_res_def ok_or_def family limits wire c(2)
        as_official_def split: if_splits)
  obtain name where "decode_quota v (Some (PlanType_family p)) =
      Inr (quota_snapshot (effective_family (Some (PlanType_family p)) (canonical_plan_family (quota_fields v))) name (quota_fields v))"
    using decode_quota_valid[OF v, of "Some (PlanType_family p)"] same by metis
  then show ?thesis
    using v p q c(1) by (simp add: decode_quota_for_plan_def try_res_def ok_or_def quota_snapshot_def assms(3))
qed

theorem quota_readings_agree_witness:
  "\<exists>s. decode_quota_for_plan sample_response (Some (lit ''pro'')) = Inr (Some s) \<and> qs_reset_at s = 1700000000 \<and>
    qs_window_seconds s = 604800 \<and> qs_remaining_percent s = Some 75"
proof -
  have s: "select_official (quota_fields sample_response) = Some (604800, 1700000000, 75, 1)"
    using select_official_common[OF sample_common] by (simp add: select_fixed_def sample_windows fixed_is_better_def as_official_def)
  have limits: "Option.bind (as_object sample_response) (\<lambda>values. get_object values (lit ''rateLimits'')) =
      Some (quota_fields sample_response)"
    using sample_valid by (rule valid_response_fields) (simp add: get_object_def)
  have "plan_family_from_wire (get_str (quota_fields sample_response) (lit ''planType'')) = Some FamilyPro"
    unfolding sample_fields by (simp add: plan_family_from_wire_def plan_type_from_wire_def quota_eval)
  moreover have "plan_family_from_wire (Some (lit ''pro'')) = Some FamilyPro"
    by (simp add: plan_family_from_wire_def plan_type_from_wire_def quota_eval)
  ultimately have i: "interpret_official_quota sample_response (lit ''pro'') 1690000000 =
      Inr \<lparr>oq_observed_at = 1690000000, oq_reset_at = 1700000000, oq_window_seconds = 604800,
        oq_remaining_percent = Some (F64_Finite 75)\<rparr>"
    by (simp add: interpret_official_quota_def sample_valid limits s public_time_def QUOTA_MAX_UNIX_SECONDS_def map_err_def
        try_res_def ok_or_def plans_differ_def)
  have "valid_individual (quota_fields sample_response) = None"
    unfolding sample_fields by (simp add: valid_individual_def quota_eval)
  from quota_readings_agree[OF i sample_common this] show ?thesis by auto
qed

end
