(* ===== verification/Rollout.thy ===== *)
theory Rollout
  imports Session_Bytes Protocol_Contract "HOL-Library.List_Lexorder"
begin

text \<open>
  The live view of a session file (\<open>RolloutAccumulator\<close> of \<open>src/thread_contract.rs\<close>): a strict
  reading of complete records that keeps the state of the task, the model, the last totals, the
  context window and the time of the last user message. A file that grows is read in pieces; the
  theorems show that the pieces give what one reading gives, and that the state is the last value
  each kind of record reported.
\<close>

section \<open>Data\<close>

datatype RolloutError =
    FileTooLarge | DeadlineExceeded | InvalidUtf8 | UnterminatedLine | LineTooLarge | InvalidJson | InvalidKnownEvent

fun RolloutError_message :: "RolloutError \<Rightarrow> rstr" where
  "RolloutError_message FileTooLarge = lit ''thread rollout exceeds file limit''"
| "RolloutError_message DeadlineExceeded = lit ''thread rollout deadline exceeded''"
| "RolloutError_message InvalidUtf8 = lit ''thread rollout is not UTF-8''"
| "RolloutError_message UnterminatedLine = lit ''thread rollout has an unterminated line''"
| "RolloutError_message LineTooLarge = lit ''thread rollout line exceeds limit''"
| "RolloutError_message InvalidJson = lit ''thread rollout JSON is invalid''"
| "RolloutError_message InvalidKnownEvent = lit ''thread rollout known event is invalid''"

record ValidatedRollout =
  vr_last_task_running :: "bool option"
  vr_model :: rstr
  vr_model_label :: rstr
  vr_total_tokens :: "u64 option"
  vr_context_usage_tokens :: "u64 option"
  vr_context_window_tokens :: "u64 option"
  vr_last_user_message_at :: "i64 option"

definition ValidatedRollout_is_running :: "ValidatedRollout \<Rightarrow> bool" where
  "ValidatedRollout_is_running r \<longleftrightarrow> vr_last_task_running r = Some True"

record RolloutState =
  rs_last_task_running :: "bool option"
  rs_model_context :: ModelAttributionState
  rs_last_total_tokens :: "u64 option"
  rs_last_context_usage_tokens :: "u64 option"
  rs_last_context_window_tokens :: "u64 option"
  rs_last_user_message_at :: "i64 option"

definition RolloutState_default :: RolloutState where
  "RolloutState_default =
     \<lparr>rs_last_task_running = None, rs_model_context = ModelAttributionState_new, rs_last_total_tokens = None,
      rs_last_context_usage_tokens = None, rs_last_context_window_tokens = None, rs_last_user_message_at = None\<rparr>"

definition seeded_with_context ::
  "rstr option \<Rightarrow> u64 option \<Rightarrow> bool option \<Rightarrow> u64 option \<Rightarrow> u64 option \<Rightarrow> RolloutState" where
  "seeded_with_context last_model previous_total last_task_running usage window =
     (let (usage, window) =
            (case (usage, window) of (Some u, Some w) \<Rightarrow> (Some u, Some w) | _ \<Rightarrow> (None, None));
          model_context =
            \<lparr>ma_model = last_model, ma_kind = (if last_model \<noteq> None then Turn else CtxNone), ma_interval = IntervalNone\<rparr>
      in RolloutState_default\<lparr>rs_last_task_running := last_task_running, rs_model_context := model_context,
           rs_last_total_tokens := previous_total, rs_last_context_usage_tokens := usage,
           rs_last_context_window_tokens := window\<rparr>)"

definition seeded :: "rstr option \<Rightarrow> u64 \<Rightarrow> bool option \<Rightarrow> RolloutState" where
  "seeded last_model previous_total last_task_running =
     seeded_with_context last_model (Some previous_total) last_task_running None None"

section \<open>Diagnostics\<close>

text \<open>A JSON object keeps its keys in order.\<close>

definition json_object :: "fields \<Rightarrow> Value" where
  "json_object entries = VObject (sort_key fst entries)"

definition rollout_known_kinds :: "rstr list" where
  "rollout_known_kinds =
     [lit ''session_meta'', lit ''event_msg'', lit ''response_item'', lit ''token_usage_record'', lit ''world_state'',
      lit ''inter_agent_communication_metadata'', lit ''compacted'', lit ''context_compacted'', lit ''token_count'',
      lit ''turn_context'', lit ''thread_context'', lit ''thread_settings_applied'', lit ''task_started'',
      lit ''task_complete'', lit ''task_completed'', lit ''turn_aborted'', lit ''thread_goal_updated'',
      lit ''item_completed'', lit ''agent_message'', lit ''user_message'', lit ''agent_reasoning'',
      lit ''agent_reasoning_raw_content'', lit ''agent_reasoning_section_break'', lit ''mcp_tool_call_begin'',
      lit ''mcp_tool_call_end'', lit ''sub_agent_activity'', lit ''web_search_end'', lit ''patch_apply_end'']"

definition rollout_protocol_kind :: "rstr option \<Rightarrow> rstr" where
  "rollout_protocol_kind value =
     (case value of
        None \<Rightarrow> lit ''missing''
      | Some kind \<Rightarrow> if kind \<in> set rollout_known_kinds then kind else lit ''unrecognized'')"

definition rollout_shape :: "(rstr \<Rightarrow> i64 option) \<Rightarrow> SessionRecordSummary \<Rightarrow> Value" where
  "rollout_shape rfc3339 r =
     json_object
      [(lit ''outer_kind'', VString (rollout_protocol_kind (sr_outer_type r))),
       (lit ''event_kind'', VString (rollout_protocol_kind (event_type r))),
       (lit ''known_state_input'', VBool (known_state_input r)),
       (lit ''coverage_shape_valid'', VBool (input_shape_valid_for_coverage rfc3339 r)),
       (lit ''unknown_envelope_field'', VBool (sr_unknown_envelope_field r)),
       (lit ''ordinal_present'', VBool (sr_ordinal_seen r)),
       (lit ''ordinal_shape_valid'', VBool (ordinal_shape_valid r)),
       (lit ''response_metadata_present'', VBool (sr_response_metadata_seen r)),
       (lit ''response_metadata_shape_valid'', VBool (response_metadata_shape_valid r)),
       (lit ''duplicate_fields'', VBool (sr_duplicate_fields r)),
       (lit ''timestamp_present'', VBool (sr_timestamp_seen r)),
       (lit ''timestamp_malformed'', VBool (sr_timestamp_malformed r)),
       (lit ''timestamp_valid'', VBool (1 \<le> event_timestamp rfc3339 r \<and> event_timestamp rfc3339 r \<le> 253402300799)),
       (lit ''payload_present'', VBool (sr_payload_seen r)),
       (lit ''payload_object'', VBool (sr_payload_object r)),
       (lit ''payload_event_type_malformed'', VBool (ps_event_type_malformed (sr_payload r))),
       (lit ''context_envelope_valid'', VBool (context_envelope_valid rfc3339 r)),
       (lit ''context_model_qualified'', VBool (qualified_context_model rfc3339 r \<noteq> None)),
       (lit ''root_model_malformed'', VBool (sr_root_model_malformed r)),
       (lit ''payload_model_malformed'', VBool (ps_model_malformed (sr_payload r))),
       (lit ''thread_settings_model_malformed'', VBool (ps_thread_settings_model_malformed (sr_payload r))),
       (lit ''metadata_shape_valid'', VBool (metadata_shape_valid r)),
       (lit ''noop_shape_valid'', (case noop_valid rfc3339 r of None \<Rightarrow> VNull | Some valid \<Rightarrow> VBool valid)),
       (lit ''usage_unparsed'', VBool (usage_unparsed rfc3339 r)),
       (lit ''context_unparsed'', VBool (context_unparsed rfc3339 r)),
       (lit ''token_snapshot_valid'',
         VBool (case token_snapshot r of None \<Rightarrow> False | Some tokens \<Rightarrow> TokenSnapshot_valid_raw tokens)),
       (lit ''response_record_valid'', VBool (response_record (ps_response (sr_payload r)) \<noteq> None)),
       (lit ''response_identifiers_malformed'', VBool (rps_malformed_identifiers (ps_response (sr_payload r)) \<noteq> 0))]"

definition rollout_rejection ::
  "(rstr \<Rightarrow> i64 option) \<Rightarrow> u64 \<Rightarrow> u64 \<Rightarrow> u64 option \<Rightarrow> rstr \<Rightarrow> SessionRecordSummary option \<Rightarrow> Value" where
  "rollout_rejection rfc3339 ordinal start stop category rec =
     json_object
      [(lit ''record_ordinal'', VNumber (PosInt ordinal)),
       (lit ''start_offset'', VNumber (PosInt start)),
       (lit ''end_offset'', (case stop of None \<Rightarrow> VNull | Some e \<Rightarrow> VNumber (PosInt e))),
       (lit ''category'', VString category),
       (lit ''shape'', (case rec of None \<Rightarrow> VNull | Some r \<Rightarrow> rollout_shape rfc3339 r))]"

section \<open>Records\<close>

text \<open>What a record changes.\<close>

definition observe_rollout :: "(rstr \<Rightarrow> i64 option) \<Rightarrow> SessionRecordSummary \<Rightarrow> RolloutState \<Rightarrow> RolloutState" where
  "observe_rollout rfc3339 summary st =
     (let st = (case task_running summary of None \<Rightarrow> st | Some running \<Rightarrow> st\<lparr>rs_last_task_running := Some running\<rparr>);
          st = (case token_snapshot summary of
                  None \<Rightarrow> st | Some counter \<Rightarrow> st\<lparr>rs_last_total_tokens := Some (ts_total counter)\<rparr>);
          st = (case context_pair rfc3339 summary of
                  None \<Rightarrow> st
                | Some (usage, window) \<Rightarrow>
                    st\<lparr>rs_last_context_usage_tokens := Some usage, rs_last_context_window_tokens := Some window\<rparr>)
      in (case user_message_timestamp rfc3339 summary of
            None \<Rightarrow> st | Some timestamp \<Rightarrow> st\<lparr>rs_last_user_message_at := Some timestamp\<rparr>))"

text \<open>
  The loop over the records. The left result is the error with the diagnostic; \<open>None\<close>: the fuel did
  not suffice.
\<close>

fun apply_records ::
  "(rstr \<Rightarrow> i64 option) \<Rightarrow> (u8 list \<Rightarrow> u8 list) \<Rightarrow> nat \<Rightarrow> u8 list \<Rightarrow> bool \<Rightarrow> u64 \<Rightarrow> u64 \<Rightarrow> RolloutState \<Rightarrow>
   ((RolloutError \<times> Value) + RolloutState) option" where
  "apply_records rfc3339 sha256 0 bytes io_fails ordinal offset st = None"
| "apply_records rfc3339 sha256 (Suc n) bytes io_fails ordinal offset st =
     (case read_streaming_record sha256 (Suc (length bytes)) bytes io_fails of
        (ReadStarved, _) \<Rightarrow> None
      | (ReadFailed _, _) \<Rightarrow>
          Some (Inl (InvalidJson, rollout_rejection rfc3339 (ordinal + 1) offset None (lit ''source-io'') None))
      | (ReadDone RecordEnd, _) \<Rightarrow> Some (Inr st)
      | (ReadDone (RecordInvalid consumed _), _) \<Rightarrow>
          Some (Inl (InvalidJson, rollout_rejection rfc3339 (ordinal + 1) offset (Some (saturating_add offset consumed))
            (lit ''json-framing'') None))
      | (ReadDone (RecordUnterminated consumed), _) \<Rightarrow>
          Some (Inl (UnterminatedLine, rollout_rejection rfc3339 (ordinal + 1) offset (Some (saturating_add offset consumed))
            (lit ''unterminated-record'') None))
      | (ReadDone (RecordPresent summary consumed), rest) \<Rightarrow>
          (let ordinal = ordinal + 1;
               start = offset;
               offset = saturating_add offset consumed
           in if \<not> live_shape_valid rfc3339 summary
              then Some (Inl (InvalidKnownEvent,
                rollout_rejection rfc3339 ordinal start (Some offset) (lit ''record-shape'') (Some summary)))
              else (case observe_context rfc3339 summary (rs_model_context st) of
                  (True, _) \<Rightarrow> Some (Inl (InvalidKnownEvent,
                    rollout_rejection rfc3339 ordinal start (Some offset) (lit ''model-context'') (Some summary)))
                | (False, context') \<Rightarrow>
                    apply_records rfc3339 sha256 n rest io_fails ordinal offset
                      (observe_rollout rfc3339 summary (st\<lparr>rs_model_context := context'\<rparr>)))))"

text \<open>
  The accumulator changes only when all records were applied. The parts of the result are the
  outcome, the diagnostic of a rejection and the new state.
\<close>

definition apply_complete_records_diagnosed ::
  "(rstr \<Rightarrow> i64 option) \<Rightarrow> (u8 list \<Rightarrow> u8 list) \<Rightarrow> u8 list \<Rightarrow> bool \<Rightarrow> Value option \<Rightarrow> RolloutState \<Rightarrow>
   ((RolloutError + unit) \<times> Value option \<times> RolloutState) option" where
  "apply_complete_records_diagnosed rfc3339 sha256 bytes io_fails rejection st =
     map_option (\<lambda>r. case r of
         Inl (e, reason) \<Rightarrow> (Inl e, Some reason, st)
       | Inr st' \<Rightarrow> (Inr (), rejection, st'))
       (apply_records rfc3339 sha256 (Suc (length bytes)) bytes io_fails 0 0 st)"

definition apply_complete_records ::
  "(rstr \<Rightarrow> i64 option) \<Rightarrow> (u8 list \<Rightarrow> u8 list) \<Rightarrow> u8 list \<Rightarrow> bool \<Rightarrow> RolloutState \<Rightarrow>
   ((RolloutError + unit) \<times> RolloutState) option" where
  "apply_complete_records rfc3339 sha256 bytes io_fails st =
     map_option (\<lambda>(r, _, st'). (r, st')) (apply_complete_records_diagnosed rfc3339 sha256 bytes io_fails None st)"

definition MAX_SESSION_FILE_BYTES :: u64 where
  "MAX_SESSION_FILE_BYTES = 256 * 1024 * 1024"

definition apply_reader ::
  "(rstr \<Rightarrow> i64 option) \<Rightarrow> (u8 list \<Rightarrow> u8 list) \<Rightarrow> u8 list \<Rightarrow> bool \<Rightarrow> u64 \<Rightarrow> RolloutState \<Rightarrow>
   ((RolloutError + unit) \<times> RolloutState) option" where
  "apply_reader rfc3339 sha256 bytes io_fails snapshot_bytes st =
     (if snapshot_bytes > MAX_SESSION_FILE_BYTES then Some (Inl FileTooLarge, st)
      else apply_complete_records rfc3339 sha256 bytes io_fails st)"

text \<open>
  The live reading. The deadline is looked at before and after the records (\<open>late_before\<close>,
  \<open>late_after\<close>) and at every refill of the buffer, where it shows as a failed read after the bytes
  delivered so far; once the limit is reached only the deadline fails a read. What is left of the limit are the bytes the source did not have.
\<close>

definition apply_live_reader_diagnosed ::
  "(rstr \<Rightarrow> i64 option) \<Rightarrow> (u8 list \<Rightarrow> u8 list) \<Rightarrow> u8 list \<Rightarrow> bool \<Rightarrow> u64 \<Rightarrow> bool \<Rightarrow> bool \<Rightarrow> RolloutState \<Rightarrow>
   ((RolloutError + unit) \<times> Value option \<times> RolloutState) option" where
  "apply_live_reader_diagnosed rfc3339 sha256 bytes io_fails snapshot_bytes late_before late_after st =
     (if late_before then Some (Inl DeadlineExceeded, None, st)
      else (let input = take (unat snapshot_bytes) bytes;
                fails = (io_fails \<and> (length bytes < unat snapshot_bytes \<or> late_after))
            in map_option (\<lambda>(r, rejection, candidate).
                 if late_after then (Inl DeadlineExceeded, rejection, st)
                 else (case r of
                     Inl e \<Rightarrow> (Inl e, rejection, st)
                   | Inr () \<Rightarrow>
                       if length input \<noteq> unat snapshot_bytes then (Inl InvalidJson, rejection, st)
                       else (Inr (), rejection, candidate)))
                 (apply_complete_records_diagnosed rfc3339 sha256 input fails None st)))"

definition UNKNOWN_MODEL :: rstr where
  "UNKNOWN_MODEL = [0x4E0D, 0x660E]"

definition finish_rollout :: "RolloutState \<Rightarrow> RolloutError + ValidatedRollout" where
  "finish_rollout st =
     (let model = (case ma_model (rs_model_context st) of
            None \<Rightarrow> UNKNOWN_MODEL | Some m \<Rightarrow> if m = [] then UNKNOWN_MODEL else m)
      in try_res (map_err InvalidKnownEvent (bounded_model_label model)) (\<lambda>model_label.
        Inr \<lparr>vr_last_task_running = rs_last_task_running st, vr_model = model, vr_model_label = model_label,
             vr_total_tokens = rs_last_total_tokens st,
             vr_context_usage_tokens = rs_last_context_usage_tokens st,
             vr_context_window_tokens = rs_last_context_window_tokens st,
             vr_last_user_message_at = rs_last_user_message_at st\<rparr>))"

definition parse_rollout_reader ::
  "(rstr \<Rightarrow> i64 option) \<Rightarrow> (u8 list \<Rightarrow> u8 list) \<Rightarrow> u8 list \<Rightarrow> bool \<Rightarrow> u64 \<Rightarrow> (RolloutError + ValidatedRollout) option" where
  "parse_rollout_reader rfc3339 sha256 bytes io_fails snapshot_bytes =
     map_option (\<lambda>(r, st). try_res r (\<lambda>_. finish_rollout st))
       (apply_reader rfc3339 sha256 bytes io_fails snapshot_bytes RolloutState_default)"

definition parse_rollout ::
  "(rstr \<Rightarrow> i64 option) \<Rightarrow> (u8 list \<Rightarrow> u8 list) \<Rightarrow> u8 list \<Rightarrow> (RolloutError + ValidatedRollout) option" where
  "parse_rollout rfc3339 sha256 bytes =
     parse_rollout_reader rfc3339 sha256 bytes False
       (case word_of_nat_checked (length bytes) of None \<Rightarrow> - 1 | Some n \<Rightarrow> n)"

section \<open>The loop reads the lines\<close>

text \<open>The reference: the same checks on the records of the lines.\<close>

fun rollout_loop :: "(rstr \<Rightarrow> i64 option) \<Rightarrow> record_read list \<Rightarrow> RolloutState \<Rightarrow> RolloutError + RolloutState" where
  "rollout_loop rfc3339 [] st = Inr st"
| "rollout_loop rfc3339 (ReadPresent summary _ _ # records) st =
     (if \<not> live_shape_valid rfc3339 summary then Inl InvalidKnownEvent
      else (case observe_context rfc3339 summary (rs_model_context st) of
          (True, _) \<Rightarrow> Inl InvalidKnownEvent
        | (False, context') \<Rightarrow>
            rollout_loop rfc3339 records (observe_rollout rfc3339 summary (st\<lparr>rs_model_context := context'\<rparr>))))"
| "rollout_loop rfc3339 (ReadInvalid _ _ _ # records) st = Inl InvalidJson"
| "rollout_loop rfc3339 (ReadUnterminated _ # records) st = Inl UnterminatedLine"

lemma rollout_loop_append:
  "rollout_loop rfc3339 (xs @ ys) st = try_res (rollout_loop rfc3339 xs st) (rollout_loop rfc3339 ys)"
  by (induction rfc3339 xs st rule: rollout_loop.induct) (auto split: prod.split bool.split)

lemma apply_records_loop:
  assumes "length bytes < 2 ^ 64" "length bytes < n"
  shows "\<exists>r. apply_records rfc3339 sha256 n bytes False ordinal offset st = Some r \<and>
    map_sum fst (\<lambda>s. s) r = rollout_loop rfc3339 (file_records sha256 bytes) st"
  using assms
proof (induction bytes arbitrary: n ordinal offset st rule: lines_induct)
  case (open_end bytes)
  then obtain k where n: "n = Suc k" by (cases n) simp_all
  show ?case
  proof (cases "bytes = []")
    case True
    then show ?thesis by (simp add: n read_streaming_record_def file_records_open)
  next
    case False
    then have "frames bytes False (read_streaming_record sha256 (Suc (length bytes)) bytes False)"
      using open_end by (intro read_frames) auto
    then obtain m where "read_streaming_record sha256 (Suc (length bytes)) bytes False = (ReadDone (RecordUnterminated m), [])"
      using open_end(1) by (auto simp: frames_def)
    then show ?thesis using False open_end(1) by (simp add: n file_records_open)
  qed
next
  case (line line rest)
  then obtain k where n: "n = Suc k" by (cases n) simp_all
  have small: "Suc (length line) < 2 ^ 64" using line(3) by simp
  have r: "read_streaming_record sha256 (Suc (length (line @ 10 # rest))) (line @ 10 # rest) False =
      (line_outcome sha256 line, rest)"
    by (rule read_line) (use line in auto)
  have IH: "\<exists>r. apply_records rfc3339 sha256 k rest False ordinal offset st = Some r \<and>
      map_sum fst (\<lambda>s. s) r = rollout_loop rfc3339 (file_records sha256 rest) st" for ordinal offset st
    by (rule line(2)) (use line(3,4) n in auto)
  show ?case
    using line(1) small
  proof (rule line_outcome_cases)
    fix summary bytes assume present: "line_outcome sha256 line = ReadDone (RecordPresent summary bytes)"
    show ?thesis
      unfolding n apply_records.simps r file_records_line[OF line(1)] line_record_def present
      using IH by (auto simp: Let_def split: prod.split bool.split)
  next
    assume invalid: "line_outcome sha256 line = ReadDone (RecordInvalid (word_of_nat (Suc (length line))) True)"
    show ?thesis
      unfolding n apply_records.simps r file_records_line[OF line(1)] line_record_def invalid by simp
  qed
qed

text \<open>The outcome of a reading: the new state when everything was applied.\<close>

fun applied :: "(RolloutError + unit) \<times> RolloutState \<Rightarrow> RolloutError + RolloutState" where
  "applied (Inl e, st) = Inl e"
| "applied (Inr (), st) = Inr st"

lemma apply_complete_loop:
  assumes "length bytes < 2 ^ 64"
  shows "map_option applied (apply_complete_records rfc3339 sha256 bytes False st) =
    Some (rollout_loop rfc3339 (file_records sha256 bytes) st)"
proof -
  obtain r where "apply_records rfc3339 sha256 (Suc (length bytes)) bytes False 0 0 st = Some r"
    "map_sum fst (\<lambda>s. s) r = rollout_loop rfc3339 (file_records sha256 bytes) st"
    using apply_records_loop[OF assms, of "Suc (length bytes)"] by blast
  then show ?thesis
    by (cases r) (auto simp: apply_complete_records_def apply_complete_records_diagnosed_def)
qed

lemma applied_eq:
  assumes "length bytes < 2 ^ 64"
  obtains r st' where "apply_complete_records rfc3339 sha256 bytes False st = Some (r, st')"
    "applied (r, st') = rollout_loop rfc3339 (file_records sha256 bytes) st"
  using apply_complete_loop[OF assms, of rfc3339 sha256 st] by auto

text \<open>A file read in pieces, each from the state the one before it left.\<close>

fun apply_pieces ::
  "(rstr \<Rightarrow> i64 option) \<Rightarrow> (u8 list \<Rightarrow> u8 list) \<Rightarrow> u8 list list \<Rightarrow> RolloutState \<Rightarrow> ((RolloutError + unit) \<times> RolloutState) option" where
  "apply_pieces rfc3339 sha256 [] st = Some (Inr (), st)"
| "apply_pieces rfc3339 sha256 (piece # pieces) st =
     (case apply_complete_records rfc3339 sha256 piece False st of
        Some (Inr _, st') \<Rightarrow> apply_pieces rfc3339 sha256 pieces st'
      | r \<Rightarrow> r)"

lemma file_records_piece:
  "last piece = 10 \<Longrightarrow> piece \<noteq> [] \<Longrightarrow> file_records sha256 (piece @ rest) = file_records sha256 piece @ file_records sha256 rest"
  using file_records_append[of sha256 "butlast piece" rest] append_butlast_last_id[of piece] by (metis append.assoc append_Cons append_Nil)

lemma apply_pieces_loop:
  assumes "length (concat pieces) < 2 ^ 64" "\<forall>piece \<in> set pieces. piece \<noteq> [] \<and> last piece = 10"
  shows "map_option applied (apply_pieces rfc3339 sha256 pieces st) =
    Some (rollout_loop rfc3339 (file_records sha256 (concat pieces)) st)"
  using assms
proof (induction pieces arbitrary: st)
  case Nil
  then show ?case by (simp add: file_records_open)
next
  case (Cons piece pieces)
  obtain r st' where r: "apply_complete_records rfc3339 sha256 piece False st = Some (r, st')"
    "applied (r, st') = rollout_loop rfc3339 (file_records sha256 piece) st"
    by (rule applied_eq[of piece]) (use Cons.prems(1) in simp)
  have "file_records sha256 (concat (piece # pieces)) = file_records sha256 piece @ file_records sha256 (concat pieces)"
    using Cons.prems(2) by (simp add: file_records_piece)
  then have whole: "rollout_loop rfc3339 (file_records sha256 (concat (piece # pieces))) st =
      try_res (applied (r, st')) (rollout_loop rfc3339 (file_records sha256 (concat pieces)))"
    by (simp only: rollout_loop_append r(2))
  show ?case
  proof (cases r)
    case (Inl e)
    then show ?thesis unfolding whole by (simp add: r(1))
  next
    case (Inr u)
    then show ?thesis unfolding whole using Cons.IH[of st'] Cons.prems by (simp add: r(1))
  qed
qed

section \<open>The state is the last report\<close>

definition last_report :: "('a \<Rightarrow> 'b option) \<Rightarrow> 'a list \<Rightarrow> 'b option" where
  "last_report f xs = (let reports = List.map_filter f xs in if reports = [] then None else Some (last reports))"

definition first_report :: "('a \<Rightarrow> 'b option) \<Rightarrow> 'a list \<Rightarrow> 'b option" where
  "first_report f xs = (let reports = List.map_filter f xs in if reports = [] then None else Some (hd reports))"

lemma map_filter_snoc:
  "List.map_filter f (xs @ [x]) = List.map_filter f xs @ (case f x of None \<Rightarrow> [] | Some y \<Rightarrow> [y])"
  by (simp add: List.map_filter_def split: option.split)

lemma last_report_snoc: "last_report f (xs @ [x]) = (case f x of None \<Rightarrow> last_report f xs | Some y \<Rightarrow> Some y)"
  by (simp add: last_report_def map_filter_snoc Let_def split: option.split)

lemma first_report_snoc: "first_report f (xs @ [x]) = (case first_report f xs of None \<Rightarrow> f x | Some y \<Rightarrow> Some y)"
  by (simp add: first_report_def map_filter_snoc Let_def split: option.split)

lemma report_Nil [simp]: "last_report f [] = None" "first_report f [] = None"
  by (simp_all add: last_report_def first_report_def List.map_filter_def)

text \<open>The model of a turn, and the model of settings that hold until the first turn.\<close>

definition context_model :: "(rstr \<Rightarrow> i64 option) \<Rightarrow> SessionRecordSummary \<Rightarrow> rstr option" where
  "context_model rfc3339 s = Option.bind (qualified_context_model rfc3339 s) checkpoint_model"

definition is_turn :: "SessionRecordSummary \<Rightarrow> bool" where
  "is_turn s \<longleftrightarrow> is_one_of (event_type s) turn_names"

definition is_settings :: "SessionRecordSummary \<Rightarrow> bool" where
  "is_settings s \<longleftrightarrow> event_type s = Some (lit ''thread_settings_applied'')"

definition turn_model :: "(rstr \<Rightarrow> i64 option) \<Rightarrow> SessionRecordSummary \<Rightarrow> rstr option" where
  "turn_model rfc3339 s = (if is_turn s then context_model rfc3339 s else None)"

definition settings_model :: "(rstr \<Rightarrow> i64 option) \<Rightarrow> SessionRecordSummary \<Rightarrow> rstr option" where
  "settings_model rfc3339 s = (if is_settings s then context_model rfc3339 s else None)"

definition live_record :: "(rstr \<Rightarrow> i64 option) \<Rightarrow> SessionRecordSummary \<Rightarrow> bool" where
  "live_record rfc3339 s \<longleftrightarrow> live_shape_valid rfc3339 s \<and> (is_turn s \<or> is_settings s \<longrightarrow> context_model rfc3339 s \<noteq> None)"

definition live_model :: "(rstr \<Rightarrow> i64 option) \<Rightarrow> SessionRecordSummary list \<Rightarrow> rstr option" where
  "live_model rfc3339 ss =
     (case last_report (turn_model rfc3339) ss of
        Some m \<Rightarrow> Some m
      | None \<Rightarrow> first_report (settings_model rfc3339) ss)"

definition live_view :: "(rstr \<Rightarrow> i64 option) \<Rightarrow> SessionRecordSummary list \<Rightarrow> ValidatedRollout" where
  "live_view rfc3339 ss =
     (let model = (case live_model rfc3339 ss of None \<Rightarrow> UNKNOWN_MODEL | Some m \<Rightarrow> m)
      in \<lparr>vr_last_task_running = last_report task_running ss, vr_model = model,
          vr_model_label = shorten_unicode (normalize_ui_text model) MAX_ACCOUNT_ACTIVITY_LABEL_SCALARS,
          vr_total_tokens = map_option ts_total (last_report token_snapshot ss),
          vr_context_usage_tokens = map_option fst (last_report (context_pair rfc3339) ss),
          vr_context_window_tokens = map_option snd (last_report (context_pair rfc3339) ss),
          vr_last_user_message_at = last_report (user_message_timestamp rfc3339) ss\<rparr>)"

definition live_state :: "(rstr \<Rightarrow> i64 option) \<Rightarrow> SessionRecordSummary list \<Rightarrow> RolloutState \<Rightarrow> bool" where
  "live_state rfc3339 ss st \<longleftrightarrow>
     rs_last_task_running st = last_report task_running ss \<and>
     rs_last_total_tokens st = map_option ts_total (last_report token_snapshot ss) \<and>
     rs_last_context_usage_tokens st = map_option fst (last_report (context_pair rfc3339) ss) \<and>
     rs_last_context_window_tokens st = map_option snd (last_report (context_pair rfc3339) ss) \<and>
     rs_last_user_message_at st = last_report (user_message_timestamp rfc3339) ss \<and>
     ma_model (rs_model_context st) = live_model rfc3339 ss \<and>
     ma_kind (rs_model_context st) =
       (if last_report (turn_model rfc3339) ss \<noteq> None then Turn
        else if first_report (settings_model rfc3339) ss \<noteq> None then InitialSettings else CtxNone)"

lemma live_state_default: "live_state rfc3339 [] RolloutState_default"
  by (simp add: live_state_def RolloutState_default_def ModelAttributionState_new_def live_model_def)

lemma observe_rollout_fields:
  "rs_last_task_running (observe_rollout rfc3339 s st) =
     (case task_running s of None \<Rightarrow> rs_last_task_running st | Some x \<Rightarrow> Some x)"
  "rs_last_total_tokens (observe_rollout rfc3339 s st) =
     (case token_snapshot s of None \<Rightarrow> rs_last_total_tokens st | Some x \<Rightarrow> Some (ts_total x))"
  "rs_last_context_usage_tokens (observe_rollout rfc3339 s st) =
     (case context_pair rfc3339 s of None \<Rightarrow> rs_last_context_usage_tokens st | Some x \<Rightarrow> Some (fst x))"
  "rs_last_context_window_tokens (observe_rollout rfc3339 s st) =
     (case context_pair rfc3339 s of None \<Rightarrow> rs_last_context_window_tokens st | Some x \<Rightarrow> Some (snd x))"
  "rs_last_user_message_at (observe_rollout rfc3339 s st) =
     (case user_message_timestamp rfc3339 s of None \<Rightarrow> rs_last_user_message_at st | Some x \<Rightarrow> Some x)"
  "rs_model_context (observe_rollout rfc3339 s st) = rs_model_context st"
  by (simp_all add: observe_rollout_def Let_def split: option.split prod.split)

lemma turn_not_settings: "is_turn s \<Longrightarrow> \<not> is_settings s"
  by (auto simp: is_turn_def is_settings_def is_one_of_def turn_names_def lit_def split: option.splits)

lemma live_context_cases:
  "observe_context rfc3339 s st =
     (if \<not> is_settings s \<and> \<not> is_turn s then (False, st)
      else (case context_model rfc3339 s of
          None \<Rightarrow> (True, if \<not> is_settings s \<or> ma_kind st \<noteq> Turn then invalidate st else st)
        | Some model \<Rightarrow>
            if is_settings s \<and> ma_kind st \<noteq> CtxNone then (False, st)
            else (False, \<lparr>ma_model = Some model, ma_kind = (if is_settings s then InitialSettings else Turn),
              ma_interval = widen_interval model (ma_interval st)\<rparr>)))"
  unfolding observe_context_def Let_def is_settings_def is_turn_def context_model_def ..

lemma live_state_step:
  assumes "live_state rfc3339 ss st"
  shows "live_record rfc3339 s \<Longrightarrow> observe_context rfc3339 s (rs_model_context st) = (False, c) \<Longrightarrow>
    live_state rfc3339 (ss @ [s]) (observe_rollout rfc3339 s (st\<lparr>rs_model_context := c\<rparr>))"
proof -
  assume live: "live_record rfc3339 s" and c: "observe_context rfc3339 s (rs_model_context st) = (False, c)"
  have "ma_model c = live_model rfc3339 (ss @ [s]) \<and> ma_kind c =
       (if last_report (turn_model rfc3339) (ss @ [s]) \<noteq> None then Turn
        else if first_report (settings_model rfc3339) (ss @ [s]) \<noteq> None then InitialSettings else CtxNone)"
    using assms c live turn_not_settings[of s]
    by (auto simp: live_state_def live_context_cases live_record_def live_model_def last_report_snoc first_report_snoc
        turn_model_def settings_model_def split: option.splits if_splits)
  then show ?thesis
    using assms by (simp add: live_state_def observe_rollout_fields last_report_snoc split: option.split)
qed

lemma live_record_iff:
  "live_record rfc3339 s \<longleftrightarrow> live_shape_valid rfc3339 s \<and> \<not> fst (observe_context rfc3339 s c)"
  by (auto simp: live_record_def live_context_cases split: option.splits)

text \<open>The summaries of a file all of whose lines are complete and well-formed.\<close>

fun present_summaries :: "record_read list \<Rightarrow> SessionRecordSummary list option" where
  "present_summaries [] = Some []"
| "present_summaries (ReadPresent summary _ _ # records) = map_option ((#) summary) (present_summaries records)"
| "present_summaries (_ # records) = None"

lemma rollout_loop_accepts:
  "(\<exists>st'. rollout_loop rfc3339 records st = Inr st') \<longleftrightarrow> 
     (\<exists>ss. present_summaries records = Some ss \<and> list_all (live_record rfc3339) ss)"
proof (induction rfc3339 records st rule: rollout_loop.induct)
  case (2 rfc3339 summary b h records st)
  show ?case
  proof (cases "live_record rfc3339 summary")
    case True
    then have valid: "live_shape_valid rfc3339 summary" "\<not> fst (observe_context rfc3339 summary (rs_model_context st))"
      using live_record_iff by blast+
    then obtain c where c: "observe_context rfc3339 summary (rs_model_context st) = (False, c)" by (metis (full_types) prod.collapse)
    show ?thesis using 2[of False c] valid(1) c True by fastforce
  next
    case False
    then have "live_shape_valid rfc3339 summary \<Longrightarrow> fst (observe_context rfc3339 summary (rs_model_context st))"
      using live_record_iff by blast
    then show ?thesis using False by (auto split: prod.split bool.split)
  qed
qed simp_all

lemma rollout_loop_live:
  "rollout_loop rfc3339 records st = Inr st' \<Longrightarrow> live_state rfc3339 seen st \<Longrightarrow> present_summaries records = Some ss \<Longrightarrow>
   live_state rfc3339 (seen @ ss) st'"
proof (induction rfc3339 records st arbitrary: seen ss rule: rollout_loop.induct)
  case (2 rfc3339 summary b h records st)
  from 2(2) obtain c where c: "live_shape_valid rfc3339 summary" "observe_context rfc3339 summary (rs_model_context st) = (False, c)"
    "rollout_loop rfc3339 records (observe_rollout rfc3339 summary (st\<lparr>rs_model_context := c\<rparr>)) = Inr st'"
    by (auto split: if_splits prod.splits bool.splits)
  from 2(4) obtain ss' where ss: "present_summaries records = Some ss'" "ss = summary # ss'" by auto
  have "live_record rfc3339 summary" using c(1,2) live_record_iff[of rfc3339 summary "rs_model_context st"] by simp
  then have "live_state rfc3339 (seen @ [summary]) (observe_rollout rfc3339 summary (st\<lparr>rs_model_context := c\<rparr>))"
    using live_state_step[OF 2(3)] c(2) by blast
  then have "live_state rfc3339 ((seen @ [summary]) @ ss') st'"
    using 2(1)[of False c "seen @ [summary]" ss'] c ss(1) by simp
  then show ?case by (simp add: ss(2))
qed auto

lemma report_from: "last_report f xs = Some y \<Longrightarrow> \<exists>x. f x = Some y" "first_report f xs = Some y \<Longrightarrow> \<exists>x. f x = Some y"
  by (induction xs rule: rev_induct) (auto simp: last_report_snoc first_report_snoc split: option.splits)

lemma context_model_nonempty: "context_model rfc3339 s = Some m \<Longrightarrow> m \<noteq> []"
  by (auto simp: context_model_def checkpoint_model_def bind_eq_Some_conv split: option.splits if_splits
      dest: normalize_model_nameD)

lemma live_model_nonempty: "live_model rfc3339 ss = Some m \<Longrightarrow> m \<noteq> []"
  by (auto simp: live_model_def turn_model_def settings_model_def
      dest!: report_from dest: context_model_nonempty split: option.splits if_splits)

lemma finish_live: "live_state rfc3339 ss st \<Longrightarrow> finish_rollout st = Inr (live_view rfc3339 ss)"
  using live_model_nonempty[of rfc3339 ss]
  by (auto simp: live_state_def finish_rollout_def live_view_def bounded_model_label_def bounded_ui_text_def Let_def
      split: option.split)

section \<open>Properties\<close>

text \<open>
  C16. A growing session file read in pieces: when every piece ends with a line feed, however the
  bytes are cut, the readings of the pieces one after the other succeed exactly when the reading of
  all bytes at once does, with the same error or the same live state.
\<close>

theorem rollout_incremental:
  assumes "length (concat pieces) < 2 ^ 64" "\<forall>piece \<in> set pieces. piece \<noteq> [] \<and> last piece = 10"
  shows "map_option applied (apply_pieces rfc3339 sha256 pieces st) =
    map_option applied (apply_complete_records rfc3339 sha256 (concat pieces) False st)"
  unfolding apply_pieces_loop[OF assms] apply_complete_loop[OF assms(1)] ..

theorem rollout_incremental_witness:
  "map_option applied (apply_pieces (\<lambda>_. None) sample_sha256 [[123, 125, 10], [10, 10], [91, 10]] RolloutState_default) =
   map_option applied (apply_complete_records (\<lambda>_. None) sample_sha256 [123, 125, 10, 10, 10, 91, 10] False RolloutState_default)"
  using rollout_incremental[of "[[123, 125, 10], [10, 10], [91, 10]]"] by simp

text \<open>
  C15. The live view of a session file: a file within the limit is accepted exactly when every line
  of it is complete and well-formed, of a known shape and with a valid model where it states one;
  what is shown is the last state of the task, the last totals, the last context window and the
  last user message, with the model of the last turn, or of the first settings before any turn.
\<close>

theorem rollout_shows_last_reports:
  assumes "length bytes \<le> unat MAX_SESSION_FILE_BYTES"
  shows "parse_rollout rfc3339 sha256 bytes = Some (Inr view) \<longleftrightarrow>
    (\<exists>ss. present_summaries (file_records sha256 bytes) = Some ss \<and> list_all (live_record rfc3339) ss \<and>
       view = live_view rfc3339 ss)"
proof -
  have limit: "unat MAX_SESSION_FILE_BYTES = 268435456" by (simp add: MAX_SESSION_FILE_BYTES_def)
  have small: "length bytes < 2 ^ 64" using assms limit by simp
  then obtain w :: u64 where w: "word_of_nat_checked (length bytes) = Some w" "unat w = length bytes"
    by (auto simp: word_of_nat_checked_def unat_of_nat)
  then have "\<not> w > MAX_SESSION_FILE_BYTES" using assms by (simp add: word_less_nat_alt)
  moreover obtain r st' where r: "apply_complete_records rfc3339 sha256 bytes False RolloutState_default = Some (r, st')"
    "applied (r, st') = rollout_loop rfc3339 (file_records sha256 bytes) RolloutState_default"
    using small by (rule applied_eq)
  ultimately have parse: "parse_rollout rfc3339 sha256 bytes =
      Some (try_res (rollout_loop rfc3339 (file_records sha256 bytes) RolloutState_default) finish_rollout)"
    unfolding parse_rollout_def parse_rollout_reader_def apply_reader_def w r(2)[symmetric] by (cases r) (simp_all add: r(1))
  have finish: "finish_rollout st = Inr (live_view rfc3339 ss)"
    if "rollout_loop rfc3339 (file_records sha256 bytes) RolloutState_default = Inr st"
      "present_summaries (file_records sha256 bytes) = Some ss" for st ss
    using rollout_loop_live[OF that(1) live_state_default that(2)] finish_live by simp
  show ?thesis
    unfolding parse using finish rollout_loop_accepts[of rfc3339 "file_records sha256 bytes" RolloutState_default]
    by (cases "rollout_loop rfc3339 (file_records sha256 bytes) RolloutState_default") auto
qed

theorem rollout_shows_last_reports_witness:
  "parse_rollout (\<lambda>_. None) sample_sha256 [] = Some (Inr (live_view (\<lambda>_. None) [])) \<and>
   parse_rollout (\<lambda>_. None) sample_sha256 sample_file \<noteq> Some (Inr (live_view (\<lambda>_. None) []))"
proof
  have "file_records sample_sha256 [] = []" by (simp add: file_records_open)
  then show "parse_rollout (\<lambda>_. None) sample_sha256 [] = Some (Inr (live_view (\<lambda>_. None) []))"
    using rollout_shows_last_reports[of "[]" "\<lambda>_. None" sample_sha256 "live_view (\<lambda>_. None) []"] by simp
  have "length sample_file \<le> unat MAX_SESSION_FILE_BYTES" by (simp add: sample_file_def MAX_SESSION_FILE_BYTES_def)
  then show "parse_rollout (\<lambda>_. None) sample_sha256 sample_file \<noteq> Some (Inr (live_view (\<lambda>_. None) []))"
    using rollout_shows_last_reports[of sample_file "\<lambda>_. None" sample_sha256 "live_view (\<lambda>_. None) []"] by (simp add: sample_records)
qed

end
