(* ===== verification/Json_Schema.thy ===== *)
theory Json_Schema
  imports Protocol_Contract
begin

text \<open>
  The validator of JSON values against the vendored Draft-07 schemas (\<open>validate_node\<close> and its helpers
  in \<open>src/thread_contract.rs\<close>), with its limits of depth and work, and the meaning of the schemas it
  implements. Objects are listed in the order of their keys, in which the code visits them.
\<close>

section \<open>Errors and limits\<close>

datatype ThreadContractError =
    InvalidCursor | InvalidRequest | InvalidEnvelope | InvalidItem | InvalidThreadSchema
  | ValidationBudgetExceeded | InvalidManifest

fun ThreadContractError_message :: "ThreadContractError \<Rightarrow> rstr" where
  "ThreadContractError_message InvalidCursor = lit ''thread cursor rejected''"
| "ThreadContractError_message InvalidRequest = lit ''thread request rejected''"
| "ThreadContractError_message InvalidEnvelope = lit ''thread page envelope rejected''"
| "ThreadContractError_message InvalidItem = lit ''thread item rejected''"
| "ThreadContractError_message InvalidThreadSchema = lit ''thread schema rejected''"
| "ThreadContractError_message ValidationBudgetExceeded = lit ''thread validation budget exceeded''"
| "ThreadContractError_message InvalidManifest = lit ''thread schema manifest rejected''"

definition MAX_VALIDATION_DEPTH :: nat where "MAX_VALIDATION_DEPTH = 64"
definition MAX_VALIDATION_WORK :: u64 where "MAX_VALIDATION_WORK = 100000"

section \<open>Numbers\<close>

fun as_number :: "Value \<Rightarrow> Number option" where
  "as_number (VNumber n) = Some n"
| "as_number _ = None"

definition is_number :: "Value \<Rightarrow> bool" where
  "is_number value \<longleftrightarrow> as_number value \<noteq> None"

fun as_u64 :: "Value \<Rightarrow> u64 option" where
  "as_u64 (VNumber (PosInt n)) = Some n"
| "as_u64 _ = None"

text \<open>
  The conversion of an integer to a binary64 value: exact below \<open>2 ^ 53\<close>, otherwise the nearest
  multiple of the power of two that leaves 53 bits, ties to the even one.
\<close>

fun excess_bits :: "nat \<Rightarrow> nat" where
  "excess_bits n = (if n < 2 ^ 53 then 0 else Suc (excess_bits (n div 2)))"

declare excess_bits.simps [simp del]

definition round_to_53_bits :: "nat \<Rightarrow> nat" where
  "round_to_53_bits n =
     (let unit = 2 ^ excess_bits n; q = n div unit; r = n mod unit
      in if unit < 2 * r \<or> (unit = 2 * r \<and> odd q) then (q + 1) * unit else q * unit)"

definition int_as_f64 :: "int \<Rightarrow> f64" where
  "int_as_f64 n = F64_Finite (of_int (sgn n * int (round_to_53_bits (nat (abs n)))))"

fun number_as_f64 :: "Number \<Rightarrow> f64" where
  "number_as_f64 (PosInt n) = int_as_f64 (uint n)"
| "number_as_f64 (NegInt n) = int_as_f64 n"
| "number_as_f64 (FloatNumber x) = x"

definition as_f64 :: "Value \<Rightarrow> f64 option" where
  "as_f64 value = map_option number_as_f64 (as_number value)"

definition is_integer_instance :: "Value \<Rightarrow> bool" where
  "is_integer_instance inst \<longleftrightarrow> as_i64 inst \<noteq> None \<or> as_u64 inst \<noteq> None"

definition matches_integer_format :: "Value \<Rightarrow> rstr \<Rightarrow> bool" where
  "matches_integer_format inst format =
     (if \<not> is_number inst then False
      else if \<not> is_integer_instance inst then False
      else (let signed = as_i64 inst; unsigned = as_u64 inst in
        if format = lit ''int32''
        then (case signed of None \<Rightarrow> False | Some v \<Rightarrow> - 2147483648 \<le> v \<and> v \<le> 2147483647)
        else if format = lit ''int64'' then signed \<noteq> None
        else if format = lit ''uint'' \<or> format = lit ''uint64'' then unsigned \<noteq> None
        else if format = lit ''uint16'' then (case unsigned of None \<Rightarrow> False | Some v \<Rightarrow> v \<le> 65535)
        else if format = lit ''uint32'' then (case unsigned of None \<Rightarrow> False | Some v \<Rightarrow> v \<le> 4294967295)
        else True))"

definition number_at_least :: "Value \<Rightarrow> Value \<Rightarrow> ThreadContractError + bool" where
  "number_at_least inst minimum =
     try_res (ok_or InvalidThreadSchema (as_f64 minimum)) (\<lambda>minimum.
     try_res (ok_or InvalidItem (as_number inst)) (\<lambda>number.
       (case as_i64 inst of
          Some v \<Rightarrow> Inr (f64_le minimum (int_as_f64 v))
        | None \<Rightarrow> (case as_u64 inst of
             Some v \<Rightarrow> Inr (f64_le minimum (int_as_f64 (uint v)))
           | None \<Rightarrow> Inr (f64_le minimum (number_as_f64 number))))))"

section \<open>Types and references\<close>

definition is_null :: "Value \<Rightarrow> bool" where "is_null value \<longleftrightarrow> value = VNull"
definition is_object :: "Value \<Rightarrow> bool" where "is_object value \<longleftrightarrow> as_object value \<noteq> None"
definition is_array :: "Value \<Rightarrow> bool" where "is_array value \<longleftrightarrow> as_array value \<noteq> None"

definition known_type_names :: "rstr list" where
  "known_type_names = [lit ''null'', lit ''boolean'', lit ''object'', lit ''array'', lit ''string'', lit ''number'', lit ''integer'']"

definition is_known_type_name :: "rstr \<Rightarrow> bool" where
  "is_known_type_name type_name \<longleftrightarrow> type_name \<in> set known_type_names"

definition matches_single_type :: "Value \<Rightarrow> rstr \<Rightarrow> ThreadContractError + bool" where
  "matches_single_type inst type_name =
     (if type_name = lit ''null'' then Inr (is_null inst)
      else if type_name = lit ''boolean'' then Inr (is_boolean inst)
      else if type_name = lit ''object'' then Inr (is_object inst)
      else if type_name = lit ''array'' then Inr (is_array inst)
      else if type_name = lit ''string'' then Inr (is_string inst)
      else if type_name = lit ''number'' then Inr (is_number inst)
      else if type_name = lit ''integer'' then Inr (is_integer_instance inst)
      else Inl InvalidThreadSchema)"

primrec matches_any_type :: "Value \<Rightarrow> Value list \<Rightarrow> bool \<Rightarrow> ThreadContractError + bool" where
  "matches_any_type inst [] matched = Inr matched"
| "matches_any_type inst (type_name # type_names) matched =
     try_res (ok_or InvalidThreadSchema (as_str type_name)) (\<lambda>type_name.
     try_res (matches_single_type inst type_name) (\<lambda>m. matches_any_type inst type_names (matched \<or> m)))"

fun matches_type :: "Value \<Rightarrow> Value \<Rightarrow> ThreadContractError + bool" where
  "matches_type inst (VString type_name) = matches_single_type inst type_name"
| "matches_type inst (VArray type_names) = matches_any_type inst type_names False"
| "matches_type inst _ = Inl InvalidThreadSchema"

fun replace_pair :: "scalar \<Rightarrow> scalar \<Rightarrow> scalar \<Rightarrow> rstr \<Rightarrow> rstr" where
  "replace_pair a b c (x # y # s) = (if x = a \<and> y = b then c # replace_pair a b c s else x # replace_pair a b c (y # s))"
| "replace_pair a b c s = s"

definition pointer_token :: "rstr \<Rightarrow> rstr" where
  "pointer_token encoded = replace_pair 126 48 126 (replace_pair 126 49 47 encoded)"

primrec resolve_pointer :: "rstr list \<Rightarrow> Value \<Rightarrow> Value option" where
  "resolve_pointer [] current = Some current"
| "resolve_pointer (encoded # pointer) current =
     Option.bind (Option.bind (as_object current) (\<lambda>object. vget object (pointer_token encoded))) (resolve_pointer pointer)"

definition resolve_local_reference :: "Value \<Rightarrow> rstr \<Rightarrow> Value option" where
  "resolve_local_reference root_schema reference =
     (if reference = lit ''#'' then Some root_schema
      else Option.bind (strip_prefix (lit ''#/'') reference) (\<lambda>pointer. resolve_pointer (split_on 47 pointer) root_schema))"

section \<open>Shapes of the keywords\<close>

definition is_schema_value :: "Value \<Rightarrow> bool" where
  "is_schema_value value \<longleftrightarrow> is_boolean value \<or> is_object value"

definition ensure_schema_value :: "Value \<Rightarrow> ThreadContractError + unit" where
  "ensure_schema_value value = (if is_schema_value value then Inr () else Inl InvalidThreadSchema)"

text \<open>A keyword that is absent has a valid shape.\<close>

definition keyword_shape :: "fields \<Rightarrow> rstr \<Rightarrow> (Value \<Rightarrow> bool) \<Rightarrow> bool" where
  "keyword_shape schema key shape = (case vget schema key of None \<Rightarrow> True | Some value \<Rightarrow> shape value)"

fun type_shape :: "Value \<Rightarrow> bool" where
  "type_shape (VString type_name) = is_known_type_name type_name"
| "type_shape (VArray type_names) =
     (type_names \<noteq> [] \<and> list_all (\<lambda>v. case as_str v of None \<Rightarrow> False | Some t \<Rightarrow> is_known_type_name t) type_names)"
| "type_shape _ = False"

fun array_shape :: "(Value \<Rightarrow> bool) \<Rightarrow> Value \<Rightarrow> bool" where
  "array_shape shape (VArray items) = list_all shape items"
| "array_shape shape _ = False"

fun properties_shape :: "Value \<Rightarrow> bool" where
  "properties_shape (VObject entries) = list_all (\<lambda>(_, v). is_schema_value v) entries"
| "properties_shape _ = False"

fun items_shape :: "Value \<Rightarrow> bool" where
  "items_shape (VBool _) = True"
| "items_shape (VObject _) = True"
| "items_shape (VArray tuple_schemas) = list_all is_schema_value tuple_schemas"
| "items_shape _ = False"

definition keyword_shapes_valid :: "fields \<Rightarrow> bool" where
  "keyword_shapes_valid schema \<longleftrightarrow>
     keyword_shape schema (lit ''type'') type_shape \<and>
     keyword_shape schema (lit ''enum'') is_array \<and>
     keyword_shape schema (lit ''required'') (array_shape is_string) \<and>
     keyword_shape schema (lit ''properties'') properties_shape \<and>
     keyword_shape schema (lit ''additionalProperties'') is_schema_value \<and>
     keyword_shape schema (lit ''items'') items_shape \<and>
     list_all (\<lambda>keyword. keyword_shape schema keyword (array_shape is_schema_value))
       [lit ''oneOf'', lit ''anyOf'', lit ''allOf''] \<and>
     keyword_shape schema (lit ''minimum'') is_number \<and>
     keyword_shape schema (lit ''minLength'') (\<lambda>v. as_u64 v \<noteq> None) \<and>
     keyword_shape schema (lit ''format'') is_string"

definition validate_schema_keyword_shapes :: "fields \<Rightarrow> ThreadContractError + unit" where
  "validate_schema_keyword_shapes schema = (if keyword_shapes_valid schema then Inr () else Inl InvalidThreadSchema)"

section \<open>The walk\<close>

text \<open>A computation that counts the visited nodes; the count is kept on failure.\<close>

type_synonym 'a validation = "u64 \<Rightarrow> (ThreadContractError + 'a) \<times> u64"

definition vok :: "'a \<Rightarrow> 'a validation" where "vok x = (\<lambda>work. (Inr x, work))"
definition vfail :: "ThreadContractError \<Rightarrow> 'a validation" where "vfail e = (\<lambda>work. (Inl e, work))"
definition vlift :: "ThreadContractError + 'a \<Rightarrow> 'a validation" where "vlift r = (\<lambda>work. (r, work))"

definition vbind :: "'a validation \<Rightarrow> ('a \<Rightarrow> 'b validation) \<Rightarrow> 'b validation" where
  "vbind m f = (\<lambda>work. case m work of (Inl e, work) \<Rightarrow> (Inl e, work) | (Inr x, work) \<Rightarrow> f x work)"

definition vthen :: "unit validation \<Rightarrow> 'b validation \<Rightarrow> 'b validation" where
  "vthen m k = vbind m (\<lambda>_. k)"

definition ensure :: "bool \<Rightarrow> unit validation" where
  "ensure c = (if c then vok () else vfail InvalidItem)"

primrec each :: "('a \<Rightarrow> unit validation) \<Rightarrow> 'a list \<Rightarrow> unit validation" where
  "each f [] = vok ()"
| "each f (x # xs) = vthen (f x) (each f xs)"

text \<open>The branches that match; an error other than a mismatch ends the count.\<close>

primrec count_matches :: "('a \<Rightarrow> unit validation) \<Rightarrow> 'a list \<Rightarrow> nat \<Rightarrow> nat validation" where
  "count_matches f [] matches = vok matches"
| "count_matches f (x # xs) matches =
     (\<lambda>work. case f x work of
        (Inr _, work) \<Rightarrow> count_matches f xs (matches + 1) work
      | (Inl e, work) \<Rightarrow> if e = InvalidItem then count_matches f xs matches work else (Inl e, work))"

definition on_keyword :: "fields \<Rightarrow> rstr \<Rightarrow> (Value \<Rightarrow> unit validation) \<Rightarrow> unit validation" where
  "on_keyword schema key f = (case vget schema key of None \<Rightarrow> vok () | Some value \<Rightarrow> f value)"

definition visit :: "unit validation" where
  "visit = (\<lambda>work. case checked_add work 1 of
     None \<Rightarrow> (Inl ValidationBudgetExceeded, work)
   | Some work \<Rightarrow> (if work > MAX_VALIDATION_WORK then Inl ValidationBudgetExceeded else Inr (), work))"

text \<open>
  The assertions on a node, in the order of the code. The argument \<open>child\<close> visits an instance with a
  schema one level deeper.
\<close>

definition check_type :: "Value \<Rightarrow> fields \<Rightarrow> unit validation" where
  "check_type inst schema = on_keyword schema (lit ''type'') (\<lambda>type_value. vbind (vlift (matches_type inst type_value)) ensure)"

definition check_enum :: "Value \<Rightarrow> fields \<Rightarrow> unit validation" where
  "check_enum inst schema = on_keyword schema (lit ''enum'') (\<lambda>enum_value.
     vbind (vlift (ok_or InvalidThreadSchema (as_array enum_value))) (\<lambda>candidates. ensure (inst \<in> set candidates)))"

definition check_required :: "fields \<Rightarrow> fields \<Rightarrow> unit validation" where
  "check_required object schema = on_keyword schema (lit ''required'') (\<lambda>names.
     vbind (vlift (ok_or InvalidThreadSchema (as_array names)))
       (each (\<lambda>name. vbind (vlift (ok_or InvalidThreadSchema (as_str name))) (\<lambda>name. ensure (vget object name \<noteq> None)))))"

definition check_additional :: "(Value \<Rightarrow> Value \<Rightarrow> unit validation) \<Rightarrow> Value \<Rightarrow> Value \<Rightarrow> unit validation" where
  "check_additional child additional property =
     (case additional of
        VBool allowed \<Rightarrow> ensure allowed
      | VObject _ \<Rightarrow> child property additional
      | _ \<Rightarrow> vfail InvalidThreadSchema)"

definition check_properties :: "(Value \<Rightarrow> Value \<Rightarrow> unit validation) \<Rightarrow> fields \<Rightarrow> fields \<Rightarrow> unit validation" where
  "check_properties child object schema =
     (case vget schema (lit ''properties'') of
        Some properties \<Rightarrow>
          vbind (vlift (ok_or InvalidThreadSchema (as_object properties))) (\<lambda>properties.
          vthen (each (\<lambda>(name, property_schema).
              case vget object name of None \<Rightarrow> vok () | Some property \<Rightarrow> child property property_schema) properties)
            (on_keyword schema (lit ''additionalProperties'') (\<lambda>additional.
               each (\<lambda>(name, property).
                 if vget properties name \<noteq> None then vok () else check_additional child additional property) object)))
      | None \<Rightarrow> on_keyword schema (lit ''additionalProperties'') (\<lambda>additional.
          each (\<lambda>(_, property). check_additional child additional property) object))"

definition check_items :: "(Value \<Rightarrow> Value \<Rightarrow> unit validation) \<Rightarrow> Value list \<Rightarrow> fields \<Rightarrow> unit validation" where
  "check_items child array schema = on_keyword schema (lit ''items'') (\<lambda>items.
     case items of
       VArray tuple_schemas \<Rightarrow> each (\<lambda>(item, item_schema). child item item_schema) (zip array tuple_schemas)
     | VObject _ \<Rightarrow> each (\<lambda>item. child item items) array
     | VBool _ \<Rightarrow> each (\<lambda>item. child item items) array
     | _ \<Rightarrow> vfail InvalidThreadSchema)"

definition check_branches ::
  "(Value \<Rightarrow> Value \<Rightarrow> unit validation) \<Rightarrow> Value \<Rightarrow> fields \<Rightarrow> rstr \<Rightarrow> (nat \<Rightarrow> bool) \<Rightarrow> unit validation" where
  "check_branches child inst schema keyword enough = on_keyword schema keyword (\<lambda>branches.
     vbind (vlift (ok_or InvalidThreadSchema (as_array branches))) (\<lambda>branches.
     vbind (count_matches (child inst) branches 0) (\<lambda>matches. ensure (enough matches))))"

definition check_all_of :: "(Value \<Rightarrow> Value \<Rightarrow> unit validation) \<Rightarrow> Value \<Rightarrow> fields \<Rightarrow> unit validation" where
  "check_all_of child inst schema = on_keyword schema (lit ''allOf'') (\<lambda>branches.
     vbind (vlift (ok_or InvalidThreadSchema (as_array branches))) (each (child inst)))"

definition check_minimum :: "Value \<Rightarrow> fields \<Rightarrow> unit validation" where
  "check_minimum inst schema = on_keyword schema (lit ''minimum'') (\<lambda>minimum.
     if is_number inst then vbind (vlift (number_at_least inst minimum)) ensure else vok ())"

definition check_min_length :: "Value \<Rightarrow> fields \<Rightarrow> unit validation" where
  "check_min_length inst schema = on_keyword schema (lit ''minLength'') (\<lambda>min_length.
     case as_str inst of
       None \<Rightarrow> vok ()
     | Some s \<Rightarrow> vbind (vlift (ok_or InvalidThreadSchema (as_u64 min_length))) (\<lambda>minimum. ensure (unat minimum \<le> length s)))"

definition integer_formats :: "rstr list" where
  "integer_formats = [lit ''int32'', lit ''int64'', lit ''uint'', lit ''uint16'', lit ''uint32'', lit ''uint64'']"

definition check_format :: "Value \<Rightarrow> fields \<Rightarrow> unit validation" where
  "check_format inst schema = on_keyword schema (lit ''format'') (\<lambda>format.
     vbind (vlift (ok_or InvalidThreadSchema (as_str format))) (\<lambda>format.
       ensure (\<not> (is_integer_instance inst \<and> format \<in> set integer_formats \<and> \<not> matches_integer_format inst format))))"

definition check_keywords :: "(Value \<Rightarrow> Value \<Rightarrow> unit validation) \<Rightarrow> Value \<Rightarrow> fields \<Rightarrow> unit validation" where
  "check_keywords child inst schema =
     vthen (vlift (validate_schema_keyword_shapes schema))
     (vthen (check_type inst schema)
     (vthen (check_enum inst schema)
     (vthen (case as_object inst of
          None \<Rightarrow> vok ()
        | Some object \<Rightarrow> vthen (check_required object schema) (check_properties child object schema))
     (vthen (case as_array inst of None \<Rightarrow> vok () | Some array \<Rightarrow> check_items child array schema)
     (vthen (check_branches child inst schema (lit ''oneOf'') (\<lambda>matches. matches = 1))
     (vthen (check_branches child inst schema (lit ''anyOf'') (\<lambda>matches. matches \<noteq> 0))
     (vthen (check_all_of child inst schema)
     (vthen (check_minimum inst schema)
     (vthen (check_min_length inst schema)
       (check_format inst schema))))))))))"

text \<open>The first argument is the number of levels that are left: \<open>MAX_VALIDATION_DEPTH + 1\<close> at depth 0.\<close>

primrec validate_node :: "nat \<Rightarrow> Value \<Rightarrow> Value \<Rightarrow> Value \<Rightarrow> unit validation" where
  "validate_node 0 root_schema inst schema = vfail ValidationBudgetExceeded"
| "validate_node (Suc levels) root_schema inst schema =
     vthen visit
       (case schema of
          VBool allowed \<Rightarrow> ensure allowed
        | VObject schema_object \<Rightarrow>
            (case vget schema_object (lit ''$ref'') of
               Some reference_value \<Rightarrow>
                 vbind (vlift (ok_or InvalidThreadSchema (as_str reference_value))) (\<lambda>reference.
                 vbind (vlift (ok_or InvalidThreadSchema (resolve_local_reference root_schema reference))) (\<lambda>target.
                   validate_node levels root_schema inst target))
             | None \<Rightarrow> check_keywords (validate_node levels root_schema) inst schema_object)
        | _ \<Rightarrow> vfail InvalidThreadSchema)"

definition validate_instance_with_root :: "Value \<Rightarrow> Value \<Rightarrow> Value \<Rightarrow> ThreadContractError + unit" where
  "validate_instance_with_root inst subschema root_schema =
     fst (validate_node (MAX_VALIDATION_DEPTH + 1) root_schema inst subschema 0)"

definition validate_instance_against_schema :: "Value \<Rightarrow> Value \<Rightarrow> ThreadContractError + unit" where
  "validate_instance_against_schema inst schema = validate_instance_with_root inst schema schema"

section \<open>Evaluation\<close>

lemma validate_node_step:
  "0 < levels \<Longrightarrow> validate_node levels root_schema inst schema =
     vthen visit
       (case schema of
          VBool allowed \<Rightarrow> ensure allowed
        | VObject schema_object \<Rightarrow>
            (case vget schema_object (lit ''$ref'') of
               Some reference_value \<Rightarrow>
                 vbind (vlift (ok_or InvalidThreadSchema (as_str reference_value))) (\<lambda>reference.
                 vbind (vlift (ok_or InvalidThreadSchema (resolve_local_reference root_schema reference))) (\<lambda>target.
                   validate_node (levels - 1) root_schema inst target))
             | None \<Rightarrow> check_keywords (validate_node (levels - 1) root_schema) inst schema_object)
        | _ \<Rightarrow> vfail InvalidThreadSchema)"
  by (cases levels) (simp, simp only: validate_node.simps diff_Suc_1)

lemmas schema_eval =
  validate_instance_with_root_def validate_node_step MAX_VALIDATION_DEPTH_def MAX_VALIDATION_WORK_def visit_def vthen_def vbind_def
  vok_def vfail_def vlift_def ensure_def check_keywords_def validate_schema_keyword_shapes_def keyword_shapes_valid_def
  keyword_shape_def check_type_def check_enum_def check_required_def check_properties_def check_additional_def check_items_def
  check_branches_def check_all_of_def check_minimum_def check_min_length_def check_format_def on_keyword_def vget_def
  is_known_type_name_def known_type_names_def matches_single_type_def is_string_def is_boolean_def is_object_def is_array_def is_null_def
  is_schema_value_def resolve_local_reference_def pointer_token_def checked_add_def lit_def

end
