(* ===== verification/Schema_Meaning.thy ===== *)
theory Schema_Meaning
  imports Json_Schema
begin

text \<open>
  The meaning of the schemas, without an order of the checks and without limits, and the proof that
  the validator decides it whenever it comes to a decision: a value it accepts conforms to the
  schema, and a value it calls invalid does not.
\<close>

section \<open>Conformance\<close>

definition type_holds :: "Value \<Rightarrow> Value \<Rightarrow> bool" where
  "type_holds inst type_value \<longleftrightarrow> matches_type inst type_value = Inr True"

fun enum_holds :: "Value \<Rightarrow> Value \<Rightarrow> bool" where
  "enum_holds inst (VArray candidates) = (inst \<in> set candidates)"
| "enum_holds inst _ = False"

fun required_holds :: "Value \<Rightarrow> Value \<Rightarrow> bool" where
  "required_holds (VObject object) (VArray names) = (\<forall>name. VString name \<in> set names \<longrightarrow> vget object name \<noteq> None)"
| "required_holds (VObject object) _ = False"
| "required_holds _ _ = True"

definition minimum_holds :: "Value \<Rightarrow> Value \<Rightarrow> bool" where
  "minimum_holds inst minimum \<longleftrightarrow> (is_number inst \<longrightarrow> number_at_least inst minimum = Inr True)"

definition min_length_holds :: "Value \<Rightarrow> Value \<Rightarrow> bool" where
  "min_length_holds inst min_length \<longleftrightarrow>
     (\<forall>s n. inst = VString s \<longrightarrow> as_u64 min_length = Some n \<longrightarrow> unat n \<le> length s)"

definition format_holds :: "Value \<Rightarrow> Value \<Rightarrow> bool" where
  "format_holds inst format \<longleftrightarrow>
     (\<forall>f \<in> set integer_formats. format = VString f \<and> is_integer_instance inst \<longrightarrow> matches_integer_format inst f)"

text \<open>The assertions on the value itself.\<close>

definition holds_here :: "Value \<Rightarrow> fields \<Rightarrow> bool" where
  "holds_here inst schema \<longleftrightarrow>
     keyword_shape schema (lit ''type'') (type_holds inst) \<and>
     keyword_shape schema (lit ''enum'') (enum_holds inst) \<and>
     keyword_shape schema (lit ''required'') (required_holds inst) \<and>
     keyword_shape schema (lit ''minimum'') (minimum_holds inst) \<and>
     keyword_shape schema (lit ''minLength'') (min_length_holds inst) \<and>
     keyword_shape schema (lit ''format'') (format_holds inst)"

text \<open>The parts of a value that have to conform to a part of the schema.\<close>

definition properties_of :: "fields \<Rightarrow> fields" where
  "properties_of schema = (case vget schema (lit ''properties'') of Some (VObject properties) \<Rightarrow> properties | _ \<Rightarrow> [])"

definition branches_of :: "fields \<Rightarrow> rstr \<Rightarrow> Value list option" where
  "branches_of schema keyword = Option.bind (vget schema keyword) as_array"

definition property_part :: "fields \<Rightarrow> fields \<Rightarrow> Value \<Rightarrow> Value \<Rightarrow> bool" where
  "property_part object schema v t \<longleftrightarrow>
     (\<exists>name. (name, t) \<in> set (properties_of schema) \<and> vget object name = Some v) \<or>
     (\<exists>name. (name, v) \<in> set object \<and> vget (properties_of schema) name = None \<and>
        vget schema (lit ''additionalProperties'') = Some t)"

definition item_part :: "Value list \<Rightarrow> fields \<Rightarrow> Value \<Rightarrow> Value \<Rightarrow> bool" where
  "item_part array schema v t \<longleftrightarrow>
     (v \<in> set array \<and> vget schema (lit ''items'') = Some t \<and> \<not> is_array t) \<or>
     (\<exists>schemas. vget schema (lit ''items'') = Some (VArray schemas) \<and> (v, t) \<in> set (zip array schemas))"

definition obliged :: "Value \<Rightarrow> fields \<Rightarrow> Value \<Rightarrow> Value \<Rightarrow> bool" where
  "obliged inst schema v t \<longleftrightarrow>
     (\<exists>object. inst = VObject object \<and> property_part object schema v t) \<or>
     (\<exists>array. inst = VArray array \<and> item_part array schema v t) \<or>
     (\<exists>branches. branches_of schema (lit ''allOf'') = Some branches \<and> v = inst \<and> t \<in> set branches)"

text \<open>The verdict over the branches of \<open>oneOf\<close> and \<open>anyOf\<close>, one truth value for each.\<close>

inductive conforms :: "Value \<Rightarrow> Value \<Rightarrow> Value \<Rightarrow> bool" and violates :: "Value \<Rightarrow> Value \<Rightarrow> Value \<Rightarrow> bool"
  for root_schema :: Value where
  conforms_true: "conforms root_schema inst (VBool True)"
| conforms_ref: "vget schema (lit ''$ref'') = Some (VString reference) \<Longrightarrow>
    resolve_local_reference root_schema reference = Some target \<Longrightarrow> conforms root_schema inst target \<Longrightarrow>
    conforms root_schema inst (VObject schema)"
| conforms_keywords: "vget schema (lit ''$ref'') = None \<Longrightarrow> keyword_shapes_valid schema \<Longrightarrow> holds_here inst schema \<Longrightarrow>
    (\<And>v t. obliged inst schema v t \<Longrightarrow> conforms root_schema v t) \<Longrightarrow>
    (\<And>bs. branches_of schema (lit ''oneOf'') = Some bs \<Longrightarrow>
       \<exists>ms. length ms = length bs \<and> length (filter id ms) = 1 \<and>
         (\<forall>j < length bs. (ms ! j \<and> conforms root_schema inst (bs ! j)) \<or> (\<not> ms ! j \<and> violates root_schema inst (bs ! j)))) \<Longrightarrow>
    (\<And>bs. branches_of schema (lit ''anyOf'') = Some bs \<Longrightarrow> \<exists>b \<in> set bs. conforms root_schema inst b) \<Longrightarrow>
    conforms root_schema inst (VObject schema)"
| violates_false: "violates root_schema inst (VBool False)"
| violates_ref: "vget schema (lit ''$ref'') = Some (VString reference) \<Longrightarrow>
    resolve_local_reference root_schema reference = Some target \<Longrightarrow> violates root_schema inst target \<Longrightarrow>
    violates root_schema inst (VObject schema)"
| violates_here: "vget schema (lit ''$ref'') = None \<Longrightarrow> \<not> holds_here inst schema \<Longrightarrow> violates root_schema inst (VObject schema)"
| violates_part: "vget schema (lit ''$ref'') = None \<Longrightarrow> obliged inst schema v t \<Longrightarrow> violates root_schema v t \<Longrightarrow>
    violates root_schema inst (VObject schema)"
| violates_one_of: "vget schema (lit ''$ref'') = None \<Longrightarrow> branches_of schema (lit ''oneOf'') = Some bs \<Longrightarrow>
    length ms = length bs \<Longrightarrow> length (filter id ms) \<noteq> 1 \<Longrightarrow>
    (\<forall>j < length bs. (ms ! j \<and> conforms root_schema inst (bs ! j)) \<or> (\<not> ms ! j \<and> violates root_schema inst (bs ! j))) \<Longrightarrow>
    violates root_schema inst (VObject schema)"
| violates_any_of: "vget schema (lit ''$ref'') = None \<Longrightarrow> branches_of schema (lit ''anyOf'') = Some bs \<Longrightarrow>
    (\<forall>b \<in> set bs. violates root_schema inst b) \<Longrightarrow> violates root_schema inst (VObject schema)"

inductive_cases conforms_boolE: "conforms root_schema inst (VBool b)"
inductive_cases conforms_objectE: "conforms root_schema inst (VObject schema)"
inductive_cases violates_boolE: "violates root_schema inst (VBool b)"
inductive_cases violates_objectE: "violates root_schema inst (VObject schema)"

text \<open>Two verdicts over the same branches agree when no branch is judged in both ways.\<close>

lemma verdict_unique:
  assumes "length ms = length bs" "length ms' = length bs"
    "\<forall>j < length bs. (ms ! j \<and> C (bs ! j)) \<or> (\<not> ms ! j \<and> V (bs ! j))"
    "\<forall>j < length bs. (ms' ! j \<and> C (bs ! j) \<and> \<not> V (bs ! j)) \<or> (\<not> ms' ! j \<and> V (bs ! j) \<and> \<not> C (bs ! j))"
  shows "ms = ms'"
  using assms by (intro nth_equalityI) (simp, metis)

lemma conforms_not_violates:
  "(conforms root_schema inst schema \<longrightarrow> \<not> violates root_schema inst schema) \<and>
   (violates root_schema inst' schema' \<longrightarrow> \<not> conforms root_schema inst' schema')"
proof (induction rule: conforms_violates.induct)
  case (conforms_keywords schema inst)
  show ?case
  proof
    assume "violates root_schema inst (VObject schema)"
    then show False
    proof (rule violates_objectE)
      fix bs ms
      assume bs: "branches_of schema (lit ''oneOf'') = Some bs" and ms: "length ms = length bs" "length (filter id ms) \<noteq> Suc 0"
        "\<forall>j<length bs. (ms ! j \<and> conforms root_schema inst (bs ! j)) \<or> (\<not> ms ! j \<and> violates root_schema inst (bs ! j))"
      show False using conforms_keywords.IH(3)[OF bs] verdict_unique[OF ms(1) _ ms(3)] ms(2) by fastforce
    qed (use conforms_keywords.hyps conforms_keywords.IH in \<open>blast | simp\<close>)+
  qed
next
  case (violates_one_of schema bs ms inst)
  show ?case
  proof
    assume "conforms root_schema inst (VObject schema)"
    then show False
    proof (rule conforms_objectE)
      assume "\<And>bs. branches_of schema (lit ''oneOf'') = Some bs \<Longrightarrow>
        \<exists>ms. length ms = length bs \<and> length (filter id ms) = Suc 0 \<and>
          (\<forall>j<length bs. ms ! j \<and> conforms root_schema inst (bs ! j) \<or> \<not> ms ! j \<and> violates root_schema inst (bs ! j))"
      then obtain ms' where ms': "length ms' = length bs" "length (filter id ms') = Suc 0"
        "\<forall>j<length bs. ms' ! j \<and> conforms root_schema inst (bs ! j) \<or> \<not> ms' ! j \<and> violates root_schema inst (bs ! j)"
        using violates_one_of.hyps(2) by blast
      have "ms' = ms" using ms'(1) violates_one_of.hyps(3) ms'(3) violates_one_of.IH by (rule verdict_unique)
      then show False using violates_one_of.hyps(4) ms'(2) by simp
    qed (use violates_one_of.hyps(1) in simp)
  qed
next
  case (violates_any_of schema bs inst)
  show ?case
  proof
    assume "conforms root_schema inst (VObject schema)"
    then show False
      by (rule conforms_objectE) (use violates_any_of.hyps violates_any_of.IH in \<open>simp, blast\<close>)
  qed
qed (auto elim: conforms_boolE conforms_objectE violates_boolE violates_objectE)

section \<open>Judgements\<close>

text \<open>What it means when a check accepts and when it reports a mismatch.\<close>

definition judges :: "unit validation \<Rightarrow> bool \<Rightarrow> bool \<Rightarrow> bool" where
  "judges m A B \<longleftrightarrow> (\<forall>work work'. (m work = (Inr (), work') \<longrightarrow> A) \<and> (m work = (Inl InvalidItem, work') \<longrightarrow> B))"

lemma judges_weaken: "judges m A B \<Longrightarrow> (A \<Longrightarrow> A') \<Longrightarrow> (B \<Longrightarrow> B') \<Longrightarrow> judges m A' B'"
  by (auto simp: judges_def)

lemma judges_ok [simp]: "judges (vok ()) A B \<longleftrightarrow> A"
  by (simp add: judges_def vok_def)

lemma judges_fail [simp]: "judges (vfail e) A B \<longleftrightarrow> (e = InvalidItem \<longrightarrow> B)"
  by (simp add: judges_def vfail_def)

lemma judges_ensure [simp]: "judges (ensure c) A B \<longleftrightarrow> (c \<longrightarrow> A) \<and> (\<not> c \<longrightarrow> B)"
  by (simp add: ensure_def)

lemma judges_vthen:
  assumes "judges m A B" "A \<Longrightarrow> judges k A' B'"
  shows "judges (vthen m k) (A \<and> A') (B \<or> (A \<and> B'))"
  using assms unfolding judges_def vthen_def vbind_def by (auto split: prod.splits sum.splits)

lemma judges_vlift [simp]: "judges (vbind (vlift r) f) A B \<longleftrightarrow> (r = Inl InvalidItem \<longrightarrow> B) \<and> (\<forall>x. r = Inr x \<longrightarrow> judges (f x) A B)"
  by (cases r) (auto simp: judges_def vbind_def vlift_def)

lemma judges_each:
  assumes "\<And>x. x \<in> set xs \<Longrightarrow> judges (f x) (A x) (B x)"
  shows "judges (each f xs) (\<forall>x \<in> set xs. A x) (\<exists>x \<in> set xs. B x)"
  using assms
proof (induction xs)
  case (Cons x xs)
  then have "judges (each f (x # xs)) (A x \<and> (\<forall>x \<in> set xs. A x)) (B x \<or> (A x \<and> (\<exists>x \<in> set xs. B x)))"
    unfolding each.simps by (intro judges_vthen) auto
  then show ?case by (rule judges_weaken) auto
qed simp

lemma count_matches_verdict:
  assumes "\<And>x. judges (f x) (A x) (B x)" "count_matches f xs k work = (r, work')"
  shows "r \<noteq> Inl InvalidItem \<and> (\<forall>n. r = Inr n \<longrightarrow> (\<exists>ms. list_all2 (\<lambda>m x. (m \<and> A x) \<or> (\<not> m \<and> B x)) ms xs \<and>
    n = k + length (filter id ms)))"
  using assms(2)
proof (induction xs arbitrary: k work)
  case (Cons x xs)
  obtain r0 w0 where r0: "f x work = (r0, w0)" by fastforce
  have verdict: "(r0 = Inr () \<longrightarrow> A x) \<and> (r0 = Inl InvalidItem \<longrightarrow> B x)" using assms(1)[of x] r0 by (auto simp: judges_def)
  show ?case
  proof (cases "r0 = Inr () \<or> r0 = Inl InvalidItem")
    case True
    define m where "m \<longleftrightarrow> r0 = Inr ()"
    have step: "count_matches f xs (k + (if m then 1 else 0)) w0 = (r, work')"
      using Cons.prems r0 True by (auto simp: m_def)
    have "\<exists>ms'. list_all2 (\<lambda>m x. (m \<and> A x) \<or> (\<not> m \<and> B x)) ms' (x # xs) \<and> n = k + length (filter id ms')"
      if rn: "r = Inr n" for n
    proof -
      obtain ms where "list_all2 (\<lambda>m x. (m \<and> A x) \<or> (\<not> m \<and> B x)) ms xs" "n = k + (if m then 1 else 0) + length (filter id ms)"
        using Cons.IH[OF step] rn by blast
      then show ?thesis using verdict True by (intro exI[of _ "m # ms"]) (auto simp: m_def)
    qed
    then show ?thesis using Cons.IH[OF step] by blast
  next
    case False
    then show ?thesis using Cons.prems r0 by (cases r0) auto
  qed
qed (auto simp: vok_def)

lemma judges_count:
  assumes "\<And>x. judges (f x) (A x) (B x)"
    "\<And>ms. list_all2 (\<lambda>m x. (m \<and> A x) \<or> (\<not> m \<and> B x)) ms xs \<Longrightarrow> judges (g (length (filter id ms))) P Q"
  shows "judges (vbind (count_matches f xs 0) g) P Q"
proof -
  have "(r' = Inr () \<longrightarrow> P) \<and> (r' = Inl InvalidItem \<longrightarrow> Q)" if run: "vbind (count_matches f xs 0) g work = (r', work')" for work r' work'
  proof -
    obtain r w where r: "count_matches f xs 0 work = (r, w)" by fastforce
    note verdict = count_matches_verdict[of f A B, OF assms(1) r]
    show ?thesis
    proof (cases r)
      case (Inl e)
      then show ?thesis using run r verdict by (auto simp: vbind_def)
    next
      case (Inr n)
      then obtain ms where "list_all2 (\<lambda>m x. (m \<and> A x) \<or> (\<not> m \<and> B x)) ms xs" "n = length (filter id ms)" using verdict by auto
      then have "judges (g n) P Q" using assms(2) by blast
      then show ?thesis using run r Inr by (auto simp: vbind_def judges_def)
    qed
  qed
  then show ?thesis by (auto simp: judges_def)
qed

lemma judges_branches:
  assumes "\<And>t. judges (child inst t) (C t) (V t)" "keyword_shape schema keyword (array_shape is_schema_value)"
  shows "judges (check_branches child inst schema keyword enough)
    (\<forall>bs. branches_of schema keyword = Some bs \<longrightarrow>
       (\<exists>ms. list_all2 (\<lambda>m b. (m \<and> C b) \<or> (\<not> m \<and> V b)) ms bs \<and> enough (length (filter id ms))))
    (\<exists>bs ms. branches_of schema keyword = Some bs \<and> list_all2 (\<lambda>m b. (m \<and> C b) \<or> (\<not> m \<and> V b)) ms bs \<and>
       \<not> enough (length (filter id ms)))"
proof (cases "vget schema keyword")
  case None
  then show ?thesis by (simp add: check_branches_def on_keyword_def branches_of_def)
next
  case (Some v)
  with assms(2) obtain bs where bs: "v = VArray bs" by (cases v) (auto simp: keyword_shape_def)
  have "judges (vbind (count_matches (child inst) bs 0) (\<lambda>matches. ensure (enough matches)))
    (\<exists>ms. list_all2 (\<lambda>m b. (m \<and> C b) \<or> (\<not> m \<and> V b)) ms bs \<and> enough (length (filter id ms)))
    (\<exists>ms. list_all2 (\<lambda>m b. (m \<and> C b) \<or> (\<not> m \<and> V b)) ms bs \<and> \<not> enough (length (filter id ms)))"
    using assms(1) by (rule judges_count) auto
  then show ?thesis by (simp add: check_branches_def on_keyword_def branches_of_def Some bs)
qed

section \<open>The checks\<close>

lemma judges_iff: "judges m A (\<not> A) \<Longrightarrow> (A \<longleftrightarrow> A') \<Longrightarrow> judges m A' (\<not> A')"
  by simp

lemma matches_type_result: "matches_type inst t \<noteq> Inl InvalidItem"
proof -
  have single: "matches_single_type inst n \<noteq> Inl InvalidItem" for n by (simp add: matches_single_type_def)
  have "matches_any_type inst ts m \<noteq> Inl InvalidItem" for ts m
    by (induction ts arbitrary: m) (auto simp: try_res_def ok_or_def single split: sum.split option.split)
  then show ?thesis by (cases t) (simp_all add: single)
qed

lemma judges_type: "judges (check_type inst schema) (keyword_shape schema (lit ''type'') (type_holds inst))
    (\<not> keyword_shape schema (lit ''type'') (type_holds inst))"
  by (simp add: check_type_def on_keyword_def keyword_shape_def type_holds_def matches_type_result split: option.split)

lemma judges_enum: "judges (check_enum inst schema) (keyword_shape schema (lit ''enum'') (enum_holds inst))
    (\<not> keyword_shape schema (lit ''enum'') (enum_holds inst))"
proof (cases "vget schema (lit ''enum'')")
  case (Some v)
  then show ?thesis by (cases v) (simp_all add: check_enum_def on_keyword_def keyword_shape_def)
qed (simp add: check_enum_def on_keyword_def keyword_shape_def)

lemma is_string_iff: "is_string v \<longleftrightarrow> (\<exists>s. v = VString s)"
  by (cases v) (simp_all add: is_string_def)

lemma judges_required:
  assumes "keyword_shape schema (lit ''required'') (array_shape is_string)"
  shows "judges (check_required object schema) (keyword_shape schema (lit ''required'') (required_holds (VObject object)))
    (\<not> keyword_shape schema (lit ''required'') (required_holds (VObject object)))"
proof (cases "vget schema (lit ''required'')")
  case (Some v)
  with assms obtain names where v: "v = VArray names" "list_all is_string names" by (cases v) (auto simp: keyword_shape_def)
  have "judges (each (\<lambda>name. vbind (vlift (ok_or InvalidThreadSchema (as_str name))) (\<lambda>name. ensure (vget object name \<noteq> None))) names)
      (\<forall>name \<in> set names. \<forall>s. name = VString s \<longrightarrow> vget object s \<noteq> None)
      (\<exists>name \<in> set names. \<exists>s. name = VString s \<and> vget object s = None)"
  proof (rule judges_each)
    fix name assume "name \<in> set names"
    then obtain s where "name = VString s" using v(2) by (auto simp: list_all_iff is_string_iff)
    then show "judges (vbind (vlift (ok_or InvalidThreadSchema (as_str name))) (\<lambda>name. ensure (vget object name \<noteq> None)))
      (\<forall>s. name = VString s \<longrightarrow> vget object s \<noteq> None) (\<exists>s. name = VString s \<and> vget object s = None)" by simp
  qed
  then show ?thesis
    by (simp add: check_required_def on_keyword_def keyword_shape_def Some v) (erule judges_weaken, auto)
qed (simp add: check_required_def on_keyword_def keyword_shape_def)

lemma judges_minimum: "judges (check_minimum inst schema) (keyword_shape schema (lit ''minimum'') (minimum_holds inst))
    (\<not> keyword_shape schema (lit ''minimum'') (minimum_holds inst))"
  by (auto simp: check_minimum_def on_keyword_def keyword_shape_def minimum_holds_def number_at_least_def is_number_def
      try_res_def ok_or_def split: option.split)

lemma judges_min_length: "judges (check_min_length inst schema) (keyword_shape schema (lit ''minLength'') (min_length_holds inst))
    (\<not> keyword_shape schema (lit ''minLength'') (min_length_holds inst))"
  by (cases inst) (auto simp: check_min_length_def on_keyword_def keyword_shape_def min_length_holds_def ok_or_def split: option.split)

lemma judges_format: "judges (check_format inst schema) (keyword_shape schema (lit ''format'') (format_holds inst))
    (\<not> keyword_shape schema (lit ''format'') (format_holds inst))"
proof (cases "vget schema (lit ''format'')")
  case (Some v)
  then show ?thesis by (cases v) (auto simp: check_format_def on_keyword_def keyword_shape_def format_holds_def)
qed (simp add: check_format_def on_keyword_def keyword_shape_def)

lemma judges_additional:
  assumes "judges (child v t) (C v t) (V v t)" "is_schema_value t" "\<And>b. t = VBool b \<Longrightarrow> (C v t \<longleftrightarrow> b) \<and> (V v t \<longleftrightarrow> \<not> b)"
  shows "judges (check_additional child t v) (C v t) (V v t)"
  using assms by (cases t) (simp_all add: check_additional_def is_schema_value_def is_boolean_def is_object_def)

lemma judges_properties:
  assumes child: "\<And>v t. judges (child v t) (C v t) (V v t)"
    and bool: "\<And>v b. (C v (VBool b) \<longleftrightarrow> b) \<and> (V v (VBool b) \<longleftrightarrow> \<not> b)"
    and shape: "keyword_shape schema (lit ''properties'') properties_shape"
      "keyword_shape schema (lit ''additionalProperties'') is_schema_value"
  shows "judges (check_properties child object schema) (\<forall>v t. property_part object schema v t \<longrightarrow> C v t)
    (\<exists>v t. property_part object schema v t \<and> V v t)"
proof -
  let ?ps = "properties_of schema"
  define listed where "listed = each (\<lambda>(name, t). case vget object name of None \<Rightarrow> vok () | Some v \<Rightarrow> child v t) ?ps"
  define others where "others = on_keyword schema (lit ''additionalProperties'') (\<lambda>t.
    each (\<lambda>(name, v). if vget ?ps name \<noteq> None then vok () else check_additional child t v) object)"
  have L: "judges listed (\<forall>(name, t) \<in> set ?ps. \<forall>v. vget object name = Some v \<longrightarrow> C v t)
      (\<exists>(name, t) \<in> set ?ps. \<exists>v. vget object name = Some v \<and> V v t)"
    unfolding listed_def by (rule judges_each) (auto simp: child split: option.split)
  have R: "judges others
      (\<forall>t. vget schema (lit ''additionalProperties'') = Some t \<longrightarrow> (\<forall>(name, v) \<in> set object. vget ?ps name = None \<longrightarrow> C v t))
      (\<exists>t. vget schema (lit ''additionalProperties'') = Some t \<and> (\<exists>(name, v) \<in> set object. vget ?ps name = None \<and> V v t))"
  proof (cases "vget schema (lit ''additionalProperties'')")
    case (Some t)
    then have "is_schema_value t" using shape(2) by (simp add: keyword_shape_def)
    then have add: "judges (check_additional child t v) (C v t) (V v t)" for v
      using child bool by (intro judges_additional) auto
    have "judges (each (\<lambda>(name, v). if vget ?ps name \<noteq> None then vok () else check_additional child t v) object)
      (\<forall>(name, v) \<in> set object. vget ?ps name = None \<longrightarrow> C v t) (\<exists>(name, v) \<in> set object. vget ?ps name = None \<and> V v t)"
      by (rule judges_each) (auto simp: add)
    then show ?thesis by (simp add: others_def on_keyword_def Some)
  qed (simp add: others_def on_keyword_def)
  have "check_properties child object schema = vthen listed others"
  proof (cases "vget schema (lit ''properties'')")
    case None
    then show ?thesis
      by (simp add: check_properties_def listed_def others_def properties_of_def vthen_def vbind_def vok_def vget_def fun_eq_iff)
  next
    case (Some v)
    with shape(1) obtain ps where "v = VObject ps" by (cases v) (auto simp: keyword_shape_def)
    then show ?thesis using Some
      by (simp add: check_properties_def listed_def others_def properties_of_def vbind_def vlift_def fun_eq_iff)
  qed
  then show ?thesis
    unfolding property_part_def by (simp only:) (rule judges_weaken[OF judges_vthen[OF L R]]; blast)
qed

lemma judges_items:
  assumes child: "\<And>v t. judges (child v t) (C v t) (V v t)" and shape: "keyword_shape schema (lit ''items'') items_shape"
  shows "judges (check_items child array schema) (\<forall>v t. item_part array schema v t \<longrightarrow> C v t)
    (\<exists>v t. item_part array schema v t \<and> V v t)"
proof (cases "vget schema (lit ''items'')")
  case None
  then show ?thesis by (simp add: check_items_def on_keyword_def item_part_def)
next
  case (Some items)
  have tuple: "judges (each (\<lambda>(v, t). child v t) (zip array schemas))
      (\<forall>(v, t) \<in> set (zip array schemas). C v t) (\<exists>(v, t) \<in> set (zip array schemas). V v t)" for schemas
    by (rule judges_each) (auto simp: child)
  have all: "judges (each (\<lambda>v. child v items) array) (\<forall>v \<in> set array. C v items) (\<exists>v \<in> set array. V v items)"
    by (rule judges_each) (rule child)
  from shape Some consider schemas where "items = VArray schemas" | b where "items = VBool b" | entries where "items = VObject entries"
    by (cases items) (auto simp: keyword_shape_def)
  then show ?thesis
  proof cases
    case (1 schemas)
    with Some tuple[of schemas] show ?thesis
      by (simp add: check_items_def on_keyword_def item_part_def is_array_def) (erule judges_weaken, auto)
  next
    case (2 b)
    with Some all show ?thesis by (simp add: check_items_def on_keyword_def item_part_def is_array_def Ball_def Bex_def)
  next
    case (3 entries)
    with Some all show ?thesis by (simp add: check_items_def on_keyword_def item_part_def is_array_def Ball_def Bex_def)
  qed
qed

lemma judges_all_of:
  assumes child: "\<And>v t. judges (child v t) (C v t) (V v t)"
    and shape: "keyword_shape schema (lit ''allOf'') (array_shape is_schema_value)"
  shows "judges (check_all_of child inst schema) (\<forall>bs. branches_of schema (lit ''allOf'') = Some bs \<longrightarrow> (\<forall>t \<in> set bs. C inst t))
    (\<exists>bs. branches_of schema (lit ''allOf'') = Some bs \<and> (\<exists>t \<in> set bs. V inst t))"
proof (cases "vget schema (lit ''allOf'')")
  case None
  then show ?thesis by (simp add: check_all_of_def on_keyword_def branches_of_def)
next
  case (Some v)
  with shape obtain bs where "v = VArray bs" by (cases v) (auto simp: keyword_shape_def)
  moreover have "judges (each (child inst) bs) (\<forall>t \<in> set bs. C inst t) (\<exists>t \<in> set bs. V inst t)"
    by (rule judges_each) (rule child)
  ultimately show ?thesis using Some by (simp add: check_all_of_def on_keyword_def branches_of_def)
qed

text \<open>All assertions on a node.\<close>

definition one_holds :: "Value \<Rightarrow> Value \<Rightarrow> fields \<Rightarrow> rstr \<Rightarrow> (nat \<Rightarrow> bool) \<Rightarrow> Value list \<Rightarrow> bool list \<Rightarrow> bool" where
  "one_holds root_schema inst schema keyword enough bs ms \<longleftrightarrow> branches_of schema keyword = Some bs \<and>
     list_all2 (\<lambda>m b. (m \<and> conforms root_schema inst b) \<or> (\<not> m \<and> violates root_schema inst b)) ms bs \<and> enough (length (filter id ms))"

lemma keywords_conform:
  assumes "vget schema (lit ''$ref'') = None" "keyword_shapes_valid schema" "holds_here inst schema"
    "\<And>v t. obliged inst schema v t \<Longrightarrow> conforms root_schema v t"
    "\<And>bs. branches_of schema (lit ''oneOf'') = Some bs \<Longrightarrow> \<exists>ms. one_holds root_schema inst schema (lit ''oneOf'') (\<lambda>n. n = 1) bs ms"
    "\<And>bs. branches_of schema (lit ''anyOf'') = Some bs \<Longrightarrow> \<exists>ms. one_holds root_schema inst schema (lit ''anyOf'') (\<lambda>n. n \<noteq> 0) bs ms"
  shows "conforms root_schema inst (VObject schema)"
proof (rule conforms_keywords[OF assms(1-4)])
  fix bs assume "branches_of schema (lit ''oneOf'') = Some bs"
  from assms(5)[OF this] show "\<exists>ms. length ms = length bs \<and> length (filter id ms) = 1 \<and>
    (\<forall>j<length bs. ms ! j \<and> conforms root_schema inst (bs ! j) \<or> \<not> ms ! j \<and> violates root_schema inst (bs ! j))"
    by (auto simp: one_holds_def list_all2_conv_all_nth)
next
  fix bs assume "branches_of schema (lit ''anyOf'') = Some bs"
  from assms(6)[OF this] obtain ms where ms: "length (filter id ms) \<noteq> 0"
    "list_all2 (\<lambda>m b. (m \<and> conforms root_schema inst b) \<or> (\<not> m \<and> violates root_schema inst b)) ms bs" by (auto simp: one_holds_def)
  then obtain j where "j < length ms" "ms ! j" by (auto simp: filter_empty_conv in_set_conv_nth)
  then show "\<exists>b\<in>set bs. conforms root_schema inst b"
    using ms(2) by (auto simp: list_all2_conv_all_nth intro!: bexI[of _ "bs ! j"])
qed

lemma branches_violate:
  assumes "vget schema (lit ''$ref'') = None"
  shows "one_holds root_schema inst schema (lit ''oneOf'') (\<lambda>n. n \<noteq> 1) bs ms \<Longrightarrow> violates root_schema inst (VObject schema)"
    "one_holds root_schema inst schema (lit ''anyOf'') (\<lambda>n. n = 0) bs ms \<Longrightarrow> violates root_schema inst (VObject schema)"
proof -
  assume "one_holds root_schema inst schema (lit ''oneOf'') (\<lambda>n. n \<noteq> 1) bs ms"
  then show "violates root_schema inst (VObject schema)"
    by (intro violates_one_of[OF assms, of bs ms]) (auto simp: one_holds_def list_all2_conv_all_nth)
next
  assume "one_holds root_schema inst schema (lit ''anyOf'') (\<lambda>n. n = 0) bs ms"
  then have bs: "branches_of schema (lit ''anyOf'') = Some bs" "\<forall>m \<in> set ms. \<not> m"
    "list_all2 (\<lambda>m b. (m \<and> conforms root_schema inst b) \<or> (\<not> m \<and> violates root_schema inst b)) ms bs"
    by (auto simp: one_holds_def filter_empty_conv)
  have "\<forall>b \<in> set bs. violates root_schema inst b" using bs(3,2) by (induction rule: list_all2_induct) auto
  with assms bs(1) show "violates root_schema inst (VObject schema)" by (rule violates_any_of)
qed

lemma judges_keywords:
  assumes child: "\<And>v t. judges (child v t) (conforms root_schema v t) (violates root_schema v t)"
    and ref: "vget schema (lit ''$ref'') = None"
  shows "judges (check_keywords child inst schema) (conforms root_schema inst (VObject schema)) (violates root_schema inst (VObject schema))"
proof (cases "keyword_shapes_valid schema")
  case False
  then show ?thesis
    by (simp add: check_keywords_def validate_schema_keyword_shapes_def vthen_def)
next
  case True
  then have shapes: "keyword_shape schema (lit ''required'') (array_shape is_string)"
    "keyword_shape schema (lit ''properties'') properties_shape" "keyword_shape schema (lit ''additionalProperties'') is_schema_value"
    "keyword_shape schema (lit ''items'') items_shape" "keyword_shape schema (lit ''oneOf'') (array_shape is_schema_value)"
    "keyword_shape schema (lit ''anyOf'') (array_shape is_schema_value)" "keyword_shape schema (lit ''allOf'') (array_shape is_schema_value)"
    by (simp_all add: keyword_shapes_valid_def)
  have bool: "(conforms root_schema v (VBool b) \<longleftrightarrow> b) \<and> (violates root_schema v (VBool b) \<longleftrightarrow> \<not> b)" for v b
    by (cases b) (auto intro: conforms_true violates_false elim: conforms_boolE violates_boolE)
  let ?R = "keyword_shape schema (lit ''required'') (required_holds inst)"
  have object: "judges (case as_object inst of None \<Rightarrow> vok () | Some object \<Rightarrow>
      vthen (check_required object schema) (check_properties child object schema))
    (?R \<and> (\<forall>v t object. inst = VObject object \<longrightarrow> property_part object schema v t \<longrightarrow> conforms root_schema v t))
    (\<not> ?R \<or> (\<exists>v t object. inst = VObject object \<and> property_part object schema v t \<and> violates root_schema v t))"
  proof (cases inst)
    case (VObject object)
    show ?thesis
      by (simp add: VObject)
        (rule judges_weaken[OF judges_vthen[OF judges_required[OF shapes(1)] judges_properties[OF child bool shapes(2,3)]]]; blast)
  qed (auto simp: keyword_shape_def split: option.split)
  have array: "judges (case as_array inst of None \<Rightarrow> vok () | Some array \<Rightarrow> check_items child array schema)
    (\<forall>v t array. inst = VArray array \<longrightarrow> item_part array schema v t \<longrightarrow> conforms root_schema v t)
    (\<exists>v t array. inst = VArray array \<and> item_part array schema v t \<and> violates root_schema v t)"
    by (cases inst) (simp_all add: judges_items[OF child shapes(4)])
  have start: "judges (vlift (validate_schema_keyword_shapes schema)) True False"
    using True by (simp add: judges_def vlift_def validate_schema_keyword_shapes_def)
  note chain = judges_vthen[OF start judges_vthen[OF judges_type judges_vthen[OF judges_enum judges_vthen[OF object
    judges_vthen[OF array judges_vthen[OF judges_branches[OF child shapes(5)] judges_vthen[OF judges_branches[OF child shapes(6)]
    judges_vthen[OF judges_all_of[OF child shapes(7)] judges_vthen[OF judges_minimum judges_vthen[OF judges_min_length judges_format]]]]]]]]]]
  show ?thesis
    unfolding check_keywords_def
  proof (rule judges_weaken[OF chain], goal_cases)
    case 1
    then show ?case by (intro keywords_conform[OF ref True]) (auto simp: holds_here_def obliged_def one_holds_def)
  next
    case 2
    then show ?case
      by (elim disjE conjE exE)
        (auto simp: holds_here_def obliged_def one_holds_def intro: violates_here[OF ref] violates_part[OF ref] branches_violate[OF ref])
  qed
qed

lemma visit_result: "judges k A B \<Longrightarrow> judges (vthen visit k) A B"
  by (auto simp: judges_def vthen_def vbind_def visit_def split: option.splits if_splits)

lemma judges_node:
  "judges (validate_node levels root_schema inst schema) (conforms root_schema inst schema) (violates root_schema inst schema)"
proof (induction levels arbitrary: inst schema)
  case (Suc levels)
  show ?case
  proof (cases schema)
    case (VBool b)
    then show ?thesis by (cases b) (simp_all add: visit_result conforms_true violates_false)
  next
    case (VObject entries)
    show ?thesis
    proof (cases "vget entries (lit ''$ref'')")
      case None
      then show ?thesis using judges_keywords[OF Suc None] by (simp add: VObject visit_result)
    next
      case (Some v)
      have "judges (validate_node levels root_schema inst target) (conforms root_schema inst (VObject entries))
          (violates root_schema inst (VObject entries))"
        if "v = VString reference" "resolve_local_reference root_schema reference = Some target" for reference target
        using Suc[of inst target] conforms_ref[OF _ that(2), of entries inst] violates_ref[OF _ that(2), of entries inst] Some that(1)
        by (auto intro: judges_weaken)
      then show ?thesis
        using Some by (cases v) (auto simp: VObject ok_or_def intro!: visit_result split: option.splits)
    qed
  qed (auto intro!: visit_result)
qed simp

section \<open>Properties\<close>

text \<open>
  C13. The schema validator decides the meaning of the schema: within its limits of depth and work, a
  value it accepts conforms to the schema, references, combinations and additional properties
  included, and a value it reports as invalid does not conform.
\<close>

theorem validation_decides_schema:
  "(validate_instance_with_root inst schema root_schema = Inr () \<longrightarrow> conforms root_schema inst schema) \<and>
   (validate_instance_with_root inst schema root_schema = Inl InvalidItem \<longrightarrow> \<not> conforms root_schema inst schema)"
  using judges_node[of "MAX_VALIDATION_DEPTH + 1" root_schema inst schema] conforms_not_violates[of root_schema]
  unfolding judges_def validate_instance_with_root_def by (metis prod.collapse)

definition sample_schema :: Value where
  "sample_schema = VObject
     [(lit ''properties'', VObject [(lit ''id'', VObject [(lit ''$ref'', VString (lit ''#/properties/name''))]),
        (lit ''name'', VObject [(lit ''type'', VString (lit ''string''))])]),
      (lit ''required'', VArray [VString (lit ''id'')])]"

theorem validation_decides_schema_witness:
  "conforms sample_schema (VObject [(lit ''id'', VString [97])]) sample_schema \<and>
   \<not> conforms sample_schema (VObject [(lit ''id'', VNull)]) sample_schema"
proof -
  have "validate_instance_with_root (VObject [(lit ''id'', VString [97])]) sample_schema sample_schema = Inr ()"
    by (simp add: schema_eval sample_schema_def)
  moreover have "validate_instance_with_root (VObject [(lit ''id'', VNull)]) sample_schema sample_schema = Inl InvalidItem"
    by (simp add: schema_eval sample_schema_def)
  ultimately show ?thesis using validation_decides_schema by blast
qed

end
