(* ===== verification/Thread_Contract.thy ===== *)
theory Thread_Contract
  imports Json_Schema Rollout Thread_Graph "HOL-Library.AList" "HOL-Library.Product_Lexorder"
begin

text \<open>
  The \<open>thread/list\<close> cycle (\<open>src/thread_contract.rs\<close>): requests, the validation of the listed threads,
  the accumulator of the pages of one cycle, the topology of the selected threads and the selection
  of those that are shown. The vendored response schema is the argument \<open>schema\<close>: the outcome of
  parsing it.
\<close>

section \<open>Requests\<close>

definition MAX_CURSOR_SCALARS :: nat where "MAX_CURSOR_SCALARS = 1024"
definition MAX_THREAD_PAGES :: u64 where "MAX_THREAD_PAGES = 32"
definition MAX_UNIQUE_THREAD_IDS :: nat where "MAX_UNIQUE_THREAD_IDS = 1024"

definition SOURCE_KINDS :: "rstr list" where
  "SOURCE_KINDS = [lit ''cli'', lit ''vscode'', lit ''exec'', lit ''appServer'', lit ''subAgent'', lit ''subAgentReview'',
     lit ''subAgentCompact'', lit ''subAgentThreadSpawn'', lit ''subAgentOther'', lit ''unknown'']"

definition validate_cursor :: "rstr \<Rightarrow> ThreadContractError + unit" where
  "validate_cursor cursor_text =
     (if 1 \<le> length cursor_text \<and> length cursor_text \<le> MAX_CURSOR_SCALARS then Inr () else Inl InvalidCursor)"

definition thread_list_request :: "rstr option \<Rightarrow> ThreadContractError + Value" where
  "thread_list_request cursor_text =
     try_res (case cursor_text of None \<Rightarrow> Inr () | Some cursor_text \<Rightarrow> validate_cursor cursor_text) (\<lambda>_.
       Inr (json_object
         ([(lit ''archived'', VBool False), (lit ''limit'', VNumber (PosInt 100)),
           (lit ''sortKey'', VString (lit ''updated_at'')), (lit ''sortDirection'', VString (lit ''desc'')),
           (lit ''sourceKinds'', VArray (map VString SOURCE_KINDS)), (lit ''useStateDbOnly'', VBool False)]
          @ (case cursor_text of None \<Rightarrow> [] | Some cursor_text \<Rightarrow> [(lit ''cursor'', VString cursor_text)]))))"

section \<open>Candidates\<close>

datatype ThreadReadStatus = StatusActive | StatusIdle | StatusNotLoaded | StatusSystemError

datatype ThreadActivityStatus = ThreadRunning | ThreadStopped | ThreadUnknown

fun ThreadActivityStatus_as_str :: "ThreadActivityStatus \<Rightarrow> rstr" where
  "ThreadActivityStatus_as_str ThreadRunning = lit ''running''"
| "ThreadActivityStatus_as_str ThreadStopped = lit ''stopped''"
| "ThreadActivityStatus_as_str ThreadUnknown = lit ''unknown''"

record ValidatedThreadCandidate =
  tc_raw :: Value
  tc_id :: rstr
  tc_created_at :: i64
  tc_updated_at :: i64
  tc_path :: "rstr option"
  tc_title :: rstr
  tc_status :: ThreadReadStatus
  tc_is_subagent :: bool
  tc_parent_thread_id :: "rstr option"
  tc_depth :: "int option"

text \<open>The equality of candidates leaves the status out: it is part of the raw value.\<close>

definition candidate_eq :: "ValidatedThreadCandidate \<Rightarrow> ValidatedThreadCandidate \<Rightarrow> bool" where
  "candidate_eq a b \<longleftrightarrow> tc_raw a = tc_raw b \<and> tc_id a = tc_id b \<and> tc_created_at a = tc_created_at b \<and>
     tc_updated_at a = tc_updated_at b \<and> tc_path a = tc_path b \<and> tc_title a = tc_title b \<and>
     tc_is_subagent a = tc_is_subagent b \<and> tc_parent_thread_id a = tc_parent_thread_id b \<and> tc_depth a = tc_depth b"

definition thread_relation :: "fields \<Rightarrow> bool \<times> rstr option \<times> int option" where
  "thread_relation object =
     (case Option.bind (get_object object (lit ''source'')) (\<lambda>source. vget source (lit ''subAgent'')) of
        None \<Rightarrow> (False, None, None)
      | Some subagent \<Rightarrow>
          (case Option.bind (as_object subagent) (\<lambda>kind. get_object kind (lit ''thread_spawn'')) of
             None \<Rightarrow> (True, None, None)
           | Some spawn \<Rightarrow>
               (True, get_str spawn (lit ''parent_thread_id''), Option.bind (get_i64 spawn (lit ''depth'')) i32_of)))"

text \<open>A path is absolute when it starts with a slash.\<close>

definition is_absolute :: "rstr \<Rightarrow> bool" where
  "is_absolute path \<longleftrightarrow> path \<noteq> [] \<and> hd path = 47"

definition UNSET_TITLE :: rstr where
  "UNSET_TITLE = [0x672A, 0x8A2D, 0x5B9A]"

definition read_status :: "rstr \<Rightarrow> ThreadReadStatus option" where
  "read_status value =
     (if value = lit ''active'' then Some StatusActive
      else if value = lit ''idle'' then Some StatusIdle
      else if value = lit ''notLoaded'' then Some StatusNotLoaded
      else if value = lit ''systemError'' then Some StatusSystemError
      else None)"

definition positive_i64 :: "fields \<Rightarrow> rstr \<Rightarrow> ThreadContractError + i64" where
  "positive_i64 object key =
     ok_or InvalidItem (Option.bind (get_i64 object key) (\<lambda>v. if 0 < v then Some v else None))"

definition optional_path :: "fields \<Rightarrow> ThreadContractError + rstr option" where
  "optional_path object =
     (case vget object (lit ''path'') of
        None \<Rightarrow> Inr None
      | Some VNull \<Rightarrow> Inr None
      | Some (VString value) \<Rightarrow> if value \<noteq> [] then Inr (Some value) else Inl InvalidItem
      | _ \<Rightarrow> Inl InvalidItem)"

definition validate_thread_item :: "ThreadContractError + Value \<Rightarrow> Value \<Rightarrow> ThreadContractError + ValidatedThreadCandidate" where
  "validate_thread_item schema item =
     try_res schema (\<lambda>schema.
     try_res (ok_or InvalidThreadSchema (Option.bind (as_object schema) (\<lambda>s. get_object s (lit ''definitions'')))) (\<lambda>definitions.
     try_res (ok_or InvalidThreadSchema (vget definitions (lit ''Thread''))) (\<lambda>thread_schema.
     try_res (validate_instance_with_root item thread_schema schema) (\<lambda>_.
     try_res (ok_or InvalidItem (as_object item)) (\<lambda>object.
     try_res (positive_i64 object (lit ''updatedAt'')) (\<lambda>updated_at.
     try_res (positive_i64 object (lit ''createdAt'')) (\<lambda>created_at.
     try_res (ok_or InvalidItem (Option.bind (get_str object (lit ''id''))
       (\<lambda>v. if 1 \<le> length v \<and> length v \<le> 128 then Some v else None))) (\<lambda>id.
     try_res (ok_or InvalidItem (Option.bind (get_str object (lit ''cwd''))
       (\<lambda>v. if v \<noteq> [] \<and> is_absolute v then Some v else None))) (\<lambda>_.
     try_res (optional_path object) (\<lambda>path.
     try_res (ok_or InvalidItem (get_str object (lit ''preview''))) (\<lambda>preview.
     try_res (case get_str object (lit ''name'') of
         None \<Rightarrow> Inr []
       | Some name \<Rightarrow> map_err InvalidItem (bounded_thread_title name)) (\<lambda>normalized_name.
     try_res (map_err InvalidItem (bounded_thread_title preview)) (\<lambda>_.
     try_res (ok_or InvalidItem (Option.bind (Option.bind (get_object object (lit ''status''))
       (\<lambda>status. get_str status (lit ''type''))) read_status)) (\<lambda>status.
       (case thread_relation object of (is_subagent, parent_thread_id, depth) \<Rightarrow>
         Inr \<lparr>tc_raw = item, tc_id = id, tc_created_at = created_at, tc_updated_at = updated_at, tc_path = path,
              tc_title = (if normalized_name \<noteq> [] then normalized_name else UNSET_TITLE), tc_status = status,
              tc_is_subagent = is_subagent, tc_parent_thread_id = parent_thread_id, tc_depth = depth\<rparr>)))))))))))))))"

section \<open>The accumulator of a cycle\<close>

datatype PageAcceptance = NeedNextPage rstr | TerminalPage

fun next_cursor :: "PageAcceptance \<Rightarrow> rstr option" where
  "next_cursor (NeedNextPage cursor_text) = Some cursor_text"
| "next_cursor TerminalPage = None"

datatype AccumulatorPhase = Collecting | Terminal | FailedPhase

record ThreadCycleAccumulator =
  ac_candidates :: "(rstr \<times> ValidatedThreadCandidate) list"
  ac_seen_ids :: "rstr set"
  ac_rejected_ids :: "rstr set"
  ac_seen_cursors :: "rstr set"
  ac_page_count :: u64
  ac_rejected_count :: u64
  ac_phase :: AccumulatorPhase

definition ThreadCycleAccumulator_new :: ThreadCycleAccumulator where
  "ThreadCycleAccumulator_new =
     \<lparr>ac_candidates = [], ac_seen_ids = {}, ac_rejected_ids = {}, ac_seen_cursors = {}, ac_page_count = 0,
      ac_rejected_count = 0, ac_phase = Collecting\<rparr>"

definition count_rejected :: "ThreadCycleAccumulator \<Rightarrow> ThreadContractError + ThreadCycleAccumulator" where
  "count_rejected acc =
     try_res (ok_or ValidationBudgetExceeded (checked_add (ac_rejected_count acc) 1)) (\<lambda>n. Inr (acc\<lparr>ac_rejected_count := n\<rparr>))"

definition accept_candidate ::
  "ValidatedThreadCandidate \<Rightarrow> ThreadCycleAccumulator \<Rightarrow> ThreadContractError + ThreadCycleAccumulator" where
  "accept_candidate candidate acc =
     (let id = tc_id candidate in
      if id \<notin> ac_seen_ids acc then
        (if card (ac_seen_ids acc) \<ge> MAX_UNIQUE_THREAD_IDS then Inl ValidationBudgetExceeded
         else Inr (acc\<lparr>ac_seen_ids := insert id (ac_seen_ids acc),
                      ac_candidates := AList.update id candidate (ac_candidates acc)\<rparr>))
      else if id \<in> ac_rejected_ids acc then count_rejected acc
      else try_res (ok_or InvalidItem (map_of (ac_candidates acc) id)) (\<lambda>existing.
        if tc_updated_at candidate > tc_updated_at existing
        then Inr (acc\<lparr>ac_candidates := AList.update id candidate (ac_candidates acc)\<rparr>)
        else if tc_updated_at candidate = tc_updated_at existing \<and> \<not> candidate_eq candidate existing
        then count_rejected (acc\<lparr>ac_candidates := AList.delete id (ac_candidates acc),
               ac_rejected_ids := insert id (ac_rejected_ids acc)\<rparr>)
        else Inr acc))"

primrec accept_items ::
  "ThreadContractError + Value \<Rightarrow> Value list \<Rightarrow> ThreadCycleAccumulator \<Rightarrow> ThreadContractError + ThreadCycleAccumulator" where
  "accept_items schema [] acc = Inr acc"
| "accept_items schema (item # items) acc =
     try_res (case validate_thread_item schema item of
         Inr candidate \<Rightarrow> accept_candidate candidate acc
       | Inl InvalidItem \<Rightarrow> count_rejected acc
       | Inl e \<Rightarrow> Inl e) (accept_items schema items)"

definition page_cursor :: "fields \<Rightarrow> ThreadContractError + rstr option" where
  "page_cursor object =
     (case vget object (lit ''nextCursor'') of
        None \<Rightarrow> Inr None
      | Some VNull \<Rightarrow> Inr None
      | Some (VString cursor_text) \<Rightarrow> try_res (map_err InvalidEnvelope (validate_cursor cursor_text)) (\<lambda>_. Inr (Some cursor_text))
      | _ \<Rightarrow> Inl InvalidEnvelope)"

definition admit_cursor :: "rstr option \<Rightarrow> ThreadCycleAccumulator \<Rightarrow> ThreadContractError + ThreadCycleAccumulator" where
  "admit_cursor following acc =
     (case following of
        None \<Rightarrow> Inr acc
      | Some cursor_text \<Rightarrow>
          if ac_page_count acc + 1 \<ge> MAX_THREAD_PAGES then Inl ValidationBudgetExceeded
          else if cursor_text \<in> ac_seen_cursors acc then Inl InvalidEnvelope
          else Inr (acc\<lparr>ac_seen_cursors := insert cursor_text (ac_seen_cursors acc)\<rparr>))"

definition finish_page :: "rstr option \<Rightarrow> ThreadCycleAccumulator \<Rightarrow> PageAcceptance \<times> ThreadCycleAccumulator" where
  "finish_page following acc =
     (case following of
        Some cursor_text \<Rightarrow> (NeedNextPage cursor_text, acc)
      | None \<Rightarrow> (TerminalPage, acc\<lparr>ac_phase := Terminal\<rparr>))"

definition accept_page_transaction ::
  "ThreadContractError + Value \<Rightarrow> Value \<Rightarrow> ThreadCycleAccumulator \<Rightarrow>
   ThreadContractError + (PageAcceptance \<times> ThreadCycleAccumulator)" where
  "accept_page_transaction schema page acc =
     (if ac_page_count acc \<ge> MAX_THREAD_PAGES then Inl ValidationBudgetExceeded
      else try_res (ok_or InvalidEnvelope (as_object page)) (\<lambda>object.
        try_res (ok_or InvalidEnvelope (vget object (lit ''data''))) (\<lambda>data.
        try_res (ok_or InvalidEnvelope (as_array data)) (\<lambda>data_array.
        try_res (map_err InvalidEnvelope schema) (\<lambda>schema_document.
        if \<not> is_ok (validate_instance_against_schema (VObject (AList.update (lit ''data'') (VArray []) object)) schema_document)
        then Inl InvalidEnvelope
        else try_res (page_cursor object) (\<lambda>following.
          try_res (admit_cursor following acc) (\<lambda>acc.
          try_res (accept_items schema data_array acc) (\<lambda>acc.
          try_res (ok_or ValidationBudgetExceeded (checked_add (ac_page_count acc) 1)) (\<lambda>page_count.
            Inr (finish_page following (acc\<lparr>ac_page_count := page_count\<rparr>)))))))))))"

definition accept_page ::
  "ThreadContractError + Value \<Rightarrow> Value \<Rightarrow> ThreadCycleAccumulator \<Rightarrow>
   (ThreadContractError + PageAcceptance) \<times> ThreadCycleAccumulator" where
  "accept_page schema page acc =
     (if ac_phase acc \<noteq> Collecting then (Inl InvalidRequest, acc)
      else (case accept_page_transaction schema page acc of
          Inr (acceptance, prospective) \<Rightarrow> (Inr acceptance, prospective)
        | Inl e \<Rightarrow> (Inl e, acc\<lparr>ac_phase := FailedPhase\<rparr>)))"

definition ordered_candidates :: "ThreadCycleAccumulator \<Rightarrow> ThreadContractError + ValidatedThreadCandidate list" where
  "ordered_candidates acc =
     (if ac_phase acc \<noteq> Terminal then Inl InvalidRequest
      else Inr (rev (sort_key (\<lambda>c. (tc_updated_at c, tc_id c)) (map snd (ac_candidates acc)))))"

end
