(* ===== verification/Thread_Cycle.thy ===== *)
theory Thread_Cycle
  imports Thread_Contract
begin

text \<open>
  What a cycle of \<open>thread/list\<close> pages delivers: the invariant of the accumulator over the items of
  all pages so far, the limits of a cycle, and the characterisation of the candidates of a complete
  cycle.
\<close>

section \<open>Items\<close>

lemma validate_thread_item_raw: "validate_thread_item schema item = Inr c \<Longrightarrow> tc_raw c = item"
  by (auto simp: validate_thread_item_def try_res_def split: sum.splits prod.splits)

definition item_candidate :: "ThreadContractError + Value \<Rightarrow> Value \<Rightarrow> ValidatedThreadCandidate option" where
  "item_candidate schema item = (case validate_thread_item schema item of Inr c \<Rightarrow> Some c | Inl _ \<Rightarrow> None)"

definition valid_candidates :: "ThreadContractError + Value \<Rightarrow> Value list \<Rightarrow> ValidatedThreadCandidate list" where
  "valid_candidates schema items = List.map_filter (item_candidate schema) items"

definition page_items :: "Value \<Rightarrow> Value list" where
  "page_items page =
     (case Option.bind (Option.bind (as_object page) (\<lambda>object. vget object (lit ''data''))) as_array of
        None \<Rightarrow> [] | Some items \<Rightarrow> items)"

lemma valid_candidates_simps:
  "valid_candidates schema [] = []"
  "valid_candidates schema (xs @ ys) = valid_candidates schema xs @ valid_candidates schema ys"
  "valid_candidates schema (item # items) =
     (case item_candidate schema item of None \<Rightarrow> [] | Some c \<Rightarrow> [c]) @ valid_candidates schema items"
  by (simp_all add: valid_candidates_def List.map_filter_def split: option.split)

lemma valid_candidates_raw: "c \<in> set (valid_candidates schema items) \<Longrightarrow> validate_thread_item schema (tc_raw c) = Inr c"
  by (auto simp: valid_candidates_def List.map_filter_def item_candidate_def validate_thread_item_raw split: sum.splits)

lemma candidate_eq_same:
  "a \<in> set (valid_candidates schema items) \<Longrightarrow> b \<in> set (valid_candidates schema items) \<Longrightarrow> candidate_eq a b \<Longrightarrow> a = b"
  using valid_candidates_raw[of a schema items] valid_candidates_raw[of b schema items] unfolding candidate_eq_def
  by (metis sum.inject(2))

lemma candidate_eq_refl [simp]: "candidate_eq c c"
  by (simp add: candidate_eq_def)

section \<open>The invariant\<close>

text \<open>No candidate with the same id is newer, and one of the same time is equal.\<close>

definition latest :: "ValidatedThreadCandidate list \<Rightarrow> ValidatedThreadCandidate \<Rightarrow> bool" where
  "latest xs c \<longleftrightarrow> c \<in> set xs \<and> (\<forall>c' \<in> set xs. tc_id c' = tc_id c \<longrightarrow>
     tc_updated_at c' < tc_updated_at c \<or> (tc_updated_at c' = tc_updated_at c \<and> candidate_eq c' c))"

lemma latest_snoc:
  "latest xs c \<Longrightarrow> (tc_id x = tc_id c \<Longrightarrow> tc_updated_at x < tc_updated_at c \<or> (tc_updated_at x = tc_updated_at c \<and> candidate_eq x c)) \<Longrightarrow>
   latest (xs @ [x]) c"
  by (auto simp: latest_def)

definition acc_ok :: "ValidatedThreadCandidate list \<Rightarrow> bool \<Rightarrow> ThreadCycleAccumulator \<Rightarrow> bool" where
  "acc_ok xs refused acc \<longleftrightarrow>
     ac_seen_ids acc = tc_id ` set xs \<and> card (ac_seen_ids acc) \<le> MAX_UNIQUE_THREAD_IDS \<and>
     distinct (map fst (ac_candidates acc)) \<and>
     (\<forall>(k, c) \<in> set (ac_candidates acc). tc_id c = k \<and> latest xs c) \<and>
     dom (map_of (ac_candidates acc)) \<inter> ac_rejected_ids acc = {} \<and>
     dom (map_of (ac_candidates acc)) \<union> ac_rejected_ids acc = ac_seen_ids acc \<and>
     (ac_rejected_count acc = 0 \<longrightarrow> ac_rejected_ids acc = {} \<and> \<not> refused)"

lemma count_rejectedD:
  assumes "count_rejected acc = Inr acc'"
  obtains n where "acc' = acc\<lparr>ac_rejected_count := n\<rparr>" "n \<noteq> 0"
proof -
  obtain n where n: "checked_add (ac_rejected_count acc) 1 = Some n" "acc' = acc\<lparr>ac_rejected_count := n\<rparr>"
    using assms by (cases "checked_add (ac_rejected_count acc) 1") (auto simp: count_rejected_def)
  have "n \<noteq> 0" using n(1) by (auto simp: checked_add_eq_Some)
  with n(2) show thesis by (rule that)
qed

lemma acc_ok_update:
  assumes "acc_ok xs refused acc" "tc_id c \<notin> ac_rejected_ids acc" "latest (xs @ [c]) c"
    "card (insert (tc_id c) (ac_seen_ids acc)) \<le> MAX_UNIQUE_THREAD_IDS"
  shows "acc_ok (xs @ [c]) refused (acc\<lparr>ac_seen_ids := insert (tc_id c) (ac_seen_ids acc),
    ac_candidates := AList.update (tc_id c) c (ac_candidates acc)\<rparr>)"
proof -
  have other: "latest (xs @ [c]) c'" if "(k, c') \<in> set (ac_candidates acc)" "k \<noteq> tc_id c" for k c'
    using assms(1) that by (intro latest_snoc) (auto simp: acc_ok_def)
  have "(\<forall>(k, c') \<in> set (AList.update (tc_id c) c (ac_candidates acc)). tc_id c' = k \<and> latest (xs @ [c]) c')"
  proof (clarify)
    fix k c' assume "(k, c') \<in> set (AList.update (tc_id c) c (ac_candidates acc))"
    moreover have d: "distinct (map fst (AList.update (tc_id c) c (ac_candidates acc)))"
      using assms(1) by (simp add: acc_ok_def distinct_update)
    ultimately have "map_of (AList.update (tc_id c) c (ac_candidates acc)) k = Some c'" by simp
    then have "((map_of (ac_candidates acc))(tc_id c \<mapsto> c)) k = Some c'" by (simp only: update_conv')
    then show "tc_id c' = k \<and> latest (xs @ [c]) c'"
      using assms(1,3) other by (auto simp: acc_ok_def split: if_splits dest!: map_of_SomeD)
  qed
  then show ?thesis
    using assms by (auto simp: acc_ok_def distinct_update update_conv')
qed

lemma acc_ok_candidate:
  assumes "acc_ok xs refused acc" "map_of (ac_candidates acc) k = Some c"
  shows "tc_id c = k" "latest xs c"
  using assms by (auto simp: acc_ok_def dest!: map_of_SomeD)

lemma acc_ok_keep:
  assumes "acc_ok xs refused acc" "tc_id x \<in> ac_seen_ids acc"
    "\<And>c. map_of (ac_candidates acc) (tc_id x) = Some c \<Longrightarrow>
       tc_updated_at x < tc_updated_at c \<or> (tc_updated_at x = tc_updated_at c \<and> candidate_eq x c)"
  shows "acc_ok (xs @ [x]) refused acc"
proof -
  have "latest (xs @ [x]) c" if "(k, c) \<in> set (ac_candidates acc)" for k c
  proof (rule latest_snoc)
    show "latest xs c" using assms(1) that by (auto simp: acc_ok_def)
    assume "tc_id x = tc_id c"
    then have "map_of (ac_candidates acc) (tc_id x) = Some c" using assms(1) that by (auto simp: acc_ok_def)
    then show "tc_updated_at x < tc_updated_at c \<or> (tc_updated_at x = tc_updated_at c \<and> candidate_eq x c)" by (rule assms(3))
  qed
  then show ?thesis using assms(1,2) by (auto simp: acc_ok_def insert_absorb)
qed

lemma acc_ok_reject:
  assumes "acc_ok xs refused acc" "tc_id x \<in> ac_seen_ids acc" "n \<noteq> 0"
  shows "acc_ok (xs @ [x]) refused (acc\<lparr>ac_candidates := AList.delete (tc_id x) (ac_candidates acc),
    ac_rejected_ids := insert (tc_id x) (ac_rejected_ids acc), ac_rejected_count := n\<rparr>)"
proof -
  have cands: "\<forall>(k, c) \<in> set (ac_candidates acc). tc_id c = k \<and> latest xs c" and d: "distinct (map fst (ac_candidates acc))"
    and doms: "dom (map_of (ac_candidates acc)) \<inter> ac_rejected_ids acc = {}"
      "dom (map_of (ac_candidates acc)) \<union> ac_rejected_ids acc = ac_seen_ids acc"
    using assms(1) by (auto simp: acc_ok_def)
  have "\<forall>(k, c) \<in> set (AList.delete (tc_id x) (ac_candidates acc)). tc_id c = k \<and> latest (xs @ [x]) c"
  proof clarify
    fix k c assume "(k, c) \<in> set (AList.delete (tc_id x) (ac_candidates acc))"
    then have kc: "(k, c) \<in> set (ac_candidates acc)" "tc_id x \<noteq> k" by (auto simp: AList.delete_eq)
    then have "tc_id c = k" "latest xs c" using cands by auto
    then show "tc_id c = k \<and> latest (xs @ [x]) c" using kc(2) latest_snoc by blast
  qed
  moreover have "distinct (map fst (AList.delete (tc_id x) (ac_candidates acc)))" using d by (rule distinct_delete)
  moreover have "dom (map_of (AList.delete (tc_id x) (ac_candidates acc))) = dom (map_of (ac_candidates acc)) - {tc_id x}"
    by (auto simp: delete_conv')
  moreover have "ac_seen_ids acc = tc_id ` set (xs @ [x])" "card (ac_seen_ids acc) \<le> MAX_UNIQUE_THREAD_IDS"
    using assms(1,2) by (auto simp: acc_ok_def)
  moreover have "(dom (map_of (ac_candidates acc)) - {tc_id x}) \<inter> insert (tc_id x) (ac_rejected_ids acc) = {}"
    "(dom (map_of (ac_candidates acc)) - {tc_id x}) \<union> insert (tc_id x) (ac_rejected_ids acc) = ac_seen_ids acc"
    using doms assms(2) by blast+
  ultimately show ?thesis using assms(3) unfolding acc_ok_def by simp
qed

lemma acc_ok_count: "acc_ok xs refused acc \<Longrightarrow> n \<noteq> 0 \<Longrightarrow> acc_ok xs refused' (acc\<lparr>ac_rejected_count := n\<rparr>)"
  by (auto simp: acc_ok_def)

lemma accept_candidate_ok:
  assumes "accept_candidate c acc = Inr acc'" "acc_ok xs refused acc"
  shows "acc_ok (xs @ [c]) refused acc'"
proof -
  let ?id = "tc_id c"
  consider (fresh) "?id \<notin> ac_seen_ids acc" | (rejected) "?id \<in> ac_seen_ids acc" "?id \<in> ac_rejected_ids acc"
    | (known) "?id \<in> ac_seen_ids acc" "?id \<notin> ac_rejected_ids acc" by blast
  then show ?thesis
  proof cases
    case fresh
    then have new: "card (ac_seen_ids acc) < MAX_UNIQUE_THREAD_IDS" "acc' = acc\<lparr>ac_seen_ids := insert ?id (ac_seen_ids acc),
        ac_candidates := AList.update ?id c (ac_candidates acc)\<rparr>"
      using assms(1) by (auto simp: accept_candidate_def Let_def split: if_splits)
    have seen: "ac_seen_ids acc = tc_id ` set xs" using assms(2) by (simp add: acc_ok_def)
    moreover have "latest (xs @ [c]) c" using fresh unfolding seen by (auto simp: latest_def image_iff)
    moreover have "?id \<notin> ac_rejected_ids acc" using fresh assms(2) by (auto simp: acc_ok_def)
    moreover have "finite (ac_seen_ids acc)" using assms(2) by (simp add: acc_ok_def)
    ultimately have "acc_ok (xs @ [c]) refused (acc\<lparr>ac_seen_ids := insert ?id (ac_seen_ids acc),
        ac_candidates := AList.update ?id c (ac_candidates acc)\<rparr>)"
      using acc_ok_update[OF assms(2), of c] fresh new(1) by simp
    then show ?thesis unfolding new(2) .
  next
    case rejected
    then have "count_rejected acc = Inr acc'" using assms(1) by (simp add: accept_candidate_def Let_def)
    then obtain n where "acc' = acc\<lparr>ac_rejected_count := n\<rparr>" "n \<noteq> 0" by (rule count_rejectedD)
    moreover have "map_of (ac_candidates acc) ?id = None" using rejected assms(2) by (auto simp: acc_ok_def)
    ultimately show ?thesis using acc_ok_keep[OF assms(2) rejected(1)] acc_ok_count by simp
  next
    case known
    then have "?id \<in> dom (map_of (ac_candidates acc))" using assms(2) unfolding acc_ok_def by blast
    then obtain e where e: "map_of (ac_candidates acc) ?id = Some e" by blast
    note existing = acc_ok_candidate[OF assms(2) e]
    consider (newer) "tc_updated_at c > tc_updated_at e" | (conflict) "tc_updated_at c = tc_updated_at e" "\<not> candidate_eq c e"
      | (older) "tc_updated_at c < tc_updated_at e \<or> (tc_updated_at c = tc_updated_at e \<and> candidate_eq c e)" by linarith
    then show ?thesis
    proof cases
      case newer
      then have "acc' = acc\<lparr>ac_candidates := AList.update ?id c (ac_candidates acc)\<rparr>"
        using assms(1) known e by (simp add: accept_candidate_def Let_def)
      moreover have "latest (xs @ [c]) c" using existing newer by (fastforce simp: latest_def)
      moreover have "insert ?id (ac_seen_ids acc) = ac_seen_ids acc" using known by blast
      moreover have "card (ac_seen_ids acc) \<le> MAX_UNIQUE_THREAD_IDS" using assms(2) unfolding acc_ok_def by blast
      ultimately show ?thesis using acc_ok_update[OF assms(2) known(2)] by simp
    next
      case conflict
      then have "count_rejected (acc\<lparr>ac_candidates := AList.delete ?id (ac_candidates acc),
          ac_rejected_ids := insert ?id (ac_rejected_ids acc)\<rparr>) = Inr acc'"
        using assms(1) known e by (simp add: accept_candidate_def Let_def)
      then obtain n where "acc' = acc\<lparr>ac_candidates := AList.delete ?id (ac_candidates acc),
          ac_rejected_ids := insert ?id (ac_rejected_ids acc), ac_rejected_count := n\<rparr>" "n \<noteq> 0"
        by (rule count_rejectedD) simp
      then show ?thesis using acc_ok_reject[OF assms(2) known(1)] by simp
    next
      case older
      then have "acc' = acc" using assms(1) known e by (auto simp: accept_candidate_def Let_def split: if_splits)
      then show ?thesis using acc_ok_keep[OF assms(2) known(1)] older e by simp
    qed
  qed
qed

lemma accept_items_ok:
  "accept_items schema items acc = Inr acc' \<Longrightarrow> acc_ok xs refused acc \<Longrightarrow>
   acc_ok (xs @ valid_candidates schema items) (refused \<or> (\<exists>item \<in> set items. item_candidate schema item = None)) acc'"
proof (induction items arbitrary: acc xs refused)
  case (Cons item items)
  from Cons.prems(1) obtain acc1 where step: "(case validate_thread_item schema item of
      Inr candidate \<Rightarrow> accept_candidate candidate acc
    | Inl InvalidItem \<Rightarrow> count_rejected acc
    | Inl e \<Rightarrow> Inl e) = Inr acc1" and rest: "accept_items schema items acc1 = Inr acc'"
    by (auto simp: try_res_def split: sum.splits)
  show ?case
  proof (cases "validate_thread_item schema item")
    case (Inr c)
    then have "accept_candidate c acc = Inr acc1" using step by simp
    from Cons.IH[OF rest accept_candidate_ok[OF this Cons.prems(2)]] show ?thesis
      using Inr by (simp add: valid_candidates_simps item_candidate_def)
  next
    case (Inl e)
    then have "count_rejected acc = Inr acc1" using step by (cases e) simp_all
    then obtain n where "acc1 = acc\<lparr>ac_rejected_count := n\<rparr>" "n \<noteq> 0" by (rule count_rejectedD)
    then have "acc_ok xs True acc1" using acc_ok_count[OF Cons.prems(2)] by simp
    from Cons.IH[OF rest this] show ?thesis
      using Inl by (simp add: valid_candidates_simps item_candidate_def)
  qed
qed (simp add: valid_candidates_simps)

section \<open>Cycles\<close>

lemma accept_candidate_frame:
  "accept_candidate c acc = Inr acc' \<Longrightarrow> ac_page_count acc' = ac_page_count acc \<and>
     ac_seen_cursors acc' = ac_seen_cursors acc \<and> ac_phase acc' = ac_phase acc"
  by (auto simp: accept_candidate_def Let_def count_rejected_def try_res_def split: if_splits sum.splits)

lemma accept_items_frame:
  "accept_items schema items acc = Inr acc' \<Longrightarrow> ac_page_count acc' = ac_page_count acc \<and>
     ac_seen_cursors acc' = ac_seen_cursors acc \<and> ac_phase acc' = ac_phase acc"
proof (induction items arbitrary: acc)
  case (Cons item items)
  then show ?case
    by (auto simp: try_res_def count_rejected_def dest!: accept_candidate_frame
        split: sum.splits ThreadContractError.splits)
qed simp

text \<open>The accepted pages of one cycle and the cursors they handed out.\<close>

inductive cycle_run ::
  "ThreadContractError + Value \<Rightarrow> Value list \<Rightarrow> rstr list \<Rightarrow> ThreadCycleAccumulator \<Rightarrow> bool"
  for schema :: "ThreadContractError + Value" where
  cycle_start: "cycle_run schema [] [] ThreadCycleAccumulator_new"
| cycle_page: "cycle_run schema pages cursors acc \<Longrightarrow> accept_page schema page acc = (Inr acceptance, acc') \<Longrightarrow>
    cycle_run schema (pages @ [page]) (cursors @ (case next_cursor acceptance of None \<Rightarrow> [] | Some c \<Rightarrow> [c])) acc'"

lemma as_array_eq: "as_array v = Some xs \<longleftrightarrow> v = VArray xs"
  by (cases v) auto

lemma accept_pageD:
  assumes "accept_page schema page acc = (Inr acceptance, acc')"
  obtains acc1 acc2 where "ac_phase acc = Collecting" "ac_page_count acc < MAX_THREAD_PAGES"
    "accept_items schema (page_items page) acc1 = Inr acc2"
    "(acceptance = TerminalPage \<and> acc1 = acc \<and>
       acc' = acc2\<lparr>ac_page_count := ac_page_count acc + 1, ac_phase := Terminal\<rparr>) \<or>
     (\<exists>c. acceptance = NeedNextPage c \<and> c \<notin> ac_seen_cursors acc \<and> ac_page_count acc + 1 < MAX_THREAD_PAGES \<and>
       acc1 = acc\<lparr>ac_seen_cursors := insert c (ac_seen_cursors acc)\<rparr> \<and>
       acc' = acc2\<lparr>ac_page_count := ac_page_count acc + 1\<rparr>)"
proof -
  have phase: "ac_phase acc = Collecting" and run: "accept_page_transaction schema page acc = Inr (acceptance, acc')"
    using assms by (auto simp: accept_page_def split: if_splits sum.splits)
  have count: "ac_page_count acc < MAX_THREAD_PAGES"
    using run by (auto simp: accept_page_transaction_def not_le split: if_splits)
  have "\<exists>object values following acc1 acc2 n. as_object page = Some object \<and> vget object (lit ''data'') = Some (VArray values) \<and>
      admit_cursor following acc = Inr acc1 \<and> accept_items schema values acc1 = Inr acc2 \<and>
      checked_add (ac_page_count acc2) 1 = Some n \<and> finish_page following (acc2\<lparr>ac_page_count := n\<rparr>) = (acceptance, acc')"
    using run count unfolding accept_page_transaction_def
    by (simp add: result_simps as_array_eq not_le split: if_split_asm) blast
  then obtain object data_array following acc1 acc2 n where
    o: "as_object page = Some object" "vget object (lit ''data'') = Some (VArray data_array)"
    and first: "admit_cursor following acc = Inr acc1"
    and i: "accept_items schema data_array acc1 = Inr acc2" and n: "checked_add (ac_page_count acc2) 1 = Some n"
    and last: "finish_page following (acc2\<lparr>ac_page_count := n\<rparr>) = (acceptance, acc')" by blast
  have items: "page_items page = data_array" using o by (simp add: page_items_def)
  have "ac_page_count acc2 = ac_page_count acc1" using accept_items_frame[OF i] by blast
  moreover have "ac_page_count acc1 = ac_page_count acc" using first by (auto simp: admit_cursor_def split: option.splits if_splits)
  ultimately have n': "n = ac_page_count acc + 1" using n by (auto simp: checked_add_def split: if_splits)
  show thesis
  proof (rule that[OF phase count, of acc1 acc2])
    show "accept_items schema (page_items page) acc1 = Inr acc2" using i items by simp
  qed (use first last n' in \<open>auto simp: admit_cursor_def finish_page_def not_le split: option.splits if_splits\<close>)
qed

lemma acc_ok_frame [simp]:
  "acc_ok xs refused (acc\<lparr>ac_seen_cursors := cs\<rparr>) = acc_ok xs refused acc"
  "acc_ok xs refused (acc\<lparr>ac_page_count := n\<rparr>) = acc_ok xs refused acc"
  "acc_ok xs refused (acc\<lparr>ac_phase := p\<rparr>) = acc_ok xs refused acc"
  by (simp_all add: acc_ok_def)

definition cycle_items :: "Value list \<Rightarrow> Value list" where
  "cycle_items pages = concat (map page_items pages)"

definition pages_ok :: "ThreadContractError + Value \<Rightarrow> Value list \<Rightarrow> rstr list \<Rightarrow> ThreadCycleAccumulator \<Rightarrow> bool" where
  "pages_ok schema pages cursors acc \<longleftrightarrow>
     acc_ok (valid_candidates schema (cycle_items pages)) (\<exists>item \<in> set (cycle_items pages). item_candidate schema item = None) acc \<and>
     unat (ac_page_count acc) = length pages \<and> length pages \<le> 32 \<and> set cursors = ac_seen_cursors acc \<and> distinct cursors \<and>
     (ac_phase acc = Collecting \<longrightarrow> length pages < 32)"

lemma acc_ok_new: "acc_ok [] False ThreadCycleAccumulator_new"
  by (simp add: acc_ok_def ThreadCycleAccumulator_new_def)

lemma pages_ok_page:
  assumes "pages_ok schema pages cursors acc" "accept_page schema page acc = (Inr acceptance, acc')"
  shows "pages_ok schema (pages @ [page]) (cursors @ (case next_cursor acceptance of None \<Rightarrow> [] | Some c \<Rightarrow> [c])) acc'"
proof -
  obtain acc1 acc2 where p: "ac_phase acc = Collecting" "ac_page_count acc < MAX_THREAD_PAGES"
    "accept_items schema (page_items page) acc1 = Inr acc2"
    "(acceptance = TerminalPage \<and> acc1 = acc \<and>
       acc' = acc2\<lparr>ac_page_count := ac_page_count acc + 1, ac_phase := Terminal\<rparr>) \<or>
     (\<exists>c. acceptance = NeedNextPage c \<and> c \<notin> ac_seen_cursors acc \<and> ac_page_count acc + 1 < MAX_THREAD_PAGES \<and>
       acc1 = acc\<lparr>ac_seen_cursors := insert c (ac_seen_cursors acc)\<rparr> \<and>
       acc' = acc2\<lparr>ac_page_count := ac_page_count acc + 1\<rparr>)"
    using assms(2) by (rule accept_pageD)
  have "acc_ok (valid_candidates schema (cycle_items pages)) (\<exists>item \<in> set (cycle_items pages). item_candidate schema item = None) acc1"
    using assms(1) p(4) by (auto simp: pages_ok_def)
  from accept_items_ok[OF p(3) this]
  have items: "acc_ok (valid_candidates schema (cycle_items (pages @ [page])))
      (\<exists>item \<in> set (cycle_items (pages @ [page])). item_candidate schema item = None) acc2"
    by (simp add: cycle_items_def valid_candidates_simps bex_Un)
  have pages: "unat (ac_page_count acc) = length pages" using assms(1) by (simp add: pages_ok_def)
  then have "length pages < 32" using p(2) by (simp add: MAX_THREAD_PAGES_def word_less_nat_alt)
  moreover from this pages have count: "unat (ac_page_count acc + 1) = Suc (length pages)"
    by (simp add: unat_word_ariths)
  moreover have "ac_page_count acc + 1 < MAX_THREAD_PAGES \<longleftrightarrow> Suc (length pages) < 32"
    using count by (simp add: MAX_THREAD_PAGES_def word_less_nat_alt)
  ultimately show ?thesis
    using assms(1) p(4) items accept_items_frame[OF p(3)] by (auto simp: pages_ok_def)
qed

lemma pages_ok: "cycle_run schema pages cursors acc \<Longrightarrow> pages_ok schema pages cursors acc"
proof (induction rule: cycle_run.induct)
  case cycle_start
  show ?case
    using acc_ok_new by (simp add: pages_ok_def cycle_items_def valid_candidates_simps) (simp add: ThreadCycleAccumulator_new_def)
qed (rule pages_ok_page)

lemma ordered_candidates_sorted:
  assumes "distinct (map fst (ac_candidates acc))" "\<forall>(k, c) \<in> set (ac_candidates acc). tc_id c = k" "ordered_candidates acc = Inr cs"
  shows "set cs = snd ` set (ac_candidates acc)" "distinct (map tc_id cs)"
    "sorted_wrt (\<lambda>a b. (tc_updated_at b, tc_id b) < (tc_updated_at a, tc_id a)) cs"
proof -
  let ?key = "\<lambda>c. (tc_updated_at c, tc_id c)" and ?cands = "map snd (ac_candidates acc)"
  have cs: "cs = rev (sort_key ?key ?cands)" using assms(3) by (auto simp: ordered_candidates_def split: if_splits)
  show "set cs = snd ` set (ac_candidates acc)" by (simp add: cs)
  have "map tc_id ?cands = map fst (ac_candidates acc)" using assms(2) by (auto intro: map_cong)
  then have "distinct (map tc_id ?cands)" using assms(1) by (simp only:)
  then have d: "distinct ?cands" "inj_on tc_id (set ?cands)" unfolding distinct_map[of tc_id] by blast+
  then show ids: "distinct (map tc_id cs)" by (simp add: cs distinct_map)
  have "distinct (map ?key cs)" using ids by (auto simp: distinct_map inj_on_def)
  then have "distinct (map ?key (sort_key ?key ?cands))" by (simp add: cs distinct_map)
  then have "sorted_wrt (<) (map ?key (sort_key ?key ?cands))" by (simp add: strict_sorted_iff)
  then show "sorted_wrt (\<lambda>a b. ?key b < ?key a) cs" by (simp add: cs sorted_wrt_rev sorted_wrt_map)
qed

section \<open>A small cycle\<close>

definition sample_item :: "rstr \<Rightarrow> u64 \<Rightarrow> Value" where
  "sample_item k updated_at = VObject
     [(lit ''createdAt'', VNumber (PosInt 1)), (lit ''cwd'', VString (lit ''/'')), (lit ''id'', VString k),
      (lit ''path'', VString (lit ''/a'')), (lit ''preview'', VString []), (lit ''status'', VObject [(lit ''type'', VString (lit ''active''))]),
      (lit ''updatedAt'', VNumber (PosInt updated_at))]"

definition sample_pages :: "Value list" where
  "sample_pages =
     [VObject [(lit ''data'', VArray [sample_item [97] 1]), (lit ''nextCursor'', VString [99])],
      VObject [(lit ''data'', VArray [sample_item [98] 3, sample_item [97] 2])]]"

definition sample_document :: "ThreadContractError + Value" where
  "sample_document = Inr (VObject [(lit ''definitions'', VObject [(lit ''Thread'', VBool True)])])"

definition sample_candidate :: "rstr \<Rightarrow> u64 \<Rightarrow> ValidatedThreadCandidate" where
  "sample_candidate k updated_at =
     \<lparr>tc_raw = sample_item k updated_at, tc_id = k, tc_created_at = 1, tc_updated_at = uint updated_at, tc_path = Some (lit ''/a''),
      tc_title = UNSET_TITLE, tc_status = StatusActive, tc_is_subagent = False, tc_parent_thread_id = None, tc_depth = None\<rparr>"

lemma sample_item_valid:
  "validate_thread_item sample_document (sample_item [97] 1) = Inr (sample_candidate [97] 1)"
  "validate_thread_item sample_document (sample_item [97] 2) = Inr (sample_candidate [97] 2)"
  "validate_thread_item sample_document (sample_item [98] 3) = Inr (sample_candidate [98] 3)"
  by (simp_all add: validate_thread_item_def sample_document_def sample_item_def sample_candidate_def schema_eval
      get_object_def get_str_def get_i64_def positive_i64_def optional_path_def is_absolute_def read_status_def
      thread_relation_def bounded_thread_title_def bounded_ui_text_def i64_max_def)

definition sample_pages_end :: ThreadCycleAccumulator where
  "sample_pages_end =
     \<lparr>ac_candidates = [([97], sample_candidate [97] 2), ([98], sample_candidate [98] 3)], ac_seen_ids = {[98], [97]},
      ac_rejected_ids = {}, ac_seen_cursors = {[99]}, ac_page_count = 2, ac_rejected_count = 0, ac_phase = Terminal\<rparr>"

definition sample_pages_mid :: ThreadCycleAccumulator where
  "sample_pages_mid =
     \<lparr>ac_candidates = [([97], sample_candidate [97] 1)], ac_seen_ids = {[97]}, ac_rejected_ids = {},
      ac_seen_cursors = {[99]}, ac_page_count = 1, ac_rejected_count = 0, ac_phase = Collecting\<rparr>"

lemma sample_envelope:
  "validate_instance_against_schema page (VObject [(lit ''definitions'', VObject [(lit ''Thread'', VBool True)])]) = Inr ()"
  by (cases page) (simp_all add: validate_instance_against_schema_def schema_eval)

lemmas page_eval =
  accept_page_def accept_page_transaction_def vget_def page_cursor_def validate_cursor_def MAX_CURSOR_SCALARS_def
  admit_cursor_def finish_page_def sample_envelope accept_candidate_def MAX_UNIQUE_THREAD_IDS_def MAX_THREAD_PAGES_def
  checked_add_def word_le_nat_alt Let_def

lemma sample_pages_accepted:
  "accept_page sample_document (hd sample_pages) ThreadCycleAccumulator_new = (Inr (NeedNextPage [99]), sample_pages_mid)"
  "accept_page sample_document (sample_pages ! 1) sample_pages_mid = (Inr TerminalPage, sample_pages_end)"
proof -
  have key: "lit ''nextCursor'' \<noteq> lit ''data''" by (simp add: lit_def)
  have doc: "map_err InvalidEnvelope sample_document = Inr (VObject [(lit ''definitions'', VObject [(lit ''Thread'', VBool True)])])"
    by (simp add: sample_document_def)
  show "accept_page sample_document (hd sample_pages) ThreadCycleAccumulator_new = (Inr (NeedNextPage [99]), sample_pages_mid)"
    by (simp add: page_eval key doc sample_pages_def ThreadCycleAccumulator_new_def sample_item_valid sample_pages_mid_def
        sample_candidate_def)
  show "accept_page sample_document (sample_pages ! 1) sample_pages_mid = (Inr TerminalPage, sample_pages_end)"
    by (simp add: page_eval key doc sample_pages_def sample_pages_end_def sample_item_valid sample_pages_mid_def
        sample_candidate_def)
qed

lemma sample_pages_run: "cycle_run sample_document sample_pages [[99]] sample_pages_end"
proof -
  have "cycle_run sample_document ([] @ [hd sample_pages]) ([] @ [[99]]) sample_pages_mid"
    using cycle_page[OF cycle_start sample_pages_accepted(1)] by simp
  from cycle_page[OF this sample_pages_accepted(2)] show ?thesis by (simp add: sample_pages_def)
qed

lemma sample_pages_ordered:
  "ordered_candidates sample_pages_end = Inr [sample_candidate [98] 3, sample_candidate [97] 2]"
  by (simp add: ordered_candidates_def sample_pages_end_def sample_candidate_def)

section \<open>Properties\<close>

text \<open>
  C10. A complete cycle of pages: when no item was rejected, every listed item was valid and the
  candidates are exactly the latest version of every listed thread, one for each id, in descending
  order of time and id, however the items were spread over the pages and repeated.
\<close>

theorem cycle_candidates_exact:
  assumes "cycle_run schema pages cursors acc" "ac_rejected_count acc = 0" "ordered_candidates acc = Inr cs"
  shows "(\<forall>item \<in> set (cycle_items pages). is_ok (validate_thread_item schema item)) \<and>
    sorted_wrt (\<lambda>a b. (tc_updated_at b, tc_id b) < (tc_updated_at a, tc_id a)) cs \<and> distinct (map tc_id cs) \<and>
    tc_id ` set cs = tc_id ` set (valid_candidates schema (cycle_items pages)) \<and>
    (\<forall>c \<in> set cs. c \<in> set (valid_candidates schema (cycle_items pages)) \<and>
      (\<forall>c' \<in> set (valid_candidates schema (cycle_items pages)). tc_id c' = tc_id c \<longrightarrow> tc_updated_at c' < tc_updated_at c \<or> c' = c))"
proof -
  let ?xs = "valid_candidates schema (cycle_items pages)"
  have ok: "acc_ok ?xs (\<exists>item \<in> set (cycle_items pages). item_candidate schema item = None) acc"
    using pages_ok[OF assms(1)] by (simp add: pages_ok_def)
  have cands: "distinct (map fst (ac_candidates acc))" "\<forall>(k, c) \<in> set (ac_candidates acc). tc_id c = k"
    "\<forall>(k, c) \<in> set (ac_candidates acc). latest ?xs c" "dom (map_of (ac_candidates acc)) = tc_id ` set ?xs"
    "\<forall>item \<in> set (cycle_items pages). item_candidate schema item \<noteq> None"
    using ok assms(2) unfolding acc_ok_def by (blast, blast, blast, auto)
  note cs = ordered_candidates_sorted[OF cands(1,2) assms(3)]
  have "is_ok (validate_thread_item schema item)" if "item \<in> set (cycle_items pages)" for item
    using cands(5) that by (auto simp: item_candidate_def is_ok_def split: sum.splits)
  moreover have "tc_id ` set cs = tc_id ` set ?xs"
  proof -
    have "tc_id ` snd ` set (ac_candidates acc) = fst ` set (ac_candidates acc)"
      unfolding image_image using cands(2) by (intro image_cong) auto
    then show ?thesis unfolding cs(1) cands(4)[symmetric] dom_map_of_conv_image_fst .
  qed
  moreover have "c \<in> set ?xs \<and> (\<forall>c' \<in> set ?xs. tc_id c' = tc_id c \<longrightarrow> tc_updated_at c' < tc_updated_at c \<or> c' = c)"
    if "c \<in> set cs" for c
  proof -
    have c: "latest ?xs c" using that cands(3) unfolding cs(1) by auto
    then show ?thesis unfolding latest_def using candidate_eq_same by blast
  qed
  ultimately show ?thesis using cs(2,3) by blast
qed

theorem cycle_candidates_exact_witness:
  "is_ok (validate_thread_item sample_document (sample_item [97] 2)) \<and>
   tc_id ` set (valid_candidates sample_document (cycle_items sample_pages)) = {[97], [98]}"
proof -
  have zero: "ac_rejected_count sample_pages_end = 0" by (simp add: sample_pages_end_def)
  have "sample_item [97] 2 \<in> set (cycle_items sample_pages)"
    by (simp add: cycle_items_def page_items_def sample_pages_def vget_def)
  then show ?thesis
    using cycle_candidates_exact[OF sample_pages_run zero sample_pages_ordered] by (auto simp: sample_candidate_def)
qed

text \<open>
  C14. The limits of a cycle: it accepts at most 32 pages, never the same cursor twice, and keeps at
  most 1024 threads, whatever the server sends.
\<close>

theorem cycle_bounded:
  assumes "cycle_run schema pages cursors acc"
  shows "length pages \<le> 32 \<and> distinct cursors \<and> length (ac_candidates acc) \<le> 1024 \<and> card (ac_seen_ids acc) \<le> 1024"
proof -
  have ok: "pages_ok schema pages cursors acc" by (rule pages_ok[OF assms])
  then have a: "card (ac_seen_ids acc) \<le> MAX_UNIQUE_THREAD_IDS" "distinct (map fst (ac_candidates acc))"
    "dom (map_of (ac_candidates acc)) \<subseteq> ac_seen_ids acc" "finite (ac_seen_ids acc)"
    unfolding pages_ok_def acc_ok_def by auto
  have "length (ac_candidates acc) = card (dom (map_of (ac_candidates acc)))"
    using a(2) by (metis distinct_card dom_map_of_conv_image_fst length_map set_map)
  also have "\<dots> \<le> card (ac_seen_ids acc)" using a(3,4) by (intro card_mono)
  finally show ?thesis using ok a(1) by (simp add: pages_ok_def MAX_UNIQUE_THREAD_IDS_def)
qed

theorem cycle_bounded_witness:
  "length sample_pages \<le> 32 \<and> distinct [[99 :: nat]] \<and> length (ac_candidates sample_pages_end) \<le> 1024 \<and>
   card (ac_seen_ids sample_pages_end) \<le> 1024"
  by (rule cycle_bounded[OF sample_pages_run])

end
