(* ===== verification/Thread_Topology.thy ===== *)
theory Thread_Topology
  imports Thread_Graph
begin

text \<open>
  The test of the parent topology of the selected threads (\<open>validate_selected_thread_topology\<close> of
  \<open>src/thread_contract.rs\<close>): exact in builds with debug assertions, and without any effect in
  builds without them.
\<close>

section \<open>Topology\<close>

record ThreadTopologyNode =
  tn_id :: rstr
  tn_parent_thread_id :: "rstr option"

datatype ThreadTopologyError = TopologyCycle

text \<open>
  The indices of the ids are filled in inside of \<open>debug_assert!\<close>, whose argument is evaluated only
  in builds with debug assertions (\<open>debug\<close>); there a repeated id panics (\<open>None\<close>).
\<close>

fun fill_indices :: "bool \<Rightarrow> nat \<Rightarrow> ThreadTopologyNode list \<Rightarrow> (rstr \<rightharpoonup> nat) \<Rightarrow> (rstr \<rightharpoonup> nat) option" where
  "fill_indices debug index [] indices = Some indices"
| "fill_indices debug index (node # nodes) indices =
     (if debug
      then (if indices (tn_id node) \<noteq> None then None
            else fill_indices debug (Suc index) nodes (indices(tn_id node \<mapsto> index)))
      else fill_indices debug (Suc index) nodes indices)"

definition parent_indices_of :: "(rstr \<rightharpoonup> nat) \<Rightarrow> ThreadTopologyNode list \<Rightarrow> nat option list" where
  "parent_indices_of indices nodes = map (\<lambda>node. Option.bind (tn_parent_thread_id node) indices) nodes"

lemma zeros_update:
  "i < length xs \<Longrightarrow> xs ! i = 0 \<Longrightarrow> length (filter (\<lambda>c. c = 0) (xs[i := Suc 0])) < length (filter (\<lambda>c. c = 0) xs)"
  for xs :: "nat list"
  by (induction xs arbitrary: i) (auto simp: nth_Cons split: nat.splits)

text \<open>
  The walk from one node: 0 is a new node, 1 a node of the current path, 2 a finished node. A colour
  outside of the vector or of the three states is a panic.
\<close>

function colour_walk ::
  "nat option list \<Rightarrow> nat list \<Rightarrow> nat list \<Rightarrow> nat option \<Rightarrow> (ThreadTopologyError + nat list \<times> nat list) option" where
  "colour_walk parents colours path None = Some (Inr (colours, path))"
| "colour_walk parents colours path (Some index) =
     (if index < length colours \<and> index < length parents then
        (if colours ! index = 0 then colour_walk parents (colours[index := 1]) (path @ [index]) (parents ! index)
         else if colours ! index = 1 then Some (Inl TopologyCycle)
         else if colours ! index = 2 then Some (Inr (colours, path))
         else None)
      else None)"
  by pat_completeness auto
termination
proof (relation "measure (\<lambda>(_, colours, _, _). length (filter (\<lambda>c. c = 0) colours))")
qed (auto simp: zeros_update)

primrec colour_all :: "nat option list \<Rightarrow> nat list \<Rightarrow> nat list \<Rightarrow> (ThreadTopologyError + unit) option" where
  "colour_all parents [] colours = Some (Inr ())"
| "colour_all parents (start # starts) colours =
     (if colours ! start = 2 then colour_all parents starts colours
      else (case colour_walk parents colours [] (Some start) of
          None \<Rightarrow> None
        | Some (Inl e) \<Rightarrow> Some (Inl e)
        | Some (Inr (colours, path)) \<Rightarrow> colour_all parents starts (foldl (\<lambda>cs index. cs[index := 2]) colours path)))"

definition validate_selected_thread_topology ::
  "bool \<Rightarrow> ThreadTopologyNode list \<Rightarrow> (ThreadTopologyError + unit) option" where
  "validate_selected_thread_topology debug nodes =
     Option.bind (fill_indices debug 0 nodes Map.empty) (\<lambda>indices.
       colour_all (parent_indices_of indices nodes) [0..<length nodes] (replicate (length nodes) 0))"

section \<open>Walks\<close>

definition index_rel :: "nat option list \<Rightarrow> (nat \<times> nat) set" where
  "index_rel parents = {(i, j). i < length parents \<and> parents ! i = Some j}"

text \<open>No cycle is reached from a node.\<close>

definition cycle_free :: "nat option list \<Rightarrow> nat \<Rightarrow> bool" where
  "cycle_free parents i \<longleftrightarrow> (\<forall>k. (i, k) \<in> (index_rel parents)\<^sup>* \<longrightarrow> (k, k) \<notin> (index_rel parents)\<^sup>+)"

lemma index_rel_step: "(i, k) \<in> (index_rel parents)\<^sup>+ \<Longrightarrow> \<exists>j. parents ! i = Some j \<and> (j, k) \<in> (index_rel parents)\<^sup>*"
  by (auto simp: index_rel_def dest!: tranclD)

lemma cycle_free_step:
  assumes "i < length parents" "\<And>j. parents ! i = Some j \<Longrightarrow> cycle_free parents j"
  shows "cycle_free parents i"
  unfolding cycle_free_def
proof (intro allI impI notI)
  fix k assume k: "(i, k) \<in> (index_rel parents)\<^sup>*" "(k, k) \<in> (index_rel parents)\<^sup>+"
  then have "(i, k) \<in> (index_rel parents)\<^sup>+" by (auto dest: rtranclD)
  then obtain j where j: "parents ! i = Some j" "(j, k) \<in> (index_rel parents)\<^sup>*" using index_rel_step by blast
  then show False using assms(2) k(2) by (auto simp: cycle_free_def)
qed

lemma all_cycle_free:
  assumes "\<And>i. i < length parents \<Longrightarrow> cycle_free parents i"
  shows "acyclic (index_rel parents)"
  unfolding acyclic_def
proof (intro allI notI)
  fix i assume i: "(i, i) \<in> (index_rel parents)\<^sup>+"
  then have "i < length parents" by (auto simp: index_rel_def dest: tranclD)
  then show False using assms[of i] i by (auto simp: cycle_free_def)
qed

definition walk_ok :: "nat option list \<Rightarrow> nat list \<Rightarrow> nat list \<Rightarrow> nat option \<Rightarrow> bool" where
  "walk_ok parents colours path current \<longleftrightarrow>
     length colours = length parents \<and> (\<forall>i < length parents. colours ! i \<le> 2) \<and>
     (\<forall>i < length parents. colours ! i = 1 \<longleftrightarrow> i \<in> set path) \<and> (\<forall>i \<in> set path. i < length parents) \<and>
     (\<forall>i < length parents. colours ! i = 2 \<longrightarrow> cycle_free parents i) \<and>
     (\<forall>c. current = Some c \<longrightarrow> c < length parents \<and> (\<forall>i \<in> set path. (i, c) \<in> (index_rel parents)\<^sup>+)) \<and>
     (pred_option (cycle_free parents) current \<longrightarrow> (\<forall>i \<in> set path. cycle_free parents i))"

definition parents_ok :: "nat option list \<Rightarrow> bool" where
  "parents_ok parents \<longleftrightarrow> (\<forall>i < length parents. \<forall>j. parents ! i = Some j \<longrightarrow> j < length parents)"

lemma walk_ok_step:
  assumes "walk_ok parents colours path (Some i)" "colours ! i = 0" "parents_ok parents"
  shows "walk_ok parents (colours[i := 1]) (path @ [i]) (parents ! i)"
proof -
  have i: "i < length parents" using assms(1) by (simp add: walk_ok_def)
  then have len: "i < length colours" using assms(1) by (simp add: walk_ok_def)
  have free: "cycle_free parents i" if "pred_option (cycle_free parents) (parents ! i)"
    using i by (rule cycle_free_step) (use that in auto)
  have reach: "(k, c) \<in> (index_rel parents)\<^sup>+" if "parents ! i = Some c" "k \<in> set (path @ [i])" for k c
  proof -
    have "(i, c) \<in> index_rel parents" using that(1) i by (simp add: index_rel_def)
    moreover have "k = i \<or> (k, i) \<in> (index_rel parents)\<^sup>+" using that(2) assms(1) by (auto simp: walk_ok_def)
    ultimately show ?thesis by (metis r_into_trancl trancl_into_trancl)
  qed
  have colours: "colours[i := 1] ! k = (if k = i then 1 else colours ! k)" for k using len by (simp add: nth_list_update)
  have old: "\<forall>k < length parents. colours ! k = 1 \<longleftrightarrow> k \<in> set path" "\<forall>k < length parents. colours ! k \<le> 2"
    "\<forall>k < length parents. colours ! k = 2 \<longrightarrow> cycle_free parents k" "\<forall>k \<in> set path. k < length parents"
    using assms(1) unfolding walk_ok_def by blast+
  show ?thesis
    unfolding walk_ok_def colours
  proof (intro conjI)
    show "length (colours[i := 1]) = length parents" using assms(1) by (simp add: walk_ok_def)
    show "\<forall>k < length parents. (if k = i then 1 else colours ! k) \<le> 2" using old(2) by simp
    show "\<forall>k < length parents. (if k = i then 1 else colours ! k) = 1 \<longleftrightarrow> k \<in> set (path @ [i])" using old(1) by simp
    show "\<forall>k \<in> set (path @ [i]). k < length parents" using old(4) i by simp
    show "\<forall>k < length parents. (if k = i then 1 else colours ! k) = 2 \<longrightarrow> cycle_free parents k" using old(3) by simp
    show "\<forall>c. parents ! i = Some c \<longrightarrow> c < length parents \<and> (\<forall>k \<in> set (path @ [i]). (k, c) \<in> (index_rel parents)\<^sup>+)"
      using reach assms(3) i by (simp add: parents_ok_def)
    show "pred_option (cycle_free parents) (parents ! i) \<longrightarrow> (\<forall>k \<in> set (path @ [i]). cycle_free parents k)"
      using assms(1) free by (auto simp: walk_ok_def)
  qed
qed

lemma colour_walk_ok:
  assumes "walk_ok parents colours path current" "parents_ok parents"
  shows "(colour_walk parents colours path current = Some (Inl TopologyCycle) \<and> \<not> acyclic (index_rel parents)) \<or>
    (\<exists>colours' path'. colour_walk parents colours path current = Some (Inr (colours', path')) \<and>
      walk_ok parents colours' path' None \<and> set path \<subseteq> set path' \<and> (\<forall>c. current = Some c \<longrightarrow> colours' ! c \<noteq> 0) \<and>
      (\<forall>i < length parents. colours ! i = 2 \<longrightarrow> colours' ! i = 2))"
  using assms
proof (induction parents colours path current rule: colour_walk.induct)
  case (1 parents colours path)
  then show ?case by simp
next
  case (2 parents colours path index)
  have i: "index < length colours" "index < length parents" "colours ! index \<le> 2"
    using 2(2) by (auto simp: walk_ok_def)
  from i(3) consider "colours ! index = 0" | "colours ! index = 1" | "colours ! index = 2" by linarith
  then show ?case
  proof cases
    case 1
    then have run: "colour_walk parents colours path (Some index) =
        colour_walk parents (colours[index := 1]) (path @ [index]) (parents ! index)" using i by simp
    have IH: "(colour_walk parents (colours[index := 1]) (path @ [index]) (parents ! index) = Some (Inl TopologyCycle) \<and>
        \<not> acyclic (index_rel parents)) \<or>
      (\<exists>colours' path'. colour_walk parents (colours[index := 1]) (path @ [index]) (parents ! index) = Some (Inr (colours', path')) \<and>
        walk_ok parents colours' path' None \<and> set (path @ [index]) \<subseteq> set path' \<and>
        (\<forall>c. parents ! index = Some c \<longrightarrow> colours' ! c \<noteq> 0) \<and>
        (\<forall>i < length parents. colours[index := 1] ! i = 2 \<longrightarrow> colours' ! i = 2))"
      using 2(1)[OF conjI[OF i(1,2)] 1 walk_ok_step[OF 2(2) 1 2(3)] 2(3)] .
    have kept: "colours[index := 1] ! j = 2" if "j < length parents" "colours ! j = 2" for j
      using that 1 i by (cases "j = index") auto
    have "colours' ! index \<noteq> 0" if "walk_ok parents colours' path' None" "index \<in> set path'" for colours' path'
      using that i by (auto simp: walk_ok_def)
    with IH kept show ?thesis unfolding run by (auto; blast)
  next
    case 2
    then have "index \<in> set path" using \<open>walk_ok parents colours path (Some index)\<close> i by (auto simp: walk_ok_def)
    then have "(index, index) \<in> (index_rel parents)\<^sup>+" using \<open>walk_ok parents colours path (Some index)\<close> by (auto simp: walk_ok_def)
    then show ?thesis using 2 i by (auto simp: acyclic_def)
  next
    case 3
    then have "walk_ok parents colours path None"
      using \<open>walk_ok parents colours path (Some index)\<close> i by (auto simp: walk_ok_def)
    then show ?thesis using 3 i by auto
  qed
qed

lemma finish_path:
  "length (foldl (\<lambda>cs index. cs[index := x]) cs path) = length cs"
  "k < length cs \<Longrightarrow> foldl (\<lambda>cs index. cs[index := x]) cs path ! k = (if k \<in> set path then x else cs ! k)"
  by (induction path arbitrary: cs) (auto simp: nth_list_update)

lemma finish_walk:
  assumes "walk_ok parents colours path None"
  shows "walk_ok parents (foldl (\<lambda>cs index. cs[index := 2]) colours path) [] None"
  using assms by (auto simp: walk_ok_def finish_path)

lemma colour_all_exact:
  assumes "parents_ok parents" "walk_ok parents colours [] None" "\<forall>s \<in> set starts. s < length parents"
    "\<forall>i < length parents. i \<in> set starts \<or> colours ! i = 2"
  shows "colour_all parents starts colours = Some (if acyclic (index_rel parents) then Inr () else Inl TopologyCycle)"
  using assms(2-4)
proof (induction starts arbitrary: colours)
  case Nil
  then have "acyclic (index_rel parents)" by (intro all_cycle_free) (auto simp: walk_ok_def)
  then show ?case by simp
next
  case (Cons start starts)
  show ?case
  proof (cases "colours ! start = 2")
    case True
    then have "\<forall>i < length parents. i \<in> set starts \<or> colours ! i = 2" using Cons.prems(3) by auto
    then show ?thesis using Cons.IH[OF Cons.prems(1)] Cons.prems(2) True by simp
  next
    case False
    have "walk_ok parents colours [] (Some start)" using Cons.prems(1,2) by (simp add: walk_ok_def)
    from colour_walk_ok[OF this assms(1)] show ?thesis
    proof (elim disjE exE conjE)
      fix colours' path'
      assume run: "colour_walk parents colours [] (Some start) = Some (Inr (colours', path'))"
        and ok: "walk_ok parents colours' path' None" "\<forall>c. Some start = Some c \<longrightarrow> colours' ! c \<noteq> 0"
        and kept: "\<forall>i < length parents. colours ! i = 2 \<longrightarrow> colours' ! i = 2"
      let ?done = "foldl (\<lambda>cs index. cs[index := 2]) colours' path'"
      have len: "length colours' = length parents" using ok(1) by (simp add: walk_ok_def)
      have "start < length parents" using Cons.prems(2) by simp
      then have "colours' ! start \<le> 2" "colours' ! start = 1 \<longleftrightarrow> start \<in> set path'" using ok(1) by (simp_all add: walk_ok_def)
      moreover have "colours' ! start \<noteq> 0" using ok(2) by simp
      ultimately have "start \<in> set path' \<or> colours' ! start = 2" by linarith
      then have "\<forall>i < length parents. i \<in> set starts \<or> ?done ! i = 2"
        using Cons.prems(3) kept len by (auto simp: finish_path)
      then show ?thesis using Cons.IH[OF finish_walk[OF ok(1)]] Cons.prems(2) False run by simp
    qed (use False in simp)
  qed
qed

section \<open>Ids and indices\<close>

text \<open>The parent relation between the selected threads; an edge to another thread does not count.\<close>

definition topology_rel :: "ThreadTopologyNode list \<Rightarrow> (rstr \<times> rstr) set" where
  "topology_rel nodes = {(c, p). \<exists>node \<in> set nodes. tn_id node = c \<and> tn_parent_thread_id node = Some p \<and> p \<in> tn_id ` set nodes}"

lemma acyclic_image:
  assumes "inj_on f (Field R)"
  shows "acyclic ((\<lambda>(x, y). (f x, f y)) ` R) \<longleftrightarrow> acyclic R"
proof -
  let ?S = "(\<lambda>(x, y). (f x, f y)) ` R"
  have field: "x \<in> Field R \<and> y \<in> Field R" if "(x, y) \<in> R\<^sup>+" for x y
    using that by (induction rule: trancl_induct) (auto simp: Field_def)
  have down: "\<exists>x y. (x, y) \<in> R\<^sup>+ \<and> a = f x \<and> b = f y" if "(a, b) \<in> ?S\<^sup>+" for a b
    using that
  proof (induction rule: trancl_induct)
    case (step y z)
    then obtain x y' w z' where "(x, y') \<in> R\<^sup>+" "a = f x" "y = f y'" "(w, z') \<in> R" "y = f w" "z = f z'" by auto
    moreover from this have "y' = w" using assms field by (metis FieldI1 inj_onD)
    ultimately show ?case by (metis trancl_into_trancl)
  qed (auto intro: r_into_trancl)
  have up: "(f x, f y) \<in> ?S\<^sup>+" if "(x, y) \<in> R\<^sup>+" for x y
    using that
  proof (induction rule: trancl_induct)
    case (step y z)
    then have "(f y, f z) \<in> ?S" by (metis (no_types, lifting) case_prod_conv image_eqI)
    with step.IH show ?case by (rule trancl_into_trancl)
  qed (metis (no_types, lifting) case_prod_conv image_eqI r_into_trancl)
  show ?thesis
  proof
    assume "acyclic ?S" then show "acyclic R" using up by (auto simp: acyclic_def)
  next
    assume R: "acyclic R"
    show "acyclic ?S"
      unfolding acyclic_def
    proof (intro allI notI)
      fix a assume "(a, a) \<in> ?S\<^sup>+"
      then obtain x y where "(x, y) \<in> R\<^sup>+" "f x = f y" using down by metis
      then have "(x, x) \<in> R\<^sup>+" using field assms by (metis inj_onD)
      then show False using R by (simp add: acyclic_def)
    qed
  qed
qed

lemma fill_indices_debug:
  assumes "distinct (map tn_id nodes)" "\<forall>node \<in> set nodes. indices (tn_id node) = None"
  shows "\<exists>filled. fill_indices True index nodes indices = Some filled \<and>
    (\<forall>j < length nodes. filled (tn_id (nodes ! j)) = Some (index + j)) \<and>
    (\<forall>k. k \<notin> tn_id ` set nodes \<longrightarrow> filled k = indices k)"
  using assms
proof (induction nodes arbitrary: index indices)
  case (Cons node nodes)
  let ?indices = "indices(tn_id node \<mapsto> index)"
  have "\<forall>n \<in> set nodes. ?indices (tn_id n) = None" using Cons.prems by (auto simp: image_iff)
  then obtain filled where f: "fill_indices True (Suc index) nodes ?indices = Some filled"
    "\<forall>j < length nodes. filled (tn_id (nodes ! j)) = Some (Suc index + j)"
    "\<forall>k. k \<notin> tn_id ` set nodes \<longrightarrow> filled k = ?indices k"
    using Cons.IH[of ?indices "Suc index"] Cons.prems(1) unfolding distinct.simps list.map by blast
  have "fill_indices True index (node # nodes) indices = Some filled" using f(1) Cons.prems(2) by simp
  moreover have "filled (tn_id ((node # nodes) ! j)) = Some (index + j)" if "j < length (node # nodes)" for j
    using that f(2,3) Cons.prems(1) by (cases j) auto
  moreover have "filled k = indices k" if "k \<notin> tn_id ` set (node # nodes)" for k
    using that f(3) by auto
  ultimately show ?case by blast
qed simp

lemma fill_indices_release: "fill_indices False index nodes indices = Some indices"
  by (induction nodes arbitrary: index) auto

lemma index_rel_image:
  assumes "distinct (map tn_id nodes)" "\<forall>j < length nodes. indices (tn_id (nodes ! j)) = Some j"
    "\<forall>k. k \<notin> tn_id ` set nodes \<longrightarrow> indices k = None"
  shows "topology_rel nodes = (\<lambda>(x, y). (tn_id (nodes ! x), tn_id (nodes ! y))) ` index_rel (parent_indices_of indices nodes)"
    "parents_ok (parent_indices_of indices nodes)"
proof -
  have lookup: "indices p = Some j \<longleftrightarrow> j < length nodes \<and> tn_id (nodes ! j) = p" for p j
  proof
    assume p: "indices p = Some j"
    then have "p \<in> tn_id ` set nodes" using assms(3) by fastforce
    then obtain k where "k < length nodes" "tn_id (nodes ! k) = p" by (auto simp: in_set_conv_nth)
    then show "j < length nodes \<and> tn_id (nodes ! j) = p" using assms(2) p by auto
  qed (use assms(2) in auto)
  have edge: "(i, j) \<in> index_rel (parent_indices_of indices nodes) \<longleftrightarrow> i < length nodes \<and> j < length nodes \<and>
      tn_parent_thread_id (nodes ! i) = Some (tn_id (nodes ! j))" for i j
    by (auto simp: index_rel_def parent_indices_of_def bind_eq_Some_conv lookup)
  show "parents_ok (parent_indices_of indices nodes)"
    by (auto simp: parents_ok_def parent_indices_of_def bind_eq_Some_conv lookup)
  show "topology_rel nodes = (\<lambda>(x, y). (tn_id (nodes ! x), tn_id (nodes ! y))) ` index_rel (parent_indices_of indices nodes)"
  proof (intro set_eqI iffI)
    fix e assume "e \<in> topology_rel nodes"
    then obtain i j where "i < length nodes" "j < length nodes" "e = (tn_id (nodes ! i), tn_id (nodes ! j))"
      "tn_parent_thread_id (nodes ! i) = Some (tn_id (nodes ! j))"
      by (auto simp: topology_rel_def in_set_conv_nth)
    then show "e \<in> (\<lambda>(x, y). (tn_id (nodes ! x), tn_id (nodes ! y))) ` index_rel (parent_indices_of indices nodes)"
      using edge by (intro image_eqI[of _ _ "(i, j)"]) auto
  qed (auto simp: topology_rel_def edge)
qed

lemma topology_debug:
  assumes "distinct (map tn_id nodes)"
  shows "validate_selected_thread_topology True nodes =
    Some (if acyclic (topology_rel nodes) then Inr () else Inl TopologyCycle)"
proof -
  obtain indices where filled: "fill_indices True 0 nodes Map.empty = Some indices"
    "\<forall>j < length nodes. indices (tn_id (nodes ! j)) = Some j" "\<forall>k. k \<notin> tn_id ` set nodes \<longrightarrow> indices k = None"
    using fill_indices_debug[OF assms, of Map.empty 0] by auto
  let ?parents = "parent_indices_of indices nodes"
  have len: "length ?parents = length nodes" by (simp add: parent_indices_of_def)
  note image = index_rel_image[OF assms filled(2,3)]
  have "Field (index_rel ?parents) \<subseteq> {..<length nodes}"
    using image(2) len by (auto simp: Field_def index_rel_def parents_ok_def)
  moreover have "inj_on (\<lambda>i. tn_id (nodes ! i)) {..<length nodes}"
    using assms by (auto simp: inj_on_def distinct_conv_nth)
  ultimately have "acyclic (topology_rel nodes) \<longleftrightarrow> acyclic (index_rel ?parents)"
    unfolding image(1) by (intro acyclic_image) (rule inj_on_subset)
  moreover have "colour_all ?parents [0..<length nodes] (replicate (length nodes) 0) =
      Some (if acyclic (index_rel ?parents) then Inr () else Inl TopologyCycle)"
    by (rule colour_all_exact) (auto simp: image(2) walk_ok_def len)
  ultimately show ?thesis by (simp add: validate_selected_thread_topology_def filled(1))
qed

lemma topology_release:
  "validate_selected_thread_topology False nodes = Some (Inr ())"
proof -
  let ?parents = "parent_indices_of Map.empty nodes"
  have none: "?parents ! i = None" if "i < length nodes" for i
    using that by (auto simp: parent_indices_of_def split: Option.bind_splits)
  then have "index_rel ?parents = {}" by (auto simp: index_rel_def parent_indices_of_def)
  moreover have "colour_all ?parents [0..<length nodes] (replicate (length nodes) 0) =
      Some (if acyclic (index_rel ?parents) then Inr () else Inl TopologyCycle)"
    using none by (intro colour_all_exact) (auto simp: parents_ok_def walk_ok_def parent_indices_of_def)
  ultimately show ?thesis by (simp add: validate_selected_thread_topology_def fill_indices_release acyclic_def)
qed

lemma topology_accepts:
  assumes "distinct (map tn_id nodes)" "acyclic (topology_rel nodes)"
  shows "validate_selected_thread_topology debug nodes = Some (Inr ())"
  using topology_debug[OF assms(1)] topology_release assms(2) by (cases debug) simp_all

section \<open>Properties\<close>

text \<open>
  C11. The topology test, in builds with debug assertions: for threads with different ids it reports a
  cycle exactly when the parents among them form one, and it always returns.
\<close>

theorem topology_exact_in_debug:
  assumes "distinct (map tn_id nodes)"
  shows "validate_selected_thread_topology True nodes =
    Some (if acyclic (topology_rel nodes) then Inr () else Inl TopologyCycle)"
  using assms by (rule topology_debug)

definition sample_nodes :: "ThreadTopologyNode list" where
  "sample_nodes = [\<lparr>tn_id = [97], tn_parent_thread_id = Some [98]\<rparr>, \<lparr>tn_id = [98], tn_parent_thread_id = Some [97]\<rparr>]"

lemma sample_nodes_cyclic: "\<not> acyclic (topology_rel sample_nodes)"
proof -
  have "([97], [98]) \<in> topology_rel sample_nodes" "([98], [97]) \<in> topology_rel sample_nodes"
    by (simp_all add: topology_rel_def sample_nodes_def)
  then show ?thesis unfolding acyclic_def by (meson trancl.simps)
qed

theorem topology_exact_in_debug_witness:
  "validate_selected_thread_topology True sample_nodes = Some (Inl TopologyCycle)"
  using topology_exact_in_debug[of sample_nodes] sample_nodes_cyclic by (simp add: sample_nodes_def)

text \<open>
  C12. The topology test, in builds without debug assertions: the indices are never filled, so that
  every thread looks like a root and no cycle is ever reported, whatever the threads.
\<close>

theorem topology_never_rejects_in_release:
  "validate_selected_thread_topology False nodes = Some (Inr ())"
  by (rule topology_release)

end
