(* ===== verification/Thread_Selection.thy ===== *)
theory Thread_Selection
  imports Thread_Cycle Thread_Topology
begin

text \<open>
  The selection of the threads that are shown (\<open>select_active_threads_parsed_where\<close> of
  \<open>src/thread_contract.rs\<close>).
\<close>

section \<open>Selection\<close>

record ThreadSnapshot =
  as_thread_id :: rstr
  as_created_at :: i64
  as_updated_at :: i64
  as_title :: rstr
  as_activity_status :: ThreadActivityStatus
  as_model :: rstr
  as_model_label :: rstr
  as_total_tokens :: "u64 option"
  as_context_usage_tokens :: "u64 option"
  as_context_window_tokens :: "u64 option"
  as_last_user_message_at :: "i64 option"
  as_is_subagent :: bool
  as_parent_thread_id :: "rstr option"
  as_depth :: "int option"

datatype ThreadCycleOutcome = Snapshots "ThreadSnapshot list" | NoThread | CycleError

definition activity_status :: "ThreadReadStatus \<Rightarrow> bool option \<Rightarrow> ThreadActivityStatus" where
  "activity_status status last_task_running =
     (case status of
        StatusActive \<Rightarrow> ThreadRunning
      | StatusIdle \<Rightarrow> ThreadStopped
      | StatusNotLoaded \<Rightarrow>
          (case last_task_running of Some True \<Rightarrow> ThreadRunning | Some False \<Rightarrow> ThreadStopped | None \<Rightarrow> ThreadUnknown)
      | StatusSystemError \<Rightarrow> ThreadUnknown)"

definition snapshot_of :: "ValidatedThreadCandidate \<Rightarrow> ValidatedRollout \<Rightarrow> ThreadSnapshot" where
  "snapshot_of candidate rollout =
     \<lparr>as_thread_id = tc_id candidate, as_created_at = tc_created_at candidate, as_updated_at = tc_updated_at candidate,
      as_title = tc_title candidate,
      as_activity_status = activity_status (tc_status candidate) (vr_last_task_running rollout),
      as_model = vr_model rollout, as_model_label = vr_model_label rollout, as_total_tokens = vr_total_tokens rollout,
      as_context_usage_tokens = vr_context_usage_tokens rollout,
      as_context_window_tokens = vr_context_window_tokens rollout,
      as_last_user_message_at = vr_last_user_message_at rollout, as_is_subagent = tc_is_subagent candidate,
      as_parent_thread_id = tc_parent_thread_id candidate, as_depth = tc_depth candidate\<rparr>"

text \<open>The loop over the candidates: the failure flag and the snapshots.\<close>

primrec read_candidates ::
  "(ValidatedThreadCandidate \<Rightarrow> bool) \<Rightarrow> (ValidatedThreadCandidate \<Rightarrow> 'e + ValidatedRollout) \<Rightarrow>
   ValidatedThreadCandidate list \<Rightarrow> bool \<Rightarrow> ThreadSnapshot list \<Rightarrow> bool \<times> ThreadSnapshot list" where
  "read_candidates is_current read_rollout [] failed snapshots = (failed, snapshots)"
| "read_candidates is_current read_rollout (candidate # candidates) failed snapshots =
     (if \<not> is_current candidate then read_candidates is_current read_rollout candidates failed snapshots
      else if tc_path candidate = None then read_candidates is_current read_rollout candidates True snapshots
      else (case read_rollout candidate of
          Inl _ \<Rightarrow> read_candidates is_current read_rollout candidates True snapshots
        | Inr rollout \<Rightarrow>
            read_candidates is_current read_rollout candidates failed (snapshots @ [snapshot_of candidate rollout])))"

definition orphan_ids :: "ThreadSnapshot list \<Rightarrow> rstr set" where
  "orphan_ids snapshots =
     set (map as_thread_id (filter (\<lambda>s. case as_parent_thread_id s of
         None \<Rightarrow> False
       | Some parent_id \<Rightarrow> parent_id \<noteq> [] \<and> parent_id \<notin> set (map as_thread_id snapshots)) snapshots))"

definition topology_of :: "ThreadSnapshot list \<Rightarrow> ThreadTopologyNode list" where
  "topology_of snapshots = map (\<lambda>s. \<lparr>tn_id = as_thread_id s, tn_parent_thread_id = as_parent_thread_id s\<rparr>) snapshots"

definition stopped_ids :: "ThreadSnapshot list \<Rightarrow> rstr set" where
  "stopped_ids snapshots = set (map as_thread_id (filter (\<lambda>s. as_activity_status s = ThreadStopped) snapshots))"

definition stopped_exclusions :: "ThreadSnapshot list \<Rightarrow> rstr set" where
  "stopped_exclusions snapshots =
     set (map as_thread_id (filter (\<lambda>s. case as_parent_thread_id s of
         None \<Rightarrow> as_activity_status s = ThreadStopped
       | Some parent_id \<Rightarrow> parent_id \<in> stopped_ids snapshots) snapshots))"

definition excluded_children :: "ThreadSnapshot list \<Rightarrow> rstr set \<Rightarrow> rstr list" where
  "excluded_children snapshots excluded =
     map as_thread_id (filter (\<lambda>s. case as_parent_thread_id s of
         None \<Rightarrow> False
       | Some parent_id \<Rightarrow> parent_id \<in> excluded \<and> as_thread_id s \<notin> excluded) snapshots)"

function exclude_descendants :: "ThreadSnapshot list \<Rightarrow> rstr set \<Rightarrow> rstr set" where
  "exclude_descendants snapshots excluded =
     (if excluded_children snapshots excluded = [] then excluded
      else exclude_descendants snapshots (excluded \<union> set (excluded_children snapshots excluded)))"
  by pat_completeness auto
termination
proof (relation "measure (\<lambda>(snapshots, excluded). card (set (map as_thread_id snapshots) - excluded))")
  fix snapshots excluded
  assume ne: "excluded_children snapshots excluded \<noteq> []"
  have sub: "set (excluded_children snapshots excluded) \<subseteq> set (map as_thread_id snapshots) - excluded"
    by (auto simp: excluded_children_def split: option.splits)
  then have "set (map as_thread_id snapshots) - (excluded \<union> set (excluded_children snapshots excluded))
      \<subset> set (map as_thread_id snapshots) - excluded"
    using ne by (cases "excluded_children snapshots excluded") auto
  then show "((snapshots, excluded \<union> set (excluded_children snapshots excluded)), (snapshots, excluded))
      \<in> measure (\<lambda>(snapshots, excluded). card (set (map as_thread_id snapshots) - excluded))"
    by (simp add: psubset_card_mono)
qed simp

declare exclude_descendants.simps [simp del]

definition select_active_threads_parsed_where ::
  "bool \<Rightarrow> ThreadCycleAccumulator \<Rightarrow> (ValidatedThreadCandidate \<Rightarrow> bool) \<Rightarrow>
   (ValidatedThreadCandidate \<Rightarrow> 'e + ValidatedRollout) \<Rightarrow> ThreadCycleOutcome option" where
  "select_active_threads_parsed_where debug acc is_current read_rollout =
     (case ordered_candidates acc of
        Inl _ \<Rightarrow> Some CycleError
      | Inr candidates \<Rightarrow>
          (case read_candidates is_current read_rollout candidates (ac_rejected_count acc > 0) [] of
             (failed, snapshots) \<Rightarrow>
               if failed then Some CycleError
               else map_option (\<lambda>topology.
                 let excluded = orphan_ids snapshots \<union> (if is_ok topology then stopped_exclusions snapshots else {});
                     excluded = exclude_descendants snapshots excluded;
                     snapshots = filter (\<lambda>s. as_thread_id s \<notin> excluded) snapshots
                 in if snapshots = [] then NoThread else Snapshots snapshots)
               (validate_selected_thread_topology debug (topology_of snapshots))))"

definition select_active_threads_where ::
  "bool \<Rightarrow> (rstr \<Rightarrow> i64 option) \<Rightarrow> (u8 list \<Rightarrow> u8 list) \<Rightarrow> ThreadCycleAccumulator \<Rightarrow>
   (ValidatedThreadCandidate \<Rightarrow> bool) \<Rightarrow> (ValidatedThreadCandidate \<Rightarrow> 'e + u8 list) \<Rightarrow> ThreadCycleOutcome option" where
  "select_active_threads_where debug rfc3339 sha256 acc is_current read_rollout =
     select_active_threads_parsed_where debug acc is_current (\<lambda>candidate.
       try_res (map_err () (read_rollout candidate)) (\<lambda>bytes.
         case parse_rollout rfc3339 sha256 bytes of Some (Inr rollout) \<Rightarrow> Inr rollout | _ \<Rightarrow> Inl ()))"

definition select_active_threads ::
  "bool \<Rightarrow> (rstr \<Rightarrow> i64 option) \<Rightarrow> (u8 list \<Rightarrow> u8 list) \<Rightarrow> ThreadCycleAccumulator \<Rightarrow>
   (ValidatedThreadCandidate \<Rightarrow> 'e + u8 list) \<Rightarrow> ThreadCycleOutcome option" where
  "select_active_threads debug rfc3339 sha256 acc read_rollout = select_active_threads_where debug rfc3339 sha256 acc (\<lambda>_. True) read_rollout"

section \<open>Reading the candidates\<close>





section \<open>Exclusion\<close>





section \<open>The threads that are shown\<close>













section \<open>The selection of a cycle\<close>







end
