(* ===== verification/Spec2Isabelle.thy ===== *)
theory Spec2Isabelle
  imports Recorded_Usage Accounts_Contract Details_Contract Period_Timeline Thread_Graph Session_Bytes
    Protocol_Contract Rollout Schema_Meaning Thread_Selection
begin

text \<open>
  Verification of codex-info, a recorder of the token usage of a coding assistant.

  \<^bold>\<open>The program.\<close> The assistant appends one JSON line after another to session files. The recorder
  (\<open>crates/codex-info-recorder\<close>) scans the new bytes of every file in cycles, turns cumulative token
  counters into usage events and hands them, with a checkpoint and the evidence for each event, to
  the writer (\<open>crates/codex-info-db-writer\<close>), which checks everything again before it stores it. Quota
  receipts assign every second of an account to a quota period. The reader and the REST server
  publish the stored rows through the types of \<open>crates/codex-info-rest-contract\<close>; the terminal client
  (\<open>src/\<close>) reads them, and the thread inventory of the assistant itself.

  \<^bold>\<open>Conventions.\<close> Machine integers are words (\<open>u8\<close>, \<open>u64\<close>, \<open>u128\<close>) or, for \<open>i64\<close>, integers with the
  overflow of each checked or saturating operation written out. A string is a list of Unicode
  scalars (\<open>rstr\<close>). A \<open>Result\<close> is a sum with the error on the left; \<open>try_res\<close> is the operator \<open>?\<close>. A
  \<open>BTreeMap\<close> is its sorted association list. Code that is not part of the repository is an argument:
  the digest \<open>sha256\<close>, the parser of RFC 3339 times, the JSON codec of a stored value or message, SQLite.

  \<^bold>\<open>The shared theories.\<close> \<open>Prelude\<close> holds the types, the lemmas on lists, options, results and words and
  the collections used by the proofs. \<open>Interfaces\<close> states the contracts several components share as
  locales (streaming builders, sums that may fail, loops that reject conflicting items); each
  component that provides one interprets it on its own definitions.

  \<^bold>\<open>Numbers and names\<close> (\<open>rest-contract\<close>). \<open>Token_Facts\<close>: \<open>token_facts.rs\<close>, validation, differences and
  sums of partly known counters; its theorems say which facts are accepted, that differences are
  exact and telescope, and that sums do not depend on the order. \<open>Model_Names\<close>: \<open>model_names.rs\<close>; the
  streaming builder agrees with the direct normalisation. \<open>Recorded_Usage\<close>: \<open>recorded_usage.rs\<close>; the
  difference of two persisted prefixes is the sum of the facts between them, and an accepted local
  report partitions its range. \<open>F64\<close> models the few facts about floating point numbers the contract
  relies on.

  \<^bold>\<open>Public payloads\<close> (\<open>rest-contract/src/lib.rs\<close>). \<open>Contract_Base\<close>, \<open>Runtime_Contract\<close>,
  \<open>Accounts_Contract\<close>, \<open>Details_Contract\<close>: each accepted payload has the structure the client relies on
  (unique identities, ordered samples, disjoint gaps, one owner for every instant), and the
  projections between the versions of a payload lose or invent nothing.

  \<^bold>\<open>Periods\<close> (\<open>db-writer/src/period_attribution.rs\<close>). \<open>Period_Attribution\<close> builds the timeline of an
  account from receipts, \<open>Period_Timeline\<close> proves that every attribution is supported by a receipt and
  contradicted by none, that clock reversals attribute nothing, that lookup finds the right span
  and that the reported changes are complete.

  \<^bold>\<open>Sessions.\<close> \<open>Source_Admission\<close>, \<open>Response_Classification\<close>, \<open>Event_Admission\<close>, \<open>Model_Totals\<close>,
  \<open>Store_Values\<close> and \<open>Session_Checkpoint\<close> model what the writer accepts (\<open>source_admission.rs\<close>,
  \<open>event_admission.rs\<close> and the validators of \<open>lib.rs\<close>). \<open>Session_Record\<close> models the summary of a parsed
  line and the attribution of a stretch of a file to a model, \<open>Session_Parser\<close> the streaming parser
  that builds the summary from the bytes (\<open>src/session_input.rs\<close>): the state of \<open>SessionRecordInput\<close> is
  passed explicitly and every error keeps the state it was raised in. \<open>Parser_Framing\<close> proves that
  every parser stops inside its line and counts its bytes, \<open>Parser_Lines\<close> that neither more fuel nor
  the bytes after the line change a result, \<open>Parser_Summary\<close> what a summary may hold.
  \<open>Recorder_Totals\<close>, \<open>Session_Scan\<close> and \<open>Scan_Cycle\<close> model \<open>scan_source_with_reader\<close> of the recorder: one
  definition for one stretch of the loop body, composed in the order of the code; the mutable
  variables of the function are the record \<open>scan_state\<close>. \<open>Scan_Admission\<close>, \<open>Scan_Invariant\<close> and
  \<open>Scan_Loop\<close> prove the invariant of the loop step by step, \<open>Scan_History\<close> closes it over every
  sequence of scans and account bindings of a file, and \<open>Scan_Properties\<close> draws the conclusions: the
  writer accepts every checkpoint and every event the recorder produces, events never overlap, the
  only error is an overflow of the totals, and every scan makes progress. \<open>Session_Bytes\<close> puts the
  parser under the scan: a scan of a file is a scan of its lines, it always ends, and for every
  history of a growing file the writer accepts the checkpoint, which stands behind a line feed.

  \<^bold>\<open>Client.\<close> \<open>Security\<close> (\<open>src/security.rs\<close>): bounded text and bounded records, independent of buffering.
  \<open>Civil_Date\<close> and \<open>Protocol_Contract\<close> (\<open>src/protocol_contract.rs\<close>, and \<open>interpret_official_quota\<close> of the
  recorder): the date arithmetic is the Gregorian calendar, every branch of the quota decoder is
  characterised, and recorder and client read the same quota from one message.
  \<open>Thread_State\<close> and \<open>Thread_Graph\<close> (\<open>src/thread_state.rs\<close>): the inventory of descendants is bounded,
  acyclic and rooted in its owners.

  \<^bold>\<open>The thread cycle\<close> (\<open>src/thread_contract.rs\<close>). \<open>Json_Schema\<close> models the validator of JSON values
  against the vendored schema, node by node and with its limits of depth (levels that are left) and
  work (a counter threaded through the checks); \<open>Schema_Meaning\<close> gives the schemas a meaning without
  order and limits and proves that the validator decides it. \<open>Thread_Contract\<close> models requests, the
  validation of an item and the accumulator of the pages of a cycle; \<open>Thread_Cycle\<close> proves its
  invariant, its limits, and that a cycle without rejections delivers the latest version of every
  listed thread. \<open>Thread_Topology\<close> models the test for cycles of parents, with a flag for builds with
  debug assertions: it is exact with them and never reports anything without them. \<open>Thread_Selection\<close>
  characterises the threads a cycle publishes. \<open>Rollout\<close> models the live reading of a session file
  over the parser of \<open>Session_Parser\<close>: reading a growing file in pieces gives what reading it at once
  gives, and what is shown is the last report of each kind.

  \<^bold>\<open>Loops and fuel.\<close> Loops over data are structural. The walk up the parent relation and the rounds
  of the inventory carry the bounds of the code itself (1024 threads, depth 64), so that no other
  fuel is needed; the walks of the topology test end because every step colours a node, the closure
  of the excluded threads because every round adds one. The loops and the recursion of the session
  parser take fuel; one more than the number of bytes left is enough, because every iteration takes
  a byte, and more fuel changes nothing.

  \<^bold>\<open>Not modelled.\<close> SQL statements and schema migrations, HTTP handling, processes, file locks and
  permissions, the serde codecs, translations and the user interface: they are input and output
  around the modelled core. A file is taken not to change while it is scanned; the checks by which
  the recorder abandons a scan of a file that did are left out.
\<close>

end
